(* ===== verification/Prelude.thy ===== *)
theory Prelude
  imports Main "HOL-Library.Word" "HOL-Library.AList"
begin

text \<open>
  Shared vocabulary of the development: the machine types of the Go sources, the
  wrap-around of Go's signed integers, Go maps as association lists with distinct keys
  (so that a range loop over a map is a fold over the list), and the generic lemmas the
  component theories use.
\<close>

unbundle bit_operations_syntax

text \<open>\<^verbatim>\<open>uint64\<close> keeps its width; \<^verbatim>\<open>time.Duration\<close> and \<^verbatim>\<open>int\<close> are mathematical integers, wrapped by
  \<open>i64\<close> where the sources do arithmetic on them.\<close>

type_synonym u64 = "64 word"
type_synonym go_int = int
type_synonym duration = int
type_synonym instant = int
type_synonym ('k, 'v) gomap = "('k \<times> 'v) list"

named_theorems go_simps \<open>rewriting of the Go run-time operations\<close>
named_theorems track_simps \<open>rewriting of the sequence tracker\<close>
named_theorems worker_defs \<open>definitions of the counter helpers of the workers\<close>

definition i64 :: "int \<Rightarrow> int" where
  "i64 x = (x + 2 ^ 63) mod 2 ^ 64 - 2 ^ 63"

definition i32 :: "int \<Rightarrow> int" where
  "i32 x = (x + 2 ^ 31) mod 2 ^ 32 - 2 ^ 31"

definition go_quot :: "int \<Rightarrow> int \<Rightarrow> int" where
  "go_quot a b = sgn a * sgn b * (\<bar>a\<bar> div \<bar>b\<bar>)"

lemma i64_id [go_simps]: "- (2 ^ 63) \<le> x \<Longrightarrow> x < 2 ^ 63 \<Longrightarrow> i64 x = x"
  by (simp add: i64_def)

lemma i32_id [go_simps]: "- (2 ^ 31) \<le> x \<Longrightarrow> x < 2 ^ 31 \<Longrightarrow> i32 x = x"
  by (simp add: i32_def)

lemma i64_range: "- (2 ^ 63) \<le> i64 x \<and> i64 x < 2 ^ 63"
proof -
  have "(0::int) \<le> (x + 2 ^ 63) mod 2 ^ 64" and "(x + 2 ^ 63) mod 2 ^ 64 < (2::int) ^ 64"
    by simp_all
  then show ?thesis by (simp add: i64_def)
qed

lemma go_quot_nonneg [go_simps]: "0 \<le> a \<Longrightarrow> 0 < b \<Longrightarrow> go_quot a b = a div b"
  by (cases "a = 0") (simp_all add: go_quot_def)

section \<open>Go maps\<close>

text \<open>A Go map is an association list with distinct keys; \<open>map_of\<close> is the lookup,
  \<open>AList.update\<close> the assignment and \<open>AList.delete\<close> the builtin delete.\<close>

definition wf_gomap :: "('k, 'v) gomap \<Rightarrow> bool" where
  "wf_gomap m \<longleftrightarrow> distinct (map fst m)"

lemma wf_gomap_Nil [simp]: "wf_gomap []"
  by (simp add: wf_gomap_def)

lemma wf_gomap_update [simp]: "wf_gomap m \<Longrightarrow> wf_gomap (AList.update k v m)"
  by (simp add: wf_gomap_def distinct_update)

lemma wf_gomap_delete [simp]: "wf_gomap m \<Longrightarrow> wf_gomap (AList.delete k m)"
  by (simp add: wf_gomap_def distinct_delete)

definition gomap_sum :: "('v \<Rightarrow> u64) \<Rightarrow> ('k, 'v) gomap \<Rightarrow> u64" where
  "gomap_sum f m = fold (\<lambda>kv total. total + f (snd kv)) m 0"

lemma fold_add_start:
  "fold (\<lambda>x total. total + f x) xs (a :: 'a :: comm_monoid_add)
   = a + fold (\<lambda>x total. total + f x) xs 0"
proof (induction xs arbitrary: a)
  case Nil
  then show ?case by simp
next
  case (Cons x xs)
  show ?case using Cons [of "a + f x"] Cons [of "f x"] by (simp add: add.assoc)
qed

lemma gomap_sum_Nil [simp]: "gomap_sum f [] = 0"
  by (simp add: gomap_sum_def)

lemma gomap_sum_Cons [simp]: "gomap_sum f (kv # m) = f (snd kv) + gomap_sum f m"
  using fold_add_start [of "\<lambda>kv. f (snd kv)" m "f (snd kv)"]
  by (simp add: gomap_sum_def)

lemma gomap_sum_sum_list: "gomap_sum f m = sum_list (map (f \<circ> snd) m)"
  by (induction m) simp_all

section \<open>Words\<close>

lemma unat_sub_le: "(b :: u64) \<le> a \<Longrightarrow> unat (a - b) = unat a - unat b"
  by (simp add: unat_sub_if_size word_le_nat_alt)

lemma unat_plus_small: "unat a + unat b < 2 ^ 64 \<Longrightarrow> unat (a + b :: u64) = unat a + unat b"
  by (simp add: unat_word_ariths)

lemma u64_eqI: "unat a = unat b \<Longrightarrow> a = (b :: u64)"
  by (simp add: word_unat_eq_iff)

lemma unat_of_nat_small: "n < 2 ^ 64 \<Longrightarrow> unat (of_nat n :: u64) = n"
  by (simp add: unat_of_nat)

lemma unat_of_int_small: "0 \<le> n \<Longrightarrow> n < 2 ^ 64 \<Longrightarrow> unat (word_of_int n :: u64) = nat n"
  by (simp add: unat_eq_nat_uint uint_word_of_int)

lemma unat_lt_64: "unat (a :: u64) < 2 ^ 64"
  using unsigned_less [of a] by simp

lemma sint_small: "unat (a :: u64) < 2 ^ 63 \<Longrightarrow> sint a = int (unat a)"
proof -
  assume "unat a < 2 ^ 63"
  then have "uint a < 2 ^ 63" by (metis of_nat_less_iff of_nat_numeral of_nat_power of_nat_unat)
  moreover have "- (2 ^ 63) \<le> (0 :: int)" and "0 \<le> uint a" by simp_all
  then have "- (2 ^ 63) \<le> uint a" by (rule order_trans)
  ultimately have "signed_take_bit 63 (uint a) = uint a" by (intro signed_take_bit_int_eq_self)
  then show ?thesis by (simp add: sint_uint)
qed

lemma xor_cancel_right [simp]: "(a XOR c = b XOR c) = (a = b)" for a b c :: "'a :: len word"
proof
  assume "a XOR c = b XOR c"
  then have "(a XOR c) XOR c = (b XOR c) XOR c" by (rule arg_cong)
  then show "a = b" by (simp add: xor.assoc)
qed simp

lemma xor_cancel_left [simp]: "(c XOR a = c XOR b) = (a = b)" for a b c :: "'a :: len word"
  using xor_cancel_right [of a c b] by (simp add: xor.commute)

section \<open>Lists\<close>

lemma fold_invariant_list:
  "P s \<Longrightarrow> (\<And>x s. x \<in> set xs \<Longrightarrow> P s \<Longrightarrow> P (f x s)) \<Longrightarrow> P (fold f xs s)"
  by (induction xs arbitrary: s) auto

end
