(* ===== verification/Bitset.thy ===== *)
theory Bitset
  imports Prelude
begin

text \<open>
  The bitset of \<^verbatim>\<open>src/burnin/tracker/tracker.go\<close>: a slice of \<^verbatim>\<open>uint64\<close> words read and
  written bit by bit and shifted down by one. The locale \<open>bit_window\<close> is the interface
  the tracker relies on; it is interpreted on the three functions of the source.
\<close>

section \<open>The functions of the source\<close>

definition setBit :: "u64 list \<Rightarrow> int \<Rightarrow> u64 list" where
  "setBit window pos =
     (if pos < 0 \<or> pos \<ge> int (length window) * 64 then window
      else window[nat (pos div 64) :=
             (window ! nat (pos div 64)) OR push_bit (nat (pos mod 64)) 1])"

definition getBit :: "u64 list \<Rightarrow> int \<Rightarrow> bool" where
  "getBit window pos =
     (if pos < 0 \<or> pos \<ge> int (length window) * 64 then False
      else (window ! nat (pos div 64)) AND push_bit (nat (pos mod 64)) 1 \<noteq> 0)"

fun shiftLeft :: "u64 list \<Rightarrow> u64 list" where
  "shiftLeft [] = []"
| "shiftLeft [x] = [drop_bit 1 x]"
| "shiftLeft (x # y # ys) = (drop_bit 1 x OR push_bit 63 (y AND 1)) # shiftLeft (y # ys)"

section \<open>The interface\<close>

locale bit_window =
  fixes put :: "'w \<Rightarrow> nat \<Rightarrow> 'w"
    and get :: "'w \<Rightarrow> nat \<Rightarrow> bool"
    and shift :: "'w \<Rightarrow> 'w"
    and cap :: "'w \<Rightarrow> nat"
  assumes get_out: "cap w \<le> i \<Longrightarrow> \<not> get w i"
    and put_out: "cap w \<le> i \<Longrightarrow> put w i = w"
    and get_put: "i < cap w \<Longrightarrow> get (put w i) j \<longleftrightarrow> j = i \<or> get w j"
    and cap_put: "cap (put w i) = cap w"
    and get_shift: "get (shift w) i \<longleftrightarrow> get w (Suc i)"
    and cap_shift: "cap (shift w) = cap w"
begin

text \<open>The set of offsets marked in a window, and what the operations do to it.\<close>

definition marks :: "'w \<Rightarrow> nat set" where
  "marks w = {i. get w i}"

lemma marks_bounded: "marks w \<subseteq> {..<cap w}"
  using get_out by (auto simp: marks_def not_le [symmetric])

lemma finite_marks: "finite (marks w)"
  using marks_bounded by (rule finite_subset) simp

lemma marks_put: "i < cap w \<Longrightarrow> marks (put w i) = insert i (marks w)"
  by (auto simp: marks_def get_put)

lemma marks_shift: "marks (shift w) = {i. Suc i \<in> marks w}"
  by (simp add: marks_def get_shift)

lemma Suc_marks_shift: "Suc ` marks (shift w) = marks w - {0}"
  unfolding marks_shift by (auto simp: image_iff) (metis not0_implies_Suc)

lemma card_marks_shift: "card (marks (shift w)) = card (marks w - {0})"
  using card_image [of Suc "marks (shift w)"] by (simp add: Suc_marks_shift)

lemma card_marks_shift_less: "get w 0 \<Longrightarrow> card (marks (shift w)) < card (marks w)"
  using card_Diff1_less [OF finite_marks, of 0 w]
  unfolding card_marks_shift by (simp add: marks_def)

lemma get_shifts: "get ((shift ^^ k) w) i \<longleftrightarrow> get w (i + k)"
  by (induction k arbitrary: i) (simp_all add: get_shift)

lemma cap_shifts: "cap ((shift ^^ k) w) = cap w"
  by (induction k) (simp_all add: cap_shift)

end

section \<open>The source's functions provide the interface\<close>

lemma bit_push_one_zero [go_simps]: "(x AND push_bit n 1 = 0) = (\<not> bit x n)" for x :: u64
proof -
  have "bit (x AND push_bit n 1) m \<longleftrightarrow> m = n \<and> bit x n" for m
    using bit_imp_le_length [of x n]
    by (auto simp: bit_and_iff bit_push_bit_iff bit_1_iff simp del: push_bit_of_1)
  then show ?thesis by (metis bit_0_eq bot_apply bot_bool_def bit_eq_iff)
qed

lemmas bit_word_simps = bit_or_iff bit_push_bit_iff bit_drop_bit_eq bit_and_iff bit_1_iff

lemma getBit_nat:
  "getBit w (int i) \<longleftrightarrow> i < length w * 64 \<and> bit (w ! (i div 64)) (i mod 64)"
proof -
  have "nat (int i div 64) = i div 64" and "nat (int i mod 64) = i mod 64"
    by (simp_all add: nat_div_distrib nat_mod_distrib)
  then show ?thesis
    by (auto simp: getBit_def bit_push_one_zero simp del: push_bit_of_1)
qed

lemma setBit_nat:
  "setBit w (int i) = (if i < length w * 64
     then w[i div 64 := (w ! (i div 64)) OR push_bit (i mod 64) 1] else w)"
proof -
  have "nat (int i div 64) = i div 64" and "nat (int i mod 64) = i mod 64"
    by (simp_all add: nat_div_distrib nat_mod_distrib)
  then show ?thesis
    by (auto simp: setBit_def)
qed

lemma length_setBit [simp]: "length (setBit w i) = length w"
  by (simp add: setBit_def)

lemma length_shiftLeft [simp]: "length (shiftLeft w) = length w"
  by (induction w rule: shiftLeft.induct) simp_all

lemma getBit_setBit:
  assumes "i < length w * 64"
  shows "getBit (setBit w (int i)) (int j) \<longleftrightarrow> j = i \<or> getBit w (int j)"
proof (cases "j div 64 = i div 64")
  case True
  have eq: "j = i \<longleftrightarrow> j mod 64 = i mod 64" using True by (metis div_mult_mod_eq)
  have len: "j < length w * 64" "i div 64 < length w"
    using assms True by (simp_all add: div_less_iff_less_mult [symmetric])
  show ?thesis
    using assms len True
    by (auto simp: getBit_nat setBit_nat bit_word_simps eq simp del: push_bit_of_1)
next
  case False
  then have "i \<noteq> j" by auto
  with False show ?thesis using assms by (auto simp: getBit_nat setBit_nat)
qed

lemma shiftLeft_nth:
  "k < length w \<Longrightarrow> shiftLeft w ! k =
     (if Suc k < length w then drop_bit 1 (w ! k) OR push_bit 63 (w ! Suc k AND 1)
      else drop_bit 1 (w ! k))"
proof (induction w arbitrary: k rule: shiftLeft.induct)
  case 1
  then show ?case by simp
next
  case (2 x)
  then show ?case by simp
next
  case (3 x y ys)
  then show ?case by (cases k) simp_all
qed

lemma getBit_shiftLeft: "getBit (shiftLeft w) (int i) \<longleftrightarrow> getBit w (int (Suc i))"
proof (cases "i div 64 < length w")
  case False
  then have "\<not> i < length w * 64" by (simp add: div_less_iff_less_mult)
  then show ?thesis by (simp add: getBit_nat del: of_nat_Suc)
next
  case True
  note k = True
  then have il: "i < length w * 64" by (simp add: div_less_iff_less_mult)
  show ?thesis
  proof (cases "i mod 64 = 63")
    case True
    then have S: "Suc i div 64 = Suc (i div 64)" "Suc i mod 64 = 0"
      by (simp_all add: div_Suc mod_Suc)
    have "Suc i < length w * 64 \<longleftrightarrow> Suc (i div 64) < length w"
      using S by (metis div_less_iff_less_mult zero_less_numeral)
    then show ?thesis
      using k il True S
      by (auto simp: getBit_nat shiftLeft_nth bit_word_simps simp del: of_nat_Suc
          dest: bit_imp_le_length)
  next
    case False
    then have S: "Suc i div 64 = i div 64" "Suc i mod 64 = Suc (i mod 64)"
      using mod_less_divisor [of 64 i] by (simp_all add: div_Suc mod_Suc)
    have "Suc i < length w * 64" using k S by (metis div_less_iff_less_mult zero_less_numeral)
    moreover have "i mod 64 < 63" using False mod_less_divisor [of 64 i] by linarith
    ultimately show ?thesis
      using k il S
      by (auto simp: getBit_nat shiftLeft_nth bit_word_simps simp del: of_nat_Suc)
  qed
qed

interpretation bw: bit_window "\<lambda>w i. setBit w (int i)" "\<lambda>w i. getBit w (int i)" shiftLeft
  "\<lambda>w. length w * 64"
proof unfold_locales
  fix w :: "u64 list" and i j :: nat
  show "length w * 64 \<le> i \<Longrightarrow> \<not> getBit w (int i)" by (simp add: getBit_nat)
  show "length w * 64 \<le> i \<Longrightarrow> setBit w (int i) = w" by (simp add: setBit_nat)
  show "i < length w * 64 \<Longrightarrow> getBit (setBit w (int i)) (int j) \<longleftrightarrow> j = i \<or> getBit w (int j)"
    by (rule getBit_setBit)
  show "length (setBit w (int i)) * 64 = length w * 64" by simp
  show "getBit (shiftLeft w) (int i) \<longleftrightarrow> getBit w (int (Suc i))" by (rule getBit_shiftLeft)
  show "length (shiftLeft w) * 64 = length w * 64" by simp
qed

end
