(* ===== verification/Tracker.thy ===== *)
theory Tracker
  imports Bitset
begin

text \<open>
  The sequence tracker of \<^verbatim>\<open>src/burnin/tracker/tracker.go\<close>: per-producer watermark, bitset
  window above the watermark, suspected losses below it, and the counters read at verdict
  time. Every method is a state-passing function; the mutex makes each one atomic, so a
  concurrent run is a sequence of these calls.
\<close>

section \<open>State\<close>

record producerState =
  highContiguous :: u64
  window :: "u64 list"
  received :: u64
  duplicates :: u64
  outOfOrder :: u64
  confirmedLost :: u64
  pendingLost :: "u64 set"
  lastReportedLost :: u64
  lastSeen :: u64

record ProducerStats =
  sReceived :: u64
  sDuplicates :: u64
  sOutOfOrder :: u64
  sConfirmedLost :: u64

record Tracker =
  reorderWindow :: int
  producers :: "(string, producerState) gomap"

definition New :: "int \<Rightarrow> Tracker" where
  "New w = \<lparr>reorderWindow = w, producers = []\<rparr>"

section \<open>Window movement\<close>

function advanceContiguous :: "producerState \<Rightarrow> producerState" where
  "advanceContiguous ps =
     (if getBit (window ps) 0
      then advanceContiguous (ps\<lparr>highContiguous := highContiguous ps + 1,
                                 window := shiftLeft (window ps)\<rparr>)
      else ps)"
  by pat_completeness auto
termination
proof (relation "measure (\<lambda>ps. card (bw.marks (window ps)))")
  fix ps :: producerState
  assume "getBit (window ps) 0"
  then show "(ps\<lparr>highContiguous := highContiguous ps + 1, window := shiftLeft (window ps)\<rparr>, ps)
      \<in> measure (\<lambda>ps. card (bw.marks (window ps)))"
    using bw.card_marks_shift_less [of "window ps"] by simp
qed simp

declare advanceContiguous.simps [simp del]

text \<open>The eviction loop of \<^verbatim>\<open>slideWindow\<close>: every unset bit of the first \<open>d\<close> offsets becomes
  a suspected loss.\<close>

definition evict :: "u64 \<Rightarrow> u64 list \<Rightarrow> nat \<Rightarrow> u64 set \<Rightarrow> u64 set" where
  "evict high w d p =
     fold (\<lambda>i p. if \<not> getBit w (int i) then insert (high + 1 + of_nat i) p else p) [0..<d] p"

definition slideWindow :: "int \<Rightarrow> producerState \<Rightarrow> u64 \<Rightarrow> producerState" where
  "slideWindow rw ps newSeq =
     (let newHigh = newSeq - word_of_int rw - 1 in
      if newHigh \<le> highContiguous ps then
        (let offset = newSeq - highContiguous ps - 1 in
         if sint offset < rw then ps\<lparr>window := setBit (window ps) (sint offset)\<rparr> else ps)
      else
        (let dist = newHigh - highContiguous ps;
             slideDist = (if dist > word_of_int rw then word_of_int rw else dist);
             pending = evict (highContiguous ps) (window ps) (unat slideDist) (pendingLost ps);
             ps1 = ps\<lparr>pendingLost := pending, confirmedLost := of_nat (card pending),
                      window := (shiftLeft ^^ unat slideDist) (window ps),
                      highContiguous := newHigh\<rparr>;
             offset = newSeq - highContiguous ps1 - 1;
             ps2 = (if sint offset < rw then ps1\<lparr>window := setBit (window ps1) (sint offset)\<rparr>
                    else ps1)
         in advanceContiguous ps2))"

section \<open>Recording a delivery\<close>

definition newProducer :: "int \<Rightarrow> u64 \<Rightarrow> producerState" where
  "newProducer rw seq =
     \<lparr>highContiguous = seq - 1,
      window = replicate (nat (go_quot (rw + 63) 64)) 0,
      received = 0, duplicates = 0, outOfOrder = 0, confirmedLost = 0, pendingLost = {},
      lastReportedLost = 0, lastSeen = seq\<rparr>"

definition recordFirst :: "int \<Rightarrow> u64 \<Rightarrow> producerState" where
  "recordFirst rw seq =
     (let ps = newProducer rw seq;
          ps1 = ps\<lparr>window := setBit (window ps) 0, received := received ps + 1\<rparr>
      in advanceContiguous ps1)"

definition recordNext :: "int \<Rightarrow> producerState \<Rightarrow> u64 \<Rightarrow> producerState \<times> bool \<times> bool" where
  "recordNext rw ps0 seq =
     (let ps1 = ps0\<lparr>received := received ps0 + 1\<rparr>;
          isOutOfOrder = seq < lastSeen ps1;
          ps2 = (if isOutOfOrder then ps1\<lparr>outOfOrder := outOfOrder ps1 + 1\<rparr> else ps1);
          ps = ps2\<lparr>lastSeen := seq\<rparr>
      in if seq \<le> highContiguous ps then
           (if seq \<in> pendingLost ps then
              (let p = pendingLost ps - {seq} in
               (ps\<lparr>pendingLost := p, confirmedLost := of_nat (card p)\<rparr>, False, isOutOfOrder))
            else (ps\<lparr>duplicates := duplicates ps + 1\<rparr>, True, isOutOfOrder))
         else
           (let offset = seq - highContiguous ps - 1 in
            if offset \<ge> word_of_int rw then (slideWindow rw ps seq, False, isOutOfOrder)
            else if getBit (window ps) (sint offset) then
              (ps\<lparr>duplicates := duplicates ps + 1\<rparr>, True, isOutOfOrder)
            else (advanceContiguous (ps\<lparr>window := setBit (window ps) (sint offset)\<rparr>),
                  False, isOutOfOrder)))"

definition Record :: "Tracker \<Rightarrow> string \<Rightarrow> u64 \<Rightarrow> Tracker \<times> bool \<times> bool" where
  "Record t producerID seq =
     (case map_of (producers t) producerID of
        None \<Rightarrow>
          (t\<lparr>producers := AList.update producerID (recordFirst (reorderWindow t) seq) (producers t)\<rparr>,
           False, False)
      | Some ps \<Rightarrow>
          (let (ps', isDuplicate, isOutOfOrder) = recordNext (reorderWindow t) ps seq in
           (t\<lparr>producers := AList.update producerID ps' (producers t)\<rparr>, isDuplicate, isOutOfOrder)))"

section \<open>Reading the tracker\<close>

definition DetectGaps :: "Tracker \<Rightarrow> Tracker \<times> (string, u64) gomap" where
  "DetectGaps t =
     (t\<lparr>producers := map (\<lambda>(pid, ps). (pid, ps\<lparr>lastReportedLost := confirmedLost ps\<rparr>)) (producers t)\<rparr>,
      map (\<lambda>(pid, ps). (pid, confirmedLost ps - lastReportedLost ps))
        (filter (\<lambda>(pid, ps). lastReportedLost ps < confirmedLost ps) (producers t)))"

definition Reset :: "Tracker \<Rightarrow> Tracker" where
  "Reset t = t\<lparr>producers := []\<rparr>"

definition Stats :: "Tracker \<Rightarrow> (string, ProducerStats) gomap" where
  "Stats t = map (\<lambda>(pid, ps). (pid,
     \<lparr>sReceived = received ps, sDuplicates = duplicates ps, sOutOfOrder = outOfOrder ps,
      sConfirmedLost = confirmedLost ps\<rparr>)) (producers t)"

definition trackerSum :: "(producerState \<Rightarrow> u64) \<Rightarrow> Tracker \<Rightarrow> u64" where
  "trackerSum f t = gomap_sum f (producers t)"

definition TotalReceived :: "Tracker \<Rightarrow> u64" where
  "TotalReceived t = trackerSum received t"

definition TotalDuplicates :: "Tracker \<Rightarrow> u64" where
  "TotalDuplicates t = trackerSum duplicates t"

definition TotalLost :: "Tracker \<Rightarrow> u64" where
  "TotalLost t = trackerSum confirmedLost t"

definition TotalOutOfOrder :: "Tracker \<Rightarrow> u64" where
  "TotalOutOfOrder t = trackerSum outOfOrder t"

text \<open>A run of one producer: the first delivery creates the state, the others update it;
  the duplicate flags are collected in order.\<close>

fun runNext :: "int \<Rightarrow> producerState \<Rightarrow> u64 list \<Rightarrow> producerState \<times> bool list" where
  "runNext rw ps [] = (ps, [])"
| "runNext rw ps (x # xs) =
     (let (ps1, dup, _) = recordNext rw ps x;
          (ps2, dups) = runNext rw ps1 xs
      in (ps2, dup # dups))"

definition runProducer :: "int \<Rightarrow> u64 \<Rightarrow> u64 list \<Rightarrow> producerState \<times> bool list" where
  "runProducer rw x xs =
     (let (ps, dups) = runNext rw (recordFirst rw x) xs in (ps, False # dups))"

section \<open>Frame of the window movement\<close>

lemmas record_defs = recordFirst_def recordNext_def slideWindow_def newProducer_def

lemma advanceContiguous_stop: "\<not> getBit (window ps) 0 \<Longrightarrow> advanceContiguous ps = ps"
  by (subst advanceContiguous.simps) simp

lemma advanceContiguous_step:
  "getBit (window ps) 0 \<Longrightarrow> advanceContiguous ps =
     advanceContiguous (ps\<lparr>highContiguous := highContiguous ps + 1, window := shiftLeft (window ps)\<rparr>)"
  by (subst advanceContiguous.simps) simp

lemma advanceContiguous_frame [simp]:
  "received (advanceContiguous ps) = received ps"
  "duplicates (advanceContiguous ps) = duplicates ps"
  "outOfOrder (advanceContiguous ps) = outOfOrder ps"
  "confirmedLost (advanceContiguous ps) = confirmedLost ps"
  "pendingLost (advanceContiguous ps) = pendingLost ps"
  "lastReportedLost (advanceContiguous ps) = lastReportedLost ps"
  "lastSeen (advanceContiguous ps) = lastSeen ps"
  by (induction ps rule: advanceContiguous.induct; subst advanceContiguous.simps; simp)+

lemma advanceContiguous_bit0: "\<not> getBit (window (advanceContiguous ps)) 0"
proof (induction ps rule: advanceContiguous.induct)
  case (1 ps)
  then show ?case by (cases "getBit (window ps) 0") (simp_all add: advanceContiguous_stop advanceContiguous_step)
qed

lemma slideWindow_frame [simp]:
  "received (slideWindow rw ps s) = received ps"
  "duplicates (slideWindow rw ps s) = duplicates ps"
  "outOfOrder (slideWindow rw ps s) = outOfOrder ps"
  "lastReportedLost (slideWindow rw ps s) = lastReportedLost ps"
  "lastSeen (slideWindow rw ps s) = lastSeen ps"
  by (simp_all add: slideWindow_def Let_def)

lemma set_evict:
  "evict h w d p = p \<union> (\<lambda>i. h + 1 + of_nat i) ` {i. i < d \<and> \<not> getBit w (int i)}"
proof (induction d)
  case 0
  then show ?case by (simp add: evict_def)
next
  case (Suc d)
  have "{i. i < Suc d \<and> \<not> getBit w (int i)} =
      (if getBit w (int d) then {} else {d}) \<union> {i. i < d \<and> \<not> getBit w (int i)}"
    by (auto simp: less_Suc_eq)
  with Suc show ?case by (auto simp: evict_def)
qed

end
