(* ===== verification/TrackerSpec.thy ===== *)
theory TrackerSpec
  imports Tracker
begin

text \<open>
  The abstract tracker (a watermark and two sets of natural numbers) and the proof that
  the bitset implementation of \<^verbatim>\<open>tracker.go\<close> refines it as long as sequence numbers and the
  window stay below \<open>2 ^ 62\<close>, where none of the \<^verbatim>\<open>uint64\<close> expressions wraps.
\<close>

section \<open>The abstract tracker\<close>

record aprod =
  hi :: nat
  marked :: "nat set"
  suspect :: "nat set"

definition watermark :: "nat \<Rightarrow> nat set \<Rightarrow> nat" where
  "watermark h M = (LEAST k. h \<le> k \<and> Suc k \<notin> M)"

definition raise :: "aprod \<Rightarrow> aprod" where
  "raise a = (let k = watermark (hi a) (marked a) in
     a\<lparr>hi := k, marked := {m \<in> marked a. k < m}\<rparr>)"

definition aslide :: "nat \<Rightarrow> aprod \<Rightarrow> nat \<Rightarrow> aprod" where
  "aslide W a s =
     (if s = hi a + W + 1 then a
      else raise (a\<lparr>hi := s - W - 1, marked := {m \<in> marked a. s - W - 1 < m},
             suspect := suspect a \<union> ({hi a <.. hi a + min W (s - W - 1 - hi a)} - marked a)\<rparr>))"

definition arecord :: "nat \<Rightarrow> aprod \<Rightarrow> nat \<Rightarrow> aprod \<times> bool" where
  "arecord W a s =
     (if s \<le> hi a then
        (if s \<in> suspect a then (a\<lparr>suspect := suspect a - {s}\<rparr>, False) else (a, True))
      else if hi a + W < s then (aslide W a s, False)
      else if s \<in> marked a then (a, True)
      else (raise (a\<lparr>marked := insert s (marked a)\<rparr>), False))"

lemma watermark_stop: "Suc h \<notin> M \<Longrightarrow> watermark h M = h"
  unfolding watermark_def by (rule Least_equality) auto

lemma watermark_step: "Suc h \<in> M \<Longrightarrow> watermark h M = watermark (Suc h) (M - {Suc h})"
  unfolding watermark_def by (rule arg_cong [where f = Least]) (auto simp: fun_eq_iff le_eq_less_or_eq)

lemma watermark_spec:
  assumes "finite M"
  shows "h \<le> watermark h M \<and> Suc (watermark h M) \<notin> M"
proof -
  obtain n where n: "\<forall>m\<in>M. m \<le> n" using assms finite_nat_set_iff_bounded_le by blast
  have "h \<le> max h n \<and> Suc (max h n) \<notin> M" using n by auto
  then show ?thesis unfolding watermark_def by (rule LeastI)
qed

lemma watermark_below: "h < j \<Longrightarrow> j \<le> watermark h M \<Longrightarrow> j \<in> M"
  using not_less_Least [of "j - 1" "\<lambda>k. h \<le> k \<and> Suc k \<notin> M"]
  unfolding watermark_def by (cases j) auto

section \<open>Abstraction and well-formedness\<close>

definition marksOf :: "producerState \<Rightarrow> nat set" where
  "marksOf ps = (\<lambda>i. unat (highContiguous ps) + 1 + i) ` bw.marks (window ps)"

definition absProd :: "producerState \<Rightarrow> aprod" where
  "absProd ps = \<lparr>hi = unat (highContiguous ps), marked = marksOf ps,
                 suspect = unat ` pendingLost ps\<rparr>"

definition window_ok :: "int \<Rightarrow> producerState \<Rightarrow> bool" where
  "window_ok rw ps \<longleftrightarrow>
     1 \<le> rw \<and> rw < 2 ^ 62 \<and> length (window ps) = nat ((rw + 63) div 64) \<and>
     (\<forall>i. getBit (window ps) (int i) \<longrightarrow> int i < rw) \<and>
     unat (highContiguous ps) < 2 ^ 62 \<and> (\<forall>m\<in>marksOf ps. m < 2 ^ 62)"

definition ps_ok :: "int \<Rightarrow> producerState \<Rightarrow> bool" where
  "ps_ok rw ps \<longleftrightarrow> window_ok rw ps \<and> \<not> getBit (window ps) 0 \<and>
     (\<forall>p\<in>pendingLost ps. p \<le> highContiguous ps) \<and>
     confirmedLost ps = of_nat (card (pendingLost ps))"

lemma finite_marksOf: "finite (marksOf ps)"
  by (simp add: marksOf_def bw.finite_marks)

lemma marksOf_iff:
  "m \<in> marksOf ps \<longleftrightarrow> unat (highContiguous ps) < m \<and>
     getBit (window ps) (int (m - unat (highContiguous ps) - 1))"
proof
  assume "m \<in> marksOf ps"
  then show "unat (highContiguous ps) < m \<and> getBit (window ps) (int (m - unat (highContiguous ps) - 1))"
    by (auto simp: marksOf_def bw.marks_def)
next
  assume *: "unat (highContiguous ps) < m \<and> getBit (window ps) (int (m - unat (highContiguous ps) - 1))"
  then have "m = unat (highContiguous ps) + 1 + (m - unat (highContiguous ps) - 1)" by simp
  with * show "m \<in> marksOf ps"
    unfolding marksOf_def bw.marks_def by (metis (mono_tags, lifting) image_eqI mem_Collect_eq)
qed

lemma window_ok_cap:
  "window_ok rw ps \<Longrightarrow> int i < rw \<Longrightarrow> i < length (window ps) * 64"
proof -
  assume "window_ok rw ps" "int i < rw"
  then have "int (length (window ps)) = (rw + 63) div 64" "1 \<le> rw"
    by (auto simp: window_ok_def)
  moreover have "rw \<le> ((rw + 63) div 64) * 64" by presburger
  ultimately show ?thesis using \<open>int i < rw\<close> by linarith
qed

lemma window_ok_fields [simp]:
  "window_ok rw (ps\<lparr>received := a\<rparr>) = window_ok rw ps"
  "window_ok rw (ps\<lparr>duplicates := a\<rparr>) = window_ok rw ps"
  "window_ok rw (ps\<lparr>outOfOrder := a\<rparr>) = window_ok rw ps"
  "window_ok rw (ps\<lparr>lastSeen := a\<rparr>) = window_ok rw ps"
  "window_ok rw (ps\<lparr>confirmedLost := a\<rparr>) = window_ok rw ps"
  "window_ok rw (ps\<lparr>pendingLost := b\<rparr>) = window_ok rw ps"
  by (simp_all add: window_ok_def marksOf_def)

lemma marksOf_fields [simp]:
  "marksOf (ps\<lparr>received := a\<rparr>) = marksOf ps"
  "marksOf (ps\<lparr>duplicates := a\<rparr>) = marksOf ps"
  "marksOf (ps\<lparr>outOfOrder := a\<rparr>) = marksOf ps"
  "marksOf (ps\<lparr>lastSeen := a\<rparr>) = marksOf ps"
  "marksOf (ps\<lparr>confirmedLost := a\<rparr>) = marksOf ps"
  "marksOf (ps\<lparr>pendingLost := b\<rparr>) = marksOf ps"
  by (simp_all add: marksOf_def)

section \<open>The contiguous advance refines raising the watermark\<close>

lemma advance_one:
  assumes ok: "window_ok rw ps" and bit: "getBit (window ps) 0"
  defines "ps' \<equiv> ps\<lparr>highContiguous := highContiguous ps + 1, window := shiftLeft (window ps)\<rparr>"
  shows "unat (highContiguous ps') = Suc (unat (highContiguous ps))"
    and "marksOf ps' = marksOf ps - {Suc (unat (highContiguous ps))}"
    and "window_ok rw ps'"
    and "Suc (unat (highContiguous ps)) \<in> marksOf ps"
proof -
  let ?h = "unat (highContiguous ps)"
  show mem: "Suc ?h \<in> marksOf ps" using bit by (simp add: marksOf_iff)
  with ok have h: "Suc ?h < 2 ^ 62" by (auto simp: window_ok_def)
  then show high: "unat (highContiguous ps') = Suc ?h"
    unfolding ps'_def by (simp add: unat_plus_small)
  show marks: "marksOf ps' = marksOf ps - {Suc ?h}"
  proof (rule set_eqI)
    fix m
    show "m \<in> marksOf ps' \<longleftrightarrow> m \<in> marksOf ps - {Suc ?h}"
    proof (cases "Suc ?h < m")
      case True
      then have "Suc (m - Suc ?h - 1) = m - ?h - 1" by simp
      with True show ?thesis
        using getBit_shiftLeft [of "window ps" "m - Suc ?h - 1"]
        by (auto simp: marksOf_iff high) (simp_all add: ps'_def del: of_nat_Suc)
    next
      case False
      then show ?thesis by (auto simp: marksOf_iff high)
    qed
  qed
  have bits: "int i < rw" if "getBit (shiftLeft (window ps)) (int i)" for i
  proof -
    from that have "getBit (window ps) (int (Suc i))" by (simp only: getBit_shiftLeft)
    with ok have "int (Suc i) < rw" unfolding window_ok_def by blast
    then show ?thesis by simp
  qed
  show "window_ok rw ps'"
    using ok h high marks bits unfolding window_ok_def by (auto simp: ps'_def)
qed

lemma advanceContiguous_refines:
  "window_ok rw ps \<Longrightarrow>
     window_ok rw (advanceContiguous ps) \<and>
     unat (highContiguous (advanceContiguous ps)) = watermark (unat (highContiguous ps)) (marksOf ps) \<and>
     marksOf (advanceContiguous ps) =
       {m \<in> marksOf ps. watermark (unat (highContiguous ps)) (marksOf ps) < m}"
proof (induction ps rule: advanceContiguous.induct)
  case (1 ps)
  let ?h = "unat (highContiguous ps)"
  let ?ps = "ps\<lparr>highContiguous := highContiguous ps + 1, window := shiftLeft (window ps)\<rparr>"
  show ?case
  proof (cases "getBit (window ps) 0")
    case False
    then have "Suc ?h \<notin> marksOf ps" by (simp add: marksOf_iff)
    then have "watermark ?h (marksOf ps) = ?h" by (rule watermark_stop)
    with False "1.prems" show ?thesis
      by (auto simp: advanceContiguous_stop marksOf_iff)
  next
    case True
    note one = advance_one [OF "1.prems" True]
    have IH: "window_ok rw (advanceContiguous ?ps) \<and>
        unat (highContiguous (advanceContiguous ?ps)) = watermark (Suc ?h) (marksOf ps - {Suc ?h}) \<and>
        marksOf (advanceContiguous ?ps) =
          {m \<in> marksOf ps - {Suc ?h}. watermark (Suc ?h) (marksOf ps - {Suc ?h}) < m}"
      using "1.IH" [OF True one(3)] one(1,2) by simp
    have w: "watermark ?h (marksOf ps) = watermark (Suc ?h) (marksOf ps - {Suc ?h})"
      using one(4) by (rule watermark_step)
    have "Suc ?h \<le> watermark (Suc ?h) (marksOf ps - {Suc ?h})"
      using watermark_spec [of "marksOf ps - {Suc ?h}" "Suc ?h"] by (simp add: finite_marksOf)
    then have "{m \<in> marksOf ps - {Suc ?h}. watermark (Suc ?h) (marksOf ps - {Suc ?h}) < m} =
        {m \<in> marksOf ps. watermark (Suc ?h) (marksOf ps - {Suc ?h}) < m}"
      by auto
    with IH show ?thesis by (simp only: w advanceContiguous_step [OF True] conj_assoc)
  qed
qed

corollary absProd_advance:
  "window_ok rw ps \<Longrightarrow> absProd (advanceContiguous ps) = raise (absProd ps)"
  using advanceContiguous_refines [of rw ps] by (simp add: absProd_def raise_def Let_def)

section \<open>Sliding refines the abstract slide\<close>

lemma unat_window: "1 \<le> rw \<Longrightarrow> rw < 2 ^ 62 \<Longrightarrow> unat (word_of_int rw :: u64) = nat rw"
  by (rule unat_of_int_small) simp_all

lemma unat_offset:
  "unat h < unat s \<Longrightarrow> unat (s - h - 1 :: u64) = unat s - unat h - 1"
proof -
  assume lt: "unat h < unat s"
  then have d: "unat (s - h) = unat s - unat h" by (simp add: unat_sub_le word_le_nat_alt)
  with lt have "1 \<le> s - h" by (simp add: word_le_nat_alt)
  then show ?thesis using d by (simp add: unat_sub_le)
qed

lemma unat_newHigh:
  assumes "1 \<le> rw" "rw < 2 ^ 62" "nat rw < unat s"
  shows "unat (s - word_of_int rw - 1 :: u64) = unat s - nat rw - 1"
  using unat_offset [of "word_of_int rw" s] assms by (simp add: unat_window)

lemma marksOf_le:
  assumes "window_ok rw ps" "m \<in> marksOf ps"
  shows "m \<le> unat (highContiguous ps) + nat rw"
proof -
  have "unat (highContiguous ps) < m" and
    "getBit (window ps) (int (m - unat (highContiguous ps) - 1))"
    using assms(2) unfolding marksOf_iff by blast+
  with assms(1) have "int (m - unat (highContiguous ps) - 1) < rw" unfolding window_ok_def by blast
  then show ?thesis by linarith
qed

lemma unat_evict:
  assumes "unat h + d < 2 ^ 63" and lt: "\<forall>i<d. getBit w (int i) \<longleftrightarrow> unat h + 1 + i \<in> M"
  shows "unat ` evict h w d p = unat ` p \<union> ({unat h<..unat h + d} - M)"
proof -
  have val: "unat (h + 1 + of_nat i) = unat h + 1 + i" if "i < d" for i
  proof -
    have i: "unat (of_nat i :: u64) = i" using that assms(1) by (intro unat_of_nat_small) simp
    have h1: "unat (h + 1) = unat h + 1" using that assms(1) by (simp add: unat_plus_small)
    show ?thesis using that assms(1) h1 i by (simp add: unat_plus_small)
  qed
  have "unat ` (\<lambda>i. h + 1 + of_nat i) ` {i. i < d \<and> \<not> getBit w (int i)} =
      (\<lambda>i. unat h + 1 + i) ` {i. i < d \<and> unat h + 1 + i \<notin> M}"
    unfolding image_image using val lt by (intro image_cong) auto
  also have "\<dots> = {unat h<..unat h + d} - M"
  proof (rule set_eqI)
    fix m
    show "m \<in> (\<lambda>i. unat h + 1 + i) ` {i. i < d \<and> unat h + 1 + i \<notin> M} \<longleftrightarrow>
        m \<in> {unat h<..unat h + d} - M"
      by (auto simp: image_iff intro!: exI [of _ "m - unat h - 1"])
  qed
  finally show ?thesis by (simp add: set_evict image_Un)
qed

lemma marksOf_shifted:
  assumes ok: "window_ok rw ps" and nh: "unat (highContiguous ps) < unat nh"
    and d: "d = min (nat rw) (unat nh - unat (highContiguous ps))"
  defines "ps' \<equiv> ps\<lparr>window := (shiftLeft ^^ d) (window ps), highContiguous := nh\<rparr>"
  shows "marksOf ps' = {m \<in> marksOf ps. unat nh < m}"
proof (rule set_eqI)
  fix m
  let ?h = "unat (highContiguous ps)"
  show "m \<in> marksOf ps' \<longleftrightarrow> m \<in> {m \<in> marksOf ps. unat nh < m}"
  proof (cases "unat nh < m")
    case False
    then show ?thesis by (auto simp: marksOf_iff ps'_def)
  next
    case True
    have "m \<in> marksOf ps' \<longleftrightarrow> getBit (window ps) (int (m - unat nh - 1 + d))"
      using True bw.get_shifts [of d "window ps" "m - unat nh - 1"] by (simp add: marksOf_iff ps'_def)
    also have "\<dots> \<longleftrightarrow> m \<in> marksOf ps"
    proof (cases "unat nh - ?h \<le> nat rw")
      case True
      then have "m - unat nh - 1 + d = m - ?h - 1" using d nh \<open>unat nh < m\<close> by simp
      then show ?thesis using nh \<open>unat nh < m\<close> by (simp add: marksOf_iff)
    next
      case False
      then have "d = nat rw" using d by simp
      then have "\<not> int (m - unat nh - 1 + d) < rw" by linarith
      then have "\<not> getBit (window ps) (int (m - unat nh - 1 + d))"
        using ok unfolding window_ok_def by blast
      moreover have "m \<notin> marksOf ps" using marksOf_le [OF ok, of m] False \<open>unat nh < m\<close> by auto
      ultimately show ?thesis by simp
    qed
    finally show ?thesis using True by simp
  qed
qed

lemma window_ok_shifted:
  assumes ok: "window_ok rw ps" and nh: "unat (highContiguous ps) < unat nh" "unat nh < 2 ^ 62"
    and d: "d = min (nat rw) (unat nh - unat (highContiguous ps))"
  shows "window_ok rw (ps\<lparr>window := (shiftLeft ^^ d) (window ps), highContiguous := nh\<rparr>)"
proof -
  have bits: "int i < rw" if "getBit ((shiftLeft ^^ d) (window ps)) (int i)" for i
  proof -
    from that have "getBit (window ps) (int (i + d))" by (simp only: bw.get_shifts)
    with ok have "int (i + d) < rw" unfolding window_ok_def by blast
    then show ?thesis by simp
  qed
  have len: "length ((shiftLeft ^^ d) (window ps)) = length (window ps)"
    by (induction d) simp_all
  have "marksOf (ps\<lparr>window := (shiftLeft ^^ d) (window ps), highContiguous := nh\<rparr>) \<subseteq> marksOf ps"
    using marksOf_shifted [OF ok nh(1) d] by auto
  with ok nh(2) len bits show ?thesis unfolding window_ok_def by auto
qed

lemma slideWindow_stuck:
  assumes ok: "window_ok rw ps" and seq: "unat seq = unat (highContiguous ps) + nat rw + 1"
  shows "slideWindow rw ps seq = ps"
proof -
  have rw: "1 \<le> rw" "rw < 2 ^ 62" using ok by (auto simp: window_ok_def)
  have nh: "unat (seq - word_of_int rw - 1) = unat (highContiguous ps)"
    using unat_newHigh [OF rw, of seq] seq by simp
  have off: "unat (seq - highContiguous ps - 1) = nat rw" using unat_offset [of "highContiguous ps" seq] seq by simp
  then have "sint (seq - highContiguous ps - 1) = rw" using rw by (simp add: sint_small)
  with nh show ?thesis by (simp add: slideWindow_def Let_def word_le_nat_alt)
qed

lemma slideWindow_far:
  assumes ok: "window_ok rw ps" and seq: "unat (highContiguous ps) + nat rw + 1 < unat seq"
  defines "nh \<equiv> seq - word_of_int rw - 1"
    and "d \<equiv> min (nat rw) (unat seq - nat rw - 1 - unat (highContiguous ps))"
  defines "p \<equiv> evict (highContiguous ps) (window ps) d (pendingLost ps)"
  shows "slideWindow rw ps seq = advanceContiguous
     (ps\<lparr>window := (shiftLeft ^^ d) (window ps), highContiguous := nh,
         pendingLost := p, confirmedLost := of_nat (card p)\<rparr>)"
    and "unat nh = unat seq - nat rw - 1"
proof -
  have rw: "1 \<le> rw" "rw < 2 ^ 62" using ok by (auto simp: window_ok_def)
  show nh: "unat nh = unat seq - nat rw - 1"
    using unat_newHigh [OF rw, of seq] seq unfolding nh_def by simp
  then have gt: "\<not> nh \<le> highContiguous ps" using seq by (simp add: word_le_nat_alt)
  have dist: "unat (nh - highContiguous ps) = unat seq - nat rw - 1 - unat (highContiguous ps)"
    using nh gt by (simp add: unat_sub_le)
  have sd: "unat (if nh - highContiguous ps > word_of_int rw then word_of_int rw
      else nh - highContiguous ps) = d"
    using dist unat_window [OF rw] by (auto simp: d_def word_less_nat_alt)
  have "unat (seq - nh - 1) = nat rw" using unat_offset [of nh seq] nh seq by simp
  then have "sint (seq - nh - 1) = rw" using rw by (simp add: sint_small)
  then show "slideWindow rw ps seq = advanceContiguous
     (ps\<lparr>window := (shiftLeft ^^ d) (window ps), highContiguous := nh,
         pendingLost := p, confirmedLost := of_nat (card p)\<rparr>)"
    using gt sd unfolding slideWindow_def nh_def [symmetric] p_def
    by (simp add: Let_def) (intro arg_cong [where f = advanceContiguous] producerState.equality; simp)
qed

lemma ps_okI_advance:
  assumes "window_ok rw ps" "\<forall>p\<in>pendingLost ps. p \<le> highContiguous ps"
    "confirmedLost ps = of_nat (card (pendingLost ps))"
  shows "ps_ok rw (advanceContiguous ps)"
proof -
  have "unat (highContiguous ps) \<le> unat (highContiguous (advanceContiguous ps))"
    using advanceContiguous_refines [OF assms(1)] watermark_spec [OF finite_marksOf] by simp
  then show ?thesis using assms advanceContiguous_refines [OF assms(1)]
    by (auto simp: ps_ok_def advanceContiguous_bit0 word_le_nat_alt intro: order_trans)
qed

lemma slideWindow_refines:
  assumes ok: "ps_ok rw ps" and far: "unat (highContiguous ps) + nat rw < unat seq"
    and small: "unat seq < 2 ^ 62"
  shows "absProd (slideWindow rw ps seq) = aslide (nat rw) (absProd ps) (unat seq) \<and>
     ps_ok rw (slideWindow rw ps seq)"
proof (cases "unat seq = unat (highContiguous ps) + nat rw + 1")
  case True
  with ok have "slideWindow rw ps seq = ps" by (intro slideWindow_stuck) (simp_all add: ps_ok_def)
  with True ok show ?thesis by (simp add: aslide_def absProd_def)
next
  case False
  have wok: "window_ok rw ps" using ok by (simp add: ps_ok_def)
  have rw: "1 \<le> rw" "rw < 2 ^ 62" using wok by (auto simp: window_ok_def)
  have far': "unat (highContiguous ps) + nat rw + 1 < unat seq" using far False by simp
  define nh where "nh = seq - word_of_int rw - 1"
  define d where "d = min (nat rw) (unat seq - nat rw - 1 - unat (highContiguous ps))"
  define p where "p = evict (highContiguous ps) (window ps) d (pendingLost ps)"
  define ps1 where "ps1 = ps\<lparr>window := (shiftLeft ^^ d) (window ps), highContiguous := nh,
         pendingLost := p, confirmedLost := of_nat (card p)\<rparr>"
  have slide: "slideWindow rw ps seq = advanceContiguous ps1"
    and nh: "unat nh = unat seq - nat rw - 1"
    using slideWindow_far [OF wok far'] unfolding nh_def d_def p_def ps1_def by simp_all
  have d': "d = min (nat rw) (unat nh - unat (highContiguous ps))" using nh by (simp add: d_def)
  have lt: "unat (highContiguous ps) < unat nh" "unat nh < 2 ^ 62" using nh far' small by simp_all
  have wok1: "window_ok rw ps1"
    using window_ok_shifted [OF wok lt d'] by (simp add: ps1_def)
  have m1: "marksOf ps1 = {m \<in> marksOf ps. unat nh < m}"
    using marksOf_shifted [OF wok lt(1) d'] by (simp add: ps1_def)
  have "unat (highContiguous ps) + d < 2 ^ 63" using lt rw by (simp add: d_def)
  then have p: "unat ` p = unat ` pendingLost ps \<union>
      ({unat (highContiguous ps)<..unat (highContiguous ps) + d} - marksOf ps)"
    unfolding p_def by (rule unat_evict) (simp add: marksOf_iff)
  have "unat x \<le> unat nh" if "x \<in> p" for x
  proof -
    have "unat x \<in> unat ` pendingLost ps \<or> unat x \<le> unat (highContiguous ps) + d"
      using imageI [OF that, of unat] unfolding p by auto
    moreover have "unat (highContiguous ps) + d \<le> unat nh" using d' lt by simp
    moreover have "unat y \<le> unat (highContiguous ps)" if "y \<in> pendingLost ps" for y
      using ok that by (simp add: ps_ok_def word_le_nat_alt)
    ultimately show ?thesis using lt by fastforce
  qed
  then have "ps_ok rw (advanceContiguous ps1)"
    using wok1 by (intro ps_okI_advance) (simp_all add: ps1_def word_le_nat_alt)
  moreover have "absProd (advanceContiguous ps1) = raise (absProd ps1)" using wok1 by (rule absProd_advance)
  moreover have "absProd ps1 = (absProd ps)\<lparr>hi := unat seq - nat rw - 1,
      marked := {m \<in> marksOf ps. unat seq - nat rw - 1 < m},
      suspect := unat ` pendingLost ps \<union>
        ({unat (highContiguous ps)<..unat (highContiguous ps) + d} - marksOf ps)\<rparr>"
    using m1 nh p by (simp add: absProd_def) (simp add: ps1_def)
  ultimately show ?thesis using slide False by (simp add: aslide_def absProd_def d_def)
qed

section \<open>Recording refines the abstract record\<close>

lemma ps_ok_fields [simp]:
  "ps_ok rw (ps\<lparr>received := a\<rparr>) = ps_ok rw ps"
  "ps_ok rw (ps\<lparr>duplicates := a\<rparr>) = ps_ok rw ps"
  "ps_ok rw (ps\<lparr>outOfOrder := a\<rparr>) = ps_ok rw ps"
  "ps_ok rw (ps\<lparr>lastSeen := a\<rparr>) = ps_ok rw ps"
  by (simp_all add: ps_ok_def)

lemma absProd_fields [simp]:
  "absProd (ps\<lparr>received := a\<rparr>) = absProd ps"
  "absProd (ps\<lparr>duplicates := a\<rparr>) = absProd ps"
  "absProd (ps\<lparr>outOfOrder := a\<rparr>) = absProd ps"
  "absProd (ps\<lparr>lastSeen := a\<rparr>) = absProd ps"
  by (simp_all add: absProd_def)

lemma absProd_select [simp]:
  "hi (absProd ps) = unat (highContiguous ps)" "marked (absProd ps) = marksOf ps"
  "suspect (absProd ps) = unat ` pendingLost ps"
  by (simp_all add: absProd_def)

text \<open>The bookkeeping prefix of \<open>recordNext\<close> is invisible to the abstraction.\<close>

definition touch :: "producerState \<Rightarrow> u64 \<Rightarrow> producerState" where
  "touch ps seq =
     (let ps1 = ps\<lparr>received := received ps + 1\<rparr>;
          ps2 = (if seq < lastSeen ps1 then ps1\<lparr>outOfOrder := outOfOrder ps1 + 1\<rparr> else ps1)
      in ps2\<lparr>lastSeen := seq\<rparr>)"

lemma touch_simps [simp]:
  "ps_ok rw (touch ps seq) = ps_ok rw ps" "absProd (touch ps seq) = absProd ps"
  "highContiguous (touch ps seq) = highContiguous ps" "window (touch ps seq) = window ps"
  "pendingLost (touch ps seq) = pendingLost ps" "confirmedLost (touch ps seq) = confirmedLost ps"
  "duplicates (touch ps seq) = duplicates ps" "received (touch ps seq) = received ps + 1"
  "lastReportedLost (touch ps seq) = lastReportedLost ps" "marksOf (touch ps seq) = marksOf ps"
  "window_ok rw (touch ps seq) = window_ok rw ps"
  by (simp_all add: touch_def Let_def)

text \<open>One step of the tracker as a case distinction on where the sequence falls.\<close>

lemma recordNext_below:
  "seq \<le> highContiguous ps \<Longrightarrow> seq \<in> pendingLost ps \<Longrightarrow> recordNext rw ps seq =
     ((touch ps seq)\<lparr>pendingLost := pendingLost ps - {seq},
        confirmedLost := of_nat (card (pendingLost ps - {seq}))\<rparr>, False, seq < lastSeen ps)"
  by (simp add: recordNext_def touch_def Let_def)

lemma recordNext_dup:
  "seq \<le> highContiguous ps \<Longrightarrow> seq \<notin> pendingLost ps \<Longrightarrow> recordNext rw ps seq =
     ((touch ps seq)\<lparr>duplicates := duplicates ps + 1\<rparr>, True, seq < lastSeen ps)"
  by (simp add: recordNext_def touch_def Let_def)

lemma recordNext_above:
  "\<not> seq \<le> highContiguous ps \<Longrightarrow> recordNext rw ps seq =
     (let offset = seq - highContiguous ps - 1 in
      if offset \<ge> word_of_int rw then (slideWindow rw (touch ps seq) seq, False, seq < lastSeen ps)
      else if getBit (window ps) (sint offset)
      then ((touch ps seq)\<lparr>duplicates := duplicates ps + 1\<rparr>, True, seq < lastSeen ps)
      else (advanceContiguous ((touch ps seq)\<lparr>window := setBit (window ps) (sint offset)\<rparr>),
            False, seq < lastSeen ps))"
  by (simp add: recordNext_def touch_def Let_def)

lemma put_mark:
  assumes ok: "window_ok rw ps" and lt: "unat (highContiguous ps) < s" "s \<le> unat (highContiguous ps) + nat rw"
    and small: "s < 2 ^ 62"
  defines "ps' \<equiv> ps\<lparr>window := setBit (window ps) (int (s - unat (highContiguous ps) - 1))\<rparr>"
  shows "marksOf ps' = insert s (marksOf ps)" and "window_ok rw ps'"
proof -
  let ?h = "unat (highContiguous ps)"
  have "1 \<le> rw" using ok by (simp add: window_ok_def)
  then have off: "int (s - ?h - 1) < rw" using lt by linarith
  then have get: "getBit (window ps') (int j) \<longleftrightarrow> j = s - ?h - 1 \<or> getBit (window ps) (int j)" for j
    using getBit_setBit [OF window_ok_cap [OF ok off], of j] by (simp add: ps'_def)
  show marks: "marksOf ps' = insert s (marksOf ps)"
  proof (rule set_eqI)
    fix m
    have h: "highContiguous ps' = highContiguous ps" by (simp add: ps'_def)
    have "m - ?h - 1 = s - ?h - 1 \<longleftrightarrow> m = s" if "?h < m" using that lt by linarith
    then show "m \<in> marksOf ps' \<longleftrightarrow> m \<in> insert s (marksOf ps)"
      using get [of "m - ?h - 1"] lt unfolding marksOf_iff h insert_iff by blast
  qed
  have "int j < rw" if "getBit (window ps') (int j)" for j
    using that get [of j] off ok unfolding window_ok_def by blast
  then show "window_ok rw ps'"
    using ok marks small unfolding window_ok_def by (auto simp: ps'_def)
qed

lemma recordNext_refines:
  assumes ok: "ps_ok rw ps" and small: "unat seq < 2 ^ 62"
    and rec: "recordNext rw ps seq = (ps', dup, ooo)"
  shows "ps_ok rw ps' \<and> arecord (nat rw) (absProd ps) (unat seq) = (absProd ps', dup)"
proof -
  have wok: "window_ok rw ps" using ok by (simp add: ps_ok_def)
  have rw: "1 \<le> rw" "rw < 2 ^ 62" using wok by (auto simp: window_ok_def)
  have mem: "unat seq \<in> unat ` pendingLost ps \<longleftrightarrow> seq \<in> pendingLost ps"
    by (auto simp: image_iff dest: u64_eqI)
  show ?thesis
  proof (cases "seq \<le> highContiguous ps")
    case True
    have diff: "unat ` (pendingLost ps - {seq}) = unat ` pendingLost ps - {unat seq}"
      by (auto simp: image_iff dest: u64_eqI)
    have le: "unat seq \<le> unat (highContiguous ps)" using True by (simp add: word_le_nat_alt)
    show ?thesis
    proof (cases "seq \<in> pendingLost ps")
      case pending: True
      have ps': "ps' = (touch ps seq)\<lparr>pendingLost := pendingLost ps - {seq},
          confirmedLost := of_nat (card (pendingLost ps - {seq}))\<rparr>" "\<not> dup"
        using rec recordNext_below [OF True pending] by simp_all
      have "ps_ok rw ps'" using ok unfolding ps' ps_ok_def by (simp add: touch_def Let_def)
      moreover have "absProd ps' = (absProd ps)\<lparr>suspect := unat ` pendingLost ps - {unat seq}\<rparr>"
        unfolding ps'(1) absProd_def by (simp add: diff)
      ultimately show ?thesis using ps'(2) le mem pending by (simp add: arecord_def absProd_def)
    next
      case False
      then show ?thesis
        using rec recordNext_dup [OF True False] ok le mem by (auto simp: arecord_def absProd_def)
    qed
  next
    case False
    then have lt: "unat (highContiguous ps) < unat seq" by (simp add: word_le_nat_alt)
    have off: "unat (seq - highContiguous ps - 1) = unat seq - unat (highContiguous ps) - 1"
      using lt by (rule unat_offset)
    have far: "seq - highContiguous ps - 1 \<ge> word_of_int rw \<longleftrightarrow>
        unat (highContiguous ps) + nat rw < unat seq"
      using off lt unat_window [OF rw] by (auto simp: word_le_nat_alt)
    show ?thesis
    proof (cases "unat (highContiguous ps) + nat rw < unat seq")
      case True
      with rec False far have "ps' = slideWindow rw (touch ps seq) seq" "\<not> dup"
        by (simp_all add: recordNext_above Let_def)
      moreover have "absProd (slideWindow rw (touch ps seq) seq) =
          aslide (nat rw) (absProd ps) (unat seq) \<and> ps_ok rw (slideWindow rw (touch ps seq) seq)"
        using slideWindow_refines [of rw "touch ps seq" seq] ok True small by simp
      ultimately show ?thesis using True lt by (simp add: arecord_def absProd_def)
    next
      case near: False
      have s: "sint (seq - highContiguous ps - 1) = int (unat seq - unat (highContiguous ps) - 1)"
        using off small by (subst sint_small) simp_all
      have bit: "getBit (window ps) (sint (seq - highContiguous ps - 1)) \<longleftrightarrow> unat seq \<in> marksOf ps"
        using lt s by (simp only: marksOf_iff simp_thms)
      show ?thesis
      proof (cases "unat seq \<in> marksOf ps")
        case True
        then show ?thesis using rec False near far bit ok lt
          by (auto simp: recordNext_above Let_def arecord_def absProd_def)
      next
        case fresh: False
        let ?ps = "(touch ps seq)\<lparr>window :=
            setBit (window ps) (int (unat seq - unat (highContiguous ps) - 1))\<rparr>"
        have ps': "ps' = advanceContiguous ?ps" "\<not> dup"
          using rec False near far bit fresh unfolding recordNext_above [OF False] s [symmetric]
          by (simp_all add: Let_def)
        have m: "marksOf ?ps = insert (unat seq) (marksOf ps)" "window_ok rw ?ps"
          using put_mark [of rw "touch ps seq" "unat seq", unfolded touch_simps] wok lt near small
          by (simp_all only: not_less)
        have "absProd ?ps = (absProd ps)\<lparr>marked := insert (unat seq) (marksOf ps)\<rparr>"
          unfolding absProd_def m(1) by simp
        then have "arecord (nat rw) (absProd ps) (unat seq) = (raise (absProd ?ps), False)"
          using lt near fresh by (simp add: arecord_def)
        moreover have "ps_ok rw (advanceContiguous ?ps)"
          using ok m(2) by (intro ps_okI_advance) (simp_all add: ps_ok_def)
        ultimately show ?thesis
          using ps' absProd_advance [OF m(2)] by simp
      qed
    qed
  qed
qed

end
