(* ===== verification/TrackerRuns.thy ===== *)
theory TrackerRuns
  imports TrackerSpec
begin

text \<open>
  Runs of the tracker. The abstract record keeps three laws (a settled delivery stays
  settled, the suspected set stays below the watermark, a bounded jump loses no missing
  number), stated once as a locale over a record operation and interpreted on the abstract
  tracker; the refinement of \<open>TrackerSpec\<close> carries them to \<^verbatim>\<open>tracker.go\<close>.
\<close>

section \<open>The abstract record keeps deliveries settled\<close>

definition awf :: "aprod \<Rightarrow> bool" where
  "awf a \<longleftrightarrow> finite (marked a) \<and> (\<forall>m\<in>marked a. hi a < m) \<and> (\<forall>p\<in>suspect a. p \<le> hi a) \<and>
     finite (suspect a)"

definition settled :: "aprod \<Rightarrow> nat \<Rightarrow> bool" where
  "settled a s \<longleftrightarrow> (if s \<le> hi a then s \<notin> suspect a else s \<in> marked a)"

lemma raise_simps:
  "hi (raise a) = watermark (hi a) (marked a)"
  "marked (raise a) = {m \<in> marked a. watermark (hi a) (marked a) < m}"
  "suspect (raise a) = suspect a"
  by (simp_all add: raise_def Let_def)

lemma awf_raise:
  assumes "finite (marked a)" "\<forall>p\<in>suspect a. p \<le> hi a" "finite (suspect a)"
  shows "awf (raise a)"
  using assms watermark_spec [OF assms(1), of "hi a"] by (auto simp: awf_def raise_simps)

lemma settled_raise:
  assumes "finite (marked a)" "\<forall>p\<in>suspect a. p \<le> hi a" "settled a s"
  shows "settled (raise a) s"
  using assms watermark_spec [OF assms(1), of "hi a"]
  by (auto simp: settled_def raise_simps split: if_splits)

lemma awf_aslide: "awf a \<Longrightarrow> hi a + W < s \<Longrightarrow> awf (aslide W a s)"
  unfolding aslide_def by (auto intro!: awf_raise) (auto simp: awf_def)

lemma settled_aslide:
  assumes "awf a" "hi a + W < s" "settled a x"
  shows "settled (aslide W a s) x"
proof (cases "s = hi a + W + 1")
  case True
  then show ?thesis using assms by (simp add: aslide_def)
next
  case False
  show ?thesis unfolding aslide_def using False assms
    by (auto intro!: settled_raise) (auto simp: awf_def settled_def split: if_splits)
qed

lemma awf_arecord: "awf a \<Longrightarrow> awf (fst (arecord W a s))"
  unfolding arecord_def by (auto intro!: awf_raise awf_aslide) (auto simp: awf_def)

lemma settled_arecord:
  assumes "awf a" "settled a x"
  shows "settled (fst (arecord W a s)) x"
  unfolding arecord_def using assms
  by (auto intro!: settled_raise settled_aslide) (auto simp: awf_def settled_def split: if_splits)

lemma arecord_settles:
  assumes "awf a" "s \<le> hi a + W"
  shows "settled (fst (arecord W a s)) s"
proof (cases "s \<le> hi a")
  case True
  then show ?thesis by (auto simp: arecord_def settled_def)
next
  case False
  then show ?thesis using assms
    by (auto simp: arecord_def intro!: settled_raise) (auto simp: awf_def settled_def)
qed

lemma arecord_flag:
  assumes "awf a" "s \<le> hi a + W"
  shows "snd (arecord W a s) \<longleftrightarrow> settled a s"
  using assms by (auto simp: arecord_def settled_def)

section \<open>Runs against a record contract\<close>

text \<open>What the clients of a record operation rely on: an invariant, a notion of settled
  number that no later call revokes, and the duplicate flag that reads it.\<close>

locale settling_record =
  fixes rec :: "'s \<Rightarrow> 'n \<Rightarrow> 's \<times> bool"
    and okay :: "'n \<Rightarrow> bool"
    and inv :: "'s \<Rightarrow> bool"
    and sett :: "'s \<Rightarrow> 'n \<Rightarrow> bool"
    and near :: "'s \<Rightarrow> 'n \<Rightarrow> bool"
  assumes inv_rec: "inv s \<Longrightarrow> okay x \<Longrightarrow> inv (fst (rec s x))"
    and sett_rec: "inv s \<Longrightarrow> okay x \<Longrightarrow> sett s y \<Longrightarrow> sett (fst (rec s x)) y"
    and rec_sett: "inv s \<Longrightarrow> okay x \<Longrightarrow> near s x \<Longrightarrow> sett (fst (rec s x)) x"
    and rec_flag: "inv s \<Longrightarrow> okay x \<Longrightarrow> near s x \<Longrightarrow> snd (rec s x) = sett s x"
begin

definition run :: "'n list \<Rightarrow> 's \<Rightarrow> 's" where
  "run xs s = fold (\<lambda>x s. fst (rec s x)) xs s"

lemma run_Cons: "run (x # xs) s = run xs (fst (rec s x))"
  by (simp add: run_def)

lemma inv_run: "inv s \<Longrightarrow> list_all okay xs \<Longrightarrow> inv (run xs s)"
  by (induction xs arbitrary: s) (simp_all add: run_def inv_rec)

lemma sett_run: "inv s \<Longrightarrow> list_all okay xs \<Longrightarrow> sett s y \<Longrightarrow> sett (run xs s) y"
  by (induction xs arbitrary: s) (simp_all add: run_def inv_rec sett_rec)

lemma sett_after: "inv s \<Longrightarrow> list_all okay (x # xs) \<Longrightarrow> near s x \<Longrightarrow> sett (run (x # xs) s) x"
  by (simp add: run_Cons sett_run inv_rec rec_sett)

lemma redelivery_flagged:
  assumes "inv s" "list_all okay (x # xs)" "near s x" "near (run (x # xs) s) x"
  shows "snd (rec (run (x # xs) s) x)"
  using assms rec_flag [OF inv_run [OF assms(1,2)]] sett_after [OF assms(1,2,3)] by simp

end

interpretation ar: settling_record "arecord W" "\<lambda>_. True" awf settled "\<lambda>a s. s \<le> hi a + W" for W
  by unfold_locales (simp_all add: awf_arecord settled_arecord arecord_settles arecord_flag)

section \<open>The same contract for the tracker\<close>

definition stepNext :: "int \<Rightarrow> producerState \<Rightarrow> u64 \<Rightarrow> producerState \<times> bool" where
  "stepNext rw ps seq = (fst (recordNext rw ps seq), fst (snd (recordNext rw ps seq)))"

definition seq_ok :: "u64 \<Rightarrow> bool" where
  "seq_ok seq \<longleftrightarrow> unat seq < 2 ^ 62"

definition inReach :: "int \<Rightarrow> producerState \<Rightarrow> u64 \<Rightarrow> bool" where
  "inReach rw ps seq \<longleftrightarrow> unat seq \<le> unat (highContiguous ps) + nat rw"

definition counted :: "producerState \<Rightarrow> u64 \<Rightarrow> bool" where
  "counted ps seq \<longleftrightarrow> settled (absProd ps) (unat seq)"

lemma stepNext_refines:
  assumes "ps_ok rw ps" "seq_ok seq"
  shows "ps_ok rw (fst (stepNext rw ps seq))"
    and "absProd (fst (stepNext rw ps seq)) = fst (arecord (nat rw) (absProd ps) (unat seq))"
    and "snd (stepNext rw ps seq) = snd (arecord (nat rw) (absProd ps) (unat seq))"
  using recordNext_refines [OF assms(1) assms(2) [unfolded seq_ok_def], of "fst (recordNext rw ps seq)"
      "fst (snd (recordNext rw ps seq))" "snd (snd (recordNext rw ps seq))"]
  by (simp_all add: stepNext_def)

lemma awf_absProd: "ps_ok rw ps \<Longrightarrow> awf (absProd ps)"
  by (auto simp: ps_ok_def awf_def finite_marksOf marksOf_iff word_le_nat_alt)

interpretation tr: settling_record "stepNext rw" seq_ok "ps_ok rw" counted "inReach rw" for rw
proof unfold_locales
  fix ps x y
  assume ok: "ps_ok rw ps" and x: "seq_ok x"
  note r = stepNext_refines [OF ok x] and wf = awf_absProd [OF ok]
  show "ps_ok rw (fst (stepNext rw ps x))" by (rule r)
  show "counted ps y \<Longrightarrow> counted (fst (stepNext rw ps x)) y"
    using ar.sett_rec [OF wf] by (simp add: counted_def r)
  assume "inReach rw ps x"
  then have n: "unat x \<le> hi (absProd ps) + nat rw" by (simp add: inReach_def)
  show "counted (fst (stepNext rw ps x)) x"
    using ar.rec_sett [OF wf TrueI n] by (simp add: counted_def r)
  show "snd (stepNext rw ps x) = counted ps x"
    using ar.rec_flag [OF wf TrueI n] by (simp add: counted_def r)
qed

lemma counted_iff: "ps_ok rw ps \<Longrightarrow> counted ps seq \<longleftrightarrow>
   (if seq \<le> highContiguous ps then seq \<notin> pendingLost ps else unat seq \<in> marksOf ps)"
  by (auto simp: counted_def settled_def word_le_nat_alt dest: u64_eqI)

section \<open>The first delivery\<close>

lemma shiftLeft_zeros [simp]: "shiftLeft (replicate n 0) = replicate n 0"
proof (induction n)
  case (Suc n)
  then show ?case by (cases n) simp_all
qed simp

lemma shiftLeft_first: "shiftLeft (setBit (replicate n 0) 0) = replicate n 0"
proof (cases n)
  case (Suc m)
  have "setBit (replicate n 0) 0 = 1 # replicate m 0" by (simp add: Suc setBit_def)
  then show ?thesis using shiftLeft_zeros [of m] by (cases m) (simp_all add: Suc)
qed (simp add: setBit_def)

lemma getBit_zeros [simp]: "\<not> getBit (replicate n 0) i"
proof (cases "0 \<le> i")
  case True
  then obtain k where "i = int k" by (metis nonneg_int_cases)
  then show ?thesis by (auto simp: getBit_nat)
qed (simp add: getBit_def)

lemma recordFirst_state:
  assumes "1 \<le> rw"
  shows "recordFirst rw seq = (newProducer rw seq)\<lparr>highContiguous := seq, received := 1\<rparr>"
proof -
  let ?n = "nat (go_quot (rw + 63) 64)"
  have "1 \<le> (rw + 63) div 64" using assms zdiv_mono1 [of 64 "rw + 63" 64] by simp
  then have n: "0 < ?n" using assms by (simp add: go_quot_nonneg)
  let ?p = "(newProducer rw seq)\<lparr>window := setBit (window (newProducer rw seq)) 0,
      received := received (newProducer rw seq) + 1\<rparr>"
  have w: "window ?p = setBit (replicate ?n 0) 0" by (simp add: newProducer_def)
  have bit: "getBit (window ?p) 0"
    using n getBit_setBit [of 0 "replicate ?n 0" 0] unfolding w by simp
  let ?q = "?p\<lparr>highContiguous := highContiguous ?p + 1, window := shiftLeft (window ?p)\<rparr>"
  have q: "window ?q = replicate ?n 0" unfolding w by (simp add: shiftLeft_first)
  then have stop: "\<not> getBit (window ?q) 0" by simp
  have "recordFirst rw seq = advanceContiguous ?p" by (simp add: recordFirst_def Let_def)
  also have "\<dots> = ?q" using advanceContiguous_step [OF bit] advanceContiguous_stop [OF stop] by (rule trans)
  also have "\<dots> = (newProducer rw seq)\<lparr>highContiguous := seq, received := 1\<rparr>"
    by (simp add: shiftLeft_first newProducer_def)
  finally show ?thesis .
qed

lemma recordFirst_refines:
  assumes "1 \<le> rw" "rw < 2 ^ 62" "seq_ok seq"
  shows "ps_ok rw (recordFirst rw seq)"
    and "absProd (recordFirst rw seq) = \<lparr>hi = unat seq, marked = {}, suspect = {}\<rparr>"
proof -
  have m: "marksOf (recordFirst rw seq) = {}"
    using assms(1) by (auto simp: marksOf_iff recordFirst_state newProducer_def)
  show "ps_ok rw (recordFirst rw seq)"
    using assms m by (auto simp: ps_ok_def window_ok_def seq_ok_def recordFirst_state newProducer_def
        go_quot_nonneg)
  show "absProd (recordFirst rw seq) = \<lparr>hi = unat seq, marked = {}, suspect = {}\<rparr>"
    using assms(1) m by (simp add: absProd_def) (simp add: recordFirst_state newProducer_def)
qed

section \<open>Exactness inside the reorder window\<close>

text \<open>The reference bookkeeping: the set \<open>R\<close> of numbers delivered so far. A delivery is
  inside the window when it is at most \<open>W\<close> above the end of the contiguous prefix of \<open>R\<close>.\<close>

fun inWindow :: "nat \<Rightarrow> nat \<Rightarrow> nat set \<Rightarrow> u64 list \<Rightarrow> bool" where
  "inWindow W x R [] = True"
| "inWindow W x R (s # xs) =
     (x \<le> unat s \<and> unat s \<le> watermark x R + W \<and> inWindow W x (insert (unat s) R) xs)"

fun repeats :: "nat set \<Rightarrow> u64 list \<Rightarrow> bool list" where
  "repeats R [] = []"
| "repeats R (s # xs) = (unat s \<in> R) # repeats (insert (unat s) R) xs"

definition exactly :: "nat \<Rightarrow> nat set \<Rightarrow> aprod \<Rightarrow> bool" where
  "exactly x R a \<longleftrightarrow> finite R \<and> x \<in> R \<and> (\<forall>m\<in>R. x \<le> m) \<and>
     a = \<lparr>hi = watermark x R, marked = {m \<in> R. watermark x R < m}, suspect = {}\<rparr>"

lemma watermark_restart:
  assumes "R \<subseteq> R'" "finite R"
  shows "watermark (watermark x R) {m \<in> R'. watermark x R < m} = watermark x R'"
proof -
  have "x \<le> k \<Longrightarrow> Suc k \<notin> R' \<Longrightarrow> watermark x R \<le> k" for k
    using watermark_below [of x "Suc k" R] assms(1) by (meson in_mono le_imp_less_Suc not_less_eq_eq)
  moreover have "x \<le> watermark x R" using watermark_spec [OF assms(2)] by simp
  ultimately have "(watermark x R \<le> k \<and> Suc k \<notin> {m \<in> R'. watermark x R < m}) \<longleftrightarrow> x \<le> k \<and> Suc k \<notin> R'" for k
    by auto
  then show ?thesis unfolding watermark_def [of "watermark x R"] watermark_def [of x R'] by presburger
qed

lemma exactly_step:
  assumes ex: "exactly x R a" and s: "x \<le> s" "s \<le> watermark x R + W"
  shows "exactly x (insert s R) (fst (arecord W a s)) \<and> snd (arecord W a s) = (s \<in> R)"
proof -
  note R = ex [unfolded exactly_def]
  have le: "s \<in> R" if "s \<le> watermark x R"
    using that s(1) R watermark_below [of x s R] by (cases "s = x") auto
  show ?thesis
  proof (cases "s \<in> R")
    case True
    then show ?thesis using R s by (auto simp: arecord_def exactly_def insert_absorb)
  next
    case False
    have fin: "finite R" "finite (insert s R)" using R by auto
    have wm: "watermark (watermark x R) (insert s {m \<in> R. watermark x R < m}) = watermark x (insert s R)"
    proof -
      have "insert s {m \<in> R. watermark x R < m} = {m \<in> insert s R. watermark x R < m}"
        using False le by fastforce
      then show ?thesis using watermark_restart [of R "insert s R" x] fin by auto
    qed
    have "watermark x R \<le> watermark x (insert s R)"
      using watermark_spec [of "insert s {m \<in> R. watermark x R < m}" "watermark x R"] fin
      unfolding wm by simp
    then show ?thesis
      using False le s R by (auto simp: arecord_def exactly_def raise_def wm Let_def)
  qed
qed

lemma runNext_Cons:
  "runNext rw ps (s # xs) =
     (fst (runNext rw (fst (stepNext rw ps s)) xs),
      snd (stepNext rw ps s) # snd (runNext rw (fst (stepNext rw ps s)) xs))"
  by (simp add: stepNext_def split_beta)

lemma runNext_exact:
  assumes "ps_ok rw ps" "exactly x R (absProd ps)" "list_all seq_ok xs" "inWindow (nat rw) x R xs"
  shows "ps_ok rw (fst (runNext rw ps xs)) \<and>
    exactly x (R \<union> unat ` set xs) (absProd (fst (runNext rw ps xs))) \<and>
    snd (runNext rw ps xs) = repeats R xs"
  using assms
proof (induction xs arbitrary: ps R)
  case Nil
  then show ?case by simp
next
  case (Cons s xs)
  have s: "seq_ok s" using Cons.prems by simp
  note r = stepNext_refines [OF Cons.prems(1) s]
  have e: "exactly x (insert (unat s) R) (absProd (fst (stepNext rw ps s)))"
    "snd (stepNext rw ps s) = (unat s \<in> R)"
    using exactly_step [OF Cons.prems(2)] Cons.prems(4) by (simp_all add: r)
  show ?case
    using Cons.IH [OF r(1) e(1)] Cons.prems(3,4) e(2) by (simp add: runNext_Cons del: runNext.simps)
qed

lemma recordNext_duplicates:
  "duplicates (fst (recordNext rw ps s)) =
     duplicates ps + (if fst (snd (recordNext rw ps s)) then 1 else 0)"
  by (simp add: recordNext_def Let_def)

lemma runNext_duplicates:
  "duplicates (fst (runNext rw ps xs)) = duplicates ps + of_nat (length (filter id (snd (runNext rw ps xs))))"
proof (induction xs arbitrary: ps)
  case (Cons s xs)
  show ?case
    using Cons [of "fst (stepNext rw ps s)"] recordNext_duplicates [of rw ps s]
    by (simp add: runNext_Cons stepNext_def del: runNext.simps)
qed simp

lemma runProducer_simps:
  "fst (runProducer rw x xs) = fst (runNext rw (recordFirst rw x) xs)"
  "snd (runProducer rw x xs) = False # snd (runNext rw (recordFirst rw x) xs)"
  by (simp_all add: runProducer_def split_beta)

lemma exactly_first: "exactly x {x} \<lparr>hi = x, marked = {}, suspect = {}\<rparr>"
  by (simp add: exactly_def watermark_stop)

section \<open>No missing number escapes a bounded jump\<close>

fun boundedJumps :: "int \<Rightarrow> producerState \<Rightarrow> u64 list \<Rightarrow> bool" where
  "boundedJumps rw ps [] = True"
| "boundedJumps rw ps (s # xs) =
     (unat s \<le> unat (highContiguous ps) + 2 * nat rw + 1 \<and>
      boundedJumps rw (fst (stepNext rw ps s)) xs)"

definition covers :: "nat \<Rightarrow> nat set \<Rightarrow> aprod \<Rightarrow> bool" where
  "covers x R a \<longleftrightarrow> marked a \<subseteq> R \<and> (\<forall>j. x < j \<longrightarrow> j \<le> hi a \<longrightarrow> j \<in> R \<or> j \<in> suspect a)"

lemma covers_raise:
  assumes "covers x R a" "finite (marked a)"
  shows "covers x R (raise a)"
proof -
  have "j \<in> R" if "hi a < j" "j \<le> watermark (hi a) (marked a)" for j
    using watermark_below [OF that] assms(1) by (auto simp: covers_def)
  then show ?thesis using assms(1) by (auto simp: covers_def raise_simps not_le [symmetric])
qed

lemma covers_step:
  assumes cov: "covers x R a" and wf: "awf a" and s: "s \<le> hi a + 2 * W + 1"
  shows "covers x (insert s R) (fst (arecord W a s))"
proof -
  have mono: "covers x (insert s R) a" using cov by (auto simp: covers_def)
  have slide: "covers x (insert s R) (aslide W a s)" if "hi a + W < s"
  proof -
    let ?n = "s - W - 1"
    have n: "hi a + min W (?n - hi a) = ?n" if "s \<noteq> hi a + W + 1" using that \<open>hi a + W < s\<close> s by linarith
    show ?thesis
      unfolding aslide_def using mono wf n
      by (auto intro!: covers_raise simp: awf_def simp del: diff_diff_left)
        (auto simp: covers_def awf_def simp del: diff_diff_left)
  qed
  show ?thesis
    using cov mono slide wf unfolding arecord_def
    by (auto intro!: covers_raise simp: awf_def) (auto simp: covers_def)
qed

lemma runNext_covers:
  assumes "ps_ok rw ps" "covers x R (absProd ps)" "list_all seq_ok xs" "boundedJumps rw ps xs"
  shows "covers x (R \<union> unat ` set xs) (absProd (fst (runNext rw ps xs)))"
  using assms
proof (induction xs arbitrary: ps R)
  case (Cons s xs)
  have s: "seq_ok s" using Cons.prems by simp
  note r = stepNext_refines [OF Cons.prems(1) s]
  have "covers x (insert (unat s) R) (absProd (fst (stepNext rw ps s)))"
    using covers_step [OF Cons.prems(2) awf_absProd [OF Cons.prems(1)], of "unat s" "nat rw"] Cons.prems(4)
    by (simp add: r)
  from Cons.IH [OF r(1) this] Cons.prems(3,4)
  show ?case by (simp add: runNext_Cons del: runNext.simps)
qed simp

lemma runNext_ok: "ps_ok rw ps \<Longrightarrow> list_all seq_ok xs \<Longrightarrow> ps_ok rw (fst (runNext rw ps xs))"
  by (induction xs arbitrary: ps) (simp_all add: runNext_Cons stepNext_refines del: runNext.simps(2))

section \<open>How fast suspected losses grow\<close>

lemma card_suspect_arecord:
  assumes "awf a"
  shows "card (suspect (fst (arecord W a s))) \<le> card (suspect a) + W"
proof -
  let ?k = "min W (s - W - 1 - hi a)"
  have "card (suspect a \<union> ({hi a <.. hi a + ?k} - marked a)) \<le> card (suspect a) + card ({hi a <.. hi a + ?k} - marked a)"
    by (rule card_Un_le)
  moreover have "card ({hi a <.. hi a + ?k} - marked a) \<le> W"
    using card_mono [of "{hi a <.. hi a + ?k}" "{hi a <.. hi a + ?k} - marked a"] by simp
  ultimately have "card (suspect a \<union> ({hi a <.. hi a + ?k} - marked a)) \<le> card (suspect a) + W" by linarith
  moreover have "card (suspect a - {s}) \<le> card (suspect a) + W"
    using assms card_mono [of "suspect a" "suspect a - {s}"] by (auto simp: awf_def)
  ultimately show ?thesis by (auto simp: arecord_def aslide_def raise_simps simp del: diff_diff_left)
qed

lemma card_pending: "card (unat ` pendingLost ps) = card (pendingLost ps)"
  by (rule card_image) (auto simp: inj_on_def dest: u64_eqI)

section \<open>Records of several producers\<close>

definition prodOf :: "Tracker \<Rightarrow> string \<Rightarrow> producerState option" where
  "prodOf t pid = map_of (producers t) pid"

lemma gomap_sum_update:
  "wf_gomap m \<Longrightarrow> gomap_sum f (AList.update k v m) =
     gomap_sum f m + f v - (case map_of m k of None \<Rightarrow> 0 | Some u \<Rightarrow> f u)"
  by (induction m) (auto simp: wf_gomap_def algebra_simps split: option.splits)

lemma recordFirst_counts:
  "received (recordFirst rw s) = 1" "duplicates (recordFirst rw s) = 0" "outOfOrder (recordFirst rw s) = 0"
  by (simp_all add: recordFirst_def newProducer_def)

lemma recordNext_counts:
  "received (fst (recordNext rw ps s)) = received ps + 1"
  "outOfOrder (fst (recordNext rw ps s)) = outOfOrder ps + (if snd (snd (recordNext rw ps s)) then 1 else 0)"
  by (simp_all add: recordNext_def Let_def)

lemma Record_alt:
  "Record t pid s = (case prodOf t pid of
     None \<Rightarrow> (t\<lparr>producers := AList.update pid (recordFirst (reorderWindow t) s) (producers t)\<rparr>, False, False)
   | Some ps \<Rightarrow> (t\<lparr>producers := AList.update pid (fst (recordNext (reorderWindow t) ps s)) (producers t)\<rparr>,
       snd (recordNext (reorderWindow t) ps s)))"
  by (simp add: Record_def prodOf_def split_beta split: option.splits)

lemma Record_prodOf:
  "prodOf (fst (Record t pid s)) q =
     (if q = pid then Some (case prodOf t pid of None \<Rightarrow> recordFirst (reorderWindow t) s
                            | Some ps \<Rightarrow> fst (recordNext (reorderWindow t) ps s))
      else prodOf t q)"
  by (simp add: Record_alt prodOf_def update_conv' split: option.splits)

lemma Record_window [simp]: "reorderWindow (fst (Record t pid s)) = reorderWindow t"
  by (simp add: Record_alt split: option.splits)

lemma wf_Record [simp]: "wf_gomap (producers t) \<Longrightarrow> wf_gomap (producers (fst (Record t pid s)))"
  by (simp add: Record_alt split: option.splits)

section \<open>Gap reports over an interleaving\<close>

text \<open>Any interleaving of deliveries, gap scans and resets, with the losses reported per
  producer so far as a ghost counter: a scan adds the deltas it returns.\<close>

definition addDeltas :: "(string, u64) gomap \<Rightarrow> (string \<Rightarrow> nat) \<Rightarrow> string \<Rightarrow> nat" where
  "addDeltas gaps rep pid = rep pid + (case map_of gaps pid of None \<Rightarrow> 0 | Some d \<Rightarrow> unat d)"

inductive trackStep :: "Tracker \<times> (string \<Rightarrow> nat) \<Rightarrow> Tracker \<times> (string \<Rightarrow> nat) \<Rightarrow> bool" where
  deliver: "trackStep (t, rep) (fst (Record t pid s), rep)"
| scan: "trackStep (t, rep) (fst (DetectGaps t), addDeltas (snd (DetectGaps t)) rep)"
| reset: "trackStep (t, rep) (Reset t, rep)"

definition reported_ok :: "Tracker \<times> (string \<Rightarrow> nat) \<Rightarrow> bool" where
  "reported_ok = (\<lambda>(t, rep). wf_gomap (producers t) \<and>
     (\<forall>pid ps. prodOf t pid = Some ps \<longrightarrow> unat (lastReportedLost ps) \<le> rep pid))"

lemma map_of_mapped: "map_of (map (\<lambda>(k, v). (k, f v)) m) k = map_option f (map_of m k)"
  by (induction m) auto

lemma DetectGaps_prodOf:
  "prodOf (fst (DetectGaps t)) pid = map_option (\<lambda>ps. ps\<lparr>lastReportedLost := confirmedLost ps\<rparr>) (prodOf t pid)"
  by (simp add: DetectGaps_def prodOf_def map_of_mapped)

lemma DetectGaps_delta:
  assumes "wf_gomap (producers t)"
  shows "map_of (snd (DetectGaps t)) pid =
    (case prodOf t pid of None \<Rightarrow> None
     | Some ps \<Rightarrow> if lastReportedLost ps < confirmedLost ps
                 then Some (confirmedLost ps - lastReportedLost ps) else None)"
proof -
  have "map_of (filter (\<lambda>(pid, ps). lastReportedLost ps < confirmedLost ps) m) pid =
    (case map_of m pid of None \<Rightarrow> None | Some ps \<Rightarrow> if lastReportedLost ps < confirmedLost ps then Some ps else None)"
    if "wf_gomap m" for m
    using that by (induction m) (auto simp: wf_gomap_def map_of_eq_None_iff [symmetric] split: option.splits)
  from this [OF assms] show ?thesis
    by (simp add: DetectGaps_def map_of_mapped prodOf_def split: option.splits)
qed

lemma wf_DetectGaps: "wf_gomap (producers t) \<Longrightarrow> wf_gomap (producers (fst (DetectGaps t)))"
  by (simp add: DetectGaps_def wf_gomap_def map_map comp_def split_beta)

lemma scan_reported:
  assumes "reported_ok (t, rep)" "prodOf t pid = Some ps"
  shows "unat (confirmedLost ps) \<le> addDeltas (snd (DetectGaps t)) rep pid"
proof -
  have wf: "wf_gomap (producers t)" and le: "unat (lastReportedLost ps) \<le> rep pid"
    using assms by (auto simp: reported_ok_def)
  show ?thesis
  proof (cases "lastReportedLost ps < confirmedLost ps")
    case True
    then have "unat (confirmedLost ps - lastReportedLost ps) = unat (confirmedLost ps) - unat (lastReportedLost ps)"
      by (intro unat_sub_le) simp
    then show ?thesis using True le assms(2) by (simp add: addDeltas_def DetectGaps_delta [OF wf])
  next
    case False
    then show ?thesis using le assms(2)
      by (simp add: addDeltas_def DetectGaps_delta [OF wf] word_less_nat_alt)
  qed
qed

lemma recordFirst_lastReported [simp]: "lastReportedLost (recordFirst rw s) = 0"
  by (simp add: recordFirst_def newProducer_def)

lemma recordNext_lastReported [simp]: "lastReportedLost (fst (recordNext rw ps s)) = lastReportedLost ps"
  by (simp add: recordNext_def Let_def)

lemma trackStep_reported: "trackStep x y \<Longrightarrow> reported_ok x \<Longrightarrow> reported_ok y"
proof (induction rule: trackStep.induct)
  case (deliver t rep pid s)
  then show ?case by (auto simp: reported_ok_def Record_prodOf split: option.splits)
next
  case (scan t rep)
  then show ?case
    using scan_reported [OF scan] by (auto simp: reported_ok_def DetectGaps_prodOf wf_DetectGaps)
next
  case (reset t rep)
  then show ?case by (simp add: reported_ok_def Reset_def prodOf_def)
qed

lemma reachable_reported:
  assumes "trackStep\<^sup>*\<^sup>* (New w, \<lambda>_. 0) y"
  shows "reported_ok y"
  using assms
proof induction
  case base
  show ?case by (simp add: reported_ok_def New_def prodOf_def)
next
  case (step y z)
  then show ?case by (blast intro: trackStep_reported)
qed

section \<open>The whole tracker against an abstract one\<close>

text \<open>The calls the workers and the engine make of a tracker, in any order, and what each answers: the two
  flags of a delivery, or the new losses per producer.\<close>

datatype tcall = CallRecord string u64 | CallDetectGaps | CallReset

datatype tanswer = Flags bool bool | NewLosses "string \<Rightarrow> nat option" | Done

fun callTracker :: "tcall \<Rightarrow> Tracker \<Rightarrow> tanswer \<times> Tracker" where
  "callTracker (CallRecord pid s) t = (let (t', dup, ooo) = Record t pid s in (Flags dup ooo, t'))"
| "callTracker CallDetectGaps t = (let (t', gaps) = DetectGaps t in (NewLosses (\<lambda>pid. map_option unat (map_of gaps pid)), t'))"
| "callTracker CallReset t = (Done, Reset t)"

text \<open>The specification keeps for each producer the abstract state of \<open>TrackerSpec\<close>, the number of suspected
  losses already reported and the number delivered last.\<close>

type_synonym atracker = "string \<Rightarrow> (aprod \<times> nat \<times> nat) option"

definition freshLoss :: "aprod \<times> nat \<times> nat \<Rightarrow> nat option" where
  "freshLoss = (\<lambda>(a, reported, _). if reported < card (suspect a) then Some (card (suspect a) - reported) else None)"

fun acall :: "nat \<Rightarrow> tcall \<Rightarrow> atracker \<Rightarrow> tanswer \<times> atracker" where
  "acall W (CallRecord pid s) m =
     (case m pid of
        None \<Rightarrow> (Flags False False, m(pid \<mapsto> (\<lparr>hi = unat s, marked = {}, suspect = {}\<rparr>, 0, unat s)))
      | Some (a, reported, latest) \<Rightarrow>
          (let (a', dup) = arecord W a (unat s) in (Flags dup (unat s < latest), m(pid \<mapsto> (a', reported, unat s)))))"
| "acall W CallDetectGaps m =
     (NewLosses (\<lambda>pid. Option.bind (m pid) freshLoss),
      \<lambda>pid. map_option (\<lambda>(a, _, latest). (a, card (suspect a), latest)) (m pid))"
| "acall W CallReset m = (Done, \<lambda>_. None)"

fun answers_of :: "('c \<Rightarrow> 's \<Rightarrow> 'a \<times> 's) \<Rightarrow> 'c list \<Rightarrow> 's \<Rightarrow> 'a list" where
  "answers_of step [] s = []"
| "answers_of step (c # cs) s = (let (a, s') = step c s in a # answers_of step cs s')"

definition member_rel :: "int \<Rightarrow> producerState \<Rightarrow> aprod \<times> nat \<times> nat \<Rightarrow> bool" where
  "member_rel rw ps x \<longleftrightarrow> ps_ok rw ps \<and> x = (absProd ps, unat (lastReportedLost ps), unat (lastSeen ps))"

definition tracker_rel :: "int \<Rightarrow> Tracker \<Rightarrow> atracker \<Rightarrow> bool" where
  "tracker_rel rw t m \<longleftrightarrow> reorderWindow t = rw \<and> wf_gomap (producers t) \<and> (\<forall>pid. rel_option (member_rel rw) (prodOf t pid) (m pid))"

lemma recordNext_seen: "lastSeen (fst (recordNext rw ps s)) = s" "snd (snd (recordNext rw ps s)) = (s < lastSeen ps)"
  by (simp_all add: recordNext_def Let_def)

lemma unat_lost: "ps_ok rw ps \<Longrightarrow> card (unat ` pendingLost ps) = unat (confirmedLost ps)"
proof -
  assume ok: "ps_ok rw ps"
  have "unat ` pendingLost ps \<subseteq> {..< 2 ^ 62}" using ok by (auto simp: ps_ok_def window_ok_def word_le_nat_alt)
  then have "card (pendingLost ps) \<le> 2 ^ 62" using card_mono [of "{..< 2 ^ 62}" "unat ` pendingLost ps"] by (simp add: card_pending)
  then show ?thesis using ok by (simp add: ps_ok_def card_pending unat_of_nat_small)
qed

lemma record_member:
  assumes "member_rel rw ps (a, reported, latest)" "seq_ok s"
  shows "member_rel rw (fst (recordNext rw ps s)) (fst (arecord (nat rw) a (unat s)), reported, unat s)"
    "snd (recordNext rw ps s) = (snd (arecord (nat rw) a (unat s)), unat s < latest)"
  using stepNext_refines [of rw ps s] assms recordNext_seen [of rw ps s]
  by (auto simp: member_rel_def stepNext_def prod_eq_iff word_less_nat_alt)

lemma callTracker_refines:
  assumes "tracker_rel rw t m" "1 \<le> rw" "rw < 2 ^ 62" "\<And>pid s. c = CallRecord pid s \<Longrightarrow> seq_ok s"
  shows "fst (callTracker c t) = fst (acall (nat rw) c m) \<and> tracker_rel rw (snd (callTracker c t)) (snd (acall (nat rw) c m))"
proof (cases c)
  case (CallRecord pid s)
  then have s: "seq_ok s" using assms(4) by blast
  have r: "rel_option (member_rel rw) (prodOf t pid) (m pid)" and w: "reorderWindow t = rw" "wf_gomap (producers t)"
    using assms(1) by (simp_all add: tracker_rel_def)
  show ?thesis
  proof (cases "m pid")
    case None
    then have "prodOf t pid = None" using r by (cases "prodOf t pid") simp_all
    moreover have "member_rel rw (recordFirst rw s) (\<lparr>hi = unat s, marked = {}, suspect = {}\<rparr>, 0, unat s)"
      using recordFirst_refines [OF assms(2,3) s] assms(2) by (simp add: member_rel_def recordFirst_state newProducer_def)
    ultimately show ?thesis using assms(1) None w CallRecord wf_Record [OF w(2), of pid s]
      by (auto simp: tracker_rel_def Record_prodOf split_beta Let_def) (simp_all add: Record_alt)
  next
    case (Some x)
    obtain a reported latest where x: "x = (a, reported, latest)" by (metis prod_cases3)
    obtain ps where ps: "prodOf t pid = Some ps" "member_rel rw ps (a, reported, latest)"
      using r Some x by (cases "prodOf t pid") simp_all
    note st = record_member [OF ps(2) s]
    have e: "Record t pid s = (fst (Record t pid s), snd (recordNext rw ps s))" by (simp add: Record_alt ps(1) w(1))
    have rel: "tracker_rel rw (fst (Record t pid s)) (m(pid \<mapsto> (fst (arecord (nat rw) a (unat s)), reported, unat s)))"
      using assms(1) st(1) w wf_Record [OF w(2), of pid s] ps(1) by (auto simp: tracker_rel_def Record_prodOf)
    show ?thesis unfolding CallRecord using rel st(2) Some x
      by (subst (1 2) callTracker.simps, subst (1 2) e) (simp add: split_beta Let_def)
  qed
next
  case CallDetectGaps
  have d: "map_option unat (map_of (snd (DetectGaps t)) pid) = Option.bind (m pid) freshLoss" for pid
  proof -
    have "rel_option (member_rel rw) (prodOf t pid) (m pid)" "wf_gomap (producers t)" using assms(1) by (simp_all add: tracker_rel_def)
    then show ?thesis
      by (cases "prodOf t pid"; cases "m pid")
        (auto simp: DetectGaps_delta member_rel_def freshLoss_def word_less_nat_alt word_le_nat_alt unat_lost unat_sub_le)
  qed
  have "ps_ok rw (ps\<lparr>lastReportedLost := n\<rparr>) = ps_ok rw ps" "absProd (ps\<lparr>lastReportedLost := n\<rparr>) = absProd ps" for ps n
    by (simp_all add: ps_ok_def window_ok_def marksOf_def absProd_def)
  then have "rel_option (member_rel rw) (prodOf (fst (DetectGaps t)) pid) (map_option (\<lambda>(a, _, latest). (a, card (suspect a), latest)) (m pid))" for pid
    using assms(1) by (cases "prodOf t pid"; cases "m pid")
      (auto simp: tracker_rel_def DetectGaps_prodOf member_rel_def unat_lost dest!: spec [of _ pid])
  then show ?thesis using assms(1) d CallDetectGaps
    by (auto simp: tracker_rel_def split_beta Let_def wf_DetectGaps) (simp add: DetectGaps_def)
next
  case CallReset
  then show ?thesis using assms(1) by (simp add: tracker_rel_def Reset_def prodOf_def)
qed

lemma answers_refine:
  assumes "tracker_rel rw t m" "1 \<le> rw" "rw < 2 ^ 62" "\<forall>pid s. CallRecord pid s \<in> set cs \<longrightarrow> seq_ok s"
  shows "answers_of callTracker cs t = answers_of (acall (nat rw)) cs m"
  using assms(1,4)
proof (induction cs arbitrary: t m)
  case (Cons c cs)
  have "fst (callTracker c t) = fst (acall (nat rw) c m)" "tracker_rel rw (snd (callTracker c t)) (snd (acall (nat rw) c m))"
    using callTracker_refines [OF Cons.prems(1) assms(2,3), of c] Cons.prems(2) by auto
  then show ?case using Cons by (simp add: split_beta Let_def)
qed simp

section \<open>Properties\<close>

text \<open>C1: Refinement. For a producer state that satisfies the representation invariant and a
  sequence number below 2^62, one \<^verbatim>\<open>Record\<close> on the bitset keeps the invariant, moves the
  abstract state (watermark, numbers received above it, suspected losses) exactly as the
  set-based tracker does, and returns the same duplicate flag.\<close>

theorem recordNext_refines_arecord:
  assumes "ps_ok rw ps" "unat seq < 2 ^ 62"
  shows "ps_ok rw (fst (recordNext rw ps seq)) \<and>
    arecord (nat rw) (absProd ps) (unat seq) =
      (absProd (fst (recordNext rw ps seq)), fst (snd (recordNext rw ps seq)))"
  using stepNext_refines [of rw ps seq] assms by (simp add: seq_ok_def stepNext_def prod_eq_iff)

theorem recordNext_refines_arecord_witness:
  "ps_ok 4 (fst (recordNext 4 (recordFirst 4 7) 9)) \<and>
    arecord (nat 4) (absProd (recordFirst 4 7)) (unat (9 :: u64)) =
      (absProd (fst (recordNext 4 (recordFirst 4 7) 9)), fst (snd (recordNext 4 (recordFirst 4 7) 9)))"
  using recordNext_refines_arecord [of 4 "recordFirst 4 7" 9] recordFirst_refines(1) [of 4 7]
  by (simp add: seq_ok_def)

text \<open>C2: Exactness inside the reorder window. When every delivery of a run lies at or above
  the first number and at most \<^verbatim>\<open>reorderWindow\<close> above the contiguous prefix, in any order
  and with any redeliveries, \<^verbatim>\<open>Record\<close> flags exactly the repeated deliveries, the duplicate
  counter is their number, no loss is reported and the watermark is the end of the
  contiguous prefix.\<close>

theorem runProducer_exact:
  assumes "1 \<le> rw" "rw < 2 ^ 62" "list_all seq_ok (x # xs)"
    and "inWindow (nat rw) (unat x) {unat x} xs"
  shows "snd (runProducer rw x xs) = False # repeats {unat x} xs \<and>
    duplicates (fst (runProducer rw x xs)) = of_nat (length (filter id (repeats {unat x} xs))) \<and>
    pendingLost (fst (runProducer rw x xs)) = {} \<and> confirmedLost (fst (runProducer rw x xs)) = 0 \<and>
    unat (highContiguous (fst (runProducer rw x xs))) = watermark (unat x) (unat ` set (x # xs))"
proof -
  have f: "ps_ok rw (recordFirst rw x)" "exactly (unat x) {unat x} (absProd (recordFirst rw x))"
    using recordFirst_refines [of rw x] assms exactly_first by simp_all
  let ?r = "runNext rw (recordFirst rw x) xs"
  have r: "ps_ok rw (fst ?r)" "exactly (unat x) ({unat x} \<union> unat ` set xs) (absProd (fst ?r))"
    "snd ?r = repeats {unat x} xs"
    using runNext_exact [OF f] assms(3,4) by simp_all
  have "hi (absProd (fst ?r)) = watermark (unat x) ({unat x} \<union> unat ` set xs)"
    "suspect (absProd (fst ?r)) = {}"
    using r(2) unfolding exactly_def by simp_all
  moreover have "duplicates (fst ?r) = of_nat (length (filter id (repeats {unat x} xs)))"
    using runNext_duplicates [of rw "recordFirst rw x" xs] by (simp add: r recordFirst_counts)
  ultimately show ?thesis
    using r by (simp add: runProducer_simps ps_ok_def)
qed

theorem runProducer_exact_witness:
  "snd (runProducer 4 10 [12, 11, 12, 14]) = [False, False, False, True, False]
   \<and> duplicates (fst (runProducer 4 10 [12, 11, 12, 14])) = 1"
proof -
  have "inWindow (nat 4) (unat (10 :: u64)) {unat (10 :: u64)} [12, 11, 12, 14]"
    by (simp add: watermark_stop watermark_step)
  then show ?thesis
    using runProducer_exact [of 4 10 "[12, 11, 12, 14]"] by (simp add: seq_ok_def)
qed

text \<open>C3: Safety of loss reports. Once a delivery has arrived no further than
  \<^verbatim>\<open>reorderWindow\<close> above the watermark, no later run, whatever it contains, makes the
  tracker suspect that number lost, and a redelivery of it that is still within reach is
  flagged as a duplicate.\<close>

theorem delivered_in_window_never_lost:
  assumes "ps_ok rw ps" "list_all seq_ok (x # xs)"
    and "unat x \<le> unat (highContiguous ps) + nat rw"
  defines "ps' \<equiv> fst (runNext rw ps (x # xs))"
  shows "x \<notin> pendingLost ps' \<and>
    (unat x \<le> unat (highContiguous ps') + nat rw \<longrightarrow> fst (snd (recordNext rw ps' x)))"
proof -
  have run: "fst (runNext rw ps ys) = tr.run rw ys ps" for ps ys
    by (induction ys arbitrary: ps)
      (simp_all add: tr.run_def runNext_Cons del: runNext.simps(2))
  have ok: "ps_ok rw ps'" unfolding ps'_def using assms(1,2) by (rule runNext_ok)
  have "counted ps' x"
    using tr.sett_after [OF assms(1,2)] assms(3) by (simp add: ps'_def run inReach_def del: runNext.simps)
  moreover have "x \<notin> pendingLost ps'" if "\<not> x \<le> highContiguous ps'" using ok that by (auto simp: ps_ok_def)
  moreover have "snd (stepNext rw ps' x) = counted ps' x" if "inReach rw ps' x"
    using tr.rec_flag [OF ok _ that] assms(2) by simp
  ultimately show ?thesis
    using counted_iff [OF ok] by (auto simp: inReach_def stepNext_def split: if_splits)
qed

theorem delivered_in_window_never_lost_witness:
  "5 \<notin> pendingLost (fst (runNext 4 (recordFirst 4 3) [5, 900, 40, 2000]))"
  using delivered_in_window_never_lost [of 4 "recordFirst 4 3" 5 "[900, 40, 2000]"]
    recordFirst_refines(1) [of 4 3]
  by (simp add: seq_ok_def recordFirst_state newProducer_def)

text \<open>C30: Completeness of loss detection. In a run where no delivery jumps more than twice the
  window plus one above the watermark, every number between the first delivery and the
  final watermark that was never delivered is in the suspected-loss set, so the reported
  loss is at least the number of missing messages.\<close>

theorem missing_is_suspected:
  assumes "1 \<le> rw" "rw < 2 ^ 62" "list_all seq_ok (x # xs)"
    and "boundedJumps rw (recordFirst rw x) xs"
    and "x < s" "s \<le> highContiguous (fst (runProducer rw x xs))" "s \<notin> set xs"
  shows "s \<in> pendingLost (fst (runProducer rw x xs))"
proof -
  let ?ps = "recordFirst rw x"
  note f = recordFirst_refines [OF assms(1,2), of x]
  have first: "covers (unat x) {unat x} (absProd ?ps)" using f(2) assms(3) by (auto simp: covers_def)
  have "covers (unat x) ({unat x} \<union> unat ` set xs) (absProd (fst (runNext rw ?ps xs)))"
    using runNext_covers [OF f(1) first _ assms(4)] assms(3) by simp
  then have "unat s \<in> {unat x} \<union> unat ` set xs \<or> unat s \<in> unat ` pendingLost (fst (runNext rw ?ps xs))"
    using assms(5,6) by (auto simp: covers_def runProducer_simps word_less_nat_alt word_le_nat_alt)
  moreover have "unat s \<in> unat ` A \<longleftrightarrow> s \<in> A" for A by (auto simp: image_iff dest: u64_eqI)
  ultimately show ?thesis using assms(5,7) by (auto simp: runProducer_simps dest: u64_eqI)
qed

theorem missing_is_suspected_witness:
  "2 \<in> pendingLost (fst (runProducer 4 1 [8]))"
proof (rule missing_is_suspected)
  show "boundedJumps 4 (recordFirst 4 1) [8]" by (simp add: recordFirst_state)
  show "2 \<le> highContiguous (fst (runProducer 4 1 [8]))" by code_simp
qed (simp_all add: seq_ok_def)

text \<open>Late arrivals. A number the tracker suspects lost that arrives after all is not a
  duplicate, leaves the suspected set and lowers the loss by one; its next redelivery is a
  duplicate and leaves the loss unchanged.\<close>

theorem late_arrival_recovers:
  assumes "ps_ok rw ps" "s \<in> pendingLost ps"
  defines "r \<equiv> recordNext rw ps s" and "r2 \<equiv> recordNext rw (fst (recordNext rw ps s)) s"
  shows "\<not> fst (snd r) \<and> pendingLost (fst r) = pendingLost ps - {s} \<and>
    confirmedLost (fst r) = confirmedLost ps - 1 \<and>
    fst (snd r2) \<and> confirmedLost (fst r2) = confirmedLost (fst r)"
proof -
  have le: "s \<le> highContiguous ps" using assms by (auto simp: ps_ok_def)
  have card: "card (pendingLost ps) = Suc (card (pendingLost ps - {s}))"
    by (rule card.remove [OF _ assms(2)]) (rule finite)
  have "confirmedLost ps = of_nat (card (pendingLost ps))" using assms(1) by (simp add: ps_ok_def)
  then have "confirmedLost ps - 1 = of_nat (card (pendingLost ps - {s}))"
    unfolding card by simp
  moreover have "r = ((touch ps s)\<lparr>pendingLost := pendingLost ps - {s},
      confirmedLost := of_nat (card (pendingLost ps - {s}))\<rparr>, False, s < lastSeen ps)"
    unfolding r_def using le assms(2) by (rule recordNext_below)
  moreover have "r2 = ((touch (fst r) s)\<lparr>duplicates := duplicates (fst r) + 1\<rparr>, True, s < lastSeen (fst r))"
    unfolding r2_def r_def [symmetric] by (rule recordNext_dup) (simp_all add: calculation le)
  ultimately show ?thesis by simp
qed

theorem late_arrival_recovers_witness:
  "pendingLost (fst (recordNext 4 (fst (runProducer 4 1 [8])) 2)) = pendingLost (fst (runProducer 4 1 [8])) - {2}
   \<and> \<not> fst (snd (recordNext 4 (fst (runProducer 4 1 [8])) 2))"
proof -
  have "ps_ok 4 (fst (runProducer 4 1 [8]))"
    unfolding runProducer_simps
    by (intro runNext_ok recordFirst_refines(1)) (simp_all add: seq_ok_def)
  moreover have "2 \<in> pendingLost (fst (runProducer 4 1 [8]))" by code_simp
  ultimately show ?thesis using late_arrival_recovers [of 4 "fst (runProducer 4 1 [8])" 2] by simp
qed

text \<open>C31: Bounds. The loss counter is always the number of suspected losses, and one
  \<^verbatim>\<open>Record\<close> raises that number by at most the reorder window, however far the delivery
  jumps.\<close>

theorem loss_growth_bounded:
  assumes "ps_ok rw ps" "seq_ok s"
  defines "ps' \<equiv> fst (recordNext rw ps s)"
  shows "confirmedLost ps' = of_nat (card (pendingLost ps')) \<and>
    card (pendingLost ps') \<le> card (pendingLost ps) + nat rw"
proof -
  note r = stepNext_refines [OF assms(1,2)]
  have "ps' = fst (stepNext rw ps s)" by (simp add: ps'_def stepNext_def)
  with r have "ps_ok rw ps'" "absProd ps' = fst (arecord (nat rw) (absProd ps) (unat s))" by simp_all
  then show ?thesis
    using card_suspect_arecord [OF awf_absProd [OF assms(1)], of "nat rw" "unat s"]
    by (simp add: card_pending ps_ok_def flip: card_pending [of ps'] absProd_select(3) [of ps'])
qed

theorem loss_growth_bounded_witness:
  "card (pendingLost (fst (recordNext 4 (recordFirst 4 1) 1000))) \<le> card (pendingLost (recordFirst 4 1)) + nat 4"
  using loss_growth_bounded [of 4 "recordFirst 4 1" 1000] recordFirst_refines(1) [of 4 1]
  by (simp add: seq_ok_def)

text \<open>A delivery that jumps past the window is not remembered. Recording a number more
  than \<^verbatim>\<open>reorderWindow\<close> above the watermark slides the window to end just below that
  number, so its own bit is outside the window: an immediate redelivery of it is not
  flagged as a duplicate either.\<close>

theorem jump_not_remembered:
  assumes "ps_ok rw ps" "seq_ok s" "unat (highContiguous ps) + nat rw < unat s"
  defines "r \<equiv> recordNext rw ps s"
  shows "\<not> fst (snd r) \<and> unat s \<notin> marksOf (fst r) \<and> highContiguous (fst r) < s \<and>
    \<not> fst (snd (recordNext rw (fst r) s))"
proof -
  let ?a = "absProd ps" and ?a' = "fst (arecord (nat rw) (absProd ps) (unat s))"
  note n = stepNext_refines [OF assms(1,2)]
  have r: "ps_ok rw (fst r)" "absProd (fst r) = ?a'" "fst (snd r) = snd (arecord (nat rw) ?a (unat s))"
    using n by (simp_all add: r_def stepNext_def)
  have top: "m < unat s" if "m \<in> marksOf ps" for m
  proof -
    have "int (m - unat (highContiguous ps) - 1) < rw"
      using assms(1) that unfolding ps_ok_def window_ok_def marksOf_iff by blast
    then show ?thesis using assms(3) by linarith
  qed
  have wm: "watermark h M < unat s" if "h < unat s" "unat s \<notin> M" for h M
    using that watermark_below [of h "unat s" M] by (meson not_le)
  have m: "unat s \<notin> marked ?a'" "hi ?a' < unat s"
    using assms(3) top [of "unat s"] by (auto simp: arecord_def aslide_def raise_simps intro!: wm)
  then have "unat s \<notin> marksOf (fst r)" "unat (highContiguous (fst r)) < unat s"
    using r(2) by (metis absProd_select)+
  moreover have "\<not> fst (snd (recordNext rw (fst r) s))"
    using stepNext_refines(3) [OF r(1) assms(2)] m r(2) by (simp add: stepNext_def arecord_def)
  ultimately show ?thesis using r(3) assms(3) by (simp add: arecord_def word_less_nat_alt)
qed

theorem jump_not_remembered_witness:
  "\<not> fst (snd (recordNext 4 (fst (recordNext 4 (recordFirst 4 1) 6)) 6))"
  using jump_not_remembered [of 4 "recordFirst 4 1" 6] recordFirst_refines(1) [of 4 1]
  by (simp add: seq_ok_def recordFirst_state)

text \<open>A false loss. With a window of one, five messages each delivered exactly once, the
  third overtaking the second, end with one confirmed loss and no duplicate: the overtaking
  delivery was never marked and is reported lost when the window moves over it.\<close>

theorem false_loss_run:
  "confirmedLost (fst (runProducer 1 1 [3, 2, 4, 5])) = 1 \<and>
   pendingLost (fst (runProducer 1 1 [3, 2, 4, 5])) = {3} \<and>
   snd (runProducer 1 1 [3, 2, 4, 5]) = [False, False, False, False, False]"
  by code_simp

text \<open>Counting across producers. Whatever the state, one \<^verbatim>\<open>Record\<close> adds one to
  \<^verbatim>\<open>TotalReceived\<close>, adds one to \<^verbatim>\<open>TotalDuplicates\<close> and \<^verbatim>\<open>TotalOutOfOrder\<close> exactly when it
  returns the flag, and leaves every other producer's state alone.\<close>

theorem Record_counts:
  assumes "wf_gomap (producers t)" "Record t pid s = (t', fl)"
  shows "TotalReceived t' = TotalReceived t + 1 \<and>
    TotalDuplicates t' = TotalDuplicates t + (if fst fl then 1 else 0) \<and>
    TotalOutOfOrder t' = TotalOutOfOrder t + (if snd fl then 1 else 0) \<and>
    (\<forall>q. q \<noteq> pid \<longrightarrow> prodOf t' q = prodOf t q)"
  using assms
  by (auto simp: Record_alt TotalReceived_def TotalDuplicates_def TotalOutOfOrder_def trackerSum_def
      gomap_sum_update recordFirst_counts recordNext_counts recordNext_duplicates prodOf_def update_conv'
      split: option.splits)

theorem Record_counts_witness:
  "TotalReceived (fst (Record (New 4) ''p'' 7)) = 1"
  using Record_counts [of "New 4" "''p''" 7] by (simp add: Record_def New_def TotalReceived_def trackerSum_def)

text \<open>C4: No loss goes unreported. In every interleaving of deliveries, gap scans and resets
  from a fresh tracker, the deltas \<^verbatim>\<open>DetectGaps\<close> has returned for a producer add up, after a
  scan, to at least the producer's current confirmed loss, and a second scan with no
  delivery in between returns nothing.\<close>

theorem gap_reports_cover_loss:
  assumes "trackStep\<^sup>*\<^sup>* (New w, \<lambda>_. 0) (t, rep)" "prodOf t pid = Some ps"
  shows "unat (confirmedLost ps) \<le> addDeltas (snd (DetectGaps t)) rep pid \<and>
    snd (DetectGaps (fst (DetectGaps t))) = []"
  using scan_reported [OF reachable_reported [OF assms(1)] assms(2)]
  by (simp add: DetectGaps_def split_beta)

theorem gap_reports_cover_loss_witness:
  "unat (confirmedLost (recordFirst 4 7))
     \<le> addDeltas (snd (DetectGaps (fst (Record (New 4) ''p'' 7)))) (\<lambda>_. 0) ''p''"
proof -
  have "trackStep\<^sup>*\<^sup>* (New 4, \<lambda>_. 0) (fst (Record (New 4) ''p'' 7), \<lambda>_. 0)"
    by (rule r_into_rtranclp) (rule trackStep.deliver)
  moreover have "prodOf (fst (Record (New 4) ''p'' 7)) ''p'' = Some (recordFirst 4 7)"
    unfolding Record_prodOf by (simp add: New_def prodOf_def)
  ultimately show ?thesis by (rule gap_reports_cover_loss [THEN conjunct1])
qed



end
