(* ===== verification/GoStrings.thy ===== *)
theory GoStrings
  imports Prelude
begin

text \<open>
  The functions of Go's \<^verbatim>\<open>strconv\<close>, \<^verbatim>\<open>strings\<close> and \<^verbatim>\<open>fmt\<close> that the sources call, on byte
  strings: decimal and hexadecimal formatting, padded verbs, integer parsing with its
  syntax and range errors, prefixes, splitting and trimming. A Go string is a list of
  bytes, so Isabelle's \<open>string\<close> represents it exactly; an error result is \<open>None\<close>.
\<close>

section \<open>Digits and formatting\<close>

definition digitChar :: "nat \<Rightarrow> char" where
  "digitChar d = (if d < 10 then char_of (48 + d) else char_of (87 + d))"

definition digitVal :: "char \<Rightarrow> nat option" where
  "digitVal c = (let n = of_char c :: nat in if 48 \<le> n \<and> n \<le> 57 then Some (n - 48) else None)"

fun formatBase :: "nat \<Rightarrow> nat \<Rightarrow> string" where
  "formatBase b n = (if n < b \<or> b < 2 then [digitChar n] else formatBase b (n div b) @ [digitChar (n mod b)])"

declare formatBase.simps [simp del]

definition FormatUint :: "u64 \<Rightarrow> string" where
  "FormatUint v = formatBase 10 (unat v)"

definition FormatInt :: "int \<Rightarrow> string" where
  "FormatInt i = (if i < 0 then CHR ''-'' # formatBase 10 (nat (- i)) else formatBase 10 (nat i))"

definition padZero :: "nat \<Rightarrow> string \<Rightarrow> string" where
  "padZero w s = replicate (w - length s) (CHR ''0'') @ s"

text \<open>\<^verbatim>\<open>%0wd\<close> keeps the sign first and pads the digits to the total width; \<^verbatim>\<open>%0wx\<close> pads the
  hexadecimal digits of an unsigned value.\<close>

definition sprintfD :: "nat \<Rightarrow> int \<Rightarrow> string" where
  "sprintfD w i = (if i < 0 then CHR ''-'' # padZero (w - 1) (formatBase 10 (nat (- i)))
                   else padZero w (formatBase 10 (nat i)))"

definition sprintfX :: "nat \<Rightarrow> nat \<Rightarrow> string" where
  "sprintfX w n = padZero w (formatBase 16 n)"

section \<open>Parsing\<close>

fun parseDigits :: "nat \<Rightarrow> string \<Rightarrow> nat option" where
  "parseDigits acc [] = Some acc"
| "parseDigits acc (c # cs) =
     (case digitVal c of None \<Rightarrow> None
      | Some d \<Rightarrow> if acc * 10 + d \<ge> 2 ^ 64 then None else parseDigits (acc * 10 + d) cs)"

definition ParseUint :: "string \<Rightarrow> u64 option" where
  "ParseUint s = (if s = [] then None else map_option of_nat (parseDigits 0 s))"

definition ParseInt :: "string \<Rightarrow> int option" where
  "ParseInt s =
     (case s of [] \<Rightarrow> None
      | c # cs \<Rightarrow>
         (let neg = (c = CHR ''-''); body = (if c = CHR ''-'' \<or> c = CHR ''+'' then cs else s) in
          case (if body = [] then None else parseDigits 0 body) of
            None \<Rightarrow> None
          | Some n \<Rightarrow> if \<not> neg \<and> n \<ge> 2 ^ 63 then None
                      else if neg \<and> n > 2 ^ 63 then None
                      else Some (if neg then - int n else int n)))"

abbreviation Atoi :: "string \<Rightarrow> int option" where
  "Atoi \<equiv> ParseInt"

section \<open>Prefixes, splitting, trimming\<close>

fun HasPrefix :: "string \<Rightarrow> string \<Rightarrow> bool" where
  "HasPrefix s [] = True"
| "HasPrefix [] (p # ps) = False"
| "HasPrefix (c # cs) (p # ps) = (c = p \<and> HasPrefix cs ps)"

fun Contains :: "string \<Rightarrow> string \<Rightarrow> bool" where
  "Contains [] sub = (sub = [])"
| "Contains (c # cs) sub = (HasPrefix (c # cs) sub \<or> Contains cs sub)"

lemma HasPrefix_append: "HasPrefix s t \<longleftrightarrow> (\<exists>b. s = t @ b)"
  by (induction s t rule: HasPrefix.induct) auto

lemma Contains_iff: "Contains s t \<longleftrightarrow> (\<exists>a b. s = a @ t @ b)"
proof (induction s)
  case (Cons c s)
  have "(\<exists>a b. c # s = a @ t @ b) \<longleftrightarrow> (\<exists>b. c # s = t @ b) \<or> (\<exists>a b. s = a @ t @ b)"
    by (metis append_Cons append_Nil list.exhaust list.inject)
  then show ?case using Cons by (simp add: HasPrefix_append)
qed simp

fun splitChar :: "char \<Rightarrow> string \<Rightarrow> string list" where
  "splitChar sep [] = [[]]"
| "splitChar sep (c # cs) =
     (if c = sep then [] # splitChar sep cs
      else (case splitChar sep cs of [] \<Rightarrow> [[c]] | w # ws \<Rightarrow> (c # w) # ws))"

fun splitFirst :: "char \<Rightarrow> string \<Rightarrow> (string \<times> string) option" where
  "splitFirst sep [] = None"
| "splitFirst sep (c # cs) =
     (if c = sep then Some ([], cs) else map_option (\<lambda>(a, b). (c # a, b)) (splitFirst sep cs))"

text \<open>The UTF-8 encodings of the Unicode white space that \<^verbatim>\<open>strings.TrimSpace\<close> removes.\<close>

definition spaceCodes :: "string list" where
  "spaceCodes =
     [[CHR 0x09], [CHR 0x0A], [CHR 0x0B], [CHR 0x0C], [CHR 0x0D], [CHR 0x20],
      [CHR 0xC2, CHR 0x85], [CHR 0xC2, CHR 0xA0], [CHR 0xE1, CHR 0x9A, CHR 0x80],
      [CHR 0xE2, CHR 0x80, CHR 0xA8], [CHR 0xE2, CHR 0x80, CHR 0xA9],
      [CHR 0xE2, CHR 0x80, CHR 0xAF], [CHR 0xE2, CHR 0x81, CHR 0x9F],
      [CHR 0xE3, CHR 0x80, CHR 0x80], [CHR 0xE2, CHR 0x80, CHR 0x80],
      [CHR 0xE2, CHR 0x80, CHR 0x81], [CHR 0xE2, CHR 0x80, CHR 0x82],
      [CHR 0xE2, CHR 0x80, CHR 0x83], [CHR 0xE2, CHR 0x80, CHR 0x84],
      [CHR 0xE2, CHR 0x80, CHR 0x85], [CHR 0xE2, CHR 0x80, CHR 0x86],
      [CHR 0xE2, CHR 0x80, CHR 0x87], [CHR 0xE2, CHR 0x80, CHR 0x88],
      [CHR 0xE2, CHR 0x80, CHR 0x89], [CHR 0xE2, CHR 0x80, CHR 0x8A]]"

function trimWith :: "string list \<Rightarrow> string \<Rightarrow> string" where
  "trimWith codes s =
     (case filter (\<lambda>p. p \<noteq> [] \<and> HasPrefix s p) codes of [] \<Rightarrow> s | p # _ \<Rightarrow> trimWith codes (drop (length p) s))"
  by pat_completeness auto
termination
proof (relation "measure (length \<circ> snd)", goal_cases)
  case (2 codes s p ps)
  then have "p \<noteq> [] \<and> HasPrefix s p" by (metis (mono_tags, lifting) filter_eq_ConsD)
  then have "0 < length p" "s \<noteq> []" by (cases s; cases p; simp)+
  then show ?case by simp
qed simp

declare trimWith.simps [simp del]

definition TrimSpace :: "string \<Rightarrow> string" where
  "TrimSpace s = rev (trimWith (map rev spaceCodes) (rev (trimWith spaceCodes s)))"

section \<open>Round trips\<close>

lemma digit_roundtrip [simp]: "d < 10 \<Longrightarrow> digitVal (digitChar d) = Some d"
  by (simp add: digitVal_def digitChar_def of_char_of)

lemma formatBase_small: "n < 10 \<Longrightarrow> formatBase 10 n = [digitChar n]"
  by (subst formatBase.simps) simp

lemma formatBase_big: "\<not> n < 10 \<Longrightarrow> formatBase 10 n = formatBase 10 (n div 10) @ [digitChar (n mod 10)]"
  by (subst formatBase.simps) simp

lemma formatBase_nonempty [simp]: "formatBase b n \<noteq> []"
  by (subst formatBase.simps) simp

lemma parseDigits_append:
  "parseDigits a (xs @ ys) = (case parseDigits a xs of None \<Rightarrow> None | Some n \<Rightarrow> parseDigits n ys)"
  by (induction a xs rule: parseDigits.induct) (auto split: option.splits)

lemma parseDigits_format: "n < 2 ^ 64 \<Longrightarrow> parseDigits 0 (formatBase 10 n) = Some n"
proof (induction n rule: less_induct)
  case (less n)
  show ?case
  proof (cases "n < 10")
    case True
    then show ?thesis using less.prems by (simp add: formatBase_small)
  next
    case False
    then have "parseDigits 0 (formatBase 10 (n div 10)) = Some (n div 10)"
      using less by (intro less.IH) auto
    moreover have "n div 10 * 10 + n mod 10 = n" by simp
    ultimately show ?thesis using False less.prems
      by (simp add: formatBase_big parseDigits_append)
  qed
qed

lemma ParseUint_FormatUint: "ParseUint (FormatUint v) = Some v"
  using parseDigits_format [of "unat v"] unat_lt_64 [of v]
  by (simp add: ParseUint_def FormatUint_def)

lemma formatBase_head: "\<exists>d cs. formatBase 10 n = digitChar d # cs \<and> d < 10"
proof (induction n rule: less_induct)
  case (less n)
  show ?case
  proof (cases "n < 10")
    case False
    then obtain d cs where "formatBase 10 (n div 10) = digitChar d # cs \<and> d < 10"
      using less [of "n div 10"] by auto
    then show ?thesis using False by (auto simp: formatBase_big)
  qed (auto simp: formatBase_small)
qed

lemma digitChar_not_sign: "d < 10 \<Longrightarrow> digitChar d \<noteq> CHR ''-'' \<and> digitChar d \<noteq> CHR ''+''"
proof -
  assume "d < 10"
  then have "digitVal (digitChar d) = Some d" by simp
  moreover have "digitVal (CHR ''-'') = None" "digitVal (CHR ''+'') = None" by (simp_all add: digitVal_def)
  ultimately show ?thesis by (metis option.distinct(1))
qed

lemma ParseInt_FormatInt:
  assumes "- (2 ^ 63) \<le> i" "i < 2 ^ 63"
  shows "ParseInt (FormatInt i) = Some i"
proof (cases "i < 0")
  case True
  then have "parseDigits 0 (formatBase 10 (nat (- i))) = Some (nat (- i))"
    using assms by (intro parseDigits_format) simp
  then show ?thesis using True assms by (simp add: ParseInt_def FormatInt_def)
next
  case False
  then have p: "parseDigits 0 (formatBase 10 (nat i)) = Some (nat i)"
    using assms by (intro parseDigits_format) simp
  obtain d cs where d: "formatBase 10 (nat i) = digitChar d # cs" "d < 10"
    using formatBase_head by blast
  show ?thesis
    using False assms p d(1) digitChar_not_sign [OF d(2)]
    by (simp add: ParseInt_def FormatInt_def)
qed

section \<open>Padded verbs are injective\<close>

definition charDigit :: "char \<Rightarrow> nat" where
  "charDigit c = (let n = of_char c :: nat in if n \<le> 57 then n - 48 else n - 87)"

definition baseValue :: "nat \<Rightarrow> string \<Rightarrow> nat" where
  "baseValue b s = fold (\<lambda>c a. a * b + charDigit c) s 0"

lemma charDigit_digitChar [simp]: "d < 36 \<Longrightarrow> charDigit (digitChar d) = d"
  by (simp add: charDigit_def digitChar_def of_char_of)

lemma baseValue_snoc: "baseValue b (s @ [c]) = baseValue b s * b + charDigit c"
  by (simp add: baseValue_def)

lemma baseValue_format: "2 \<le> b \<Longrightarrow> b \<le> 36 \<Longrightarrow> baseValue b (formatBase b n) = n"
proof (induction b n rule: formatBase.induct)
  case (1 b n)
  show ?case
  proof (cases "n < b")
    case True
    then show ?thesis using 1 by (subst formatBase.simps) (simp add: baseValue_def)
  next
    case False
    have "n mod b < 36" using 1 mod_less_divisor [of b n] by linarith
    then show ?thesis using 1 False by (subst formatBase.simps) (simp add: baseValue_snoc)
  qed
qed

lemma baseValue_pad: "baseValue b (padZero w s) = baseValue b s"
proof -
  have "fold (\<lambda>c a. a * b + charDigit c) (replicate k (CHR ''0'')) 0 = 0" for k
    by (induction k) (simp_all add: charDigit_def)
  then show ?thesis by (simp add: baseValue_def padZero_def)
qed

lemma padZero_format_inj:
  assumes "2 \<le> b" "b \<le> 36" "padZero w (formatBase b m) = padZero w (formatBase b n)"
  shows "m = n"
proof -
  have "baseValue b (padZero w (formatBase b m)) = baseValue b (padZero w (formatBase b n))"
    by (rule arg_cong [OF assms(3)])
  then show ?thesis unfolding baseValue_pad baseValue_format [OF assms(1,2)] .
qed

lemma sprintfX_inj: "sprintfX w m = sprintfX w n \<longleftrightarrow> m = n"
  unfolding sprintfX_def by (auto dest: padZero_format_inj [rotated 2])

lemma sprintfD_inj: "0 \<le> i \<Longrightarrow> 0 \<le> j \<Longrightarrow> sprintfD w i = sprintfD w j \<longleftrightarrow> i = j"
  unfolding sprintfD_def by (auto dest!: padZero_format_inj [rotated 2])

lemma set_formatBase: "2 \<le> b \<Longrightarrow> set (formatBase b n) \<subseteq> digitChar ` {..<b}"
proof (induction b n rule: formatBase.induct)
  case (1 b n)
  show ?case
  proof (cases "n < b")
    case False
    have "n mod b < b" using 1 by simp
    then show ?thesis using 1 False by (subst formatBase.simps) auto
  qed (use 1 in \<open>subst formatBase.simps, auto\<close>)
qed

end
