(* ===== verification/Payload.thy ===== *)
theory Payload
  imports GoStrings
begin

text \<open>
  Message bodies of \<^verbatim>\<open>src/burnin/payload/payload.go\<close> and the instrumentation attributes of
  \<^verbatim>\<open>src/burnin/worker/attrs.go\<close>: hexadecimal filler, the IEEE CRC-32 of \<^verbatim>\<open>hash/crc32\<close> in its
  bit-serial form, weighted size distributions, and the attribute map stamped on every
  publish. The pseudo-random generator is a parameter: the sequence of its draws.
\<close>

section \<open>CRC-32\<close>

type_synonym u32 = "32 word"

definition crcPoly :: u32 where
  "crcPoly = 0xEDB88320"

definition crcBit :: "u32 \<Rightarrow> u32" where
  "crcBit c = (if bit c 0 then drop_bit 1 c XOR crcPoly else drop_bit 1 c)"

definition crcByte :: "u32 \<Rightarrow> char \<Rightarrow> u32" where
  "crcByte c b = (crcBit ^^ 8) (c XOR word_of_nat (of_char b))"

definition ChecksumIEEE :: "string \<Rightarrow> u32" where
  "ChecksumIEEE body = NOT (fold (\<lambda>b c. crcByte c b) body (NOT 0))"

definition crcHex :: "string \<Rightarrow> string" where
  "crcHex body = sprintfX 8 (unat (ChecksumIEEE body))"

definition VerifyCRC :: "string \<Rightarrow> string \<Rightarrow> bool" where
  "VerifyCRC body hex = (crcHex body = hex)"

section \<open>Bodies\<close>

definition hexAlphabet :: string where
  "hexAlphabet = ''0123456789abcdef''"

text \<open>The inner loop emits at most sixteen characters from one draw, low nibble first; the
  outer loop takes the next draw. \<open>k\<close> is the number of draws already taken.\<close>

fun nibbles :: "nat \<Rightarrow> u64 \<Rightarrow> string" where
  "nibbles 0 v = []"
| "nibbles (Suc j) v = hexAlphabet ! unat (v AND 0xf) # nibbles j (drop_bit 4 v)"

function randomHexFrom :: "(nat \<Rightarrow> u64) \<Rightarrow> nat \<Rightarrow> nat \<Rightarrow> string" where
  "randomHexFrom draw k n = (if n = 0 then [] else nibbles (min 16 n) (draw k) @ randomHexFrom draw (Suc k) (n - 16))"
  by pat_completeness auto
termination by (relation "measure (\<lambda>(_, _, n). n)") auto

declare randomHexFrom.simps [simp del]

definition randomHex :: "(nat \<Rightarrow> u64) \<Rightarrow> nat \<Rightarrow> string" where
  "randomHex draw n = randomHexFrom draw 0 n"

definition Build :: "(nat \<Rightarrow> u64) \<Rightarrow> int \<Rightarrow> string \<times> string" where
  "Build draw targetSize =
     (let n = (if targetSize < 1 then 1 else targetSize);
          body = randomHex draw (nat n)
      in (body, crcHex body))"

section \<open>Size distributions\<close>

record SizeDistribution =
  sizes :: "int list"
  weights :: "int list"
  total :: int

datatype dist_error = InvalidEntry string | InvalidSize string | InvalidWeight string | ZeroTotal

definition parseEntry :: "string \<Rightarrow> dist_error + (int \<times> int)" where
  "parseEntry p =
     (case splitFirst (CHR '':'') (TrimSpace p) of
        None \<Rightarrow> Inl (InvalidEntry p)
      | Some (a, b) \<Rightarrow>
          (case Atoi (TrimSpace a) of
             None \<Rightarrow> Inl (InvalidSize a)
           | Some sz \<Rightarrow>
               (case Atoi (TrimSpace b) of
                  None \<Rightarrow> Inl (InvalidWeight b)
                | Some weight \<Rightarrow> Inr (sz, weight))))"

fun parseEntries :: "SizeDistribution \<Rightarrow> string list \<Rightarrow> dist_error + SizeDistribution" where
  "parseEntries d [] = Inr d"
| "parseEntries d (p # ps) =
     (case parseEntry p of
        Inl e \<Rightarrow> Inl e
      | Inr (sz, weight) \<Rightarrow>
          parseEntries (d\<lparr>sizes := sizes d @ [sz], weights := weights d @ [weight],
                          total := i64 (total d + weight)\<rparr>) ps)"

definition ParseDistribution :: "string \<Rightarrow> dist_error + SizeDistribution" where
  "ParseDistribution s =
     (case parseEntries \<lparr>sizes = [], weights = [], total = 0\<rparr> (splitChar (CHR '','') s) of
        Inl e \<Rightarrow> Inl e
      | Inr d \<Rightarrow> if total d = 0 then Inl ZeroTotal else Inr d)"

text \<open>\<^verbatim>\<open>rand.IntN\<close> panics on a bound that is not positive: then the result is \<open>None\<close>. Otherwise
  \<open>r\<close> is its draw, \<open>0 \<le> r < total\<close>. The loop falls through to the last size.\<close>

fun pickSize :: "int \<Rightarrow> int \<Rightarrow> int list \<Rightarrow> int list \<Rightarrow> int option" where
  "pickSize r cum (w # ws) (s # ss) =
     (let cum' = i64 (cum + w) in if r < cum' then Some s else pickSize r cum' ws ss)"
| "pickSize r cum _ _ = None"

definition SelectSize :: "(int \<Rightarrow> int) \<Rightarrow> SizeDistribution \<Rightarrow> int option" where
  "SelectSize intN d =
     (if total d \<le> 0 then None
      else (case pickSize (intN (total d)) 0 (weights d) (sizes d) of
              Some s \<Rightarrow> Some s
            | None \<Rightarrow> Some (last (sizes d))))"

section \<open>Attributes\<close>

definition AttrWorkerID :: string where "AttrWorkerID = ''workerId''"
definition AttrSequence :: string where "AttrSequence = ''sequence''"
definition AttrContentHash :: string where "AttrContentHash = ''contentHash''"
definition AttrTimestampNS :: string where "AttrTimestampNS = ''timestampNs''"
definition AttrOrderingSeq :: string where "AttrOrderingSeq = ''orderingSeq''"

lemmas attr_names = AttrWorkerID_def AttrSequence_def AttrContentHash_def AttrTimestampNS_def
  AttrOrderingSeq_def

type_synonym attributes = "(string, string) gomap"

definition attrGet :: "attributes \<Rightarrow> string \<Rightarrow> string" where
  "attrGet m k = (case map_of m k of None \<Rightarrow> [] | Some v \<Rightarrow> v)"

definition stampAttrs :: "instant \<Rightarrow> string \<Rightarrow> u64 \<Rightarrow> string \<Rightarrow> attributes" where
  "stampAttrs now producerID seq hex =
     [(AttrWorkerID, producerID), (AttrSequence, FormatUint seq), (AttrContentHash, hex),
      (AttrTimestampNS, FormatInt now)]"

text \<open>The nil map is \<open>None\<close>, the zero \<^verbatim>\<open>time.Time\<close> is \<open>None\<close>.\<close>

definition extractMeta :: "attributes option \<Rightarrow> string \<times> u64 \<times> string \<times> instant option \<times> bool" where
  "extractMeta attrs =
     (case attrs of
        None \<Rightarrow> ([], 0, [], None, False)
      | Some m \<Rightarrow>
          (let producerID = attrGet m AttrWorkerID;
               hex = attrGet m AttrContentHash;
               v = attrGet m AttrSequence;
               seq = (if v \<noteq> [] then (case ParseUint v of Some n \<Rightarrow> n | None \<Rightarrow> 0) else 0);
               t = attrGet m AttrTimestampNS;
               sentAt = (if t \<noteq> [] then ParseInt t else None)
           in (producerID, seq, hex, sentAt, producerID \<noteq> [])))"

section \<open>The checksum step is a bijection\<close>

lemma crcBit_top: "bit (crcBit c) 31 = bit c 0"
  by (simp add: crcBit_def crcPoly_def bit_xor_iff bit_drop_bit_eq bit_numeral_rec) (auto dest: bit_imp_le_length)

lemma crcBit_inj: "crcBit c = crcBit d \<Longrightarrow> c = d"
proof -
  assume eq: "crcBit c = crcBit d"
  then have b: "bit c 0 = bit d 0" using crcBit_top [of c] crcBit_top [of d] by simp
  then have "drop_bit 1 c = drop_bit 1 d"
    using eq by (auto simp: crcBit_def split: if_splits)
  then have "bit (drop_bit 1 c) n = bit (drop_bit 1 d) n" for n by simp
  then have "bit c (Suc n) = bit d (Suc n)" for n by (simp add: bit_drop_bit_eq)
  with b have "bit c n = bit d n" for n by (cases n) simp_all
  then show "c = d" by (simp add: bit_eq_iff)
qed

lemma crcBits_inj: "(crcBit ^^ n) c = (crcBit ^^ n) d \<Longrightarrow> c = d"
  by (induction n) (auto dest: crcBit_inj)

lemma crcByte_inj_state: "crcByte c b = crcByte d b \<Longrightarrow> c = d"
  unfolding crcByte_def by (drule crcBits_inj) simp

lemma crcByte_inj_byte: "crcByte c a = crcByte c b \<Longrightarrow> a = b"
proof -
  assume "crcByte c a = crcByte c b"
  then have "(word_of_nat (of_char a) :: u32) = word_of_nat (of_char b)"
    unfolding crcByte_def by (auto dest: crcBits_inj)
  then have "(of_char a :: nat) mod 2 ^ 32 = of_char b mod 2 ^ 32"
    using word_of_nat_eq_iff [of "of_char a" "of_char b", where 'a = 32] by (simp add: take_bit_eq_mod)
  moreover have "(of_char x :: nat) mod 2 ^ 32 = of_char x" for x :: char
  proof -
    have "(of_char x :: nat) < 256" by (metis of_char_mod_256 mod_less_divisor zero_less_numeral)
    then have "(of_char x :: nat) < 2 ^ 32" by (rule order.strict_trans2) simp
    then show ?thesis by (rule mod_less)
  qed
  ultimately show "a = b" by simp
qed

lemma crc_fold_inj: "fold (\<lambda>b c. crcByte c b) xs c = fold (\<lambda>b c. crcByte c b) xs d \<Longrightarrow> c = d"
  by (induction xs arbitrary: c d) (auto dest: crcByte_inj_state)

lemma ChecksumIEEE_eq:
  "ChecksumIEEE x = ChecksumIEEE y \<longleftrightarrow>
     fold (\<lambda>b c. crcByte c b) x (NOT 0) = fold (\<lambda>b c. crcByte c b) y (NOT 0)"
  by (simp add: ChecksumIEEE_def)

lemma VerifyCRC_iff: "VerifyCRC body (crcHex sent) \<longleftrightarrow> ChecksumIEEE body = ChecksumIEEE sent"
  by (simp add: VerifyCRC_def crcHex_def sprintfX_inj word_unat_eq_iff)

section \<open>Bodies\<close>

lemma length_nibbles [simp]: "length (nibbles n v) = n"
  by (induction n arbitrary: v) simp_all

lemma set_nibbles: "set (nibbles n v) \<subseteq> set hexAlphabet"
proof (induction n arbitrary: v)
  case (Suc n)
  have "v AND 0xf \<le> (0xf :: u64)" by (rule word_and_le1)
  then have "unat (v AND 0xf) \<le> 15" by (simp add: word_le_nat_alt)
  then have "unat (v AND 0xf) < length hexAlphabet" by (simp add: hexAlphabet_def)
  then have "hexAlphabet ! unat (v AND 0xf) \<in> set hexAlphabet" by (rule nth_mem)
  then show ?case using Suc [of "drop_bit 4 v"] by simp
qed simp

lemma randomHexFrom_spec:
  "length (randomHexFrom draw k n) = n \<and> set (randomHexFrom draw k n) \<subseteq> set hexAlphabet"
proof (induction draw k n rule: randomHexFrom.induct)
  case (1 draw k n)
  then show ?case using set_nibbles by (subst (1 2) randomHexFrom.simps) auto
qed

section \<open>Weighted choice\<close>

lemma pickSize_hit:
  assumes "length ss = length ws" "\<forall>w\<in>set ws. 0 \<le> w" "0 \<le> cum" "cum + sum_list ws < 2 ^ 63"
    and "i < length ws" "cum + sum_list (take i ws) \<le> r" "r < cum + sum_list (take (Suc i) ws)"
  shows "pickSize r cum ws ss = Some (ss ! i)"
  using assms
proof (induction ws arbitrary: ss cum i)
  case (Cons w ws)
  obtain s ss' where ss: "ss = s # ss'" using Cons.prems(1) by (cases ss) auto
  have nn: "0 \<le> sum_list xs" if "set xs \<subseteq> set ws" for xs
    using that Cons.prems(2) by (intro sum_list_nonneg) auto
  have cum: "i64 (cum + w) = cum + w" using Cons.prems(2-4) nn [of ws] by (intro i64_id) auto
  show ?case
  proof (cases i)
    case 0
    then show ?thesis using Cons.prems(7) by (simp add: ss cum)
  next
    case (Suc j)
    have "cum + w \<le> r" using Cons.prems(6) Suc nn [of "take j ws"] set_take_subset [of j ws] by simp
    moreover have "pickSize r (cum + w) ws ss' = Some (ss' ! j)"
      using Cons.prems Suc by (intro Cons.IH) (auto simp: ss)
    ultimately show ?thesis by (simp add: ss cum Suc)
  qed
qed simp

section \<open>Properties\<close>

text \<open>C27: Corruption detection. Change any one byte of a body: the CRC attribute computed for
  the original body never verifies against the changed one.\<close>

theorem corrupted_byte_detected:
  assumes "a \<noteq> b"
  shows "\<not> VerifyCRC (pre @ b # post) (crcHex (pre @ a # post))"
proof
  let ?f = "fold (\<lambda>b c. crcByte c b)"
  assume "VerifyCRC (pre @ b # post) (crcHex (pre @ a # post))"
  then have "?f post (crcByte (?f pre (NOT 0)) b) = ?f post (crcByte (?f pre (NOT 0)) a)"
    by (simp add: VerifyCRC_iff ChecksumIEEE_eq)
  from crc_fold_inj [OF this] have "b = a" by (rule crcByte_inj_byte)
  with assms show False by simp
qed

theorem corrupted_byte_detected_witness:
  "\<not> VerifyCRC ''burnin'' (crcHex ''burnIn'')"
  using corrupted_byte_detected [of "CHR ''I''" "CHR ''i''" "''burn''" "''n''"] by simp

text \<open>\<^verbatim>\<open>Build\<close> returns a body of exactly the requested size (at least one byte) of lowercase
  hexadecimal characters, together with a checksum that \<^verbatim>\<open>VerifyCRC\<close> accepts for it,
  whatever the random draws.\<close>

theorem Build_verifies:
  "int (length (fst (Build draw n))) = max 1 n \<and> set (fst (Build draw n)) \<subseteq> set hexAlphabet \<and>
   VerifyCRC (fst (Build draw n)) (snd (Build draw n))"
  using randomHexFrom_spec by (auto simp: Build_def randomHex_def VerifyCRC_def Let_def)

text \<open>The weighted choice is exact. For non-negative weights whose sum is the total and
  fits an \<^verbatim>\<open>int\<close>, the draws between two consecutive partial sums of the weights all select
  the same size, so each size is selected by as many of the draws as its weight says.\<close>

theorem SelectSize_weighted:
  assumes "length (sizes d) = length (weights d)" "\<forall>w\<in>set (weights d). 0 \<le> w"
    and "total d = sum_list (weights d)" "total d < 2 ^ 63" "i < length (weights d)"
    and "sum_list (take i (weights d)) \<le> r" "r < sum_list (take (Suc i) (weights d))"
  shows "SelectSize (\<lambda>_. r) d = Some (sizes d ! i)"
proof -
  have nn: "0 \<le> sum_list xs" if "set xs \<subseteq> set (weights d)" for xs
    using that assms(2) by (intro sum_list_nonneg) auto
  have "sum_list (weights d) = sum_list (take (Suc i) (weights d)) + sum_list (drop (Suc i) (weights d))"
    by (metis append_take_drop_id sum_list_append)
  then have "r < total d" using assms(3,7) nn [of "drop (Suc i) (weights d)"] set_drop_subset by fastforce
  moreover have "0 \<le> r" using assms(6) nn [of "take i (weights d)"] set_take_subset by fastforce
  ultimately have "0 < total d" by linarith
  then show ?thesis
    using pickSize_hit [OF assms(1,2), of 0 i r] assms by (simp add: SelectSize_def)
qed

theorem SelectSize_weighted_witness:
  "SelectSize (\<lambda>_. 85) \<lparr>sizes = [256, 4096, 65536], weights = [80, 15, 5], total = 100\<rparr> = Some 4096"
  using SelectSize_weighted [of "\<lparr>sizes = [256, 4096, 65536], weights = [80, 15, 5], total = 100\<rparr>" 1 85]
  by (simp add: numeral_eq_Suc)

text \<open>A negative total is accepted and then panics. \<^verbatim>\<open>ParseDistribution\<close> only rejects a total
  of zero, although its message says the total must be positive; the distribution it
  returns makes \<^verbatim>\<open>SelectSize\<close> call \<^verbatim>\<open>rand.IntN\<close> with a negative bound.\<close>

theorem negative_total_panics:
  "\<exists>d. ParseDistribution ''256:-5'' = Inr d \<and> total d = - 5 \<and> (\<forall>intN. SelectSize intN d = None)"
proof -
  have "ParseDistribution ''256:-5'' = Inr \<lparr>sizes = [256], weights = [- 5], total = - 5\<rparr>"
    by (simp add: ParseDistribution_def parseEntry_def TrimSpace_def trimWith.simps spaceCodes_def
        ParseInt_def digitVal_def i64_def)
  then show ?thesis by (auto simp: SelectSize_def)
qed

text \<open>C26: Attribute round trip. What \<^verbatim>\<open>stampAttrs\<close> writes for a non-empty producer id, any
  sequence number, any checksum and any 64-bit timestamp, \<^verbatim>\<open>extractMeta\<close> reads back
  unchanged, also when further attributes follow the stamped ones.\<close>

theorem stamp_extract_roundtrip:
  assumes "pid \<noteq> []" "- (2 ^ 63) \<le> now" "now < 2 ^ 63"
  shows "extractMeta (Some (stampAttrs now pid seq hex @ rest)) = (pid, seq, hex, Some now, True)"
proof -
  have "FormatUint seq \<noteq> []" "FormatInt now \<noteq> []" by (simp_all add: FormatUint_def FormatInt_def)
  then show ?thesis
    using assms ParseInt_FormatInt [OF assms(2,3)]
    by (simp add: extractMeta_def stampAttrs_def attrGet_def attr_names ParseUint_FormatUint)
qed

theorem stamp_extract_roundtrip_witness:
  "extractMeta (Some (stampAttrs 1700000000000000000 ''p-0'' 42 ''0badcafe'' @ [(AttrOrderingSeq, ''7'')]))
   = (''p-0'', 42, ''0badcafe'', Some 1700000000000000000, True)"
  by (rule stamp_extract_roundtrip) simp_all

end
