(* ===== verification/Float64.thy ===== *)
theory Float64
  imports Prelude Complex_Main "HOL-Library.Log_Nat"
begin

text \<open>
  Go's \<^verbatim>\<open>float64\<close>: IEEE 754 binary64 with round-to-nearest-even, over the rationals. A value is
  a finite rational, an infinity or not-a-number; the sign of zero is not distinguished,
  since the sources never divide by a zero whose sign they could observe nor print one.
  Every arithmetic result is the exact rational result rounded by \<open>roundF\<close>.
\<close>

datatype float64 = Fin rat | PInf | NInf | NaN

section \<open>Rounding\<close>

definition pow2 :: "int \<Rightarrow> rat" where
  "pow2 e = (if 0 \<le> e then 2 ^ nat e else 1 / 2 ^ nat (- e))"

definition ilog2 :: "rat \<Rightarrow> int" where
  "ilog2 q = (let (a, b) = quotient_of q;
                  e = bitlen a - bitlen b
              in if pow2 e \<le> q then e else e - 1)"

definition roundEven :: "rat \<Rightarrow> int" where
  "roundEven x = (let f = \<lfloor>x\<rfloor>; d = x - of_int f in
     if d < 1 / 2 then f else if d > 1 / 2 then f + 1 else if even f then f else f + 1)"

definition ulp :: "rat \<Rightarrow> rat" where
  "ulp q = pow2 (max (ilog2 \<bar>q\<bar> - 52) (- 1074))"

definition roundF :: "rat \<Rightarrow> float64" where
  "roundF q =
     (if q = 0 then Fin 0
      else (let u = ulp q; r = of_int (roundEven (q / u)) * u in
            if r \<ge> pow2 1024 then PInf else if r \<le> - pow2 1024 then NInf else Fin r))"

section \<open>Operations\<close>

definition floatOfInt :: "int \<Rightarrow> float64" where
  "floatOfInt n = roundF (of_int n)"

definition floatOfU64 :: "u64 \<Rightarrow> float64" where
  "floatOfU64 w = roundF (of_int (uint w))"

fun fneg :: "float64 \<Rightarrow> float64" where
  "fneg (Fin q) = Fin (- q)" | "fneg PInf = NInf" | "fneg NInf = PInf" | "fneg NaN = NaN"

fun fadd :: "float64 \<Rightarrow> float64 \<Rightarrow> float64" where
  "fadd (Fin a) (Fin b) = roundF (a + b)"
| "fadd NaN _ = NaN" | "fadd _ NaN = NaN"
| "fadd PInf NInf = NaN" | "fadd NInf PInf = NaN"
| "fadd PInf _ = PInf" | "fadd _ PInf = PInf"
| "fadd NInf _ = NInf" | "fadd _ NInf = NInf"

definition fsub :: "float64 \<Rightarrow> float64 \<Rightarrow> float64" where
  "fsub a b = fadd a (fneg b)"

definition infSign :: "bool \<Rightarrow> float64" where
  "infSign pos = (if pos then PInf else NInf)"

fun fsgn :: "float64 \<Rightarrow> rat" where
  "fsgn (Fin q) = sgn q" | "fsgn PInf = 1" | "fsgn NInf = - 1" | "fsgn NaN = 0"

definition fmul :: "float64 \<Rightarrow> float64 \<Rightarrow> float64" where
  "fmul a b = (case (a, b) of
     (Fin x, Fin y) \<Rightarrow> roundF (x * y)
   | (NaN, _) \<Rightarrow> NaN | (_, NaN) \<Rightarrow> NaN
   | _ \<Rightarrow> if fsgn a * fsgn b = 0 then NaN else infSign (fsgn a * fsgn b > 0))"

text \<open>Division by zero follows the sign of the dividend: the sources only divide by counts,
  lengths and durations, whose zero is positive.\<close>

definition fdiv :: "float64 \<Rightarrow> float64 \<Rightarrow> float64" where
  "fdiv a b = (case (a, b) of
     (Fin x, Fin y) \<Rightarrow> if y = 0 then (if x = 0 then NaN else infSign (x > 0)) else roundF (x / y)
   | (NaN, _) \<Rightarrow> NaN | (_, NaN) \<Rightarrow> NaN
   | (Fin x, _) \<Rightarrow> Fin 0
   | (_, Fin y) \<Rightarrow> infSign (fsgn a * (if y < 0 then - 1 else 1) > 0)
   | _ \<Rightarrow> NaN)"

fun flt :: "float64 \<Rightarrow> float64 \<Rightarrow> bool" where
  "flt (Fin a) (Fin b) = (a < b)"
| "flt NaN _ = False" | "flt _ NaN = False"
| "flt _ NInf = False" | "flt PInf _ = False"
| "flt NInf _ = True" | "flt _ PInf = True"

fun feq :: "float64 \<Rightarrow> float64 \<Rightarrow> bool" where
  "feq NaN _ = False" | "feq _ NaN = False" | "feq a b = (a = b)"

definition fle :: "float64 \<Rightarrow> float64 \<Rightarrow> bool" where
  "fle a b = (flt a b \<or> feq a b)"

definition fgt :: "float64 \<Rightarrow> float64 \<Rightarrow> bool" where
  "fgt a b = flt b a"

definition fge :: "float64 \<Rightarrow> float64 \<Rightarrow> bool" where
  "fge a b = fle b a"

text \<open>Conversion to an unsigned integer truncates; outside the range Go leaves the result to
  the implementation, and the sources stay inside it.\<close>

definition truncNat :: "float64 \<Rightarrow> nat" where
  "truncNat x = (case x of Fin q \<Rightarrow> nat \<lfloor>q\<rfloor> | _ \<Rightarrow> 0)"

definition truncInt :: "float64 \<Rightarrow> int" where
  "truncInt x = (case x of Fin q \<Rightarrow> (if q < 0 then \<lceil>q\<rceil> else \<lfloor>q\<rfloor>) | _ \<Rightarrow> 0)"

section \<open>Facts\<close>

lemma NaN_compare [simp]:
  "\<not> flt NaN x" "\<not> flt x NaN" "\<not> fgt NaN x" "\<not> fgt x NaN" "\<not> fle NaN x" "\<not> fle x NaN"
  "\<not> fge NaN x" "\<not> fge x NaN" "\<not> feq x NaN" "\<not> feq NaN x"
  by (cases x; simp add: fgt_def fle_def fge_def)+

lemma flt_irrefl [simp]: "\<not> flt x x"
  by (cases x) simp_all

lemma flt_trans: "flt a b \<Longrightarrow> flt b c \<Longrightarrow> flt a c"
  by (cases a; cases b; cases c) auto

lemma roundF_zero [simp]: "roundF 0 = Fin 0"
  by (simp add: roundF_def)

lemma floatOf_zero [simp]: "floatOfU64 0 = Fin 0" "floatOfInt 0 = Fin 0"
  by (simp_all add: floatOfU64_def floatOfInt_def)

lemma pow2_pos [simp]: "0 < pow2 e"
  by (simp add: pow2_def)

lemma roundEven_int [simp]: "roundEven (of_int n) = n"
  by (simp add: roundEven_def)

lemma roundEven_nonneg: "0 \<le> x \<Longrightarrow> 0 \<le> roundEven x"
  by (simp add: roundEven_def Let_def)

lemma roundF_nonneg: "0 \<le> q \<Longrightarrow> roundF q = PInf \<or> (\<exists>r\<ge>0. roundF q = Fin r)"
proof -
  assume q: "0 \<le> q"
  have u: "0 < ulp q" by (simp add: ulp_def)
  then have "0 \<le> of_int (roundEven (q / ulp q)) * ulp q" using q by (simp add: roundEven_nonneg)
  moreover have "- pow2 1024 < 0" by simp
  ultimately have "\<not> of_int (roundEven (q / ulp q)) * ulp q \<le> - pow2 1024" by linarith
  then show ?thesis using \<open>0 \<le> of_int (roundEven (q / ulp q)) * ulp q\<close> by (simp add: roundF_def Let_def)
qed

lemma roundF_grid:
  assumes "q = of_int n * ulp q" "\<bar>q\<bar> < pow2 1024"
  shows "roundF q = Fin q"
proof (cases "q = 0")
  case False
  have u: "ulp q \<noteq> 0" using pow2_pos by (simp add: ulp_def less_imp_neq [symmetric])
  then have "q / ulp q = of_int n" using assms(1) by (metis nonzero_mult_div_cancel_right)
  then show ?thesis using assms False by (auto simp: roundF_def Let_def)
qed simp

lemma pow2_neg: "e \<le> 0 \<Longrightarrow> pow2 e = 1 / 2 ^ nat (- e)"
  by (cases "e = 0") (simp_all add: pow2_def)

lemma ilog2_int: "0 \<le> n \<Longrightarrow> n < 2 ^ 53 \<Longrightarrow> ilog2 (of_int n) \<le> 52"
proof -
  assume "0 \<le> n" "n < 2 ^ 53"
  then have "bitlen n \<le> 53" using bitlen_le_iff_power [of n 53] by simp
  moreover have "bitlen 1 = 1" by (simp add: bitlen_def compute_floorlog)
  ultimately show ?thesis by (simp add: ilog2_def Let_def)
qed

lemma floatOfInt_exact [simp]:
  assumes "\<bar>n\<bar> < 2 ^ 53"
  shows "floatOfInt n = Fin (of_int n)"
proof -
  let ?e = "max (ilog2 \<bar>of_int n\<bar> - 52) (- 1074)"
  have abs: "\<bar>of_int n :: rat\<bar> = of_int \<bar>n\<bar>" by simp
  have "ilog2 \<bar>of_int n\<bar> \<le> 52" unfolding abs using assms by (intro ilog2_int) auto
  then have e: "?e \<le> 0" by simp
  have "of_int n = (of_int (n * 2 ^ nat (- ?e)) :: rat) * ulp (of_int n)"
    unfolding ulp_def pow2_neg [OF e] by simp
  moreover have "\<bar>of_int n :: rat\<bar> < pow2 1024"
  proof -
    have "\<bar>of_int n :: rat\<bar> < 2 ^ 53" unfolding abs using assms of_int_less_iff [of "\<bar>n\<bar>" "2 ^ 53", where 'a = rat] by simp
    also have "(2 :: rat) ^ 53 < 2 ^ 1024" by simp
    finally show ?thesis by (simp add: pow2_def)
  qed
  ultimately show ?thesis unfolding floatOfInt_def by (intro roundF_grid)
qed

lemma roundF_int: "\<bar>n\<bar> < 2 ^ 53 \<Longrightarrow> roundF (of_int n) = Fin (of_int n)"
  using floatOfInt_exact [of n] by (simp add: floatOfInt_def)

lemma floatOfU64_exact [simp]: "unat w < 2 ^ 53 \<Longrightarrow> floatOfU64 w = Fin (of_nat (unat w))"
proof -
  assume "unat w < 2 ^ 53"
  then have "\<bar>int (unat w)\<bar> < 2 ^ 53" by (simp del: of_nat_unat)
  from roundF_int [OF this] show ?thesis
    unfolding floatOfU64_def uint_nat by (simp only: of_int_of_nat_eq)
qed

lemma roundF_numeral [simp]:
  "(numeral k :: int) < 2 ^ 53 \<Longrightarrow> roundF (numeral k) = Fin (numeral k)" "roundF 1 = Fin 1"
  using roundF_int [of "numeral k"] roundF_int [of 1] by simp_all

section \<open>Rounding is monotone\<close>

lemma pow2_powi: "pow2 e = 2 powi e"
  by (simp add: pow2_def power_int_def field_simps)

lemma pow2_add: "pow2 (a + b) = pow2 a * pow2 b"
  by (simp add: pow2_powi power_int_add)

lemma pow2_mono: "a \<le> b \<Longrightarrow> pow2 a \<le> pow2 b"
  unfolding pow2_powi by (rule power_int_increasing) auto

lemma pow2_less_imp: "pow2 a < pow2 b \<Longrightarrow> a < b"
  using pow2_mono [of b a] by (meson not_le)

lemma pow2_Suc: "pow2 (a + 1) = 2 * pow2 a"
  by (simp add: pow2_add) (simp add: pow2_def)

lemma bitlen_range:
  assumes "0 < a"
  shows "pow2 (bitlen a - 1) \<le> of_int a \<and> of_int a < pow2 (bitlen a)"
proof -
  have b: "2 ^ nat (bitlen a - 1) \<le> a" "a < 2 ^ nat (bitlen a)" using bitlen_bounds [OF assms] by simp_all
  have pos: "1 \<le> bitlen a" using assms bitlen_nonneg [of a] bitlen_le_iff_power [of a 0] by simp
  have "(of_int (2 ^ nat (bitlen a - 1)) :: rat) \<le> of_int a" "(of_int a :: rat) < of_int (2 ^ nat (bitlen a))"
    using b by (simp_all only: of_int_le_iff of_int_less_iff)
  then show ?thesis using pos by (simp add: pow2_def)
qed

lemma ilog2_spec:
  assumes "0 < q"
  shows "pow2 (ilog2 q) \<le> q \<and> q < pow2 (ilog2 q + 1)"
proof -
  obtain a b where ab: "quotient_of q = (a, b)" by (cases "quotient_of q")
  have b: "0 < b" and q: "q = of_int a / of_int b"
    using quotient_of_denom_pos [OF ab] quotient_of_div [OF ab] by simp_all
  then have a: "0 < a" using assms by (simp add: zero_less_divide_iff)
  let ?e = "bitlen a - bitlen b"
  note ra = bitlen_range [OF a] and rb = bitlen_range [OF b]
  have bp: "(0 :: rat) < of_int b" using b by simp
  have "pow2 (?e - 1) * of_int b \<le> pow2 (?e - 1) * pow2 (bitlen b)" using rb by simp
  also have "\<dots> = pow2 (bitlen a - 1)" by (simp flip: pow2_add)
  also have "\<dots> \<le> of_int a" using ra by simp
  finally have lo: "pow2 (?e - 1) \<le> q" unfolding q using bp by (simp add: pos_le_divide_eq)
  have "of_int a < pow2 (bitlen a)" using ra by simp
  also have "\<dots> = pow2 (?e + 1) * pow2 (bitlen b - 1)" by (simp flip: pow2_add)
  also have "\<dots> \<le> pow2 (?e + 1) * of_int b" using rb by simp
  finally have up: "q < pow2 (?e + 1)" unfolding q using bp by (simp add: pos_divide_less_eq)
  show ?thesis using lo up by (simp add: ilog2_def ab Let_def)
qed

lemma ilog2_mono: "0 < q \<Longrightarrow> q \<le> r \<Longrightarrow> ilog2 q \<le> ilog2 r"
  using ilog2_spec [of q] ilog2_spec [of r] pow2_less_imp [of "ilog2 q" "ilog2 r + 1"] by force

lemma ilog2_eqI: "pow2 e \<le> q \<Longrightarrow> q < pow2 (e + 1) \<Longrightarrow> ilog2 q = e"
proof -
  assume *: "pow2 e \<le> q" "q < pow2 (e + 1)"
  then have "0 < q" using pow2_pos [of e] by linarith
  from ilog2_spec [OF this] * have "pow2 e < pow2 (ilog2 q + 1)" "pow2 (ilog2 q) < pow2 (e + 1)" by linarith+
  then have "e < ilog2 q + 1" "ilog2 q < e + 1" by (blast dest: pow2_less_imp)+
  then show ?thesis by simp
qed

lemma roundEven_bounds: "\<lfloor>x\<rfloor> \<le> roundEven x \<and> roundEven x \<le> \<lfloor>x\<rfloor> + 1"
  by (simp add: roundEven_def Let_def)

lemma roundEven_mono: "x \<le> y \<Longrightarrow> roundEven x \<le> roundEven y"
proof (cases "\<lfloor>x\<rfloor> = \<lfloor>y\<rfloor>")
  case True
  then show "x \<le> y \<Longrightarrow> ?thesis" by (auto simp: roundEven_def Let_def)
next
  case False
  assume "x \<le> y"
  then have "\<lfloor>x\<rfloor> + 1 \<le> \<lfloor>y\<rfloor>" using False floor_mono [of x y] by linarith
  then show ?thesis using roundEven_bounds [of x] roundEven_bounds [of y] by linarith
qed

definition roundV :: "rat \<Rightarrow> rat" where
  "roundV q = of_int (roundEven (q / ulp q)) * ulp q"

lemma ulp_pos: "0 < ulp q"
  by (simp add: ulp_def)

lemma round_to_grid:
  assumes "0 < u" "q \<le> of_int n * u"
  shows "of_int (roundEven (q / u)) * u \<le> of_int n * u"
  using roundEven_mono [of "q / u" "of_int n"] assms by (simp add: pos_divide_le_eq)

lemma grid_to_round:
  assumes "0 < u" "of_int n * u \<le> q"
  shows "of_int n * u \<le> of_int (roundEven (q / u)) * u"
  using roundEven_mono [of "of_int n" "q / u"] assms by (simp add: pos_le_divide_eq)

lemma pow2_multiple: "e \<le> g \<Longrightarrow> pow2 g = of_int (2 ^ nat (g - e)) * pow2 e"
  using pow2_add [of "g - e" e] by (simp add: pow2_def)

lemma roundV_mono:
  assumes "0 < q" "q \<le> r"
  shows "roundV q \<le> roundV r"
proof (cases "ulp q = ulp r")
  case True
  then show ?thesis using roundEven_mono [of "q / ulp q" "r / ulp q"] assms ulp_pos [of q]
    by (simp add: roundV_def divide_right_mono less_imp_le)
next
  case False
  let ?e = "ilog2 q" and ?f = "ilog2 r"
  have ef: "?e \<le> ?f" using assms by (rule ilog2_mono)
  have "max (?e - 52) (- 1074) \<noteq> max (?f - 52) (- 1074)"
    using False assms unfolding ulp_def by (metis abs_of_pos order_less_le_trans)
  then have f: "max (?e - 52) (- 1074) < ?f - 52" using ef by linarith
  let ?g = "max (?e + 1) (- 1074)"
  have u: "ulp q = pow2 (max (?e - 52) (- 1074))" "ulp r = pow2 (?f - 52)"
    using assms f by (simp_all add: ulp_def)
  have "q \<le> pow2 ?g" using ilog2_spec [OF assms(1)] pow2_mono [of "?e + 1" ?g] by linarith
  moreover have m: "pow2 ?g = of_int (2 ^ nat (?g - max (?e - 52) (- 1074))) * pow2 (max (?e - 52) (- 1074))"
    by (rule pow2_multiple) auto
  ultimately have "roundV q \<le> pow2 ?g"
    unfolding roundV_def u(1) m by (intro round_to_grid pow2_pos)
  also have "\<dots> \<le> pow2 ?f" using ef f by (intro pow2_mono) auto
  also have "pow2 ?f \<le> roundV r"
  proof -
    have "pow2 ?f \<le> r" using ilog2_spec [of r] assms by simp
    moreover have m: "pow2 ?f = of_int (2 ^ nat (?f - (?f - 52))) * pow2 (?f - 52)" by (rule pow2_multiple) simp
    ultimately show ?thesis unfolding roundV_def u(2) using m grid_to_round [OF pow2_pos] by metis
  qed
  finally show ?thesis .
qed

lemma roundF_V: "0 < q \<Longrightarrow> roundF q = (if roundV q \<ge> pow2 1024 then PInf else Fin (roundV q))"
proof -
  assume q: "0 < q"
  then have "0 \<le> roundV q" using ulp_pos [of q] by (simp add: roundV_def roundEven_nonneg)
  moreover have "- pow2 1024 < 0" by simp
  ultimately have "\<not> roundV q \<le> - pow2 1024" by linarith
  then show ?thesis using q by (simp add: roundF_def roundV_def Let_def)
qed

lemma roundF_mono:
  assumes "0 \<le> q" "q \<le> r" "roundF r = Fin y"
  shows "\<exists>x. roundF q = Fin x \<and> 0 \<le> x \<and> x \<le> y"
proof (cases "q = 0")
  case True
  then show ?thesis using roundF_nonneg [of r] assms by auto
next
  case False
  then have "roundV q \<le> roundV r" "0 < q" "0 < r" using assms by (auto intro: roundV_mono)
  then show ?thesis using assms roundF_nonneg [of q] by (auto simp: roundF_V split: if_splits)
qed

lemma roundEven_near: "\<bar>x - of_int n\<bar> < 1 / 2 \<Longrightarrow> roundEven x = n"
proof (cases "of_int n \<le> x")
  case True
  assume "\<bar>x - of_int n\<bar> < 1 / 2"
  then have "\<lfloor>x\<rfloor> = n" "x - of_int n < 1 / 2" using True by (auto simp: floor_eq_iff)
  then show ?thesis by (simp add: roundEven_def)
next
  case False
  assume "\<bar>x - of_int n\<bar> < 1 / 2"
  then have "\<lfloor>x\<rfloor> = n - 1" "1 / 2 < x - of_int (n - 1)" using False by (auto simp: floor_eq_iff)
  then show ?thesis by (simp add: roundEven_def Let_def)
qed

lemma roundF_at:
  assumes "pow2 e \<le> q" "q < pow2 (e + 1)" "- 1022 \<le> e" "\<bar>q / pow2 (e - 52) - of_int n\<bar> < 1 / 2"
    and "v = of_int n * pow2 (e - 52)" "v < pow2 1024"
  shows "roundF q = Fin v"
proof -
  have q: "0 < q" using assms(1) pow2_pos [of e] by linarith
  have "ulp q = pow2 (e - 52)" using ilog2_eqI [OF assms(1,2)] q assms(3) by (simp add: ulp_def)
  then show ?thesis using q assms(5,6) roundEven_near [OF assms(4)] by (simp add: roundF_V roundV_def)
qed

text \<open>The percentages of a two-hundredth and a hundredth: the double rounding is exact.\<close>

lemma percent_half:
  "roundF (1 / 200) = Fin (5764607523034235 / 1152921504606846976)"
  "roundF (5764607523034235 / 1152921504606846976 * 100) = Fin (1 / 2)"
  by (rule roundF_at [of "- 8" _ 5764607523034235]; simp add: pow2_def)
    (rule roundF_at [of "- 1" _ 4503599627370496]; simp add: pow2_def)

lemma percent_one:
  "roundF (1 / 100) = Fin (5764607523034235 / 576460752303423488)"
  "roundF (5764607523034235 / 576460752303423488 * 100) = Fin 1"
  by (rule roundF_at [of "- 7" _ 5764607523034235]; simp add: pow2_def)
    (rule roundF_at [of 0 _ 4503599627370496]; simp add: pow2_def)

lemma roundF_dyadic:
  assumes "0 < n" "n < 2 ^ 53" "j \<le> 1000"
  shows "roundF (of_int n / 2 ^ j) = Fin (of_int n / 2 ^ j)"
proof -
  let ?q = "of_int n / 2 ^ j :: rat"
  let ?e = "max (ilog2 \<bar>?q\<bar> - 52) (- 1074)"
  have q: "0 < ?q" using assms(1) by simp
  have lt: "?q < pow2 (53 - int j)"
  proof -
    have "(of_int n :: rat) < 2 ^ 53" using assms(2) of_int_less_iff [of n "2 ^ 53", where 'a = rat] by simp
    then have "?q < pow2 53 / 2 ^ j" by (simp add: pow2_def divide_strict_right_mono)
    also have "pow2 53 / 2 ^ j = pow2 (53 - int j)" unfolding pow2_powi by (simp add: power_int_diff)
    finally show ?thesis .
  qed
  have "pow2 (ilog2 ?q) < pow2 (53 - int j)" using ilog2_spec [OF q] lt by linarith
  then have "ilog2 ?q < 53 - int j" by (rule pow2_less_imp)
  moreover have "\<bar>?q\<bar> = ?q" using q by (rule abs_of_pos)
  ultimately have e: "?e \<le> - int j" using assms(3) by linarith
  have "pow2 (- int j) = of_int (2 ^ nat (- int j - ?e)) * pow2 ?e" by (rule pow2_multiple [OF e])
  then have "?q = of_int (n * 2 ^ nat (- int j - ?e)) * ulp ?q"
    unfolding ulp_def by (simp add: pow2_neg mult.assoc divide_inverse)
  moreover have "\<bar>?q\<bar> < pow2 1024"
    using lt pow2_mono [of "53 - int j" 1024] q by linarith
  ultimately show ?thesis by (rule roundF_grid)
qed

end
