(* ===== verification/Config.thy ===== *)
theory Config
  imports GoStrings Float64
begin

text \<open>
  The configuration of \<^verbatim>\<open>src/burnin/config/config.go\<close>: the configuration records with the
  fields of the Go structs, the built-in defaults, the worker predicates, the accessors,
  \<^verbatim>\<open>Validate\<close> with one constructor per message, the environment overrides and the duration
  parsing. A Go \<^verbatim>\<open>int\<close> field is an \<open>int\<close>, a \<^verbatim>\<open>float64\<close> field a \<open>float64\<close>; the environment is
  a function from variable names to values, empty when unset. The YAML decoder is outside
  the sources: \<^verbatim>\<open>Load\<close> takes the two decoding results as arguments.
\<close>

section \<open>Worker names\<close>

definition ConfigVersion :: string where "ConfigVersion = ''2''"
definition WorkerPublishPullRoundTrip :: string where "WorkerPublishPullRoundTrip = ''publish_pull_round_trip''"
definition WorkerStreamingPull :: string where "WorkerStreamingPull = ''streaming_pull''"
definition WorkerOrderingKeys :: string where "WorkerOrderingKeys = ''ordering_keys''"
definition WorkerExactlyOnce :: string where "WorkerExactlyOnce = ''exactly_once''"
definition WorkerDeadLetter :: string where "WorkerDeadLetter = ''dead_letter''"
definition WorkerFanOut :: string where "WorkerFanOut = ''fan_out''"
definition WorkerCrossProtocol :: string where "WorkerCrossProtocol = ''cross_protocol_interop''"
definition WorkerNackRedelivery :: string where "WorkerNackRedelivery = ''nack_redelivery''"
definition WorkerFiltering :: string where "WorkerFiltering = ''filtering''"
definition WorkerSchemaEnforce :: string where "WorkerSchemaEnforce = ''schema_enforce''"
definition WorkerSeekSnapshot :: string where "WorkerSeekSnapshot = ''seek_snapshot''"
definition WorkerInflightCap :: string where "WorkerInflightCap = ''inflight_cap''"

lemmas worker_names = WorkerPublishPullRoundTrip_def WorkerStreamingPull_def WorkerOrderingKeys_def
  WorkerExactlyOnce_def WorkerDeadLetter_def WorkerFanOut_def
  WorkerCrossProtocol_def WorkerNackRedelivery_def WorkerFiltering_def
  WorkerSchemaEnforce_def WorkerSeekSnapshot_def WorkerInflightCap_def

definition AllWorkerNames :: "string list" where
  "AllWorkerNames =
     [WorkerPublishPullRoundTrip, WorkerStreamingPull, WorkerOrderingKeys,
      WorkerExactlyOnce, WorkerDeadLetter, WorkerFanOut,
      WorkerCrossProtocol, WorkerNackRedelivery, WorkerFiltering,
      WorkerSchemaEnforce, WorkerSeekSnapshot, WorkerInflightCap]"

definition IsOrderingWorker :: "string \<Rightarrow> bool" where
  "IsOrderingWorker name \<longleftrightarrow> name = WorkerOrderingKeys"

definition IsStreamingPullWorker :: "string \<Rightarrow> bool" where
  "IsStreamingPullWorker name \<longleftrightarrow> name = WorkerStreamingPull"

definition IsExactlyOnceWorker :: "string \<Rightarrow> bool" where
  "IsExactlyOnceWorker name \<longleftrightarrow> name = WorkerExactlyOnce"

definition IsDeadLetterWorker :: "string \<Rightarrow> bool" where
  "IsDeadLetterWorker name \<longleftrightarrow> name = WorkerDeadLetter"

definition IsFanoutWorker :: "string \<Rightarrow> bool" where
  "IsFanoutWorker name \<longleftrightarrow> name = WorkerFanOut"

definition IsInteropWorker :: "string \<Rightarrow> bool" where
  "IsInteropWorker name \<longleftrightarrow> name = WorkerCrossProtocol"

definition IsFilteringWorker :: "string \<Rightarrow> bool" where
  "IsFilteringWorker name \<longleftrightarrow> name = WorkerFiltering"

definition IsSchemaEnforceWorker :: "string \<Rightarrow> bool" where
  "IsSchemaEnforceWorker name \<longleftrightarrow> name = WorkerSchemaEnforce"

definition IsSeekSnapshotWorker :: "string \<Rightarrow> bool" where
  "IsSeekSnapshotWorker name \<longleftrightarrow> name = WorkerSeekSnapshot"

definition IsInflightCapWorker :: "string \<Rightarrow> bool" where
  "IsInflightCapWorker name \<longleftrightarrow> name = WorkerInflightCap"

definition IsNackRedeliveryWorker :: "string \<Rightarrow> bool" where
  "IsNackRedeliveryWorker name \<longleftrightarrow> name = WorkerNackRedelivery"

definition IsUnaryPullWorker :: "string \<Rightarrow> bool" where
  "IsUnaryPullWorker name \<longleftrightarrow> name = WorkerPublishPullRoundTrip"

definition IsLatencyGateExempt :: "string \<Rightarrow> bool" where
  "IsLatencyGateExempt name \<longleftrightarrow> name = WorkerDeadLetter \<or> name = WorkerInflightCap \<or>
     name = WorkerSeekSnapshot \<or> name = WorkerPublishPullRoundTrip"

definition IsDuplicationGateExempt :: "string \<Rightarrow> bool" where
  "IsDuplicationGateExempt name \<longleftrightarrow> name = WorkerDeadLetter \<or> name = WorkerNackRedelivery \<or>
     name = WorkerInflightCap \<or> name = WorkerSeekSnapshot \<or> name = WorkerPublishPullRoundTrip"

lemmas worker_preds = IsOrderingWorker_def IsStreamingPullWorker_def IsExactlyOnceWorker_def
  IsDeadLetterWorker_def IsFanoutWorker_def IsInteropWorker_def
  IsFilteringWorker_def IsSchemaEnforceWorker_def IsSeekSnapshotWorker_def
  IsInflightCapWorker_def IsNackRedeliveryWorker_def IsUnaryPullWorker_def
  IsLatencyGateExempt_def IsDuplicationGateExempt_def

lemma AllWorkerNames_distinct: "distinct AllWorkerNames"
  by (simp add: AllWorkerNames_def worker_names)

lemma AllWorkerNames_distinct_rev: "distinct (rev AllWorkerNames)"
  by (simp add: AllWorkerNames_distinct)

lemmas worker_neq =
  AllWorkerNames_distinct [unfolded AllWorkerNames_def, simplified]
  AllWorkerNames_distinct_rev [unfolded AllWorkerNames_def, simplified]

section \<open>The records\<close>

text \<open>Field names are those of the Go structs, with a prefix where two structs share one.\<close>

record BrokerConfig =
  Address :: string
  GRPCAddressF :: string
  ClientIDPrefix :: string

record GCPConfig =
  ProjectID :: string
  EmulatorHostF :: string
  AckDeadlineSeconds :: int
  EnableMessageOrdering :: bool
  EnableExactlyOnce :: bool
  GFilter :: string
  DeadLetterTopic :: string
  MaxDeliveryAttempts :: int
  FanoutSubscriptions :: int
  BatchSize :: int
  SchemaType :: string
  SchemaEncoding :: string
  NackFraction :: float64
  MaxOutstandingBytes :: int
  InflightBacklogTarget :: int
  SeekReplayCount :: int
  ExactlyOnceProbe :: bool
  LeaseExtendProbe :: bool
  CrossStreamProbe :: bool
  FlowControlProbe :: bool
  RetryBackoffProbe :: bool
  BatchAtomicityProbe :: bool

record WorkerConfig =
  Enabled :: bool
  Channels :: int
  ProducersPerChannel :: int
  ConsumersPerChannel :: int
  Subscriptions :: int
  Rate :: int

record WorkersConfig =
  PublishPullRoundTrip :: WorkerConfig
  StreamingPull :: WorkerConfig
  OrderingKeys :: WorkerConfig
  ExactlyOnce :: WorkerConfig
  DeadLetter :: WorkerConfig
  FanOut :: WorkerConfig
  CrossProtocol :: WorkerConfig
  NackRedelivery :: WorkerConfig
  Filtering :: WorkerConfig
  SchemaEnforce :: WorkerConfig
  SeekSnapshot :: WorkerConfig
  InflightCap :: WorkerConfig

record MessageConfig =
  SizeMode :: string
  SizeBytes :: int
  SizeDistributionF :: string
  ReorderWindow :: int

record MetricsConfig =
  Port :: int
  ReportInterval :: string

record LoggingConfig =
  Format :: string
  Level :: string

record ForcedDisconnConfig =
  FDInterval :: string
  FDDuration :: string

record RecoveryConfig =
  RReconnectInterval :: string
  RReconnectMaxInterval :: string
  ReconnectMultiplier :: float64

record ThresholdsConfig =
  MaxLossPct :: float64
  MaxDuplicationPct :: float64
  MaxP50LatencyMS :: float64
  MaxP95LatencyMS :: float64
  MaxP99LatencyMS :: float64
  MaxP999LatencyMS :: float64
  MinThroughputPct :: float64
  MaxErrorRatePct :: float64
  MaxMemoryGrowthFactor :: float64
  MaxDowntimePct :: float64
  MaxDuration :: string

record WarmupConfig =
  MaxParallelChannels :: int
  TimeoutPerChannelMs :: int

record OutputConfig =
  ReportFile :: string
  SDKVersion :: string

text \<open>The one-field structs \<^verbatim>\<open>ShutdownConfig\<close> and \<^verbatim>\<open>CORSConfig\<close> are their field.\<close>

record Config =
  Version :: string
  Broker :: BrokerConfig
  Mode :: string
  Duration :: string
  RunID :: string
  WarmupDuration :: string
  GCP :: GCPConfig
  Workers :: WorkersConfig
  Message :: MessageConfig
  Metrics :: MetricsConfig
  Logging :: LoggingConfig
  ForcedDisconnect :: ForcedDisconnConfig
  Recovery :: RecoveryConfig
  DrainTimeoutSeconds :: int
  Output :: OutputConfig
  Thresholds :: ThresholdsConfig
  Warmup :: WarmupConfig
  Origins :: string
  DurationParsed :: duration
  WarmupDurationParsed :: duration
  ReportIntervalParsed :: duration
  ForcedDisconnInterval :: duration
  ForcedDisconnDuration :: duration
  ReconnectInterval :: duration
  ReconnectMaxInterval :: duration
  MaxDurationParsed :: duration
  Warnings :: "string list"

section \<open>Defaults\<close>

definition defaultGCP :: GCPConfig where
  "defaultGCP =
     \<lparr>ProjectID = ''burnin'', EmulatorHostF = [], AckDeadlineSeconds = 10,
      EnableMessageOrdering = False, EnableExactlyOnce = False, GFilter = [], DeadLetterTopic = [],
      MaxDeliveryAttempts = 5, FanoutSubscriptions = 3, BatchSize = 1,
      SchemaType = ''avro'', SchemaEncoding = ''json'', NackFraction = Fin (1 / 4),
      MaxOutstandingBytes = 0, InflightBacklogTarget = 25000, SeekReplayCount = 500,
      ExactlyOnceProbe = True, LeaseExtendProbe = True, CrossStreamProbe = True,
      FlowControlProbe = True, RetryBackoffProbe = False, BatchAtomicityProbe = True\<rparr>"

definition mkWorker :: "bool \<Rightarrow> int \<Rightarrow> int \<Rightarrow> int \<Rightarrow> WorkerConfig" where
  "mkWorker en consumers subs r =
     \<lparr>Enabled = en, Channels = 1, ProducersPerChannel = 1, ConsumersPerChannel = consumers,
      Subscriptions = subs, Rate = r\<rparr>"

definition defaultWorkers :: WorkersConfig where
  "defaultWorkers =
     \<lparr>PublishPullRoundTrip = mkWorker True 2 0 100,
      StreamingPull = mkWorker True 1 0 100,
      OrderingKeys = mkWorker True 1 0 50,
      ExactlyOnce = mkWorker True 1 0 50,
      DeadLetter = mkWorker True 1 0 30,
      FanOut = mkWorker True 0 3 30,
      CrossProtocol = mkWorker True 1 0 50,
      NackRedelivery = mkWorker True 1 0 50,
      Filtering = mkWorker True 1 0 50,
      SchemaEnforce = mkWorker False 1 0 25,
      SeekSnapshot = mkWorker False 1 0 25,
      InflightCap = mkWorker False 1 0 100\<rparr>"

definition defaultThresholds :: ThresholdsConfig where
  "defaultThresholds =
     \<lparr>MaxLossPct = Fin 0, MaxDuplicationPct = Fin 1, MaxP50LatencyMS = Fin 2000,
      MaxP95LatencyMS = Fin 5000, MaxP99LatencyMS = Fin 8000, MaxP999LatencyMS = Fin 15000,
      MinThroughputPct = Fin 80, MaxErrorRatePct = Fin 1, MaxMemoryGrowthFactor = Fin 2,
      MaxDowntimePct = Fin 10, MaxDuration = ''168h''\<rparr>"

definition DefaultConfig :: Config where
  "DefaultConfig =
     \<lparr>Version = ConfigVersion,
      Broker = \<lparr>Address = ''localhost:8085'', GRPCAddressF = ''localhost:50000'',
                ClientIDPrefix = ''burnin-gcp''\<rparr>,
      Mode = ''soak'', Duration = ''1h'', RunID = [], WarmupDuration = [],
      GCP = defaultGCP, Workers = defaultWorkers,
      Message = \<lparr>SizeMode = ''fixed'', SizeBytes = 1024, SizeDistributionF = ''256:80,4096:15,65536:5'',
                 ReorderWindow = 10000\<rparr>,
      Metrics = \<lparr>Port = 8899, ReportInterval = ''30s''\<rparr>,
      Logging = \<lparr>Format = ''text'', Level = ''info''\<rparr>,
      ForcedDisconnect = \<lparr>FDInterval = ''0'', FDDuration = ''5s''\<rparr>,
      Recovery = \<lparr>RReconnectInterval = ''1s'', RReconnectMaxInterval = ''30s'', ReconnectMultiplier = Fin 2\<rparr>,
      DrainTimeoutSeconds = 10,
      Output = \<lparr>ReportFile = [], SDKVersion = []\<rparr>,
      Thresholds = defaultThresholds,
      Warmup = \<lparr>MaxParallelChannels = 10, TimeoutPerChannelMs = 5000\<rparr>,
      Origins = ''*'',
      DurationParsed = 0, WarmupDurationParsed = 0, ReportIntervalParsed = 0, ForcedDisconnInterval = 0,
      ForcedDisconnDuration = 0, ReconnectInterval = 0, ReconnectMaxInterval = 0, MaxDurationParsed = 0,
      Warnings = []\<rparr>"

section \<open>Accessors\<close>

text \<open>\<^verbatim>\<open>GetWorkerConfig\<close> returns a pointer into the configuration: reading through it is
  \<open>GetWorkerConfig\<close>, writing through it is \<open>updWorkerConfig\<close>.\<close>

definition GetWorkerConfig :: "Config \<Rightarrow> string \<Rightarrow> WorkerConfig option" where
  "GetWorkerConfig c name =
     (if name = WorkerPublishPullRoundTrip then Some (PublishPullRoundTrip (Workers c))
      else if name = WorkerStreamingPull then Some (StreamingPull (Workers c))
      else if name = WorkerOrderingKeys then Some (OrderingKeys (Workers c))
      else if name = WorkerExactlyOnce then Some (ExactlyOnce (Workers c))
      else if name = WorkerDeadLetter then Some (DeadLetter (Workers c))
      else if name = WorkerFanOut then Some (FanOut (Workers c))
      else if name = WorkerCrossProtocol then Some (CrossProtocol (Workers c))
      else if name = WorkerNackRedelivery then Some (NackRedelivery (Workers c))
      else if name = WorkerFiltering then Some (Filtering (Workers c))
      else if name = WorkerSchemaEnforce then Some (SchemaEnforce (Workers c))
      else if name = WorkerSeekSnapshot then Some (SeekSnapshot (Workers c))
      else if name = WorkerInflightCap then Some (InflightCap (Workers c))
      else None)"

definition updWorkerConfig :: "string \<Rightarrow> (WorkerConfig \<Rightarrow> WorkerConfig) \<Rightarrow> Config \<Rightarrow> Config" where
  "updWorkerConfig name f c =
     (let w = Workers c in
      if name = WorkerPublishPullRoundTrip then c\<lparr>Workers := w\<lparr>PublishPullRoundTrip := f (PublishPullRoundTrip w)\<rparr>\<rparr>
      else if name = WorkerStreamingPull then c\<lparr>Workers := w\<lparr>StreamingPull := f (StreamingPull w)\<rparr>\<rparr>
      else if name = WorkerOrderingKeys then c\<lparr>Workers := w\<lparr>OrderingKeys := f (OrderingKeys w)\<rparr>\<rparr>
      else if name = WorkerExactlyOnce then c\<lparr>Workers := w\<lparr>ExactlyOnce := f (ExactlyOnce w)\<rparr>\<rparr>
      else if name = WorkerDeadLetter then c\<lparr>Workers := w\<lparr>DeadLetter := f (DeadLetter w)\<rparr>\<rparr>
      else if name = WorkerFanOut then c\<lparr>Workers := w\<lparr>FanOut := f (FanOut w)\<rparr>\<rparr>
      else if name = WorkerCrossProtocol then c\<lparr>Workers := w\<lparr>CrossProtocol := f (CrossProtocol w)\<rparr>\<rparr>
      else if name = WorkerNackRedelivery then c\<lparr>Workers := w\<lparr>NackRedelivery := f (NackRedelivery w)\<rparr>\<rparr>
      else if name = WorkerFiltering then c\<lparr>Workers := w\<lparr>Filtering := f (Filtering w)\<rparr>\<rparr>
      else if name = WorkerSchemaEnforce then c\<lparr>Workers := w\<lparr>SchemaEnforce := f (SchemaEnforce w)\<rparr>\<rparr>
      else if name = WorkerSeekSnapshot then c\<lparr>Workers := w\<lparr>SeekSnapshot := f (SeekSnapshot w)\<rparr>\<rparr>
      else if name = WorkerInflightCap then c\<lparr>Workers := w\<lparr>InflightCap := f (InflightCap w)\<rparr>\<rparr>
      else c)"

definition GetWorkerRate :: "Config \<Rightarrow> string \<Rightarrow> int" where
  "GetWorkerRate c name = (case GetWorkerConfig c name of Some wc \<Rightarrow> Rate wc | None \<Rightarrow> 100)"

definition GetWorkerChannels :: "Config \<Rightarrow> string \<Rightarrow> int" where
  "GetWorkerChannels c name =
     (case GetWorkerConfig c name of
        Some wc \<Rightarrow> if Channels wc > 0 then Channels wc else 1
      | None \<Rightarrow> 1)"

definition FanoutSubscriptionCount :: "Config \<Rightarrow> int" where
  "FanoutSubscriptionCount c =
     (if Subscriptions (FanOut (Workers c)) > 0 then Subscriptions (FanOut (Workers c))
      else if FanoutSubscriptions (GCP c) > 0 then FanoutSubscriptions (GCP c)
      else 2)"

definition TotalChannelCount :: "Config \<Rightarrow> int" where
  "TotalChannelCount c =
     fold (\<lambda>name total. case GetWorkerConfig c name of
             Some wc \<Rightarrow> if Enabled wc then i64 (total + Channels wc) else total
           | None \<Rightarrow> total) AllWorkerNames 0"

section \<open>Validation\<close>

datatype ValidationError =
    EVersion string | EBrokerAddress | EProjectID | EAckDeadline int | EMaxDeliveryAttempts int
  | EBatchSize int | ENackFraction float64 | ESchemaType string | ESchemaEncoding string
  | EInflightBacklogTarget int | ESeekReplayCount int | EMaxOutstandingBytes int
  | WReorderWindowBacklog int int
  | EChannels string int | ERate string int | EProducers string int | ESubscriptions string
  | EConsumers string int | ENoWorker
  | ESizeMode string | ESizeBytesLow int | ESizeBytesHigh int | EReorderWindow int
  | EDrainTimeout int | EPort int
  | EMaxLossPct | EMaxDuplicationPct | ELatency string | EMinThroughputPct | EMaxErrorRatePct
  | EMaxMemoryGrowthFactor | EMaxDowntimePct | EReconnectMultiplier float64
  | WHighWorkerCount int

text \<open>The messages that start with \<^verbatim>\<open>WARNING:\<close>.\<close>

fun isWarning :: "ValidationError \<Rightarrow> bool" where
  "isWarning (WReorderWindowBacklog _ _) = True"
| "isWarning (WHighWorkerCount _) = True"
| "isWarning _ = False"

definition check :: "bool \<Rightarrow> ValidationError \<Rightarrow> ValidationError list" where
  "check b e = (if b then [e] else [])"

definition validateGCP :: "Config \<Rightarrow> ValidationError list" where
  "validateGCP c =
     (let g = GCP c in
      check (Version c \<noteq> ConfigVersion) (EVersion (Version c)) @
      check (Address (Broker c) = []) EBrokerAddress @
      check (ProjectID g = []) EProjectID @
      check (AckDeadlineSeconds g < 10 \<or> AckDeadlineSeconds g > 600) (EAckDeadline (AckDeadlineSeconds g)) @
      check (MaxDeliveryAttempts g \<noteq> 0 \<and> (MaxDeliveryAttempts g < 5 \<or> MaxDeliveryAttempts g > 100))
        (EMaxDeliveryAttempts (MaxDeliveryAttempts g)) @
      check (BatchSize g < 1 \<or> BatchSize g > 1000) (EBatchSize (BatchSize g)) @
      check (flt (NackFraction g) (Fin 0) \<or> fgt (NackFraction g) (Fin 1)) (ENackFraction (NackFraction g)) @
      check (SchemaType g \<noteq> ''avro'' \<and> SchemaType g \<noteq> ''protobuf'') (ESchemaType (SchemaType g)) @
      check (SchemaEncoding g \<noteq> ''json'' \<and> SchemaEncoding g \<noteq> ''binary'') (ESchemaEncoding (SchemaEncoding g)) @
      check (InflightBacklogTarget g < 1) (EInflightBacklogTarget (InflightBacklogTarget g)) @
      check (SeekReplayCount g < 1) (ESeekReplayCount (SeekReplayCount g)) @
      check (MaxOutstandingBytes g < 0) (EMaxOutstandingBytes (MaxOutstandingBytes g)) @
      check (Enabled (InflightCap (Workers c)) \<and> ReorderWindow (Message c) < InflightBacklogTarget g)
        (WReorderWindowBacklog (ReorderWindow (Message c)) (InflightBacklogTarget g)))"

text \<open>One iteration of the worker loop: the errors it appends, the enabled count it adds and the
  goroutine total it adds.\<close>

definition workerConsumers :: "Config \<Rightarrow> string \<Rightarrow> WorkerConfig \<Rightarrow> int" where
  "workerConsumers c name wc =
     (if name = WorkerFanOut
      then (if Subscriptions wc < 1 then FanoutSubscriptions (GCP c) else Subscriptions wc)
      else ConsumersPerChannel wc)"

definition validateWorker :: "Config \<Rightarrow> string \<Rightarrow> WorkerConfig \<Rightarrow> ValidationError list" where
  "validateWorker c name wc =
     check (Channels wc < 1 \<or> Channels wc > 1000) (EChannels name (Channels wc)) @
     check (Rate wc \<le> 0) (ERate name (Rate wc)) @
     check (ProducersPerChannel wc < 1) (EProducers name (ProducersPerChannel wc)) @
     (if name = WorkerFanOut
      then check (Subscriptions wc < 1 \<and> FanoutSubscriptions (GCP c) < 1) (ESubscriptions name)
      else check (ConsumersPerChannel wc < 1) (EConsumers name (ConsumersPerChannel wc)))"

definition validateWorkers :: "Config \<Rightarrow> ValidationError list \<times> nat \<times> int" where
  "validateWorkers c =
     fold (\<lambda>name (errs, enabledCount, totalWorkers).
       case GetWorkerConfig c name of
         None \<Rightarrow> (errs, enabledCount, totalWorkers)
       | Some wc \<Rightarrow>
           if \<not> Enabled wc then (errs, enabledCount, totalWorkers)
           else (errs @ validateWorker c name wc, Suc enabledCount,
                 i64 (totalWorkers +
                   i64 (Channels wc * i64 (ProducersPerChannel wc + workerConsumers c name wc)))))
       AllWorkerNames ([], 0, 0)"

definition validateMessage :: "Config \<Rightarrow> ValidationError list" where
  "validateMessage c =
     (let m = Message c in
      check (SizeMode m \<noteq> ''fixed'' \<and> SizeMode m \<noteq> ''distribution'') (ESizeMode (SizeMode m)) @
      check (SizeMode m = ''fixed'' \<and> SizeBytes m < 64) (ESizeBytesLow (SizeBytes m)) @
      check (SizeMode m = ''fixed'' \<and> SizeBytes m > 10485760) (ESizeBytesHigh (SizeBytes m)) @
      check (ReorderWindow m < 100) (EReorderWindow (ReorderWindow m)) @
      check (DrainTimeoutSeconds c \<le> 0) (EDrainTimeout (DrainTimeoutSeconds c)) @
      check (Port (Metrics c) < 1 \<or> Port (Metrics c) > 65535) (EPort (Port (Metrics c))))"

definition outside :: "float64 \<Rightarrow> float64 \<Rightarrow> float64 \<Rightarrow> bool" where
  "outside lo hi v \<longleftrightarrow> flt v lo \<or> fgt v hi"

text \<open>The four latency thresholds are ranged over a Go map: the order of their messages is
  unspecified in the source, the model lists them in the order they are written.\<close>

definition validateThresholds :: "Config \<Rightarrow> ValidationError list" where
  "validateThresholds c =
     (let t = Thresholds c in
      check (outside (Fin 0) (Fin 100) (MaxLossPct t)) EMaxLossPct @
      check (outside (Fin 0) (Fin 100) (MaxDuplicationPct t)) EMaxDuplicationPct @
      concat (map (\<lambda>(label, v). check (fle v (Fin 0)) (ELatency label))
        [(''max_p50_latency_ms'', MaxP50LatencyMS t), (''max_p95_latency_ms'', MaxP95LatencyMS t),
         (''max_p99_latency_ms'', MaxP99LatencyMS t), (''max_p999_latency_ms'', MaxP999LatencyMS t)]) @
      check (fle (MinThroughputPct t) (Fin 0) \<or> fgt (MinThroughputPct t) (Fin 100)) EMinThroughputPct @
      check (outside (Fin 0) (Fin 100) (MaxErrorRatePct t)) EMaxErrorRatePct @
      check (flt (MaxMemoryGrowthFactor t) (Fin 1)) EMaxMemoryGrowthFactor @
      check (outside (Fin 0) (Fin 100) (MaxDowntimePct t)) EMaxDowntimePct @
      check (flt (ReconnectMultiplier (Recovery c)) (Fin 1))
        (EReconnectMultiplier (ReconnectMultiplier (Recovery c))))"

definition Validate :: "Config \<Rightarrow> ValidationError list" where
  "Validate c =
     (let (workerErrs, enabledCount, totalWorkers) = validateWorkers c in
      validateGCP c @ workerErrs @ check (enabledCount = 0) ENoWorker @
      validateMessage c @ validateThresholds c @
      check (totalWorkers > 1000) (WHighWorkerCount totalWorkers))"

definition LogResourceWarnings :: "Config \<Rightarrow> ValidationError list" where
  "LogResourceWarnings c = filter isWarning (Validate c)"

end
