(* ===== verification/GoTime.thy ===== *)
theory GoTime
  imports GoStrings Float64
begin

text \<open>
  \<^verbatim>\<open>time.Duration\<close> of the Go standard library: the unit constants and \<^verbatim>\<open>time.ParseDuration\<close> with
  its overflow checks, fraction scaling and unit table. \<open>None\<close> is a parse error.
\<close>

definition Nanosecond :: duration where "Nanosecond = 1"
definition Millisecond :: duration where "Millisecond = 1000000"
definition Second :: duration where "Second = 1000000000"
definition Minute :: duration where "Minute = 60000000000"
definition Hour :: duration where "Hour = 3600000000000"

text \<open>\<^verbatim>\<open>Time.Sub\<close> (and \<^verbatim>\<open>time.Since\<close>) saturates at the limits of a duration.\<close>

definition timeSub :: "instant \<Rightarrow> instant \<Rightarrow> duration" where
  "timeSub a b = max (- (2 ^ 63)) (min (2 ^ 63 - 1) (a - b))"

lemmas time_units = Nanosecond_def Millisecond_def Second_def Minute_def Hour_def

definition unitMap :: "string \<Rightarrow> nat option" where
  "unitMap u =
     (if u = ''ns'' then Some 1
      else if u = ''us'' \<or> u = [CHR 0xC2, CHR 0xB5, CHR ''s''] \<or> u = [CHR 0xCE, CHR 0xBC, CHR ''s''] then Some 1000
      else if u = ''ms'' then Some 1000000
      else if u = ''s'' then Some 1000000000
      else if u = ''m'' then Some 60000000000
      else if u = ''h'' then Some 3600000000000
      else None)"

fun leadingInt :: "nat \<Rightarrow> string \<Rightarrow> (nat \<times> string) option" where
  "leadingInt x [] = Some (x, [])"
| "leadingInt x (c # cs) =
     (case digitVal c of
        None \<Rightarrow> Some (x, c # cs)
      | Some d \<Rightarrow> if x > 2 ^ 63 div 10 then None
                  else if x * 10 + d > 2 ^ 63 then None
                  else leadingInt (x * 10 + d) cs)"

fun leadingFraction :: "nat \<Rightarrow> float64 \<Rightarrow> bool \<Rightarrow> string \<Rightarrow> nat \<times> float64 \<times> string" where
  "leadingFraction x scale ov [] = (x, scale, [])"
| "leadingFraction x scale ov (c # cs) =
     (case digitVal c of
        None \<Rightarrow> (x, scale, c # cs)
      | Some d \<Rightarrow>
          if ov \<or> x > (2 ^ 63 - 1) div 10 \<or> x * 10 + d > 2 ^ 63 then leadingFraction x scale True cs
          else leadingFraction (x * 10 + d) (fmul scale (Fin 10)) False cs)"

definition unitChar :: "char \<Rightarrow> bool" where
  "unitChar c \<longleftrightarrow> c \<noteq> CHR ''.'' \<and> digitVal c = None"

text \<open>One round of the loop of \<^verbatim>\<open>ParseDuration\<close>: the value of the leading number and unit, and
  the remaining string.\<close>

definition durationTerm :: "string \<Rightarrow> (nat \<times> string) option" where
  "durationTerm s =
     (if s = [] \<or> unitChar (hd s) then None
      else (case leadingInt 0 s of
        None \<Rightarrow> None
      | Some (v, s1) \<Rightarrow>
          (let pre = (length s \<noteq> length s1);
               dot = (s1 \<noteq> [] \<and> hd s1 = CHR ''.'');
               (f, scale, s2) = (if dot then leadingFraction 0 (Fin 1) False (tl s1) else (0, Fin 1, s1));
               post = (dot \<and> length (tl s1) \<noteq> length s2);
               u = takeWhile unitChar s2; s3 = dropWhile unitChar s2
           in if \<not> pre \<and> \<not> post then None
              else if u = [] then None
              else (case unitMap u of
                None \<Rightarrow> None
              | Some unit \<Rightarrow>
                  if v > 2 ^ 63 div unit then None
                  else (let v1 = v * unit;
                            v2 = (if f > 0 then v1 + truncNat (fmul (floatOfInt (int f)) (fdiv (floatOfInt (int unit)) scale)) else v1)
                        in if f > 0 \<and> v2 > 2 ^ 63 then None else Some (v2, s3))))))"

text \<open>Every round consumes at least the unit, so the length of the string bounds the rounds.\<close>

fun durationSum :: "nat \<Rightarrow> nat \<Rightarrow> string \<Rightarrow> nat option" where
  "durationSum 0 d s = (if s = [] then Some d else None)"
| "durationSum (Suc k) d s =
     (if s = [] then Some d
      else (case durationTerm s of
        None \<Rightarrow> None
      | Some (v, s') \<Rightarrow> (let d' = (d + v) mod 2 ^ 64 in if d' > 2 ^ 63 then None else durationSum k d' s')))"

definition ParseDuration :: "string \<Rightarrow> duration option" where
  "ParseDuration s0 =
     (let neg = (s0 \<noteq> [] \<and> hd s0 = CHR ''-'');
          s = (if s0 \<noteq> [] \<and> (hd s0 = CHR ''-'' \<or> hd s0 = CHR ''+'') then tl s0 else s0)
      in if s = ''0'' then Some 0
         else if s = [] then None
         else (case durationSum (length s) 0 s of
           None \<Rightarrow> None
         | Some d \<Rightarrow> if neg then Some (- int d)
                     else if d > 2 ^ 63 - 1 then None else Some (int d)))"

section \<open>Facts\<close>

lemma leadingInt_length: "leadingInt x s = Some (v, r) \<Longrightarrow> length r \<le> length s"
  by (induction x s rule: leadingInt.induct) (auto split: option.splits if_splits)

lemma leadingFraction_length: "leadingFraction x sc ov s = (f, sc', r) \<Longrightarrow> length r \<le> length s"
  by (induction x sc ov s rule: leadingFraction.induct) (auto split: option.splits if_splits)

lemma durationTerm_consumes:
  assumes "durationTerm s = Some (v, r)"
  shows "length r < length s"
proof -
  have drop: "length (dropWhile unitChar t) < length t" if "takeWhile unitChar t \<noteq> []" for t
    using that by (cases t) (auto simp: le_imp_less_Suc length_dropWhile_le split: if_splits)
  obtain x s1 where s1: "leadingInt 0 s = Some (x, s1)"
    using assms by (auto simp: durationTerm_def split: if_splits option.splits)
  define s2 where "s2 = (if s1 \<noteq> [] \<and> hd s1 = CHR ''.'' then snd (snd (leadingFraction 0 (Fin 1) False (tl s1))) else s1)"
  have "length s2 \<le> length s1"
    unfolding s2_def using leadingFraction_length [of 0 "Fin 1" False "tl s1"]
    by (auto simp: prod_eq_iff)
  moreover have "takeWhile unitChar s2 \<noteq> [] \<and> r = dropWhile unitChar s2"
    using assms s1 by (auto simp: durationTerm_def s2_def Let_def split_beta split: if_splits option.splits)
  ultimately show ?thesis using leadingInt_length [OF s1] drop [of s2] by fastforce
qed

text \<open>Enough rounds: with any fuel of at least the length of the string the result is the same,
  so the fuel never cuts a parse short.\<close>

lemma durationSum_fuel: "length s \<le> k \<Longrightarrow> durationSum k d s = durationSum (length s) d s"
proof (induction k arbitrary: d s rule: less_induct)
  case (less k)
  show ?case
  proof (cases s)
    case (Cons c cs)
    then obtain k' where k: "k = Suc k'" using less.prems by (cases k) auto
    have step: "durationSum n d' r = durationSum (length r) d' r" if "length r \<le> n" "n \<le> k'" for n d' r
      by (rule less.IH) (use that k in simp_all)
    have short: "length r \<le> length cs" if "durationTerm s = Some (v, r)" for v r
      using durationTerm_consumes [OF that] Cons by simp
    have "length cs \<le> k'" using less.prems Cons k by simp
    then have eq: "durationSum k' d' r = durationSum (length cs) d' r" if "length r \<le> length cs" for d' r
      using step [of r k' d'] step [of r "length cs" d'] that by (metis order_trans order_refl)
    have ne: "s \<noteq> []" and len: "length s = Suc (length cs)" using Cons by simp_all
    show ?thesis
    proof (cases "durationTerm s")
      case None
      then show ?thesis unfolding k len by (simp add: ne)
    next
      case (Some vr)
      obtain v r where vr: "vr = (v, r)" by (cases vr)
      show ?thesis
        unfolding k len using eq [OF short [OF Some [unfolded vr]]] by (simp add: ne Some vr Let_def)
    qed
  qed (cases k; simp)
qed

end
