(* ===== verification/ConfigLoad.thy ===== *)
theory ConfigLoad
  imports Config GoTime "HOL-Library.Multiset"
begin

text \<open>
  Loading of the configuration (\<^verbatim>\<open>src/burnin/config/config.go\<close>): the environment overrides, the
  duration fields, \<^verbatim>\<open>Load\<close> and the search for the file. The locale \<open>slots\<close> is the contract of
  the pointers \<^verbatim>\<open>GetWorkerConfig\<close> hands out; it makes the result of the override loop
  independent of the order in which Go ranges over its map.
\<close>

section \<open>Environment overrides\<close>

type_synonym environ = "string \<Rightarrow> string"

definition envNames :: "(string, string) gomap" where
  "envNames =
     [(WorkerPublishPullRoundTrip, ''PUBLISH_PULL_ROUND_TRIP''),
      (WorkerStreamingPull, ''STREAMING_PULL''),
      (WorkerOrderingKeys, ''ORDERING_KEYS''),
      (WorkerExactlyOnce, ''EXACTLY_ONCE''),
      (WorkerDeadLetter, ''DEAD_LETTER''),
      (WorkerFanOut, ''FAN_OUT''),
      (WorkerCrossProtocol, ''CROSS_PROTOCOL_INTEROP''),
      (WorkerNackRedelivery, ''NACK_REDELIVERY''),
      (WorkerFiltering, ''FILTERING''),
      (WorkerSchemaEnforce, ''SCHEMA_ENFORCE''),
      (WorkerSeekSnapshot, ''SEEK_SNAPSHOT''),
      (WorkerInflightCap, ''INFLIGHT_CAP'')]"

definition applyWorkerEnv :: "environ \<Rightarrow> string \<Rightarrow> WorkerConfig \<Rightarrow> WorkerConfig" where
  "applyWorkerEnv getenv env wc =
     (let v = getenv (''BURNIN_'' @ env @ ''_RATE'');
          wc1 = (if v \<noteq> [] then (case Atoi v of Some n \<Rightarrow> wc\<lparr>Rate := n\<rparr> | None \<Rightarrow> wc) else wc);
          v = getenv (''BURNIN_'' @ env @ ''_CHANNELS'');
          wc2 = (if v \<noteq> [] then (case Atoi v of Some n \<Rightarrow> wc1\<lparr>Channels := n\<rparr> | None \<Rightarrow> wc1) else wc1);
          v = getenv (''BURNIN_'' @ env @ ''_ENABLED'')
      in if v \<noteq> [] then wc2\<lparr>Enabled := (v = ''true'' \<or> v = ''1'')\<rparr> else wc2)"

definition overrideAddress :: "environ \<Rightarrow> Config \<Rightarrow> Config" where
  "overrideAddress getenv c =
     (let v = getenv ''KUBEMQ_BROKER_ADDRESS'';
          c1 = (if v \<noteq> [] then c\<lparr>Broker := (Broker c)\<lparr>Address := v\<rparr>\<rparr> else c);
          v = getenv ''KUBEMQ_GRPC_ADDRESS'';
          c2 = (if v \<noteq> [] then c1\<lparr>Broker := (Broker c1)\<lparr>GRPCAddressF := v\<rparr>\<rparr> else c1);
          v = getenv ''PUBSUB_EMULATOR_HOST''
      in if v \<noteq> [] then c2\<lparr>Broker := (Broker c2)\<lparr>Address := v\<rparr>\<rparr> else c2)"

text \<open>The loop over \<open>envNames\<close> in a given order; Go may take any.\<close>

definition overrideWorkers :: "environ \<Rightarrow> (string \<times> string) list \<Rightarrow> Config \<Rightarrow> Config" where
  "overrideWorkers getenv entries c =
     fold (\<lambda>(name, env) c. if GetWorkerConfig c name = None then c
             else updWorkerConfig name (applyWorkerEnv getenv env) c) entries c"

definition applyEnvOverrides :: "environ \<Rightarrow> (string \<times> string) list \<Rightarrow> Config \<Rightarrow> Config" where
  "applyEnvOverrides getenv order c = overrideWorkers getenv order (overrideAddress getenv c)"

section \<open>Durations\<close>

datatype load_error =
    ReadFile | ParseFile
  | BadDuration string | BadWarmup string | BadReportInterval string | BadDisconnInterval string
  | BadDisconnDuration string | BadReconnect string | BadReconnectMax string | BadMaxDuration string

definition parseDuration :: "string \<Rightarrow> duration option" where
  "parseDuration s =
     (if s \<noteq> [] \<and> last s = CHR ''d''
      then (case Atoi (butlast s) of
              None \<Rightarrow> None
            | Some days \<Rightarrow> Some (i64 (i64 (days * 24) * Hour)))
      else ParseDuration s)"

definition setParsed :: "bool \<Rightarrow> string \<Rightarrow> (string \<Rightarrow> load_error) \<Rightarrow> (duration \<Rightarrow> Config \<Rightarrow> Config) \<Rightarrow>
    load_error + Config \<Rightarrow> load_error + Config" where
  "setParsed wanted s err upd r =
     (case r of Inl e \<Rightarrow> Inl e
      | Inr c \<Rightarrow> if \<not> wanted then Inr c
                 else (case parseDuration s of None \<Rightarrow> Inl (err s) | Some d \<Rightarrow> Inr (upd d c)))"

definition parseDurations :: "Config \<Rightarrow> load_error + Config" where
  "parseDurations c =
     (let r = setParsed (Duration c \<noteq> [] \<and> Duration c \<noteq> ''0'') (Duration c) BadDuration
                (\<lambda>d c. c\<lparr>DurationParsed := d\<rparr>) (Inr c);
          r = setParsed (WarmupDuration c \<noteq> []) (WarmupDuration c) BadWarmup
                (\<lambda>d c. c\<lparr>WarmupDurationParsed := d\<rparr>) r;
          r = setParsed (ReportInterval (Metrics c) \<noteq> []) (ReportInterval (Metrics c)) BadReportInterval
                (\<lambda>d c. c\<lparr>ReportIntervalParsed := d\<rparr>) r;
          fd = ForcedDisconnect c;
          r = setParsed (FDInterval fd \<noteq> [] \<and> FDInterval fd \<noteq> ''0'') (FDInterval fd) BadDisconnInterval
                (\<lambda>d c. c\<lparr>ForcedDisconnInterval := d\<rparr>) r;
          r = setParsed (FDDuration fd \<noteq> []) (FDDuration fd) BadDisconnDuration
                (\<lambda>d c. c\<lparr>ForcedDisconnDuration := d\<rparr>) r;
          rc = Recovery c;
          r = setParsed (RReconnectInterval rc \<noteq> []) (RReconnectInterval rc) BadReconnect
                (\<lambda>d c. c\<lparr>ReconnectInterval := d\<rparr>) r;
          r = setParsed (RReconnectMaxInterval rc \<noteq> []) (RReconnectMaxInterval rc) BadReconnectMax
                (\<lambda>d c. c\<lparr>ReconnectMaxInterval := d\<rparr>) r
      in setParsed (MaxDuration (Thresholds c) \<noteq> []) (MaxDuration (Thresholds c)) BadMaxDuration
           (\<lambda>d c. c\<lparr>MaxDurationParsed := d\<rparr>) r)"

definition ParseDurationsPublic :: "Config \<Rightarrow> load_error + Config" where
  "ParseDurationsPublic c = parseDurations c"

section \<open>Loading\<close>

text \<open>\<open>file\<close> is the outcome of reading the path (\<open>None\<close> a read error); \<open>strict\<close> and \<open>lax\<close> are the two
  decodings of the YAML library, applied to a fresh default configuration.\<close>

definition decodeFile :: "(string \<Rightarrow> Config \<Rightarrow> Config option) \<Rightarrow> (string \<Rightarrow> Config \<Rightarrow> Config option) \<Rightarrow>
    string \<Rightarrow> load_error + Config" where
  "decodeFile strict lax data =
     (case strict data DefaultConfig of
        Some c \<Rightarrow> Inr c
      | None \<Rightarrow>
          (case lax data DefaultConfig of
             None \<Rightarrow> Inl ParseFile
           | Some c2 \<Rightarrow> Inr (c2\<lparr>Warnings := Warnings c2 @ [''config has unknown fields'']\<rparr>)))"

definition Load :: "environ \<Rightarrow> (string \<times> string) list \<Rightarrow> (string \<Rightarrow> string option) \<Rightarrow>
    (string \<Rightarrow> Config \<Rightarrow> Config option) \<Rightarrow> (string \<Rightarrow> Config \<Rightarrow> Config option) \<Rightarrow> string \<Rightarrow> string \<Rightarrow>
    load_error + Config" where
  "Load getenv order readFile strict lax freshID path =
     (case (if path = [] then Inr DefaultConfig
            else (case readFile path of None \<Rightarrow> Inl ReadFile | Some data \<Rightarrow> decodeFile strict lax data)) of
        Inl e \<Rightarrow> Inl e
      | Inr c \<Rightarrow>
          (case parseDurations (applyEnvOverrides getenv order c) of
             Inl e \<Rightarrow> Inl e
           | Inr c \<Rightarrow> Inr (if RunID c = [] then c\<lparr>RunID := freshID\<rparr> else c)))"

definition FindConfigFile :: "(string \<Rightarrow> bool) \<Rightarrow> string \<Rightarrow> string" where
  "FindConfigFile exists cliPath =
     (if cliPath \<noteq> [] then cliPath
      else if exists ''./burnin-config.yaml'' then ''./burnin-config.yaml''
      else if exists ''/etc/burnin/config.yaml'' then ''/etc/burnin/config.yaml''
      else [])"

text \<open>\<^verbatim>\<open>%08x\<close> of a byte slice prints two hexadecimal digits per byte.\<close>

definition RandomRunID :: "(nat \<Rightarrow> char) \<Rightarrow> string" where
  "RandomRunID rnd = concat (map (\<lambda>i. sprintfX 2 (of_char (rnd i))) [0..<4])"

section \<open>The contract of the worker slots\<close>

locale slots =
  fixes get :: "'c \<Rightarrow> 'n \<Rightarrow> 'w option"
    and upd :: "'n \<Rightarrow> ('w \<Rightarrow> 'w) \<Rightarrow> 'c \<Rightarrow> 'c"
  assumes get_upd: "get (upd n f c) m = (if m = n then map_option f (get c n) else get c m)"
    and upd_commute: "n \<noteq> m \<Longrightarrow> upd n f (upd m g c) = upd m g (upd n f c)"
    and upd_absent: "get c n = None \<Longrightarrow> upd n f c = c"
begin

definition sweep :: "('n \<times> ('w \<Rightarrow> 'w)) list \<Rightarrow> 'c \<Rightarrow> 'c" where
  "sweep es c = fold (\<lambda>(n, f). upd n f) es c"

lemma sweep_order:
  assumes "distinct (map fst es)" "mset es = mset es'"
  shows "sweep es c = sweep es' c"
proof -
  have "(case x of (n, f) \<Rightarrow> upd n f) \<circ> (case y of (n, f) \<Rightarrow> upd n f) =
      (case y of (n, f) \<Rightarrow> upd n f) \<circ> (case x of (n, f) \<Rightarrow> upd n f)"
    if "x \<in> set es" "y \<in> set es" for x y
  proof (cases "x = y")
    case False
    then have "fst x \<noteq> fst y" using assms(1) that by (metis eq_key_imp_eq_value prod.collapse)
    then show ?thesis using upd_commute [of "fst x" "fst y"] by (auto simp: fun_eq_iff split_beta)
  qed simp
  then have "fold (\<lambda>(n, f). upd n f) es = fold (\<lambda>(n, f). upd n f) es'"
    using assms(2) by (intro fold_multiset_equiv)
  then show ?thesis by (simp add: sweep_def)
qed

lemma get_sweep:
  "distinct (map fst es) \<Longrightarrow> get (sweep es c) m =
     (case map_of es m of None \<Rightarrow> get c m | Some f \<Rightarrow> map_option f (get c m))"
  unfolding sweep_def
proof (induction es arbitrary: c)
  case (Cons e es)
  have "map_of es (fst e) = None" using Cons.prems by (auto simp: map_of_eq_None_iff)
  then show ?case using Cons by (cases e) (auto simp: get_upd split: option.splits)
qed simp

end

lemma get_upd_worker:
  "GetWorkerConfig (updWorkerConfig n f c) m =
     (if m = n then map_option f (GetWorkerConfig c n) else GetWorkerConfig c m)"
proof (cases "n \<in> set AllWorkerNames")
  case True
  then show ?thesis
    unfolding AllWorkerNames_def
    by (auto simp: GetWorkerConfig_def updWorkerConfig_def Let_def worker_neq)
next
  case False
  then show ?thesis
    by (simp add: AllWorkerNames_def GetWorkerConfig_def updWorkerConfig_def)
qed

lemma upd_worker_rest: "(updWorkerConfig n f c)\<lparr>Workers := w\<rparr> = c\<lparr>Workers := w\<rparr>"
  by (simp add: updWorkerConfig_def Let_def)

lemma config_eqI:
  assumes "\<And>m. GetWorkerConfig c m = GetWorkerConfig d m" "c\<lparr>Workers := w\<rparr> = d\<lparr>Workers := w\<rparr>"
  shows "c = d"
proof -
  have all: "\<forall>m\<in>set AllWorkerNames. GetWorkerConfig c m = GetWorkerConfig d m" using assms(1) by simp
  have "Workers c = Workers d"
    by (rule WorkersConfig.equality) (use all in \<open>simp_all add: AllWorkerNames_def GetWorkerConfig_def worker_neq\<close>)
  have "c = c\<lparr>Workers := w\<rparr>\<lparr>Workers := Workers c\<rparr>" by simp
  also have "\<dots> = d\<lparr>Workers := w\<rparr>\<lparr>Workers := Workers d\<rparr>" unfolding assms(2) \<open>Workers c = Workers d\<close> ..
  also have "\<dots> = d" by simp
  finally show ?thesis .
qed

lemma upd_worker_commute:
  "n \<noteq> m \<Longrightarrow> updWorkerConfig n f (updWorkerConfig m g c) = updWorkerConfig m g (updWorkerConfig n f c)"
  by (rule config_eqI [where w = "Workers c"]) (simp_all add: get_upd_worker upd_worker_rest)

interpretation ws: slots GetWorkerConfig updWorkerConfig
  by unfold_locales
    (auto simp: get_upd_worker upd_worker_commute, simp add: GetWorkerConfig_def updWorkerConfig_def split: if_splits)

section \<open>The override loop\<close>

lemma overrideWorkers_sweep:
  "overrideWorkers getenv entries c = ws.sweep (map (\<lambda>(n, env). (n, applyWorkerEnv getenv env)) entries) c"
  unfolding overrideWorkers_def ws.sweep_def fold_map
proof (rule fold_cong)
  fix x
  show "(case x of (name, env) \<Rightarrow> \<lambda>c. if GetWorkerConfig c name = None then c
           else updWorkerConfig name (applyWorkerEnv getenv env) c) =
        ((\<lambda>(n, f). updWorkerConfig n f) \<circ> (\<lambda>(n, env). (n, applyWorkerEnv getenv env))) x"
    using ws.upd_absent by (cases x) (auto simp: fun_eq_iff)
qed simp_all

lemma envNames_keys: "map fst envNames = AllWorkerNames"
  by (simp add: envNames_def AllWorkerNames_def)

section \<open>Validated configurations\<close>

definition valid :: "Config \<Rightarrow> bool" where
  "valid c \<longleftrightarrow> list_all isWarning (Validate c)"

lemma list_all_check: "list_all isWarning (check b e) \<longleftrightarrow> (b \<longrightarrow> isWarning e)"
  by (simp add: check_def)

lemma validateWorkers_fold:
  fixes c :: Config
  defines "F \<equiv> (\<lambda>name (errs, enabledCount, totalWorkers).
       case GetWorkerConfig c name of
         None \<Rightarrow> (errs, enabledCount, totalWorkers)
       | Some wc \<Rightarrow>
           if \<not> Enabled wc then (errs, enabledCount, totalWorkers)
           else (errs @ validateWorker c name wc, Suc enabledCount,
                 i64 (totalWorkers +
                   i64 (Channels wc * i64 (ProducersPerChannel wc + workerConsumers c name wc)))))"
  shows "set (fst (fold F ns (es, k, t))) = set es \<union>
      {e. \<exists>n\<in>set ns. \<exists>wc. GetWorkerConfig c n = Some wc \<and> Enabled wc \<and> e \<in> set (validateWorker c n wc)}"
    and "fst (snd (fold F ns (es, k, t))) = k + length (filter
      (\<lambda>n. case GetWorkerConfig c n of None \<Rightarrow> False | Some wc \<Rightarrow> Enabled wc) ns)"
  unfolding F_def by (induction ns arbitrary: es k t) (auto split: option.splits)

lemma validateWorkers_sets:
  "set (fst (validateWorkers c)) =
     {e. \<exists>n\<in>set AllWorkerNames. \<exists>wc. GetWorkerConfig c n = Some wc \<and> Enabled wc \<and> e \<in> set (validateWorker c n wc)}"
  "fst (snd (validateWorkers c)) = length (filter
      (\<lambda>n. case GetWorkerConfig c n of None \<Rightarrow> False | Some wc \<Rightarrow> Enabled wc) AllWorkerNames)"
  unfolding validateWorkers_def by (simp_all only: validateWorkers_fold) simp_all

lemma Validate_parts:
  "valid c \<longleftrightarrow> list_all isWarning (validateGCP c) \<and> list_all isWarning (fst (validateWorkers c)) \<and>
     fst (snd (validateWorkers c)) \<noteq> 0 \<and> list_all isWarning (validateMessage c) \<and>
     list_all isWarning (validateThresholds c)"
  by (auto simp: valid_def Validate_def split_beta list_all_check)

lemma default_workers: "validateWorkers DefaultConfig = ([], 9, 21)"
  by (simp add: validateWorkers_def AllWorkerNames_def GetWorkerConfig_def worker_neq DefaultConfig_def
      defaultWorkers_def mkWorker_def validateWorker_def workerConsumers_def check_def i64_def defaultGCP_def)

lemmas validate_defs = Validate_def validateGCP_def validateMessage_def validateThresholds_def check_def
  outside_def fgt_def fle_def

lemmas default_defs = DefaultConfig_def defaultGCP_def defaultWorkers_def mkWorker_def defaultThresholds_def

lemma default_valid: "valid DefaultConfig"
  using default_workers by (simp add: valid_def validate_defs default_defs)

text \<open>The worker blocks alone decide the worker errors.\<close>

lemma validateWorkers_cong:
  assumes "Workers c = Workers d" "GCP c = GCP d"
  shows "validateWorkers c = validateWorkers d"
proof -
  have "GetWorkerConfig c = GetWorkerConfig d" "validateWorker c = validateWorker d"
    "workerConsumers c = workerConsumers d"
    using assms by (simp_all add: fun_eq_iff GetWorkerConfig_def validateWorker_def workerConsumers_def)
  then show ?thesis by (simp only: validateWorkers_def)
qed

lemma nan_thresholds_pass:
  "Validate (DefaultConfig\<lparr>Thresholds := defaultThresholds
     \<lparr>MaxLossPct := NaN, MaxDuplicationPct := NaN, MaxP99LatencyMS := NaN, MaxErrorRatePct := NaN\<rparr>\<rparr>) = []"
  using default_workers validateWorkers_cong [of "DefaultConfig\<lparr>Thresholds := defaultThresholds
     \<lparr>MaxLossPct := NaN, MaxDuplicationPct := NaN, MaxP99LatencyMS := NaN, MaxErrorRatePct := NaN\<rparr>\<rparr>" DefaultConfig]
  by (simp add: validate_defs default_defs)

section \<open>Properties\<close>

text \<open>The environment overrides do not depend on map order. Go ranges over the worker map in
  an unspecified order; every order gives the same configuration, and each worker's block is
  changed by exactly its own variables.\<close>

theorem env_override_order:
  assumes "mset order = mset envNames"
  shows "applyEnvOverrides getenv order c = applyEnvOverrides getenv envNames c \<and>
    (\<forall>(name, env) \<in> set envNames. GetWorkerConfig (applyEnvOverrides getenv order c) name =
       map_option (applyWorkerEnv getenv env) (GetWorkerConfig c name))"
proof -
  let ?m = "map (\<lambda>(n, env). (n, applyWorkerEnv getenv env))"
  have keys: "map fst (?m xs) = map fst xs" for xs :: "(string \<times> string) list" by (simp add: case_prod_beta')
  have d: "distinct (map fst (?m envNames))" unfolding keys envNames_keys by (rule AllWorkerNames_distinct)
  have "mset (?m envNames) = mset (?m order)" using assms unfolding mset_map by simp
  then have eq: "applyEnvOverrides getenv order c = applyEnvOverrides getenv envNames c"
    unfolding applyEnvOverrides_def overrideWorkers_sweep by (intro ws.sweep_order [OF d, symmetric])
  have get: "GetWorkerConfig (overrideAddress getenv c) n = GetWorkerConfig c n" for n
    by (simp add: overrideAddress_def GetWorkerConfig_def Let_def)
  have "GetWorkerConfig (applyEnvOverrides getenv envNames c) n =
      map_option (applyWorkerEnv getenv env) (GetWorkerConfig c n)" if "(n, env) \<in> set envNames" for n env
  proof -
    have "map_of (?m envNames) n = Some (applyWorkerEnv getenv env)"
      by (rule map_of_is_SomeI [OF d]) (use that in \<open>force\<close>)
    then show ?thesis
      unfolding applyEnvOverrides_def overrideWorkers_sweep ws.get_sweep [OF d] by (simp add: get)
  qed
  with eq show ?thesis by auto
qed

theorem env_override_order_witness:
  "applyEnvOverrides (\<lambda>v. if v = ''BURNIN_FAN_OUT_RATE'' then ''7'' else []) (rev envNames) DefaultConfig =
   applyEnvOverrides (\<lambda>v. if v = ''BURNIN_FAN_OUT_RATE'' then ''7'' else []) envNames DefaultConfig"
  using env_override_order [of "rev envNames"] by simp

text \<open>The defaults are valid. The built-in configuration passes \<^verbatim>\<open>Validate\<close> without a single
  message.\<close>

theorem DefaultConfig_valid: "Validate DefaultConfig = []"
  using default_workers by (simp add: validate_defs default_defs)

text \<open>A configuration without hard errors is within bounds. When every message of \<^verbatim>\<open>Validate\<close>
  is advisory, the reorder window is at least 100, the drain timeout positive, the ack
  deadline, batch size and port in range, some worker is enabled, and every enabled worker
  has between 1 and 1000 channels, a positive rate and at least one producer.\<close>

theorem valid_config_bounds:
  assumes "valid c"
  shows "100 \<le> ReorderWindow (Message c) \<and> 0 < DrainTimeoutSeconds c \<and>
    10 \<le> AckDeadlineSeconds (GCP c) \<and> AckDeadlineSeconds (GCP c) \<le> 600 \<and>
    1 \<le> BatchSize (GCP c) \<and> BatchSize (GCP c) \<le> 1000 \<and> 1 \<le> Port (Metrics c) \<and> Port (Metrics c) \<le> 65535 \<and>
    (\<exists>n\<in>set AllWorkerNames. \<exists>wc. GetWorkerConfig c n = Some wc \<and> Enabled wc) \<and>
    (\<forall>n\<in>set AllWorkerNames. \<forall>wc. GetWorkerConfig c n = Some wc \<and> Enabled wc \<longrightarrow>
       1 \<le> Channels wc \<and> Channels wc \<le> 1000 \<and> 0 < Rate wc \<and> 1 \<le> ProducersPerChannel wc)"
proof -
  note v = assms [unfolded Validate_parts]
  have "100 \<le> ReorderWindow (Message c) \<and> 0 < DrainTimeoutSeconds c \<and> 1 \<le> Port (Metrics c) \<and> Port (Metrics c) \<le> 65535"
    using v by (auto simp: validateMessage_def Let_def list_all_check not_less)
  moreover have "10 \<le> AckDeadlineSeconds (GCP c) \<and> AckDeadlineSeconds (GCP c) \<le> 600 \<and>
      1 \<le> BatchSize (GCP c) \<and> BatchSize (GCP c) \<le> 1000"
    using v by (auto simp: validateGCP_def Let_def list_all_check not_less)
  moreover have "\<exists>n\<in>set AllWorkerNames. \<exists>wc. GetWorkerConfig c n = Some wc \<and> Enabled wc"
    using v unfolding validateWorkers_sets by (auto simp: filter_empty_conv split: option.splits)
  moreover have "1 \<le> Channels wc \<and> Channels wc \<le> 1000 \<and> 0 < Rate wc \<and> 1 \<le> ProducersPerChannel wc"
    if "n \<in> set AllWorkerNames" "GetWorkerConfig c n = Some wc" "Enabled wc" for n wc
  proof -
    have "set (validateWorker c n wc) \<subseteq> set (fst (validateWorkers c))"
      using that unfolding validateWorkers_sets by blast
    then have "list_all isWarning (validateWorker c n wc)" using v by (auto simp: list_all_iff)
    then show ?thesis by (auto simp: validateWorker_def list_all_check not_less)
  qed
  ultimately show ?thesis by blast
qed

theorem valid_config_bounds_witness: "100 \<le> ReorderWindow (Message DefaultConfig)"
  using valid_config_bounds [OF default_valid] by simp

text \<open>Day durations. A duration written as a number of days parses to exactly that many
  days when it is at most 106751 in absolute value; one more day wraps around to a negative
  duration, without an error.\<close>

theorem parseDuration_days:
  assumes "\<bar>n\<bar> \<le> 106751"
  shows "parseDuration (FormatInt n @ ''d'') = Some (n * 24 * Hour) \<and>
    parseDuration ''106752d'' = Some (106752 * 24 * Hour - 2 ^ 64)"
proof -
  have "ParseInt (FormatInt n) = Some n" using assms by (intro ParseInt_FormatInt) auto
  moreover have "i64 (i64 (n * 24) * Hour) = n * 24 * Hour"
    using assms by (simp add: i64_id Hour_def)
  moreover have "parseDuration ''106752d'' = Some (106752 * 24 * Hour - 2 ^ 64)"
    by (simp add: parseDuration_def ParseInt_def digitVal_def i64_def Hour_def)
  ultimately show ?thesis by (simp add: parseDuration_def)
qed

theorem parseDuration_days_witness: "parseDuration (FormatInt 7 @ ''d'') = Some (7 * 24 * Hour)"
  using parseDuration_days [of 7] by simp

end
