(* ===== verification/Metrics.thy ===== *)
theory Metrics
  imports GoTime
begin

text \<open>
  \<^verbatim>\<open>src/burnin/metrics/metrics.go\<close>: the operations the sources perform on the Prometheus registry
  (as values, so that the state of a worker can log them in order), the latency accumulator,
  the sliding rate window and the peak-rate tracker. The Prometheus client and the HDR
  histogram are outside the sources: a registry operation is recorded as it is issued, and
  the histogram is the log of the values recorded since its last reset, read through the
  library functions that are parameters of \<open>Percentiles\<close> and \<open>Count\<close>.
\<close>

section \<open>Registry operations\<close>

datatype metric_op =
    CounterAdd string "string list" float64
  | GaugeSet string "string list" float64
  | HistObserve string "string list" float64

definition sdkLabel :: string where "sdkLabel = ''gcp''"

definition SDK :: string where "SDK = sdkLabel"

text \<open>\<^verbatim>\<open>Duration.Seconds\<close> of the standard library: whole seconds plus the remainder in
  nanoseconds divided by 1e9.\<close>

definition Seconds :: "duration \<Rightarrow> float64" where
  "Seconds d = fadd (floatOfInt (go_quot d Second))
     (fdiv (floatOfInt (d - go_quot d Second * Second)) (Fin 1000000000))"

definition IncSent :: "string \<Rightarrow> string \<Rightarrow> metric_op" where
  "IncSent worker producerID = CounterAdd ''MessagesSentTotal'' [sdkLabel, worker, producerID] (Fin 1)"

definition IncReceived :: "string \<Rightarrow> string \<Rightarrow> metric_op" where
  "IncReceived worker consumerID = CounterAdd ''MessagesReceivedTotal'' [sdkLabel, worker, consumerID] (Fin 1)"

definition AddLost :: "string \<Rightarrow> u64 \<Rightarrow> metric_op" where
  "AddLost worker delta = CounterAdd ''MessagesLostTotal'' [sdkLabel, worker] (floatOfU64 delta)"

definition IncDuplicated :: "string \<Rightarrow> metric_op" where
  "IncDuplicated worker = CounterAdd ''MessagesDuplicatedTotal'' [sdkLabel, worker] (Fin 1)"

definition IncCorrupted :: "string \<Rightarrow> metric_op" where
  "IncCorrupted worker = CounterAdd ''MessagesCorruptedTotal'' [sdkLabel, worker] (Fin 1)"

definition IncOutOfOrder :: "string \<Rightarrow> metric_op" where
  "IncOutOfOrder worker = CounterAdd ''MessagesOutOfOrderTotal'' [sdkLabel, worker] (Fin 1)"

definition IncError :: "string \<Rightarrow> string \<Rightarrow> metric_op" where
  "IncError worker errorType = CounterAdd ''ErrorsTotal'' [sdkLabel, worker, errorType] (Fin 1)"

definition IncReconnection :: "string \<Rightarrow> metric_op" where
  "IncReconnection worker = CounterAdd ''ReconnectionsTotal'' [sdkLabel, worker] (Fin 1)"

definition IncAck :: "string \<Rightarrow> metric_op" where
  "IncAck worker = CounterAdd ''AcksTotal'' [sdkLabel, worker] (Fin 1)"

definition IncOrderingViolation :: "string \<Rightarrow> metric_op" where
  "IncOrderingViolation worker = CounterAdd ''OrderingViolationsTotal'' [sdkLabel, worker] (Fin 1)"

definition IncFanoutDelivery :: "string \<Rightarrow> metric_op" where
  "IncFanoutDelivery worker = CounterAdd ''FanoutDeliveriesTotal'' [sdkLabel, worker] (Fin 1)"

definition AddFanoutDropped :: "string \<Rightarrow> u64 \<Rightarrow> metric_op" where
  "AddFanoutDropped worker delta = CounterAdd ''FanoutDroppedTotal'' [sdkLabel, worker] (floatOfU64 delta)"

definition IncExactlyOnceConfirmed :: "string \<Rightarrow> metric_op" where
  "IncExactlyOnceConfirmed worker = CounterAdd ''ExactlyOnceConfirmedTotal'' [sdkLabel, worker] (Fin 1)"

definition IncExactlyOnceUnreconciled :: "string \<Rightarrow> metric_op" where
  "IncExactlyOnceUnreconciled worker = CounterAdd ''ExactlyOnceUnreconciledTotal'' [sdkLabel, worker] (Fin 1)"

definition IncDeadLetterRepublished :: "string \<Rightarrow> metric_op" where
  "IncDeadLetterRepublished worker = CounterAdd ''DeadLetterRepublishedTotal'' [sdkLabel, worker] (Fin 1)"

definition AddDeadLetterLost :: "string \<Rightarrow> u64 \<Rightarrow> metric_op" where
  "AddDeadLetterLost worker delta = CounterAdd ''DeadLetterLostTotal'' [sdkLabel, worker] (floatOfU64 delta)"

definition IncInteropConverged :: "string \<Rightarrow> metric_op" where
  "IncInteropConverged worker = CounterAdd ''InteropConvergedTotal'' [sdkLabel, worker] (Fin 1)"

definition AddInteropDiverged :: "string \<Rightarrow> u64 \<Rightarrow> metric_op" where
  "AddInteropDiverged worker delta = CounterAdd ''InteropDivergedTotal'' [sdkLabel, worker] (floatOfU64 delta)"

definition IncNackRedelivered :: "string \<Rightarrow> metric_op" where
  "IncNackRedelivered worker = CounterAdd ''NackRedeliveredTotal'' [sdkLabel, worker] (Fin 1)"

definition IncBatchAtomicityViolation :: "string \<Rightarrow> metric_op" where
  "IncBatchAtomicityViolation worker = CounterAdd ''BatchAtomicityViolationsTotal'' [sdkLabel, worker] (Fin 1)"

definition IncFilterMismatch :: "string \<Rightarrow> metric_op" where
  "IncFilterMismatch worker = CounterAdd ''FilterMismatchTotal'' [sdkLabel, worker] (Fin 1)"

definition IncFilterMatchedDelivered :: "string \<Rightarrow> metric_op" where
  "IncFilterMatchedDelivered worker = CounterAdd ''FilterMatchedDeliveredTotal'' [sdkLabel, worker] (Fin 1)"

definition IncSchemaRejectViolation :: "string \<Rightarrow> metric_op" where
  "IncSchemaRejectViolation worker = CounterAdd ''SchemaRejectViolationsTotal'' [sdkLabel, worker] (Fin 1)"

definition IncSchemaEnforceConfirmed :: "string \<Rightarrow> metric_op" where
  "IncSchemaEnforceConfirmed worker = CounterAdd ''SchemaEnforceConfirmedTotal'' [sdkLabel, worker] (Fin 1)"

definition AddSeekReplayExpected :: "string \<Rightarrow> u64 \<Rightarrow> metric_op" where
  "AddSeekReplayExpected worker delta = CounterAdd ''SeekReplayExpectedTotal'' [sdkLabel, worker] (floatOfU64 delta)"

definition AddSeekReplayObserved :: "string \<Rightarrow> u64 \<Rightarrow> metric_op" where
  "AddSeekReplayObserved worker delta = CounterAdd ''SeekReplayObservedTotal'' [sdkLabel, worker] (floatOfU64 delta)"

definition IncSeekReplayMismatch :: "string \<Rightarrow> metric_op" where
  "IncSeekReplayMismatch worker = CounterAdd ''SeekReplayMismatchTotal'' [sdkLabel, worker] (Fin 1)"

definition IncInflightCapTailRedelivered :: "string \<Rightarrow> metric_op" where
  "IncInflightCapTailRedelivered worker = CounterAdd ''InflightCapTailRedeliveredTotal'' [sdkLabel, worker] (Fin 1)"

definition AddInflightCapLost :: "string \<Rightarrow> u64 \<Rightarrow> metric_op" where
  "AddInflightCapLost worker delta = CounterAdd ''InflightCapLostTotal'' [sdkLabel, worker] (floatOfU64 delta)"

definition IncExactlyOnceInvalidAckConfirmed :: "string \<Rightarrow> metric_op" where
  "IncExactlyOnceInvalidAckConfirmed worker = CounterAdd ''ExactlyOnceInvalidAckConfirmedTotal'' [sdkLabel, worker] (Fin 1)"

definition IncFlowControlViolation :: "string \<Rightarrow> metric_op" where
  "IncFlowControlViolation worker = CounterAdd ''FlowControlViolationsTotal'' [sdkLabel, worker] (Fin 1)"

definition IncRetryBackoffObserved :: "string \<Rightarrow> metric_op" where
  "IncRetryBackoffObserved worker = CounterAdd ''RetryBackoffObservedTotal'' [sdkLabel, worker] (Fin 1)"

definition IncLeaseExtendConfirmed :: "string \<Rightarrow> metric_op" where
  "IncLeaseExtendConfirmed worker = CounterAdd ''LeaseExtendConfirmedTotal'' [sdkLabel, worker] (Fin 1)"

definition IncLeaseExtendRejectConfirmed :: "string \<Rightarrow> metric_op" where
  "IncLeaseExtendRejectConfirmed worker = CounterAdd ''LeaseExtendRejectConfirmedTotal'' [sdkLabel, worker] (Fin 1)"

definition IncCrossStreamAckConfirmed :: "string \<Rightarrow> metric_op" where
  "IncCrossStreamAckConfirmed worker = CounterAdd ''CrossStreamAckConfirmedTotal'' [sdkLabel, worker] (Fin 1)"

definition IncPeriodicCloseObserved :: "string \<Rightarrow> metric_op" where
  "IncPeriodicCloseObserved worker = CounterAdd ''PeriodicCloseObservedTotal'' [sdkLabel, worker] (Fin 1)"

definition SetOutstanding :: "string \<Rightarrow> float64 \<Rightarrow> metric_op" where
  "SetOutstanding worker n = GaugeSet ''OutstandingMessages'' [sdkLabel, worker] n"

definition SetDeliveryAttemptMax :: "string \<Rightarrow> float64 \<Rightarrow> metric_op" where
  "SetDeliveryAttemptMax worker n = GaugeSet ''DeliveryAttemptMax'' [sdkLabel, worker] n"

definition ObserveLatency :: "string \<Rightarrow> duration \<Rightarrow> metric_op" where
  "ObserveLatency worker d = HistObserve ''MessageLatencySeconds'' [sdkLabel, worker] (Seconds d)"

definition ObserveSendDuration :: "string \<Rightarrow> duration \<Rightarrow> metric_op" where
  "ObserveSendDuration worker d = HistObserve ''SendDurationSeconds'' [sdkLabel, worker] (Seconds d)"

definition AddDowntime :: "string \<Rightarrow> float64 \<Rightarrow> metric_op" where
  "AddDowntime worker seconds = CounterAdd ''DowntimeSecondsTotal'' [sdkLabel, worker] seconds"

definition IncForcedDisconnect :: "metric_op" where
  "IncForcedDisconnect = CounterAdd ''ForcedDisconnectsTotal'' [sdkLabel] (Fin 1)"

definition RecordBytesSent :: "string \<Rightarrow> int \<Rightarrow> metric_op" where
  "RecordBytesSent worker n = CounterAdd ''BytesSentTotal'' [sdkLabel, worker] (floatOfInt n)"

definition RecordBytesReceived :: "string \<Rightarrow> int \<Rightarrow> metric_op" where
  "RecordBytesReceived worker n = CounterAdd ''BytesReceivedTotal'' [sdkLabel, worker] (floatOfInt n)"

definition SetActiveConnections :: "string \<Rightarrow> float64 \<Rightarrow> metric_op" where
  "SetActiveConnections worker n = GaugeSet ''ActiveConnections'' [sdkLabel, worker] n"

definition SetTargetRate :: "string \<Rightarrow> float64 \<Rightarrow> metric_op" where
  "SetTargetRate worker r = GaugeSet ''TargetRate'' [sdkLabel, worker] r"

definition SetActualRate :: "string \<Rightarrow> float64 \<Rightarrow> metric_op" where
  "SetActualRate worker r = GaugeSet ''ActualRate'' [sdkLabel, worker] r"

definition SetConsumerLag :: "string \<Rightarrow> float64 \<Rightarrow> metric_op" where
  "SetConsumerLag worker lag = GaugeSet ''ConsumerLag'' [sdkLabel, worker] lag"

section \<open>Latency accumulator\<close>

type_synonym LatencyAccumulator = "int list"

definition NewLatencyAccumulator :: LatencyAccumulator where
  "NewLatencyAccumulator = []"

definition LatencyAccumulator_Record :: "LatencyAccumulator \<Rightarrow> duration \<Rightarrow> LatencyAccumulator" where
  "LatencyAccumulator_Record a d = a @ [go_quot d 1000]"

text \<open>\<open>valueAt\<close> is the library's \<^verbatim>\<open>ValueAtQuantile\<close>, \<open>totalCount\<close> its \<^verbatim>\<open>TotalCount\<close>.\<close>

definition Percentiles :: "(LatencyAccumulator \<Rightarrow> float64 \<Rightarrow> int) \<Rightarrow> LatencyAccumulator \<Rightarrow>
    float64 \<times> float64 \<times> float64 \<times> float64" where
  "Percentiles valueAt a =
     (let q = (\<lambda>p. fdiv (floatOfInt (valueAt a p)) (Fin 1000)) in
      (q (Fin 50), q (Fin 95), q (Fin 99), q (roundF (999 / 10))))"

definition LatencyAccumulator_Reset :: "LatencyAccumulator \<Rightarrow> LatencyAccumulator" where
  "LatencyAccumulator_Reset a = []"

definition LatencyAccumulator_Count :: "(LatencyAccumulator \<Rightarrow> int) \<Rightarrow> LatencyAccumulator \<Rightarrow> int" where
  "LatencyAccumulator_Count totalCount a = totalCount a"

section \<open>Sliding rate window\<close>

definition slidingWindowSize :: nat where "slidingWindowSize = 30"

record SlidingRateWindow =
  rwBuckets :: "int list"
  rwIdx :: nat
  rwTotal :: int
  rwTicks :: int

definition NewSlidingRateWindow :: SlidingRateWindow where
  "NewSlidingRateWindow = \<lparr>rwBuckets = replicate slidingWindowSize 0, rwIdx = 0, rwTotal = 0, rwTicks = 0\<rparr>"

definition SlidingRateWindow_Record :: "SlidingRateWindow \<Rightarrow> SlidingRateWindow" where
  "SlidingRateWindow_Record w =
     w\<lparr>rwBuckets := (rwBuckets w)[rwIdx w := i64 (rwBuckets w ! rwIdx w + 1)],
       rwTotal := i64 (rwTotal w + 1)\<rparr>"

definition SlidingRateWindow_Advance :: "SlidingRateWindow \<Rightarrow> SlidingRateWindow" where
  "SlidingRateWindow_Advance w =
     (let i = (rwIdx w + 1) mod slidingWindowSize in
      w\<lparr>rwIdx := i, rwTotal := i64 (rwTotal w - rwBuckets w ! i),
        rwBuckets := (rwBuckets w)[i := 0], rwTicks := i64 (rwTicks w + 1)\<rparr>)"

definition SlidingRateWindow_Rate :: "SlidingRateWindow \<Rightarrow> float64" where
  "SlidingRateWindow_Rate w =
     (let window = (if rwTicks w > int slidingWindowSize then int slidingWindowSize else rwTicks w) in
      if window = 0 then Fin 0 else fdiv (floatOfInt (rwTotal w)) (floatOfInt window))"

definition SlidingRateWindow_Reset :: "SlidingRateWindow \<Rightarrow> SlidingRateWindow" where
  "SlidingRateWindow_Reset w =
     w\<lparr>rwBuckets := map (\<lambda>_. 0) (rwBuckets w), rwTotal := 0, rwIdx := 0, rwTicks := 0\<rparr>"

section \<open>Peak rate\<close>

definition peakWindowSize :: nat where "peakWindowSize = 10"

record PeakRateTracker =
  pkBuckets :: "int list"
  pkIdx :: nat
  pkPeak :: float64

definition NewPeakRateTracker :: PeakRateTracker where
  "NewPeakRateTracker = \<lparr>pkBuckets = replicate peakWindowSize 0, pkIdx = 0, pkPeak = Fin 0\<rparr>"

definition PeakRateTracker_Record :: "PeakRateTracker \<Rightarrow> PeakRateTracker" where
  "PeakRateTracker_Record p = p\<lparr>pkBuckets := (pkBuckets p)[pkIdx p := i64 (pkBuckets p ! pkIdx p + 1)]\<rparr>"

definition PeakRateTracker_Advance :: "PeakRateTracker \<Rightarrow> PeakRateTracker" where
  "PeakRateTracker_Advance p =
     (let total = fold (\<lambda>b t. i64 (t + b)) (pkBuckets p) 0;
          avg = fdiv (floatOfInt total) (floatOfInt (int peakWindowSize));
          i = (pkIdx p + 1) mod peakWindowSize
      in p\<lparr>pkPeak := (if fgt avg (pkPeak p) then avg else pkPeak p), pkIdx := i,
           pkBuckets := (pkBuckets p)[i := 0]\<rparr>)"

definition PeakRateTracker_Peak :: "PeakRateTracker \<Rightarrow> float64" where
  "PeakRateTracker_Peak p = pkPeak p"

section \<open>The window holds the last thirty ticks\<close>

text \<open>The reference: the number of records of every tick so far, the current tick first.\<close>

datatype rateEvent = Tick | Msg

fun rateStep :: "rateEvent \<Rightarrow> SlidingRateWindow \<Rightarrow> SlidingRateWindow" where
  "rateStep Tick w = SlidingRateWindow_Advance w"
| "rateStep Msg w = SlidingRateWindow_Record w"

fun history :: "rateEvent \<Rightarrow> nat list \<Rightarrow> nat list" where
  "history Tick h = 0 # h"
| "history Msg [] = [1]"
| "history Msg (n # h) = Suc n # h"

definition window_of :: "nat list \<Rightarrow> SlidingRateWindow \<Rightarrow> bool" where
  "window_of h w \<longleftrightarrow> h \<noteq> [] \<and> length (rwBuckets w) = 30 \<and> rwIdx w < 30 \<and>
     rwTotal w = int (sum_list (take 30 h)) \<and>
     (\<forall>k<30. rwBuckets w ! ((rwIdx w + 30 - k) mod 30) = (if k < length h then int (h ! k) else 0))"

lemma mod30_back: "i < 30 \<Longrightarrow> k < 30 \<Longrightarrow> (i + 30 - k) mod 30 = (if k \<le> i then i - k else i + 30 - k)" for i k :: nat
  by (auto simp: mod_if)

lemma window_of_New: "window_of [0] NewSlidingRateWindow"
  by (simp add: window_of_def NewSlidingRateWindow_def slidingWindowSize_def)

lemma sum_take_le: "sum_list (take k h) \<le> sum_list h" for h :: "nat list"
  by (metis append_take_drop_id le_add1 sum_list_append)

lemma window_of_Msg:
  assumes "window_of h w" "sum_list h < 2 ^ 62"
  shows "window_of (history Msg h) (SlidingRateWindow_Record w)"
proof -
  obtain n h' where h: "h = n # h'" using assms(1) by (cases h) (auto simp: window_of_def)
  let ?b = "rwBuckets w" and ?i = "rwIdx w"
  have w: "length ?b = 30" "?i < 30" "rwTotal w = int (sum_list (take 30 h))"
    and b: "\<And>k. k < 30 \<Longrightarrow> ?b ! ((?i + 30 - k) mod 30) = (if k < length h then int (h ! k) else 0)"
    using assms(1) by (simp_all add: window_of_def)
  have cur: "?b ! ?i = int n" using b [of 0] w(2) by (simp add: h)
  have "n \<le> sum_list h" "sum_list (take 30 h) < 2 ^ 62"
    using sum_take_le [of 30 h] assms(2) by (simp_all add: h)
  then have r: "i64 (?b ! ?i + 1) = int (Suc n)" "i64 (rwTotal w + 1) = int (sum_list (take 30 (Suc n # h')))"
    using assms(2) w(3) unfolding cur by (simp_all add: i64_id h)
  have "(?b[?i := int (Suc n)]) ! ((?i + 30 - k) mod 30) =
      (if k < length (Suc n # h') then int ((Suc n # h') ! k) else 0)" if "k < 30" for k
  proof (cases k)
    case 0
    then show ?thesis using w by simp
  next
    case (Suc j)
    have "(?i + 30 - k) mod 30 \<noteq> ?i" using mod30_back [OF w(2) that] w(2) that Suc by (auto split: if_splits)
    then show ?thesis using b [OF that] by (simp add: h Suc)
  qed
  then show ?thesis using w r by (simp add: window_of_def SlidingRateWindow_Record_def h)
qed

lemma window_of_Tick:
  assumes "window_of h w" "sum_list h < 2 ^ 62"
  shows "window_of (history Tick h) (SlidingRateWindow_Advance w)"
proof -
  let ?b = "rwBuckets w" and ?i = "rwIdx w"
  let ?j = "(?i + 1) mod 30"
  have w: "length ?b = 30" "?i < 30" "rwTotal w = int (sum_list (take 30 h))"
    and b: "\<And>k. k < 30 \<Longrightarrow> ?b ! ((?i + 30 - k) mod 30) = (if k < length h then int (h ! k) else 0)"
    using assms(1) by (simp_all add: window_of_def)
  have old: "?b ! ?j = (if 29 < length h then int (h ! 29) else 0)" using b [of 29] by simp
  have split: "sum_list (take 30 h) = sum_list (take 29 h) + (if 29 < length h then h ! 29 else 0)"
    using take_Suc_conv_app_nth [of 29 h] by (simp add: numeral_eq_Suc)
  have "sum_list (take 30 h) < 2 ^ 62" using sum_take_le [of 30 h] assms(2) by simp
  then have "sum_list (take 29 h) < 2 ^ 62" using split by linarith
  then have "i64 (int (sum_list (take 29 h))) = int (sum_list (take 29 h))" by (intro i64_id) simp_all
  moreover have "rwTotal w - ?b ! ?j = int (sum_list (take 29 h))" unfolding old w(3) split by simp
  ultimately have tot: "i64 (rwTotal w - ?b ! ?j) = int (sum_list (take 30 (0 # h)))"
    by (simp add: take_Cons')
  have "(?b[?j := 0]) ! ((?j + 30 - k) mod 30) = (if k < length (0 # h) then int ((0 # h) ! k) else 0)"
    if "k < 30" for k
  proof (cases k)
    case 0
    then show ?thesis using w by simp
  next
    case (Suc m)
    have "(?j + 30 - k) mod 30 = (?i + 30 - m) mod 30"
      using w(2) that Suc by (auto simp: mod_if split: if_splits)
    moreover have "(?j + 30 - k) mod 30 \<noteq> ?j"
      using mod30_back [of ?j k] that Suc by (auto split: if_splits)
    ultimately show ?thesis using b [of m] that Suc by simp
  qed
  then show ?thesis
    using w tot by (simp add: window_of_def SlidingRateWindow_Advance_def slidingWindowSize_def Let_def)
qed

lemma history_sum: "sum_list (history e h) \<le> sum_list h + 1" "h \<noteq> [] \<Longrightarrow> history e h \<noteq> []"
  by (cases e; cases h; simp)+

lemma window_of_run:
  assumes "window_of h w" "sum_list h + length es < 2 ^ 62"
  shows "window_of (fold history es h) (fold rateStep es w)"
  using assms
proof (induction es arbitrary: h w)
  case (Cons e es)
  have "window_of (history e h) (rateStep e w)"
    using window_of_Msg [OF Cons.prems(1)] window_of_Tick [OF Cons.prems(1)] Cons.prems(2) by (cases e) simp_all
  then show ?case using Cons.IH [of "history e h"] Cons.prems(2) history_sum(1) [of e h] by simp
qed simp

section \<open>Properties\<close>

text \<open>C29: The sliding window is exact. After any sequence of fewer than 2^62 records and ticks
  from a new window, its total is the number of records of the current and the 29 preceding
  ticks, whatever the position of the ring buffer.\<close>

theorem sliding_window_exact:
  assumes "length es < 2 ^ 62"
  shows "rwTotal (fold rateStep es NewSlidingRateWindow) = int (sum_list (take 30 (fold history es [0])))"
  using window_of_run [OF window_of_New, of es] assms by (simp add: window_of_def)

theorem sliding_window_exact_witness:
  "rwTotal (fold rateStep [Msg, Msg, Tick, Msg] NewSlidingRateWindow) = 3"
  using sliding_window_exact [of "[Msg, Msg, Tick, Msg]"] by simp

text \<open>The peak is a running maximum. One advance never lowers the peak, and after it the peak
  is not below the average of the ten buckets just closed.\<close>

theorem peak_monotone:
  "\<not> flt (pkPeak (PeakRateTracker_Advance p)) (pkPeak p) \<and>
   \<not> flt (pkPeak (PeakRateTracker_Advance p))
       (fdiv (floatOfInt (fold (\<lambda>b t. i64 (t + b)) (pkBuckets p) 0)) (floatOfInt 10))"
  using flt_trans [of "pkPeak p" _ "pkPeak p"]
  by (auto simp: PeakRateTracker_Advance_def Let_def fgt_def peakWindowSize_def)

end
