(* ===== verification/Naming.thy ===== *)
theory Naming
  imports GoStrings
begin

text \<open>
  The naming grammar and address resolution of \<^verbatim>\<open>src/burnin/transport/resources.go\<close>: topic,
  subscription, snapshot and schema ids of a worker channel, the KubeMQ channels they map to,
  and the broker addresses. The environment is a parameter.
\<close>

section \<open>Addresses\<close>

definition BrokerEnv :: string where "BrokerEnv = ''KUBEMQ_BROKER_ADDRESS''"
definition EmulatorEnv :: string where "EmulatorEnv = ''PUBSUB_EMULATOR_HOST''"
definition GRPCEnv :: string where "GRPCEnv = ''KUBEMQ_GRPC_ADDRESS''"
definition DefaultBroker :: string where "DefaultBroker = ''localhost:8085''"
definition DefaultGRPC :: string where "DefaultGRPC = ''localhost:50000''"
definition ResourcePrefixEnv :: string where "ResourcePrefixEnv = ''BURNIN_RESOURCE_PREFIX''"

definition EmulatorHost :: "(string \<Rightarrow> string) \<Rightarrow> string \<Rightarrow> string \<Rightarrow> string" where
  "EmulatorHost getenv emulatorHost address =
     (if emulatorHost \<noteq> [] then emulatorHost
      else if address \<noteq> [] then address
      else if getenv EmulatorEnv \<noteq> [] then getenv EmulatorEnv
      else if getenv BrokerEnv \<noteq> [] then getenv BrokerEnv
      else DefaultBroker)"

definition GRPCAddress :: "(string \<Rightarrow> string) \<Rightarrow> string \<Rightarrow> string" where
  "GRPCAddress getenv address =
     (if address \<noteq> [] then address
      else if getenv GRPCEnv \<noteq> [] then getenv GRPCEnv
      else DefaultGRPC)"

definition resourcePrefix :: "(string \<Rightarrow> string) \<Rightarrow> string" where
  "resourcePrefix getenv =
     (if getenv ResourcePrefixEnv \<noteq> [] then getenv ResourcePrefixEnv else ''gcp_burnin'')"

section \<open>Resource names\<close>

definition TopicName :: "(string \<Rightarrow> string) \<Rightarrow> string \<Rightarrow> int \<Rightarrow> string" where
  "TopicName getenv worker idx = resourcePrefix getenv @ ''_'' @ worker @ ''_'' @ sprintfD 4 idx"

definition SubscriptionName :: "(string \<Rightarrow> string) \<Rightarrow> string \<Rightarrow> int \<Rightarrow> string" where
  "SubscriptionName getenv worker idx = resourcePrefix getenv @ ''_'' @ worker @ ''_'' @ sprintfD 4 idx @ ''_sub''"

definition FanoutSubscriptionName :: "(string \<Rightarrow> string) \<Rightarrow> string \<Rightarrow> int \<Rightarrow> int \<Rightarrow> string" where
  "FanoutSubscriptionName getenv worker idx sub =
     resourcePrefix getenv @ ''_'' @ worker @ ''_'' @ sprintfD 4 idx @ ''_s'' @ sprintfD 2 sub"

definition SnapshotName :: "(string \<Rightarrow> string) \<Rightarrow> string \<Rightarrow> int \<Rightarrow> string" where
  "SnapshotName getenv worker idx = resourcePrefix getenv @ ''_'' @ worker @ ''_'' @ sprintfD 4 idx @ ''_snap''"

definition SchemaName :: "(string \<Rightarrow> string) \<Rightarrow> string \<Rightarrow> int \<Rightarrow> string" where
  "SchemaName getenv worker idx = resourcePrefix getenv @ ''_'' @ worker @ ''_'' @ sprintfD 4 idx @ ''_schema''"

definition DeadLetterTopicName :: "(string \<Rightarrow> string) \<Rightarrow> string \<Rightarrow> int \<Rightarrow> string" where
  "DeadLetterTopicName getenv worker idx = resourcePrefix getenv @ ''_'' @ worker @ ''_'' @ sprintfD 4 idx @ ''_dlt''"

definition DeadLetterSubscriptionName :: "(string \<Rightarrow> string) \<Rightarrow> string \<Rightarrow> int \<Rightarrow> string" where
  "DeadLetterSubscriptionName getenv worker idx =
     resourcePrefix getenv @ ''_'' @ worker @ ''_'' @ sprintfD 4 idx @ ''_dlt_sub''"

definition MappedTopicChannel :: "string \<Rightarrow> string" where
  "MappedTopicChannel topic = ''pubsub.'' @ topic"

definition MappedSubscriptionChannel :: "string \<Rightarrow> string" where
  "MappedSubscriptionChannel sub = ''pubsub.sub.'' @ sub"

end
