(* ===== verification/BaseWorker.thy ===== *)
theory BaseWorker
  imports TrackerRuns Payload ConfigLoad Metrics Naming
begin

text \<open>
  The shared worker state of \<^verbatim>\<open>src/burnin/worker/worker.go\<close>: \<^verbatim>\<open>BaseWorker\<close> with its atomic counters,
  probe flags, tracker, rate windows and configuration, and every helper method the concrete
  workers call. The counters are a function from their names, one name per atomic field; a
  helper also appends the registry operations it issues to the log \<open>prom\<close>. Atomic operations
  are single steps, the two compare-and-swap loops are modelled under interference.
\<close>

section \<open>State\<close>

datatype counter =
    Sent | Received | Errors | Corrupted | Reconnections | Downtime | Duplicated | Acked
    | OrderingViolations | FanoutDeliveries | FanoutDropped | ExactlyOnceConfirmed
    | ExactlyOnceUnreconciled | DeadLetterRepublished | DeadLetterLost | InteropConverged
    | InteropDiverged | NackRedelivered | BatchAtomicityViolations | FilterMismatch
    | FilterMatchedDelivered | SchemaRejectViolations | SchemaEnforceConfirmed
    | SeekReplayExpected | SeekReplayObserved | SeekReplayMismatch | InflightCapTailRedelivered
    | InflightCapLost | ExactlyOnceInvalidAckConfirmed | FlowControlViolations
    | RetryBackoffObserved | LeaseExtendConfirmed | LeaseExtendRejectConfirmed
    | DeliveryAttemptMax | CrossStreamAckConfirmed | PeriodicCloseObserved

datatype probe =
    FlowControlRan | InvalidAckRan | ConfirmationsRan | CrossStreamAckRan | LeaseExtendRan | SchemaEnforceRan

record PubSubConfig =
  psProjectID :: string
  psEmulatorHost :: string

record NativeConfig =
  nAddress :: string
  nClientID :: string

record BaseWorker =
  bName :: string
  channelName :: string
  channelIndex :: int
  cfg :: Config
  workerCfg :: WorkerConfig
  psCfg :: PubSubConfig
  nativeCfg :: NativeConfig
  sizeDistrib :: "SizeDistribution option"
  trk :: Tracker
  latAccum :: LatencyAccumulator
  peakRate :: PeakRateTracker
  rateWindow :: SlidingRateWindow
  limitRate :: float64
  limitBurst :: int
  producing :: bool
  consuming :: bool
  ready :: bool
  disconnectGen :: u64
  cnt :: "counter \<Rightarrow> u64"
  ran :: "probe \<Rightarrow> bool"
  prom :: "metric_op list"

definition validClientChar :: "char \<Rightarrow> bool" where
  "validClientChar c \<longleftrightarrow>
     (let n = of_char c :: nat in
      (97 \<le> n \<and> n \<le> 122) \<or> (65 \<le> n \<and> n \<le> 90) \<or> (48 \<le> n \<and> n \<le> 57) \<or> c = CHR ''_'' \<or> c = CHR ''-'')"

definition sanitizeClientID :: "string \<Rightarrow> string" where
  "sanitizeClientID s = map (\<lambda>c. if validClientChar c then c else CHR ''-'') s"

text \<open>\<^verbatim>\<open>NewBaseWorker\<close> dereferences the worker's configuration block: an unknown name panics.
  \<^verbatim>\<open>int(targetRate)\<close> of an exactly represented rate is the rate.\<close>

definition NewBaseWorker :: "environ \<Rightarrow> string \<Rightarrow> string \<Rightarrow> int \<Rightarrow> Config \<Rightarrow> BaseWorker option" where
  "NewBaseWorker getenv name channel index c =
     (case GetWorkerConfig c name of
        None \<Rightarrow> None
      | Some wc \<Rightarrow>
          (let targetRate = floatOfInt (Rate wc);
               burst = (if truncInt targetRate < 1 then 1 else truncInt targetRate);
               distrib = (if SizeMode (Message c) = ''distribution''
                          then (case ParseDistribution (SizeDistributionF (Message c)) of
                                  Inl _ \<Rightarrow> None | Inr d \<Rightarrow> Some d)
                          else None)
           in Some
             \<lparr>bName = name, channelName = channel, channelIndex = index, cfg = c, workerCfg = wc,
              psCfg = \<lparr>psProjectID = ProjectID (GCP c),
                       psEmulatorHost = EmulatorHost getenv (EmulatorHostF (GCP c)) (Address (Broker c))\<rparr>,
              nativeCfg = \<lparr>nAddress = GRPCAddressF (Broker c),
                           nClientID = sanitizeClientID (ClientIDPrefix (Broker c) @ ''-'' @ channel)\<rparr>,
              sizeDistrib = distrib,
              trk = New (ReorderWindow (Message c)), latAccum = NewLatencyAccumulator,
              peakRate = NewPeakRateTracker, rateWindow = NewSlidingRateWindow,
              limitRate = targetRate, limitBurst = burst,
              producing = False, consuming = False, ready = False, disconnectGen = 0,
              cnt = (\<lambda>_. 0), ran = (\<lambda>_. False), prom = []\<rparr>))"

section \<open>Accessors\<close>

definition SentCount :: "BaseWorker \<Rightarrow> u64" where "SentCount b = cnt b Sent"
definition ReceivedCount :: "BaseWorker \<Rightarrow> u64" where "ReceivedCount b = cnt b Received"
definition ErrorCount :: "BaseWorker \<Rightarrow> u64" where "ErrorCount b = cnt b Errors"
definition CorruptedCount :: "BaseWorker \<Rightarrow> u64" where "CorruptedCount b = cnt b Corrupted"
definition ReconnectionCount :: "BaseWorker \<Rightarrow> u64" where "ReconnectionCount b = cnt b Reconnections"
definition DuplicatedCount :: "BaseWorker \<Rightarrow> u64" where "DuplicatedCount b = cnt b Duplicated"
definition AckedCount :: "BaseWorker \<Rightarrow> u64" where "AckedCount b = cnt b Acked"

definition DowntimeSeconds :: "BaseWorker \<Rightarrow> float64" where
  "DowntimeSeconds b = fdiv (floatOfU64 (cnt b Downtime)) (floatOfInt Second)"

section \<open>Counter helpers\<close>

definition bump :: "counter \<Rightarrow> u64 \<Rightarrow> BaseWorker \<Rightarrow> BaseWorker" where
  "bump c n b = b\<lparr>cnt := (cnt b)(c := cnt b c + n)\<rparr>"

definition emit :: "metric_op \<Rightarrow> BaseWorker \<Rightarrow> BaseWorker" where
  "emit m b = b\<lparr>prom := prom b @ [m]\<rparr>"

definition recordSent :: "int \<Rightarrow> string \<Rightarrow> BaseWorker \<Rightarrow> BaseWorker" where
  "recordSent bytes producerID b =
     (let b = bump Sent 1 b;
          b = b\<lparr>rateWindow := SlidingRateWindow_Record (rateWindow b)\<rparr>;
          b = b\<lparr>peakRate := PeakRateTracker_Record (peakRate b)\<rparr>;
          b = emit (IncSent (bName b) producerID) b
      in emit (RecordBytesSent (bName b) bytes) b)"

definition recordReceived :: "int \<Rightarrow> string \<Rightarrow> BaseWorker \<Rightarrow> BaseWorker" where
  "recordReceived bytes consumerID b =
     (let b = bump Received 1 b; b = emit (IncReceived (bName b) consumerID) b
      in emit (RecordBytesReceived (bName b) bytes) b)"

definition recordError :: "string \<Rightarrow> BaseWorker \<Rightarrow> BaseWorker" where
  "recordError errType b = emit (IncError (bName b) errType) (bump Errors 1 b)"

definition recordLatency :: "duration \<Rightarrow> BaseWorker \<Rightarrow> BaseWorker" where
  "recordLatency d b =
     emit (ObserveLatency (bName b) d) (b\<lparr>latAccum := LatencyAccumulator_Record (latAccum b) d\<rparr>)"

definition recordAcked :: "BaseWorker \<Rightarrow> BaseWorker" where
  "recordAcked b = emit (IncAck (bName b)) (bump Acked 1 b)"

definition recordCorrupted :: "BaseWorker \<Rightarrow> BaseWorker" where
  "recordCorrupted b = emit (IncCorrupted (bName b)) (bump Corrupted 1 b)"

definition recordDuplicated :: "BaseWorker \<Rightarrow> BaseWorker" where
  "recordDuplicated b = emit (IncDuplicated (bName b)) (bump Duplicated 1 b)"

definition recordReconnection :: "BaseWorker \<Rightarrow> BaseWorker" where
  "recordReconnection b = emit (IncReconnection (bName b)) (bump Reconnections 1 b)"

definition recordOrderingViolation :: "BaseWorker \<Rightarrow> BaseWorker" where
  "recordOrderingViolation b = emit (IncOrderingViolation (bName b)) (bump OrderingViolations 1 b)"

definition recordFanoutDelivery :: "BaseWorker \<Rightarrow> BaseWorker" where
  "recordFanoutDelivery b = emit (IncFanoutDelivery (bName b)) (bump FanoutDeliveries 1 b)"

definition recordDeadLetterRepublished :: "BaseWorker \<Rightarrow> BaseWorker" where
  "recordDeadLetterRepublished b = emit (IncDeadLetterRepublished (bName b)) (bump DeadLetterRepublished 1 b)"

definition recordInteropConverged :: "BaseWorker \<Rightarrow> BaseWorker" where
  "recordInteropConverged b = emit (IncInteropConverged (bName b)) (bump InteropConverged 1 b)"

definition recordNackRedelivered :: "BaseWorker \<Rightarrow> BaseWorker" where
  "recordNackRedelivered b = emit (IncNackRedelivered (bName b)) (bump NackRedelivered 1 b)"

definition recordBatchAtomicityViolation :: "BaseWorker \<Rightarrow> BaseWorker" where
  "recordBatchAtomicityViolation b = emit (IncBatchAtomicityViolation (bName b)) (bump BatchAtomicityViolations 1 b)"

definition recordFilterMismatch :: "BaseWorker \<Rightarrow> BaseWorker" where
  "recordFilterMismatch b = emit (IncFilterMismatch (bName b)) (bump FilterMismatch 1 b)"

definition recordFilterMatchedDelivered :: "BaseWorker \<Rightarrow> BaseWorker" where
  "recordFilterMatchedDelivered b = emit (IncFilterMatchedDelivered (bName b)) (bump FilterMatchedDelivered 1 b)"

definition recordSchemaRejectViolation :: "BaseWorker \<Rightarrow> BaseWorker" where
  "recordSchemaRejectViolation b = emit (IncSchemaRejectViolation (bName b)) (bump SchemaRejectViolations 1 b)"

definition recordSchemaEnforceConfirmed :: "BaseWorker \<Rightarrow> BaseWorker" where
  "recordSchemaEnforceConfirmed b = emit (IncSchemaEnforceConfirmed (bName b)) (bump SchemaEnforceConfirmed 1 b)"

definition recordSeekReplayMismatch :: "BaseWorker \<Rightarrow> BaseWorker" where
  "recordSeekReplayMismatch b = emit (IncSeekReplayMismatch (bName b)) (bump SeekReplayMismatch 1 b)"

definition recordInflightCapTailRedelivered :: "BaseWorker \<Rightarrow> BaseWorker" where
  "recordInflightCapTailRedelivered b = emit (IncInflightCapTailRedelivered (bName b)) (bump InflightCapTailRedelivered 1 b)"

definition recordExactlyOnceInvalidAckConfirmed :: "BaseWorker \<Rightarrow> BaseWorker" where
  "recordExactlyOnceInvalidAckConfirmed b = emit (IncExactlyOnceInvalidAckConfirmed (bName b)) (bump ExactlyOnceInvalidAckConfirmed 1 b)"

definition recordFlowControlViolation :: "BaseWorker \<Rightarrow> BaseWorker" where
  "recordFlowControlViolation b = emit (IncFlowControlViolation (bName b)) (bump FlowControlViolations 1 b)"

definition recordRetryBackoffObserved :: "BaseWorker \<Rightarrow> BaseWorker" where
  "recordRetryBackoffObserved b = emit (IncRetryBackoffObserved (bName b)) (bump RetryBackoffObserved 1 b)"

definition recordLeaseExtendConfirmed :: "BaseWorker \<Rightarrow> BaseWorker" where
  "recordLeaseExtendConfirmed b = emit (IncLeaseExtendConfirmed (bName b)) (bump LeaseExtendConfirmed 1 b)"

definition recordLeaseExtendRejectConfirmed :: "BaseWorker \<Rightarrow> BaseWorker" where
  "recordLeaseExtendRejectConfirmed b = emit (IncLeaseExtendRejectConfirmed (bName b)) (bump LeaseExtendRejectConfirmed 1 b)"

definition recordCrossStreamAckConfirmed :: "BaseWorker \<Rightarrow> BaseWorker" where
  "recordCrossStreamAckConfirmed b = emit (IncCrossStreamAckConfirmed (bName b)) (bump CrossStreamAckConfirmed 1 b)"

definition recordPeriodicCloseObserved :: "BaseWorker \<Rightarrow> BaseWorker" where
  "recordPeriodicCloseObserved b = emit (IncPeriodicCloseObserved (bName b)) (bump PeriodicCloseObserved 1 b)"

definition recordFanoutDropped :: "u64 \<Rightarrow> BaseWorker \<Rightarrow> BaseWorker" where
  "recordFanoutDropped n b = emit (AddFanoutDropped (bName b) n) (bump FanoutDropped n b)"

definition recordDeadLetterLost :: "u64 \<Rightarrow> BaseWorker \<Rightarrow> BaseWorker" where
  "recordDeadLetterLost n b = emit (AddDeadLetterLost (bName b) n) (bump DeadLetterLost n b)"

definition recordInteropDiverged :: "u64 \<Rightarrow> BaseWorker \<Rightarrow> BaseWorker" where
  "recordInteropDiverged n b = emit (AddInteropDiverged (bName b) n) (bump InteropDiverged n b)"

definition recordSeekReplayExpected :: "u64 \<Rightarrow> BaseWorker \<Rightarrow> BaseWorker" where
  "recordSeekReplayExpected n b = emit (AddSeekReplayExpected (bName b) n) (bump SeekReplayExpected n b)"

definition recordSeekReplayObserved :: "u64 \<Rightarrow> BaseWorker \<Rightarrow> BaseWorker" where
  "recordSeekReplayObserved n b = emit (AddSeekReplayObserved (bName b) n) (bump SeekReplayObserved n b)"

definition recordInflightCapLost :: "u64 \<Rightarrow> BaseWorker \<Rightarrow> BaseWorker" where
  "recordInflightCapLost n b = emit (AddInflightCapLost (bName b) n) (bump InflightCapLost n b)"

declare recordSent_def [worker_defs] recordReceived_def [worker_defs] recordError_def [worker_defs]
  recordLatency_def [worker_defs] recordAcked_def [worker_defs]
  recordCorrupted_def [worker_defs] recordDuplicated_def [worker_defs]
  recordReconnection_def [worker_defs] recordOrderingViolation_def [worker_defs]
  recordFanoutDelivery_def [worker_defs] recordDeadLetterRepublished_def [worker_defs]
  recordInteropConverged_def [worker_defs] recordNackRedelivered_def [worker_defs]
  recordBatchAtomicityViolation_def [worker_defs] recordFilterMismatch_def [worker_defs]
  recordFilterMatchedDelivered_def [worker_defs] recordSchemaRejectViolation_def [worker_defs]
  recordSchemaEnforceConfirmed_def [worker_defs] recordSeekReplayMismatch_def [worker_defs]
  recordInflightCapTailRedelivered_def [worker_defs]
  recordExactlyOnceInvalidAckConfirmed_def [worker_defs]
  recordFlowControlViolation_def [worker_defs] recordRetryBackoffObserved_def [worker_defs]
  recordLeaseExtendConfirmed_def [worker_defs]
  recordLeaseExtendRejectConfirmed_def [worker_defs]
  recordCrossStreamAckConfirmed_def [worker_defs] recordPeriodicCloseObserved_def [worker_defs]
  recordFanoutDropped_def [worker_defs] recordDeadLetterLost_def [worker_defs]
  recordInteropDiverged_def [worker_defs] recordSeekReplayExpected_def [worker_defs]
  recordSeekReplayObserved_def [worker_defs] recordInflightCapLost_def [worker_defs]

section \<open>Compare-and-swap loops\<close>

text \<open>Both loops load a value, compute a new one and swap it in if the value has not changed.
  The list holds what the memory cell contains at each compare-and-swap, after the stores of
  other goroutines: the swap fails while it differs from the loaded value, and succeeds at
  the latest when nothing interferes any more. The result is the swap performed, from the
  old to the new value, or \<open>None\<close> when the loop returns without one.\<close>

fun casReconcile :: "u64 \<Rightarrow> u64 list \<Rightarrow> (u64 \<times> u64) option" where
  "casReconcile cur vs =
     (if cur = 0 then None
      else (case vs of [] \<Rightarrow> Some (cur, cur - 1)
            | v # vs' \<Rightarrow> if v = cur then Some (cur, cur - 1) else casReconcile v vs'))"

fun casMax :: "u64 \<Rightarrow> u64 \<Rightarrow> u64 list \<Rightarrow> (u64 \<times> u64) option" where
  "casMax v cur xs =
     (if v \<le> cur then None
      else (case xs of [] \<Rightarrow> Some (cur, v)
            | x # xs' \<Rightarrow> if x = cur then Some (cur, v) else casMax v x xs'))"

declare casReconcile.simps [simp del] casMax.simps [simp del]

definition recordExactlyOnceAck :: "bool \<Rightarrow> BaseWorker \<Rightarrow> BaseWorker" where
  "recordExactlyOnceAck confirmed b =
     (if confirmed then emit (IncExactlyOnceConfirmed (bName b)) (bump ExactlyOnceConfirmed 1 b)
      else emit (IncExactlyOnceUnreconciled (bName b)) (bump ExactlyOnceUnreconciled 1 b))"

definition reconcileExactlyOnce :: "BaseWorker \<Rightarrow> BaseWorker" where
  "reconcileExactlyOnce b =
     (case casReconcile (cnt b ExactlyOnceUnreconciled) [] of
        None \<Rightarrow> b
      | Some (_, new) \<Rightarrow> b\<lparr>cnt := (cnt b)(ExactlyOnceUnreconciled := new)\<rparr>)"

definition setDeliveryAttemptMax :: "u64 \<Rightarrow> BaseWorker \<Rightarrow> BaseWorker" where
  "setDeliveryAttemptMax v b =
     (case casMax v (cnt b DeliveryAttemptMax) [] of
        None \<Rightarrow> b
      | Some (_, new) \<Rightarrow>
          emit (SetDeliveryAttemptMax (bName b) (floatOfU64 v))
            (b\<lparr>cnt := (cnt b)(DeliveryAttemptMax := new)\<rparr>))"

section \<open>Flags, tracking, sizes, windows\<close>

definition setOutstanding :: "float64 \<Rightarrow> BaseWorker \<Rightarrow> BaseWorker" where
  "setOutstanding n b = emit (SetOutstanding (bName b) n) b"

definition markRan :: "probe \<Rightarrow> BaseWorker \<Rightarrow> BaseWorker" where
  "markRan p b = b\<lparr>ran := (ran b)(p := True)\<rparr>"

definition recordTracked :: "string \<Rightarrow> u64 \<Rightarrow> BaseWorker \<Rightarrow> BaseWorker \<times> bool" where
  "recordTracked producerID seq b =
     (let (t, dup, oo) = Record (trk b) producerID seq;
          b = b\<lparr>trk := t\<rparr>;
          b = (if dup then recordDuplicated b else b);
          b = (if oo then emit (IncOutOfOrder (bName b)) b else b)
      in (b, dup))"

text \<open>\<open>None\<close> is the panic of \<^verbatim>\<open>SelectSize\<close>.\<close>

definition selectMessageSize :: "(int \<Rightarrow> int) \<Rightarrow> BaseWorker \<Rightarrow> int option" where
  "selectMessageSize intN b =
     (case sizeDistrib b of
        Some d \<Rightarrow> if SizeMode (Message (cfg b)) = ''distribution'' then SelectSize intN d
                  else Some (SizeBytes (Message (cfg b)))
      | None \<Rightarrow> Some (SizeBytes (Message (cfg b))))"

definition addDowntime :: "duration \<Rightarrow> BaseWorker \<Rightarrow> BaseWorker" where
  "addDowntime d b = emit (AddDowntime (bName b) (Seconds d)) (bump Downtime (word_of_int d) b)"

definition AdvanceRateWindows :: "BaseWorker \<Rightarrow> BaseWorker" where
  "AdvanceRateWindows b =
     b\<lparr>rateWindow := SlidingRateWindow_Advance (rateWindow b), peakRate := PeakRateTracker_Advance (peakRate b)\<rparr>"

definition ResetAfterWarmup :: "BaseWorker \<Rightarrow> BaseWorker" where
  "ResetAfterWarmup b =
     b\<lparr>trk := Reset (trk b), latAccum := LatencyAccumulator_Reset (latAccum b),
       peakRate := NewPeakRateTracker, rateWindow := SlidingRateWindow_Reset (rateWindow b),
       cnt := (\<lambda>_. 0), ran := (\<lambda>_. False)\<rparr>"

definition signalReady :: "BaseWorker \<Rightarrow> BaseWorker" where
  "signalReady b = b\<lparr>ready := True\<rparr>"

definition DisconnectConsumers :: "BaseWorker \<Rightarrow> BaseWorker" where
  "DisconnectConsumers b = b\<lparr>disconnectGen := disconnectGen b + 1\<rparr>"

definition disconnectGeneration :: "BaseWorker \<Rightarrow> u64" where
  "disconnectGeneration b = disconnectGen b"

text \<open>Stopping cancels the context of the producers or consumers; the bounded wait for their
  goroutines has no effect on the state.\<close>

definition StopProducers :: "BaseWorker \<Rightarrow> BaseWorker" where
  "StopProducers b = b\<lparr>producing := False\<rparr>"

definition StopConsumers :: "BaseWorker \<Rightarrow> BaseWorker" where
  "StopConsumers b = b\<lparr>consuming := False\<rparr>"

end
