(* ===== verification/WorkerLemmas.thy ===== *)
theory WorkerLemmas
  imports BaseWorker
begin

text \<open>
  Facts about the counter helpers of \<open>BaseWorker\<close>: what each helper adds to which counter, the
  compare-and-swap loops under interference, the reset after warm-up, the client ids, and
  the resource names of \<open>Naming\<close>.
\<close>

section \<open>Counters\<close>

lemma cnt_bump [simp]: "cnt (bump c n b) d = cnt b d + (if d = c then n else 0)"
  by (simp add: bump_def)

lemma cnt_emit [simp]: "cnt (emit m b) = cnt b"
  by (simp add: emit_def)

lemma bump_frame [simp]:
  "bName (bump c n b) = bName b" "cfg (bump c n b) = cfg b" "trk (bump c n b) = trk b"
  "ran (bump c n b) = ran b" "prom (bump c n b) = prom b" "workerCfg (bump c n b) = workerCfg b"
  "latAccum (bump c n b) = latAccum b"
  by (simp_all add: bump_def)

lemma emit_frame [simp]:
  "bName (emit m b) = bName b" "cfg (emit m b) = cfg b" "trk (emit m b) = trk b"
  "ran (emit m b) = ran b" "prom (emit m b) = prom b @ [m]" "workerCfg (emit m b) = workerCfg b"
  "latAccum (emit m b) = latAccum b"
  by (simp_all add: emit_def)

lemma recordTracked_cnt:
  "cnt (fst (recordTracked pid seq b)) c = cnt b c + (if c = Duplicated \<and> snd (recordTracked pid seq b) then 1 else 0)"
  by (simp add: recordTracked_def recordDuplicated_def split_beta Let_def)

lemma recordTracked_trk: "trk (fst (recordTracked pid seq b)) = fst (Record (trk b) pid seq)"
  by (simp add: recordTracked_def recordDuplicated_def split_beta Let_def)

lemma recordTracked_dup: "snd (recordTracked pid seq b) = fst (snd (Record (trk b) pid seq))"
  by (simp add: recordTracked_def split_beta Let_def)

lemma recordTracked_frame [simp]:
  "ran (fst (recordTracked pid seq b)) = ran b" "cfg (fst (recordTracked pid seq b)) = cfg b"
  "bName (fst (recordTracked pid seq b)) = bName b" "workerCfg (fst (recordTracked pid seq b)) = workerCfg b"
  by (simp_all add: recordTracked_def recordDuplicated_def split_beta Let_def)

section \<open>Compare-and-swap\<close>

lemma cas_simps:
  "casReconcile cur [] = (if cur = 0 then None else Some (cur, cur - 1))"
  "casReconcile cur (w # ws) = (if cur = 0 then None else if w = cur then Some (cur, cur - 1) else casReconcile w ws)"
  "casMax v cur [] = (if v \<le> cur then None else Some (cur, v))"
  "casMax v cur (w # ws) = (if v \<le> cur then None else if w = cur then Some (cur, v) else casMax v w ws)"
  by (subst casReconcile.simps casMax.simps; simp)+

lemma casReconcile_sound:
  "casReconcile cur vs = Some (old, new) \<Longrightarrow> old \<noteq> 0 \<and> new = old - 1 \<and> old \<in> set (cur # vs)"
  by (induction vs arbitrary: cur) (fastforce simp: cas_simps split: if_splits)+

lemma casReconcile_none: "casReconcile cur vs = None \<Longrightarrow> 0 \<in> set (cur # vs)"
  by (induction vs arbitrary: cur) (fastforce simp: cas_simps split: if_splits)+

lemma casMax_sound:
  "casMax v cur xs = Some (old, new) \<Longrightarrow> new = v \<and> old < v \<and> old \<in> set (cur # xs)"
  by (induction xs arbitrary: cur) (fastforce simp: cas_simps split: if_splits)+

lemma casMax_none: "casMax v cur xs = None \<Longrightarrow> \<exists>x\<in>set (cur # xs). v \<le> x"
  by (induction xs arbitrary: cur) (fastforce simp: cas_simps split: if_splits)+

section \<open>Client ids\<close>

lemma validClientChar_dash: "validClientChar (CHR ''-'')"
  by (simp add: validClientChar_def)

section \<open>Resource names\<close>

text \<open>The kinds of resource of one worker channel and the suffix each name has after the
  channel index.\<close>

datatype resourceKind = KTopic | KSub | KFanout int | KSnapshot | KSchema | KDeadTopic | KDeadSub

fun resourceName :: "(string \<Rightarrow> string) \<Rightarrow> string \<Rightarrow> int \<Rightarrow> resourceKind \<Rightarrow> string" where
  "resourceName g w i KTopic = TopicName g w i"
| "resourceName g w i KSub = SubscriptionName g w i"
| "resourceName g w i (KFanout n) = FanoutSubscriptionName g w i n"
| "resourceName g w i KSnapshot = SnapshotName g w i"
| "resourceName g w i KSchema = SchemaName g w i"
| "resourceName g w i KDeadTopic = DeadLetterTopicName g w i"
| "resourceName g w i KDeadSub = DeadLetterSubscriptionName g w i"

fun kindSuffix :: "resourceKind \<Rightarrow> string" where
  "kindSuffix KTopic = []" | "kindSuffix KSub = ''_sub''" | "kindSuffix (KFanout n) = ''_s'' @ sprintfD 2 n"
| "kindSuffix KSnapshot = ''_snap''" | "kindSuffix KSchema = ''_schema''" | "kindSuffix KDeadTopic = ''_dlt''"
| "kindSuffix KDeadSub = ''_dlt_sub''"

fun kindOk :: "resourceKind \<Rightarrow> bool" where
  "kindOk (KFanout n) = (0 \<le> n)" | "kindOk _ = True"

lemmas name_defs = TopicName_def SubscriptionName_def FanoutSubscriptionName_def SnapshotName_def
  SchemaName_def DeadLetterTopicName_def DeadLetterSubscriptionName_def

lemma resourceName_shape:
  "resourceName g w i k = (resourcePrefix g @ ''_'' @ w @ ''_'') @ sprintfD 4 i @ kindSuffix k"
  by (cases k) (simp_all add: name_defs)

definition isDigit :: "char \<Rightarrow> bool" where
  "isDigit c \<longleftrightarrow> c \<in> digitChar ` {..<10}"

lemma digits_sprintfD: "0 \<le> i \<Longrightarrow> list_all isDigit (sprintfD w i)"
proof -
  assume "0 \<le> i"
  moreover have "CHR ''0'' = digitChar 0" by (simp add: digitChar_def) code_simp
  then have "isDigit (CHR ''0'')" unfolding isDigit_def by (metis image_eqI lessThan_iff zero_less_numeral)
  moreover have "list_all isDigit (formatBase 10 n)" for n
    using set_formatBase [of 10 n] by (auto simp: list_all_iff isDigit_def)
  ultimately show ?thesis
    by (simp add: sprintfD_def padZero_def) (auto simp: list_all_iff)
qed

lemma not_digit: "\<not> isDigit (CHR ''_'')" "\<not> isDigit (CHR ''u'')" "\<not> isDigit (CHR ''n'')" "\<not> isDigit (CHR ''c'')"
proof -
  have d: "isDigit c \<Longrightarrow> digitVal c \<noteq> None" for c by (auto simp: isDigit_def)
  have "digitVal (CHR ''_'') = None" "digitVal (CHR ''u'') = None" "digitVal (CHR ''n'') = None" "digitVal (CHR ''c'') = None"
    by (simp_all add: digitVal_def)
  with d show "\<not> isDigit (CHR ''_'')" "\<not> isDigit (CHR ''u'')" "\<not> isDigit (CHR ''n'')" "\<not> isDigit (CHR ''c'')"
    by blast+
qed

lemma kindSuffix_head: "kindSuffix k = [] \<or> \<not> isDigit (hd (kindSuffix k))"
  by (cases k) (simp_all add: not_digit)

lemma digits_prefix_unique:
  assumes "list_all isDigit a" "list_all isDigit b" "a @ x = b @ y"
    and "x = [] \<or> \<not> isDigit (hd x)" "y = [] \<or> \<not> isDigit (hd y)"
  shows "a = b \<and> x = y"
proof -
  have tw: "takeWhile isDigit (a @ x) = a" if "list_all isDigit a" "x = [] \<or> \<not> isDigit (hd x)" for a x
    using that by (cases x) (auto simp: list_all_iff takeWhile_append2)
  have "a = b" using tw [OF assms(1,4)] tw [OF assms(2,5)] assms(3) by metis
  then show ?thesis using assms(3) by simp
qed

lemma kindSuffix_inj: "kindOk k \<Longrightarrow> kindOk k' \<Longrightarrow> kindSuffix k = kindSuffix k' \<Longrightarrow> k = k'"
proof -
  have fan: "\<exists>c cs. sprintfD 2 n = c # cs \<and> isDigit c" if "0 \<le> n" for n
  proof -
    have "sprintfD 2 n \<noteq> []" using that by (simp add: sprintfD_def padZero_def)
    then show ?thesis using digits_sprintfD [OF that, of 2] by (cases "sprintfD 2 n") auto
  qed
  assume "kindOk k" "kindOk k'" "kindSuffix k = kindSuffix k'"
  then show ?thesis
    using fan not_digit by (cases k; cases k') (fastforce simp: sprintfD_inj)+
qed

section \<open>Properties\<close>

text \<open>Names never collide. For one resource prefix and worker, two resources with the same
  name have the same channel index and the same kind: topic, subscription, fan-out
  subscription number, snapshot, schema, dead-letter topic or dead-letter subscription.\<close>

theorem resource_names_injective:
  assumes "resourceName g w i k = resourceName g w j k'" "0 \<le> i" "0 \<le> j" "kindOk k" "kindOk k'"
  shows "i = j \<and> k = k'"
proof -
  have "sprintfD 4 i @ kindSuffix k = sprintfD 4 j @ kindSuffix k'"
    using assms(1) unfolding resourceName_shape by simp
  then have "sprintfD 4 i = sprintfD 4 j \<and> kindSuffix k = kindSuffix k'"
    using digits_sprintfD assms(2,3) kindSuffix_head by (intro digits_prefix_unique) auto
  then show ?thesis using assms(2-5) kindSuffix_inj by (auto simp: sprintfD_inj)
qed

theorem resource_names_injective_witness:
  "resourceName (\<lambda>_. []) ''fan_out'' 1 (KFanout 12) = resourceName (\<lambda>_. []) ''fan_out'' 1 (KFanout (3 * 4))
   \<and> KFanout 12 = KFanout (3 * 4)"
  using resource_names_injective [of "\<lambda>_. []" "''fan_out''" 1 "KFanout 12" 1 "KFanout (3 * 4)"] by simp

text \<open>Topic and subscription channels are disjoint. As long as no topic id starts with
  \<^verbatim>\<open>sub.\<close>, as the grammar demands, the Events Store channel of a topic is never the queue
  channel of a subscription.\<close>

theorem mapped_channels_disjoint:
  assumes "\<not> HasPrefix topic ''sub.''"
  shows "MappedTopicChannel topic \<noteq> MappedSubscriptionChannel sub"
proof
  have pre: "HasPrefix (p @ s) p" for p s by (induction p) simp_all
  assume "MappedTopicChannel topic = MappedSubscriptionChannel sub"
  then have "topic = ''sub.'' @ sub" by (simp add: MappedTopicChannel_def MappedSubscriptionChannel_def)
  with assms pre [of "''sub.''" sub] show False by simp
qed

theorem mapped_channels_disjoint_witness:
  "MappedTopicChannel ''gcp_burnin_fan_out_0001'' \<noteq> MappedSubscriptionChannel ''gcp_burnin_fan_out_0001_sub''"
  by (rule mapped_channels_disjoint) simp

text \<open>The compare-and-swap loops are linearizable. Whatever other goroutines store between
  a load and its swap, \<^verbatim>\<open>reconcileExactlyOnce\<close> lowers a non-zero value by exactly one or saw a
  zero, so the counter never wraps below zero, and \<^verbatim>\<open>setDeliveryAttemptMax\<close> raises a smaller
  value to its argument or saw one at least as large.\<close>

theorem cas_loops_linearizable:
  "(case casReconcile cur vs of
      Some (old, new) \<Rightarrow> old \<noteq> 0 \<and> unat new + 1 = unat old \<and> old \<in> set (cur # vs)
    | None \<Rightarrow> 0 \<in> set (cur # vs)) \<and>
   (case casMax v cur vs of
      Some (old, new) \<Rightarrow> new = v \<and> old < new \<and> old \<in> set (cur # vs)
    | None \<Rightarrow> (\<exists>x\<in>set (cur # vs). v \<le> x))"
proof -
  have "unat (old - 1) + 1 = unat old" if "old \<noteq> 0" for old :: u64
    using that unat_sub_le [of 1 old] by (simp add: word_le_nat_alt unat_gt_0 Suc_leI)
  then show ?thesis
    using casReconcile_sound [of cur vs] casReconcile_none [of cur vs] casMax_sound [of v cur vs] casMax_none [of v cur vs]
    by (auto split: option.splits)
qed

text \<open>The reset after warm-up. Every counter, every probe flag, the tracker, the latency
  samples and the rate windows are as in a new worker, so nothing of the warm-up reaches the
  measured window, while the identity of the worker, its configuration and the churn
  generation are kept.\<close>

theorem ResetAfterWarmup_fresh:
  assumes "NewBaseWorker g name chan i c = Some fresh" "reorderWindow (trk b) = ReorderWindow (Message c)"
    and "length (rwBuckets (rateWindow b)) = 30"
  shows "cnt (ResetAfterWarmup b) = cnt fresh \<and> ran (ResetAfterWarmup b) = ran fresh \<and>
    trk (ResetAfterWarmup b) = trk fresh \<and> latAccum (ResetAfterWarmup b) = latAccum fresh \<and>
    peakRate (ResetAfterWarmup b) = peakRate fresh \<and> rateWindow (ResetAfterWarmup b) = rateWindow fresh \<and>
    bName (ResetAfterWarmup b) = bName b \<and> cfg (ResetAfterWarmup b) = cfg b \<and>
    disconnectGen (ResetAfterWarmup b) = disconnectGen b"
proof -
  have f: "cnt fresh = (\<lambda>_. 0)" "ran fresh = (\<lambda>_. False)" "trk fresh = New (ReorderWindow (Message c))"
    "latAccum fresh = []" "peakRate fresh = NewPeakRateTracker" "rateWindow fresh = NewSlidingRateWindow"
    using assms(1) by (auto simp: NewBaseWorker_def NewLatencyAccumulator_def Let_def split: option.splits)
  have "Reset (trk b) = New (ReorderWindow (Message c))"
    using assms(2) by (cases "trk b") (simp add: Reset_def New_def)
  moreover have "SlidingRateWindow_Reset (rateWindow b) = NewSlidingRateWindow"
    using assms(3) by (cases "rateWindow b")
      (simp add: SlidingRateWindow_Reset_def NewSlidingRateWindow_def slidingWindowSize_def map_replicate_const)
  ultimately show ?thesis by (simp add: ResetAfterWarmup_def LatencyAccumulator_Reset_def f)
qed

lemma default_fanout: "GetWorkerConfig DefaultConfig WorkerFanOut = Some (FanOut defaultWorkers)"
  by (simp add: GetWorkerConfig_def worker_neq DefaultConfig_def)

theorem ResetAfterWarmup_fresh_witness:
  "\<exists>b. NewBaseWorker (\<lambda>_. []) WorkerFanOut ''ch'' 1 DefaultConfig = Some b \<and>
     cnt (ResetAfterWarmup (recordSent 10 ''p'' b)) = cnt b"
proof -
  obtain b where b: "NewBaseWorker (\<lambda>_. []) WorkerFanOut ''ch'' 1 DefaultConfig = Some b"
    by (simp add: NewBaseWorker_def default_fanout Let_def)
  then have "trk b = New (ReorderWindow (Message DefaultConfig))" "rateWindow b = NewSlidingRateWindow"
    by (auto simp: NewBaseWorker_def default_fanout Let_def)
  then have "cnt (ResetAfterWarmup (recordSent 10 ''p'' b)) = cnt b"
    using ResetAfterWarmup_fresh [OF b, of "recordSent 10 ''p'' b"]
    by (simp add: recordSent_def Let_def bump_def emit_def New_def NewSlidingRateWindow_def
        SlidingRateWindow_Record_def slidingWindowSize_def)
  with b show ?thesis by blast
qed

text \<open>Client ids. \<^verbatim>\<open>sanitizeClientID\<close> keeps the length, produces only the characters the broker
  accepts, leaves valid ids alone and is idempotent.\<close>

theorem sanitizeClientID_valid:
  "length (sanitizeClientID s) = length s \<and> list_all validClientChar (sanitizeClientID s) \<and>
   sanitizeClientID (sanitizeClientID s) = sanitizeClientID s \<and>
   (sanitizeClientID s = s \<longleftrightarrow> list_all validClientChar s)"
proof -
  have "list_all validClientChar (sanitizeClientID s)"
    using validClientChar_dash by (auto simp: sanitizeClientID_def list_all_iff)
  moreover have "sanitizeClientID t = t" if "list_all validClientChar t" for t
    using that by (induction t) (simp_all add: sanitizeClientID_def)
  moreover have "length (sanitizeClientID s) = length s" by (simp add: sanitizeClientID_def)
  ultimately show ?thesis by (auto dest: arg_cong [where f = "list_all validClientChar"])
qed

end
