(* ===== verification/Verdict.thy ===== *)
theory Verdict
  imports WorkerLemmas
begin

text \<open>
  The verdict of \<^verbatim>\<open>src/burnin/engine/verdict.go\<close> over the frozen worker snapshots of
  \<^verbatim>\<open>src/burnin/engine/engine.go\<close>. Every gate of \<^verbatim>\<open>computeVerdict\<close> is a function from a worker's
  snapshot to the findings it appends, in the order of the source; a failure sets the result
  to FAILED, a note only appends its text. A message is a constructor with the values the
  source formats. The snapshots are ranged over as a Go map, in any order.
\<close>

section \<open>Snapshots and results\<close>

record WorkerSnapshot =
  scnt :: "counter \<Rightarrow> u64"
  snapDowntime :: float64
  snapLost :: u64
  snapOutOfOrder :: u64
  sran :: "probe \<Rightarrow> bool"
  LatencyP50 :: float64
  LatencyP95 :: float64
  LatencyP99 :: float64
  LatencyP999 :: float64
  snapPeakRate :: float64
  AvgRate :: float64

text \<open>\<^verbatim>\<open>&WorkerSnapshot{}\<close>, the zero value of the struct.\<close>

definition zeroSnapshot :: WorkerSnapshot where
  "zeroSnapshot =
     \<lparr>scnt = (\<lambda>_. 0), snapDowntime = Fin 0, snapLost = 0, snapOutOfOrder = 0, sran = (\<lambda>_. False),
      LatencyP50 = Fin 0, LatencyP95 = Fin 0, LatencyP99 = Fin 0, LatencyP999 = Fin 0,
      snapPeakRate = Fin 0, AvgRate = Fin 0\<rparr>"

datatype message =
    MCorrupted string u64 | MLoss string float64 float64 | MDuplication string float64 float64
  | MLatency string string float64 float64 | MErrorRate string float64 float64
  | MThroughput string float64 float64 | MDowntime string float64 float64
  | MOrdering string u64 | MUnreconciled string u64 | MDeadLetterLost string u64
  | MFanoutDropped string u64 | MInteropDiverged string u64
  | MBatchAtomicity string u64 | MFilterMismatch string u64
  | MSchemaViolation string u64 | MSchemaNeverObserved string
  | MSeekMismatch string u64 | MInflightLost string u64
  | MInvalidAckNever string | MConfirmationsNever string | MFlowControl string u64
  | MLeaseExtendNever string | MLeaseRejectNever string | MCrossStreamNever string
  | MDeliveryAttemptNever string
  | NRetryBackoff string bool | NPeriodicClose string bool
  | WMemoryGrowth float64 float64

datatype finding = Failure message | Note message

record VerdictResult =
  vResult :: string
  vPassed :: bool
  vWarnings :: "message list"

section \<open>The gates\<close>

definition boundaryLossPct :: float64 where
  "boundaryLossPct = Fin (1 / 2)"

definition failIf :: "bool \<Rightarrow> message \<Rightarrow> finding list" where
  "failIf b m = (if b then [Failure m] else [])"

text \<open>\<^verbatim>\<open>float64(a) / float64(b) * 100\<close>\<close>

definition pct :: "u64 \<Rightarrow> u64 \<Rightarrow> float64" where
  "pct a b = fmul (fdiv (floatOfU64 a) (floatOfU64 b)) (Fin 100)"

definition checkLatency :: "string \<Rightarrow> string \<Rightarrow> float64 \<Rightarrow> float64 \<Rightarrow> finding list" where
  "checkLatency name label v threshold =
     failIf (fgt v (Fin 0) \<and> fgt threshold (Fin 0) \<and> fgt v threshold) (MLatency name label v threshold)"

definition lossGate :: "Config \<Rightarrow> string \<Rightarrow> WorkerSnapshot \<Rightarrow> finding list" where
  "lossGate c name snap =
     failIf (scnt snap Corrupted > 0) (MCorrupted name (scnt snap Corrupted)) @
     (if scnt snap Sent > 0
      then (let lossPct = pct (snapLost snap) (scnt snap Sent) in
            failIf (fgt lossPct (MaxLossPct (Thresholds c)) \<and> fgt lossPct boundaryLossPct)
              (MLoss name lossPct (MaxLossPct (Thresholds c))))
      else [])"

definition duplicationGate :: "Config \<Rightarrow> string \<Rightarrow> WorkerSnapshot \<Rightarrow> finding list" where
  "duplicationGate c name snap =
     (if scnt snap Received > 0 \<and> \<not> IsDuplicationGateExempt name
      then (let dupPct = pct (scnt snap Duplicated) (scnt snap Received) in
            failIf (fgt dupPct (MaxDuplicationPct (Thresholds c)))
              (MDuplication name dupPct (MaxDuplicationPct (Thresholds c))))
      else [])"

definition latencyGate :: "Config \<Rightarrow> string \<Rightarrow> WorkerSnapshot \<Rightarrow> finding list" where
  "latencyGate c name snap =
     (let t = Thresholds c in
      if IsLatencyGateExempt name then []
      else checkLatency name ''p50'' (LatencyP50 snap) (MaxP50LatencyMS t) @
           checkLatency name ''p95'' (LatencyP95 snap) (MaxP95LatencyMS t) @
           checkLatency name ''p99'' (LatencyP99 snap) (MaxP99LatencyMS t) @
           checkLatency name ''p999'' (LatencyP999 snap) (MaxP999LatencyMS t))"

definition errorGate :: "Config \<Rightarrow> string \<Rightarrow> WorkerSnapshot \<Rightarrow> finding list" where
  "errorGate c name snap =
     (let tot = scnt snap Sent + scnt snap Received in
      if tot > 0
      then (let errPct = pct (scnt snap Errors) tot in
            failIf (fgt errPct (MaxErrorRatePct (Thresholds c)))
              (MErrorRate name errPct (MaxErrorRatePct (Thresholds c))))
      else [])"

definition throughputGate :: "Config \<Rightarrow> duration \<Rightarrow> string \<Rightarrow> WorkerSnapshot \<Rightarrow> finding list" where
  "throughputGate c measured name snap =
     (if measured > 0 \<and> scnt snap Sent > 0 \<and> \<not> IsDeadLetterWorker name \<and>
         \<not> IsSeekSnapshotWorker name \<and> \<not> IsFilteringWorker name
      then (let targetRate = floatOfInt (GetWorkerRate c name) in
            if fgt targetRate (Fin 0)
            then (let actualRate = fdiv (floatOfU64 (scnt snap Sent)) (Seconds measured);
                      throughputPct = fmul (fdiv actualRate targetRate) (Fin 100)
                  in failIf (flt throughputPct (MinThroughputPct (Thresholds c)))
                       (MThroughput name throughputPct (MinThroughputPct (Thresholds c))))
            else [])
      else []) @
     (if measured > 0 \<and> fgt (snapDowntime snap) (Fin 0)
      then (let downtimePct = fmul (fdiv (snapDowntime snap) (Seconds measured)) (Fin 100) in
            failIf (fgt downtimePct (MaxDowntimePct (Thresholds c)))
              (MDowntime name downtimePct (MaxDowntimePct (Thresholds c))))
      else [])"

definition fidelityGates :: "string \<Rightarrow> WorkerSnapshot \<Rightarrow> finding list" where
  "fidelityGates name snap =
     failIf (IsOrderingWorker name \<and> scnt snap OrderingViolations > 0) (MOrdering name (scnt snap OrderingViolations)) @
     failIf (IsExactlyOnceWorker name \<and> scnt snap ExactlyOnceUnreconciled > 0)
       (MUnreconciled name (scnt snap ExactlyOnceUnreconciled)) @
     failIf (IsDeadLetterWorker name \<and> scnt snap DeadLetterLost > 0) (MDeadLetterLost name (scnt snap DeadLetterLost)) @
     failIf (IsFanoutWorker name \<and> scnt snap FanoutDropped > 0) (MFanoutDropped name (scnt snap FanoutDropped)) @
     failIf (IsInteropWorker name \<and> scnt snap InteropDiverged > 0) (MInteropDiverged name (scnt snap InteropDiverged))"

definition coverageGates :: "string \<Rightarrow> WorkerSnapshot \<Rightarrow> finding list" where
  "coverageGates name snap =
     failIf (scnt snap BatchAtomicityViolations > 0) (MBatchAtomicity name (scnt snap BatchAtomicityViolations)) @
     failIf (IsFilteringWorker name \<and> scnt snap FilterMismatch > 0) (MFilterMismatch name (scnt snap FilterMismatch)) @
     (if IsSchemaEnforceWorker name
      then failIf (scnt snap SchemaRejectViolations > 0) (MSchemaViolation name (scnt snap SchemaRejectViolations)) @
           failIf (sran snap SchemaEnforceRan \<and> scnt snap SchemaEnforceConfirmed = 0) (MSchemaNeverObserved name)
      else []) @
     failIf (IsSeekSnapshotWorker name \<and> scnt snap SeekReplayMismatch > 0) (MSeekMismatch name (scnt snap SeekReplayMismatch)) @
     failIf (IsInflightCapWorker name \<and> scnt snap InflightCapLost > 0) (MInflightLost name (scnt snap InflightCapLost))"

definition probeGates :: "string \<Rightarrow> WorkerSnapshot \<Rightarrow> finding list" where
  "probeGates name snap =
     (if IsExactlyOnceWorker name
      then failIf (sran snap InvalidAckRan \<and> scnt snap ExactlyOnceInvalidAckConfirmed = 0) (MInvalidAckNever name) @
           failIf (sran snap ConfirmationsRan \<and> scnt snap ExactlyOnceConfirmed = 0) (MConfirmationsNever name)
      else []) @
     failIf (scnt snap FlowControlViolations > 0) (MFlowControl name (scnt snap FlowControlViolations)) @
     (if sran snap LeaseExtendRan
      then failIf (scnt snap LeaseExtendConfirmed = 0) (MLeaseExtendNever name) @
           failIf (scnt snap LeaseExtendRejectConfirmed = 0) (MLeaseRejectNever name)
      else []) @
     failIf (sran snap CrossStreamAckRan \<and> scnt snap CrossStreamAckConfirmed = 0) (MCrossStreamNever name) @
     failIf (IsDeadLetterWorker name \<and> scnt snap DeadLetterRepublished > 0 \<and> scnt snap DeliveryAttemptMax = 0)
       (MDeliveryAttemptNever name)"

definition noteGates :: "Config \<Rightarrow> string \<Rightarrow> WorkerSnapshot \<Rightarrow> finding list" where
  "noteGates c name snap =
     (if IsDeadLetterWorker name \<and> RetryBackoffProbe (GCP c)
      then [Note (NRetryBackoff name (scnt snap RetryBackoffObserved > 0))] else []) @
     (if IsStreamingPullWorker name
      then [Note (NPeriodicClose name (scnt snap PeriodicCloseObserved > 0))] else [])"

definition gates :: "Config \<Rightarrow> duration \<Rightarrow> string \<Rightarrow> WorkerSnapshot \<Rightarrow> finding list" where
  "gates c measured name snap =
     lossGate c name snap @ duplicationGate c name snap @ latencyGate c name snap @ errorGate c name snap @
     throughputGate c measured name snap @ fidelityGates name snap @ coverageGates name snap @
     probeGates name snap @ noteGates c name snap"

section \<open>The verdict\<close>

fun judge :: "finding \<Rightarrow> VerdictResult \<Rightarrow> VerdictResult" where
  "judge (Failure m) r = r\<lparr>vResult := ''FAILED'', vPassed := False, vWarnings := vWarnings r @ [m]\<rparr>"
| "judge (Note m) r = r\<lparr>vWarnings := vWarnings r @ [m]\<rparr>"

definition memoryGate :: "Config \<Rightarrow> u64 \<Rightarrow> u64 \<Rightarrow> VerdictResult \<Rightarrow> VerdictResult" where
  "memoryGate c baseline peak r =
     (if baseline > 0 \<and> peak > baseline
      then (let growth = fdiv (floatOfU64 peak) (floatOfU64 baseline) in
            if fgt growth (MaxMemoryGrowthFactor (Thresholds c))
            then (let r1 = (if vPassed r then r\<lparr>vResult := ''PASSED_WITH_WARNINGS''\<rparr> else r) in
                  r1\<lparr>vWarnings := vWarnings r1 @ [WMemoryGrowth growth (MaxMemoryGrowthFactor (Thresholds c))]\<rparr>)
            else r)
      else r)"

definition computeVerdict :: "Config \<Rightarrow> duration \<Rightarrow> (string, WorkerSnapshot) gomap \<Rightarrow> u64 \<Rightarrow> u64 \<Rightarrow> VerdictResult" where
  "computeVerdict c measured snaps baseline peak =
     (let findings = concat (map (\<lambda>(name, snap). gates c measured name snap) snaps) in
      memoryGate c baseline peak (fold judge findings \<lparr>vResult = ''PASSED'', vPassed = True, vWarnings = []\<rparr>))"

section \<open>Folding findings\<close>

fun isFailure :: "finding \<Rightarrow> bool" where
  "isFailure (Failure _) = True" | "isFailure (Note _) = False"

fun msgOf :: "finding \<Rightarrow> message" where
  "msgOf (Failure m) = m" | "msgOf (Note m) = m"

lemma fold_judge:
  "fold judge fs r =
     (if \<exists>f\<in>set fs. isFailure f
      then r\<lparr>vResult := ''FAILED'', vPassed := False, vWarnings := vWarnings r @ map msgOf fs\<rparr>
      else r\<lparr>vWarnings := vWarnings r @ map msgOf fs\<rparr>)"
proof (induction fs arbitrary: r)
  case (Cons f fs)
  show ?case using Cons by (cases f) simp_all
qed simp

definition findingsOf :: "Config \<Rightarrow> duration \<Rightarrow> (string, WorkerSnapshot) gomap \<Rightarrow> finding list" where
  "findingsOf c measured snaps = concat (map (\<lambda>(name, snap). gates c measured name snap) snaps)"

definition clean :: "Config \<Rightarrow> duration \<Rightarrow> string \<Rightarrow> WorkerSnapshot \<Rightarrow> bool" where
  "clean c measured name snap \<longleftrightarrow> (\<forall>f\<in>set (gates c measured name snap). \<not> isFailure f)"

definition memoryGrew :: "Config \<Rightarrow> u64 \<Rightarrow> u64 \<Rightarrow> bool" where
  "memoryGrew c baseline peak \<longleftrightarrow> baseline > 0 \<and> peak > baseline \<and>
     fgt (fdiv (floatOfU64 peak) (floatOfU64 baseline)) (MaxMemoryGrowthFactor (Thresholds c))"

lemma verdict_shape:
  "vPassed (computeVerdict c d snaps bl pk) \<longleftrightarrow> (\<forall>(n, s)\<in>set snaps. clean c d n s)"
  "vResult (computeVerdict c d snaps bl pk) =
     (if \<exists>(n, s)\<in>set snaps. \<not> clean c d n s then ''FAILED''
      else if memoryGrew c bl pk then ''PASSED_WITH_WARNINGS'' else ''PASSED'')"
  "vWarnings (computeVerdict c d snaps bl pk) = map msgOf (findingsOf c d snaps) @
     (if memoryGrew c bl pk
      then [WMemoryGrowth (fdiv (floatOfU64 pk) (floatOfU64 bl)) (MaxMemoryGrowthFactor (Thresholds c))] else [])"
proof -
  have ex: "(\<exists>f\<in>set (findingsOf c d snaps). isFailure f) \<longleftrightarrow> (\<exists>(n, s)\<in>set snaps. \<not> clean c d n s)"
    by (fastforce simp: findingsOf_def clean_def)
  have v: "computeVerdict c d snaps bl pk =
      memoryGate c bl pk (fold judge (findingsOf c d snaps) \<lparr>vResult = ''PASSED'', vPassed = True, vWarnings = []\<rparr>)"
    by (simp add: computeVerdict_def findingsOf_def Let_def)
  show "vPassed (computeVerdict c d snaps bl pk) \<longleftrightarrow> (\<forall>(n, s)\<in>set snaps. clean c d n s)"
    unfolding v fold_judge ex by (auto simp: memoryGate_def Let_def)
  show "vResult (computeVerdict c d snaps bl pk) =
     (if \<exists>(n, s)\<in>set snaps. \<not> clean c d n s then ''FAILED''
      else if memoryGrew c bl pk then ''PASSED_WITH_WARNINGS'' else ''PASSED'')"
    unfolding v fold_judge ex by (simp add: memoryGate_def memoryGrew_def Let_def)
  show "vWarnings (computeVerdict c d snaps bl pk) = map msgOf (findingsOf c d snaps) @
     (if memoryGrew c bl pk
      then [WMemoryGrowth (fdiv (floatOfU64 pk) (floatOfU64 bl)) (MaxMemoryGrowthFactor (Thresholds c))] else [])"
    unfolding v fold_judge by (simp add: memoryGate_def memoryGrew_def Let_def)
qed

lemmas gate_defs = gates_def lossGate_def duplicationGate_def latencyGate_def errorGate_def throughputGate_def
  fidelityGates_def coverageGates_def probeGates_def noteGates_def checkLatency_def failIf_def

definition quiet :: "finding list \<Rightarrow> bool" where
  "quiet fs \<longleftrightarrow> (\<forall>f\<in>set fs. \<not> isFailure f)"

lemma quiet_simps [simp]:
  "quiet []" "quiet (a @ b) \<longleftrightarrow> quiet a \<and> quiet b" "quiet (failIf p m) \<longleftrightarrow> \<not> p"
  "quiet (if q then fs else gs) \<longleftrightarrow> (if q then quiet fs else quiet gs)"
  by (auto simp: quiet_def failIf_def)

lemma clean_quiet:
  "clean c d n s \<longleftrightarrow> quiet (lossGate c n s) \<and> quiet (duplicationGate c n s) \<and> quiet (latencyGate c n s) \<and>
     quiet (errorGate c n s) \<and> quiet (throughputGate c d n s) \<and> quiet (fidelityGates n s) \<and>
     quiet (coverageGates n s) \<and> quiet (probeGates n s)"
  by (auto simp: clean_def quiet_def gates_def noteGates_def)

lemma mset_findings: "mset snaps = mset snaps' \<Longrightarrow> mset (findingsOf c d snaps) = mset (findingsOf c d snaps')"
proof -
  have "mset (findingsOf c d xs) = (\<Sum>x\<in>#mset xs. mset (gates c d (fst x) (snd x)))" for xs
    by (induction xs) (auto simp: findingsOf_def split_beta)
  then show "mset snaps = mset snaps' \<Longrightarrow> ?thesis" by simp
qed

section \<open>Percentages\<close>

definition ratio :: "nat \<Rightarrow> nat \<Rightarrow> float64" where
  "ratio m n = fmul (fdiv (Fin (of_nat m)) (Fin (of_nat n))) (Fin 100)"

lemma pct_ratio: "unat a < 2 ^ 53 \<Longrightarrow> unat b < 2 ^ 53 \<Longrightarrow> pct a b = ratio (unat a) (unat b)"
  by (simp only: pct_def ratio_def floatOfU64_exact)

lemma ratio_Fin: "0 < n \<Longrightarrow> ratio m n = fmul (roundF (of_nat m / of_nat n)) (Fin 100)"
  by (simp add: ratio_def fdiv_def)

lemma ratio_le_half:
  assumes "0 < n" "200 * m \<le> n"
  shows "\<exists>x\<le>1 / 2. ratio m n = Fin x \<and> 0 \<le> x"
proof -
  let ?q = "of_nat m / of_nat n :: rat"
  have "of_nat (200 * m) \<le> (of_nat n :: rat)" using assms(2) by (simp only: of_nat_le_iff)
  then have q: "0 \<le> ?q" "?q \<le> 1 / 200" using assms(1) by (simp_all add: field_simps)
  obtain x where x: "roundF ?q = Fin x" "0 \<le> x" "x \<le> 5764607523034235 / 1152921504606846976"
    using roundF_mono [OF q percent_half(1)] by blast
  have "0 \<le> x * 100" "x * 100 \<le> 5764607523034235 / 1152921504606846976 * 100" using x by simp_all
  from roundF_mono [OF this percent_half(2)] show ?thesis
    unfolding ratio_Fin [OF assms(1)] x(1) by (auto simp: fmul_def)
qed

lemma ratio_ge_one:
  assumes "0 < n" "n \<le> 100 * m"
  shows "ratio m n = PInf \<or> (\<exists>x\<ge>1. ratio m n = Fin x)"
proof -
  let ?q = "of_nat m / of_nat n :: rat" and ?c = "5764607523034235 / 576460752303423488 :: rat"
  have "of_nat n \<le> (of_nat (100 * m) :: rat)" using assms(2) by (simp only: of_nat_le_iff)
  then have q: "1 / 100 \<le> ?q" using assms(1) by (simp add: field_simps)
  then consider "roundF ?q = PInf" | y where "roundF ?q = Fin y" "0 \<le> y" using roundF_nonneg [of ?q] by force
  then show ?thesis
  proof cases
    case 1
    then show ?thesis unfolding ratio_Fin [OF assms(1)] by (simp add: fmul_def infSign_def)
  next
    case (2 y)
    have "?c \<le> y" using roundF_mono [OF _ q 2(1)] percent_one(1) by auto
    then have y: "?c * 100 \<le> y * 100" by simp
    have eq: "ratio m n = roundF (y * 100)" unfolding ratio_Fin [OF assms(1)] 2(1) by (simp add: fmul_def)
    consider "roundF (y * 100) = PInf" | x where "roundF (y * 100) = Fin x"
      using roundF_nonneg [of "y * 100"] 2(2) by force
    then show ?thesis
    proof cases
      case (2 x)
      then have "1 \<le> x" using roundF_mono [OF _ y 2] percent_one(2) by auto
      then show ?thesis using eq 2 by auto
    qed (simp add: eq)
  qed
qed

section \<open>Properties\<close>

text \<open>What a run promises, stated without the gates. The counters that must stay at zero: three for every
  worker and one or more of its own for some.\<close>

definition ownViolations :: "(string \<times> counter) list" where
  "ownViolations = [(WorkerOrderingKeys, OrderingViolations), (WorkerExactlyOnce, ExactlyOnceUnreconciled),
     (WorkerDeadLetter, DeadLetterLost), (WorkerFanOut, FanoutDropped), (WorkerCrossProtocol, InteropDiverged),
     (WorkerFiltering, FilterMismatch), (WorkerSchemaEnforce, SchemaRejectViolations),
     (WorkerSeekSnapshot, SeekReplayMismatch), (WorkerInflightCap, InflightCapLost)]"

definition noViolations :: "string \<Rightarrow> WorkerSnapshot \<Rightarrow> bool" where
  "noViolations name snap \<longleftrightarrow>
     (\<forall>k\<in>{Corrupted, BatchAtomicityViolations, FlowControlViolations}. scnt snap k = 0) \<and>
     (\<forall>(w, k)\<in>set ownViolations. name = w \<longrightarrow> scnt snap k = 0)"

text \<open>A probe that ran has observed what it looks for, and dead letters carry a delivery attempt.\<close>

definition evidence :: "(string list \<times> probe \<times> counter) list" where
  "evidence = [([WorkerSchemaEnforce], SchemaEnforceRan, SchemaEnforceConfirmed),
     ([WorkerExactlyOnce], InvalidAckRan, ExactlyOnceInvalidAckConfirmed),
     ([WorkerExactlyOnce], ConfirmationsRan, ExactlyOnceConfirmed),
     ([], LeaseExtendRan, LeaseExtendConfirmed), ([], LeaseExtendRan, LeaseExtendRejectConfirmed),
     ([], CrossStreamAckRan, CrossStreamAckConfirmed)]"

definition probesObserved :: "string \<Rightarrow> WorkerSnapshot \<Rightarrow> bool" where
  "probesObserved name snap \<longleftrightarrow>
     (\<forall>(ws, p, k)\<in>set evidence. (ws = [] \<or> name \<in> set ws) \<and> sran snap p \<longrightarrow> scnt snap k \<noteq> 0) \<and>
     (name = WorkerDeadLetter \<and> scnt snap DeadLetterRepublished \<noteq> 0 \<longrightarrow> scnt snap DeliveryAttemptMax \<noteq> 0)"

text \<open>The measured rates are within the thresholds. Each entry says to which workers and when a limit
  applies, what is measured in percent or milliseconds, and the limit.\<close>

definition percentOf :: "float64 \<Rightarrow> float64 \<Rightarrow> float64" where
  "percentOf a b = fmul (fdiv a b) (Fin 100)"

definition cyclicWorkers :: "string set" where
  "cyclicWorkers = {WorkerDeadLetter, WorkerInflightCap, WorkerSeekSnapshot, WorkerPublishPullRoundTrip}"

definition upperLimits :: "Config \<Rightarrow> duration \<Rightarrow> string \<Rightarrow> WorkerSnapshot \<Rightarrow> (bool \<times> float64 \<times> float64) list" where
  "upperLimits c d name snap =
     (let t = Thresholds c; n = (\<lambda>k. floatOfU64 (scnt snap k)); timed = (\<lambda>v lim. (name \<notin> cyclicWorkers \<and> fgt v (Fin 0) \<and> fgt lim (Fin 0), v, lim)) in
      [(scnt snap Sent \<noteq> 0 \<and> fgt (percentOf (floatOfU64 (snapLost snap)) (n Sent)) (Fin (1 / 2)),
          percentOf (floatOfU64 (snapLost snap)) (n Sent), MaxLossPct t),
       (scnt snap Received \<noteq> 0 \<and> name \<notin> insert WorkerNackRedelivery cyclicWorkers,
          percentOf (n Duplicated) (n Received), MaxDuplicationPct t),
       (scnt snap Sent + scnt snap Received \<noteq> 0,
          percentOf (n Errors) (floatOfU64 (scnt snap Sent + scnt snap Received)), MaxErrorRatePct t),
       (0 < d \<and> fgt (snapDowntime snap) (Fin 0), percentOf (snapDowntime snap) (Seconds d), MaxDowntimePct t),
       timed (LatencyP50 snap) (MaxP50LatencyMS t), timed (LatencyP95 snap) (MaxP95LatencyMS t),
       timed (LatencyP99 snap) (MaxP99LatencyMS t), timed (LatencyP999 snap) (MaxP999LatencyMS t)])"

definition fastEnough :: "Config \<Rightarrow> duration \<Rightarrow> string \<Rightarrow> WorkerSnapshot \<Rightarrow> bool" where
  "fastEnough c d name snap \<longleftrightarrow>
     (let target = floatOfInt (GetWorkerRate c name) in
      0 < d \<and> scnt snap Sent \<noteq> 0 \<and> name \<notin> {WorkerDeadLetter, WorkerSeekSnapshot, WorkerFiltering} \<and> fgt target (Fin 0) \<longrightarrow>
      \<not> flt (percentOf (fdiv (floatOfU64 (scnt snap Sent)) (Seconds d)) target) (MinThroughputPct (Thresholds c)))"

definition acceptable :: "Config \<Rightarrow> duration \<Rightarrow> string \<Rightarrow> WorkerSnapshot \<Rightarrow> bool" where
  "acceptable c d name snap \<longleftrightarrow> noViolations name snap \<and> probesObserved name snap \<and>
     (\<forall>(applies, measured, limit)\<in>set (upperLimits c d name snap). applies \<longrightarrow> \<not> fgt measured limit) \<and>
     fastEnough c d name snap"

lemma quiet_fidelity:
  "quiet (fidelityGates n s) \<longleftrightarrow> (n = WorkerOrderingKeys \<longrightarrow> scnt s OrderingViolations = 0) \<and>
     (n = WorkerExactlyOnce \<longrightarrow> scnt s ExactlyOnceUnreconciled = 0) \<and> (n = WorkerDeadLetter \<longrightarrow> scnt s DeadLetterLost = 0) \<and>
     (n = WorkerFanOut \<longrightarrow> scnt s FanoutDropped = 0) \<and> (n = WorkerCrossProtocol \<longrightarrow> scnt s InteropDiverged = 0)"
  by (simp add: fidelityGates_def worker_preds word_gt_0)

lemma quiet_coverage:
  "quiet (coverageGates n s) \<longleftrightarrow> scnt s BatchAtomicityViolations = 0 \<and> (n = WorkerFiltering \<longrightarrow> scnt s FilterMismatch = 0) \<and>
     (n = WorkerSchemaEnforce \<longrightarrow> scnt s SchemaRejectViolations = 0) \<and>
     (n = WorkerSchemaEnforce \<and> sran s SchemaEnforceRan \<longrightarrow> scnt s SchemaEnforceConfirmed \<noteq> 0) \<and>
     (n = WorkerSeekSnapshot \<longrightarrow> scnt s SeekReplayMismatch = 0) \<and> (n = WorkerInflightCap \<longrightarrow> scnt s InflightCapLost = 0)"
  by (simp add: coverageGates_def worker_preds word_gt_0)

lemma quiet_probes:
  "quiet (probeGates n s) \<longleftrightarrow> scnt s FlowControlViolations = 0 \<and>
     (n = WorkerExactlyOnce \<and> sran s InvalidAckRan \<longrightarrow> scnt s ExactlyOnceInvalidAckConfirmed \<noteq> 0) \<and>
     (n = WorkerExactlyOnce \<and> sran s ConfirmationsRan \<longrightarrow> scnt s ExactlyOnceConfirmed \<noteq> 0) \<and>
     (sran s LeaseExtendRan \<longrightarrow> scnt s LeaseExtendConfirmed \<noteq> 0) \<and> (sran s LeaseExtendRan \<longrightarrow> scnt s LeaseExtendRejectConfirmed \<noteq> 0) \<and>
     (sran s CrossStreamAckRan \<longrightarrow> scnt s CrossStreamAckConfirmed \<noteq> 0) \<and>
     (n = WorkerDeadLetter \<and> scnt s DeadLetterRepublished \<noteq> 0 \<longrightarrow> scnt s DeliveryAttemptMax \<noteq> 0)"
  by (simp add: probeGates_def worker_preds word_gt_0) blast

lemma clean_events:
  "scnt s Corrupted = 0 \<and> quiet (fidelityGates n s) \<and> quiet (coverageGates n s) \<and> quiet (probeGates n s) \<longleftrightarrow>
   noViolations n s \<and> probesObserved n s"
  unfolding quiet_fidelity quiet_coverage quiet_probes noViolations_def ownViolations_def probesObserved_def evidence_def
  by (simp add: conj_ac)

lemma quiet_loss:
  "quiet (lossGate c n s) \<longleftrightarrow> scnt s Corrupted = 0 \<and>
     (scnt s Sent \<noteq> 0 \<and> fgt (percentOf (floatOfU64 (snapLost s)) (floatOfU64 (scnt s Sent))) (Fin (1 / 2)) \<longrightarrow>
      \<not> fgt (percentOf (floatOfU64 (snapLost s)) (floatOfU64 (scnt s Sent))) (MaxLossPct (Thresholds c)))"
  by (auto simp: lossGate_def percentOf_def pct_def boundaryLossPct_def word_gt_0 Let_def)

lemma quiet_duplication:
  "quiet (duplicationGate c n s) \<longleftrightarrow> (scnt s Received \<noteq> 0 \<and> n \<notin> insert WorkerNackRedelivery cyclicWorkers \<longrightarrow>
     \<not> fgt (percentOf (floatOfU64 (scnt s Duplicated)) (floatOfU64 (scnt s Received))) (MaxDuplicationPct (Thresholds c)))"
  by (auto simp: duplicationGate_def percentOf_def pct_def IsDuplicationGateExempt_def cyclicWorkers_def word_gt_0 Let_def)

lemma quiet_error:
  "quiet (errorGate c n s) \<longleftrightarrow> (scnt s Sent + scnt s Received \<noteq> 0 \<longrightarrow>
     \<not> fgt (percentOf (floatOfU64 (scnt s Errors)) (floatOfU64 (scnt s Sent + scnt s Received))) (MaxErrorRatePct (Thresholds c)))"
  by (simp add: errorGate_def percentOf_def pct_def word_gt_0 Let_def)

lemma quiet_latency:
  "quiet (latencyGate c n s) \<longleftrightarrow> (\<forall>(v, l)\<in>{(LatencyP50 s, MaxP50LatencyMS (Thresholds c)), (LatencyP95 s, MaxP95LatencyMS (Thresholds c)),
       (LatencyP99 s, MaxP99LatencyMS (Thresholds c)), (LatencyP999 s, MaxP999LatencyMS (Thresholds c))}.
     n \<notin> cyclicWorkers \<and> fgt v (Fin 0) \<and> fgt l (Fin 0) \<longrightarrow> \<not> fgt v l)"
  by (auto simp: latencyGate_def checkLatency_def IsLatencyGateExempt_def cyclicWorkers_def Let_def)

lemma quiet_throughput:
  "quiet (throughputGate c d n s) \<longleftrightarrow> fastEnough c d n s \<and>
     (0 < d \<and> fgt (snapDowntime s) (Fin 0) \<longrightarrow> \<not> fgt (percentOf (snapDowntime s) (Seconds d)) (MaxDowntimePct (Thresholds c)))"
  by (auto simp: throughputGate_def fastEnough_def percentOf_def IsDeadLetterWorker_def IsSeekSnapshotWorker_def IsFilteringWorker_def
      word_gt_0 Let_def)

lemma clean_limits:
  "quiet (lossGate c n s) \<and> quiet (duplicationGate c n s) \<and> quiet (latencyGate c n s) \<and> quiet (errorGate c n s) \<and>
   quiet (throughputGate c d n s) \<longleftrightarrow>
   scnt s Corrupted = 0 \<and> (\<forall>(b, m, l)\<in>set (upperLimits c d n s). b \<longrightarrow> \<not> fgt m l) \<and> fastEnough c d n s"
  unfolding quiet_loss quiet_duplication quiet_latency quiet_error quiet_throughput upperLimits_def Let_def
  by (simp only: list.set ball_simps prod.case) blast

lemma clean_acceptable: "clean c d n s \<longleftrightarrow> acceptable c d n s"
  unfolding clean_quiet acceptable_def using clean_events [of s n] clean_limits [of c n s d] by blast

text \<open>C5: What a passed run means. The verdict passes exactly when every worker is acceptable: its violation
  counters are zero, every probe that ran was confirmed, and every measured loss, duplication,
  error, downtime and latency value and the throughput are within the thresholds that apply to
  the worker, written out here independently of the code's gates. The result string is FAILED
  when it does not pass, PASSED_WITH_WARNINGS when it passes and the warnings report memory
  growth, PASSED otherwise, whatever notes they contain; and they report memory growth exactly
  when the peak is above a positive baseline by more than the allowed factor.\<close>

theorem verdict_result:
  fixes c :: Config and d :: duration and snaps :: "(string, WorkerSnapshot) gomap" and bl pk :: u64
  defines "v \<equiv> computeVerdict c d snaps bl pk"
  shows "(vPassed v \<longleftrightarrow> (\<forall>(n, s)\<in>set snaps. acceptable c d n s)) \<and>
   vResult v = (if \<not> vPassed v then ''FAILED''
     else if \<exists>g t. WMemoryGrowth g t \<in> set (vWarnings v) then ''PASSED_WITH_WARNINGS'' else ''PASSED'') \<and>
   ((\<exists>g t. WMemoryGrowth g t \<in> set (vWarnings v)) \<longleftrightarrow>
     0 < bl \<and> bl < pk \<and> fgt (fdiv (floatOfU64 pk) (floatOfU64 bl)) (MaxMemoryGrowthFactor (Thresholds c)))"
proof -
  have "WMemoryGrowth g t \<notin> msgOf ` set (findingsOf c d snaps)" for g t
    by (auto simp: findingsOf_def gate_defs Let_def split: if_splits)
  then have "(\<exists>g t. WMemoryGrowth g t \<in> set (vWarnings v)) \<longleftrightarrow> memoryGrew c bl pk"
    by (auto simp: v_def verdict_shape)
  then show ?thesis by (auto simp: v_def verdict_shape clean_acceptable memoryGrew_def)
qed

text \<open>Two workers within their limits, one of them past the duplication limit but exempt from it, the other
  with a confirmed probe, and \<open>bad\<close> corrupted messages.\<close>

definition demoRun :: "u64 \<Rightarrow> (string, WorkerSnapshot) gomap" where
  "demoRun bad =
     [(WorkerFanOut, zeroSnapshot\<lparr>scnt := (\<lambda>_. 0)(Corrupted := bad, Sent := 1, Received := 1, CrossStreamAckConfirmed := 1),
        sran := (\<lambda>_. False)(CrossStreamAckRan := True)\<rparr>),
      (WorkerDeadLetter, zeroSnapshot\<lparr>scnt := (\<lambda>_. 0)(Received := 1, Duplicated := 1)\<rparr>)]"

theorem verdict_result_witness:
  "vResult (computeVerdict DefaultConfig 0 (demoRun 0) 0 0) = ''PASSED'' \<and>
   vResult (computeVerdict DefaultConfig 0 (demoRun 0) 1 4) = ''PASSED_WITH_WARNINGS'' \<and>
   vResult (computeVerdict DefaultConfig 0 (demoRun 1) 1 4) = ''FAILED''"
proof -
  have "\<forall>(n, s)\<in>set (demoRun 0). acceptable DefaultConfig 0 n s" "\<not> (\<forall>(n, s)\<in>set (demoRun 1). acceptable DefaultConfig 0 n s)"
    by (simp_all add: demoRun_def acceptable_def noViolations_def ownViolations_def probesObserved_def evidence_def upperLimits_def
        fastEnough_def cyclicWorkers_def worker_names zeroSnapshot_def Let_def fgt_def percentOf_def fdiv_def fmul_def
        DefaultConfig_def defaultThresholds_def)
  moreover have "fgt (fdiv (floatOfU64 4) (floatOfU64 1)) (MaxMemoryGrowthFactor (Thresholds DefaultConfig))"
    by (simp add: DefaultConfig_def defaultThresholds_def fdiv_def fgt_def)
  ultimately show ?thesis
    using verdict_result [of DefaultConfig 0 "demoRun 0" 0 0] verdict_result [of DefaultConfig 0 "demoRun 0" 1 4]
      verdict_result [of DefaultConfig 0 "demoRun 1" 1 4] by simp
qed

text \<open>C6: The verdict does not depend on map order. Any order in which Go ranges over the worker
  snapshots gives the same result and pass flag and the same messages up to order.\<close>

theorem verdict_order_independent:
  assumes "mset snaps = mset snaps'"
  shows "vResult (computeVerdict c d snaps bl pk) = vResult (computeVerdict c d snaps' bl pk) \<and>
    vPassed (computeVerdict c d snaps bl pk) = vPassed (computeVerdict c d snaps' bl pk) \<and>
    mset (vWarnings (computeVerdict c d snaps bl pk)) = mset (vWarnings (computeVerdict c d snaps' bl pk))"
  using mset_findings [OF assms, of c d] mset_eq_setD [OF assms] by (simp add: verdict_shape)

theorem verdict_order_independent_witness:
  "vResult (computeVerdict DefaultConfig 0 [(''a'', zeroSnapshot), (''b'', zeroSnapshot)] 0 0) =
   vResult (computeVerdict DefaultConfig 0 [(''b'', zeroSnapshot), (''a'', zeroSnapshot)] 0 0)"
  using verdict_order_independent [of "[(''a'', zeroSnapshot), (''b'', zeroSnapshot)]"
      "[(''b'', zeroSnapshot), (''a'', zeroSnapshot)]"] by simp

text \<open>C7: Zero-tolerance gates. Whatever the thresholds and the other counters, a run fails when
  any worker has a corrupted message, a batch-atomicity or a flow-control violation, or when
  a worker has a violation of its own pattern: an ordering violation, an unreconciled
  exactly-once ack, a lost dead letter, a dropped fan-out delivery, a diverged interop
  message, a filter mismatch, an accepted non-conforming publish, a replay mismatch or a lost
  over-cap message.\<close>

theorem zero_tolerance_gates:
  assumes "(name, snap) \<in> set snaps" "scnt snap k > 0"
    and "k \<in> {Corrupted, BatchAtomicityViolations, FlowControlViolations} \<or>
      (name, k) \<in> {(WorkerOrderingKeys, OrderingViolations), (WorkerExactlyOnce, ExactlyOnceUnreconciled),
        (WorkerDeadLetter, DeadLetterLost), (WorkerFanOut, FanoutDropped), (WorkerCrossProtocol, InteropDiverged),
        (WorkerFiltering, FilterMismatch), (WorkerSchemaEnforce, SchemaRejectViolations),
        (WorkerSeekSnapshot, SeekReplayMismatch), (WorkerInflightCap, InflightCapLost)}"
  shows "vResult (computeVerdict c d snaps bl pk) = ''FAILED''"
proof -
  have f: "quiet (fidelityGates name snap) \<Longrightarrow> (name, k) \<notin> {(WorkerOrderingKeys, OrderingViolations),
      (WorkerExactlyOnce, ExactlyOnceUnreconciled), (WorkerDeadLetter, DeadLetterLost),
      (WorkerFanOut, FanoutDropped), (WorkerCrossProtocol, InteropDiverged)}"
    using assms(2) by (auto simp: fidelityGates_def worker_preds)
  have g: "quiet (coverageGates name snap) \<Longrightarrow> k \<noteq> BatchAtomicityViolations \<and> (name, k) \<notin> {(WorkerFiltering, FilterMismatch),
      (WorkerSchemaEnforce, SchemaRejectViolations), (WorkerSeekSnapshot, SeekReplayMismatch), (WorkerInflightCap, InflightCapLost)}"
    using assms(2) by (auto simp: coverageGates_def worker_preds)
  have h: "quiet (lossGate c name snap) \<Longrightarrow> quiet (probeGates name snap) \<Longrightarrow> k \<noteq> Corrupted \<and> k \<noteq> FlowControlViolations"
    using assms(2) by (auto simp: lossGate_def probeGates_def)
  have "\<not> clean c d name snap" using f g h assms(3) unfolding clean_quiet by blast
  then show ?thesis using assms(1) by (auto simp: verdict_shape)
qed

theorem zero_tolerance_gates_witness:
  "vResult (computeVerdict DefaultConfig 0
     [(WorkerFiltering, zeroSnapshot\<lparr>scnt := (\<lambda>_. 0)(FilterMismatch := 1)\<rparr>)] 0 0) = ''FAILED''"
  using zero_tolerance_gates [of WorkerFiltering "zeroSnapshot\<lparr>scnt := (\<lambda>_. 0)(FilterMismatch := 1)\<rparr>"
      "[(WorkerFiltering, zeroSnapshot\<lparr>scnt := (\<lambda>_. 0)(FilterMismatch := 1)\<rparr>)]" FilterMismatch]
  by simp

text \<open>Exempt workers are silent. For a worker exempt from the duplication and latency gates
  its duplicate count and its latencies do not influence the verdict at all: not the result,
  and not the warnings either, although the comments promise that an exempt worker over the
  threshold is surfaced as a warning.\<close>

theorem exempt_workers_silent:
  assumes "IsDuplicationGateExempt name" "IsLatencyGateExempt name"
    and "snap' = snap\<lparr>scnt := (scnt snap)(Duplicated := n), LatencyP50 := l1, LatencyP95 := l2,
      LatencyP99 := l3, LatencyP999 := l4\<rparr>"
  shows "computeVerdict c d (pre @ (name, snap') # post) bl pk = computeVerdict c d (pre @ (name, snap) # post) bl pk"
proof -
  have k: "scnt snap' k = scnt snap k" if "k \<noteq> Duplicated" for k using that by (simp add: assms(3))
  have r: "sran snap' = sran snap" "snapDowntime snap' = snapDowntime snap" "snapLost snap' = snapLost snap"
    by (simp_all add: assms(3))
  have "lossGate c name snap' = lossGate c name snap" "errorGate c name snap' = errorGate c name snap"
    "throughputGate c d name snap' = throughputGate c d name snap" "fidelityGates name snap' = fidelityGates name snap"
    "coverageGates name snap' = coverageGates name snap" "probeGates name snap' = probeGates name snap"
    "noteGates c name snap' = noteGates c name snap"
    unfolding lossGate_def errorGate_def throughputGate_def fidelityGates_def coverageGates_def probeGates_def noteGates_def
    by (simp_all only: k r counter.distinct simp_thms)
  moreover have "duplicationGate c name snap' = duplicationGate c name snap" "latencyGate c name snap' = latencyGate c name snap"
    using assms(1,2) by (simp_all add: duplicationGate_def latencyGate_def)
  ultimately have "gates c d name snap' = gates c d name snap" by (simp add: gates_def)
  then show ?thesis by (simp add: computeVerdict_def)
qed

theorem exempt_workers_silent_witness:
  "computeVerdict DefaultConfig 0 [(WorkerInflightCap, zeroSnapshot\<lparr>scnt := (\<lambda>_. 0)(Duplicated := 1000000),
      LatencyP50 := Fin 0, LatencyP95 := Fin 0, LatencyP99 := Fin 90000, LatencyP999 := Fin 0\<rparr>)] 0 0 =
   computeVerdict DefaultConfig 0 [(WorkerInflightCap, zeroSnapshot)] 0 0"
  by (rule exempt_workers_silent [where pre = "[]" and post = "[]", simplified])
    (auto simp: IsDuplicationGateExempt_def IsLatencyGateExempt_def zeroSnapshot_def)

text \<open>An undefined threshold switches its gate off. A configuration whose loss, duplication,
  p99 latency and error thresholds are not-a-number passes \<^verbatim>\<open>Validate\<close>, and under any
  configuration with such thresholds no loss, duplication or error count of any worker makes
  its gate report anything.\<close>

theorem nan_thresholds_disable_gates:
  "(\<exists>c. Validate c = [] \<and> MaxLossPct (Thresholds c) = NaN) \<and>
   (MaxLossPct (Thresholds c) = NaN \<and> MaxDuplicationPct (Thresholds c) = NaN \<and> MaxErrorRatePct (Thresholds c) = NaN \<and>
    scnt snap Corrupted = 0 \<longrightarrow>
      lossGate c name snap = [] \<and> duplicationGate c name snap = [] \<and> errorGate c name snap = [])"
  using nan_thresholds_pass by (auto simp: gate_defs Let_def)

theorem nan_thresholds_disable_gates_witness:
  "lossGate (DefaultConfig\<lparr>Thresholds := defaultThresholds\<lparr>MaxLossPct := NaN, MaxDuplicationPct := NaN,
       MaxErrorRatePct := NaN\<rparr>\<rparr>) ''w''
     (zeroSnapshot\<lparr>scnt := (\<lambda>_. 0)(Sent := 100), snapLost := 100\<rparr>) = []"
  using nan_thresholds_disable_gates [of "DefaultConfig\<lparr>Thresholds := defaultThresholds\<lparr>MaxLossPct := NaN,
    MaxDuplicationPct := NaN, MaxErrorRatePct := NaN\<rparr>\<rparr>" "zeroSnapshot\<lparr>scnt := (\<lambda>_. 0)(Sent := 100), snapLost := 100\<rparr>" "''w''"]
  by simp

text \<open>The loss gate and its tolerance. For counts below 2^53, a worker that lost at most one
  message in two hundred never fails the loss gate, whatever the threshold, also not the
  default threshold of zero; a worker that lost at least one in a hundred fails it whenever
  the threshold is below one percent.\<close>

theorem loss_gate_tolerance:
  assumes "scnt snap Corrupted = 0" "unat (scnt snap Sent) < 2 ^ 53" "unat (snapLost snap) < 2 ^ 53" "0 < scnt snap Sent"
  shows "(200 * unat (snapLost snap) \<le> unat (scnt snap Sent) \<longrightarrow> lossGate c name snap = []) \<and>
    (unat (scnt snap Sent) \<le> 100 * unat (snapLost snap) \<and> MaxLossPct (Thresholds c) = Fin m \<and> m < 1 \<longrightarrow>
       \<not> quiet (lossGate c name snap))"
proof -
  let ?p = "pct (snapLost snap) (scnt snap Sent)"
  have p: "?p = ratio (unat (snapLost snap)) (unat (scnt snap Sent))" using assms(3,2) by (rule pct_ratio)
  have n: "0 < unat (scnt snap Sent)" using assms(4) by (simp only: word_less_nat_alt unsigned_0)
  have "\<not> fgt ?p boundaryLossPct" if "200 * unat (snapLost snap) \<le> unat (scnt snap Sent)"
    using ratio_le_half [OF n that] by (auto simp: p fgt_def boundaryLossPct_def)
  moreover have "fgt ?p (Fin m) \<and> fgt ?p boundaryLossPct"
    if "unat (scnt snap Sent) \<le> 100 * unat (snapLost snap)" "m < 1"
    using ratio_ge_one [OF n that(1)] that(2) by (auto simp: p fgt_def boundaryLossPct_def)
  ultimately show ?thesis using assms(1,4) by (auto simp: lossGate_def Let_def failIf_def quiet_def)
qed

theorem loss_gate_tolerance_witness:
  "lossGate DefaultConfig ''w'' (zeroSnapshot\<lparr>scnt := (\<lambda>_. 0)(Sent := 1000), snapLost := 5\<rparr>) = [] \<and>
   \<not> quiet (lossGate DefaultConfig ''w'' (zeroSnapshot\<lparr>scnt := (\<lambda>_. 0)(Sent := 1000), snapLost := 10\<rparr>))"
  using loss_gate_tolerance [of "zeroSnapshot\<lparr>scnt := (\<lambda>_. 0)(Sent := 1000), snapLost := 5\<rparr>" DefaultConfig "''w''"]
    loss_gate_tolerance [of "zeroSnapshot\<lparr>scnt := (\<lambda>_. 0)(Sent := 1000), snapLost := 10\<rparr>" DefaultConfig "''w''" 0]
  by (simp add: DefaultConfig_def defaultThresholds_def)

end
