(* ===== verification/Engine.thy ===== *)
theory Engine
  imports Verdict
begin

text \<open>
  The run engine of \<^verbatim>\<open>src/burnin/engine/engine.go\<close> and \<^verbatim>\<open>worker_group.go\<close>. The workers are an
  arbitrary type with an interface record, as the Go code calls them through the \<^verbatim>\<open>Worker\<close>
  interface; each embeds a \<open>BaseWorker\<close>. Every critical section and every phase of the run
  loop is a function on the engine state; waiting, timers and the traffic of the workers in
  between are arguments. Logging is left out, registry operations are logged in \<open>eProm\<close>.
\<close>

section \<open>State\<close>

datatype estate = StateIdle | StateStarting | StateRunning | StateStopping | StateStopped | StateError

record 'w WorkerOps =
  wBase :: "'w \<Rightarrow> BaseWorker"
  wPut :: "BaseWorker \<Rightarrow> 'w \<Rightarrow> 'w"
  wStart :: "'w \<Rightarrow> string option \<times> 'w"
  wStartProducers :: "'w \<Rightarrow> 'w"
  wStopProducers :: "'w \<Rightarrow> 'w"
  wStopConsumers :: "'w \<Rightarrow> 'w"
  wReset :: "'w \<Rightarrow> 'w"

record hist_lib =
  hValueAt :: "LatencyAccumulator \<Rightarrow> float64 \<Rightarrow> int"
  hTotalCount :: "LatencyAccumulator \<Rightarrow> int"

record 'w Engine =
  startupCfg :: Config
  bootTime :: instant
  state :: estate
  runCfg :: "Config option"
  runID :: string
  runStartedAt :: "instant option"
  runEndedAt :: "instant option"
  producersStartedAt :: instant
  producersStoppedAt :: instant
  runError :: string
  cancelled :: bool
  runDone :: bool
  workerGroups :: "(string, 'w list) gomap"
  workerSnapshots :: "(string, WorkerSnapshot) gomap option"
  baselineRSS :: u64
  peakRSS :: u64
  verdictResult :: "VerdictResult option"
  eProm :: "metric_op list"

definition NewEngine :: "Config \<Rightarrow> instant \<Rightarrow> 'w Engine" where
  "NewEngine c now =
     \<lparr>startupCfg = c, bootTime = now, state = StateIdle, runCfg = None, runID = [], runStartedAt = None,
      runEndedAt = None, producersStartedAt = 0, producersStoppedAt = 0, runError = [], cancelled = False,
      runDone = False, workerGroups = [], workerSnapshots = None, baselineRSS = 0, peakRSS = 0,
      verdictResult = None, eProm = []\<rparr>"

definition allWorkers :: "'w Engine \<Rightarrow> 'w list" where
  "allWorkers e = concat (map (\<lambda>name. case map_of (workerGroups e) name of Some g \<Rightarrow> g | None \<Rightarrow> []) AllWorkerNames)"

definition mapWorkers :: "('w \<Rightarrow> 'w) \<Rightarrow> 'w Engine \<Rightarrow> 'w Engine" where
  "mapWorkers f e = e\<lparr>workerGroups := map (\<lambda>(name, g). (name, map f g)) (workerGroups e)\<rparr>"

definition eEmit :: "metric_op list \<Rightarrow> 'w Engine \<Rightarrow> 'w Engine" where
  "eEmit ms e = e\<lparr>eProm := eProm e @ ms\<rparr>"

section \<open>Worker groups\<close>

definition NewWorkerGroup :: "(string \<Rightarrow> Config \<Rightarrow> int \<Rightarrow> 'w) \<Rightarrow> string \<Rightarrow> Config \<Rightarrow> 'w list" where
  "NewWorkerGroup mk name c = map (\<lambda>i. mk name c i) [1..GetWorkerChannels c name]"

text \<open>\<^verbatim>\<open>StartConsumers\<close> starts the workers in order and stops at the first error; workers already
  started stay started.\<close>

fun StartConsumers :: "'w WorkerOps \<Rightarrow> 'w list \<Rightarrow> string option \<times> 'w list" where
  "StartConsumers ops [] = (None, [])"
| "StartConsumers ops (w # ws) =
     (case wStart ops w of
        (Some err, w') \<Rightarrow> (Some err, w' # ws)
      | (None, w') \<Rightarrow> (let (r, ws') = StartConsumers ops ws in (r, w' # ws')))"

definition WaitForConsumerReady :: "'w WorkerOps \<Rightarrow> 'w list \<Rightarrow> bool" where
  "WaitForConsumerReady ops ws = list_all (\<lambda>w. ready (wBase ops w)) ws"

section \<open>Lifecycle calls\<close>

definition StartRunFromConfig :: "instant \<Rightarrow> string \<Rightarrow> Config \<Rightarrow> 'w Engine \<Rightarrow> estate + 'w Engine" where
  "StartRunFromConfig now freshID c e =
     (if state e \<noteq> StateIdle \<and> state e \<noteq> StateStopped \<and> state e \<noteq> StateError then Inl (state e)
      else Inr (e\<lparr>state := StateStarting, runCfg := Some c,
                  runID := (if RunID c = [] then freshID else RunID c),
                  runStartedAt := Some now, runEndedAt := None, runError := [], verdictResult := None,
                  workerSnapshots := None, baselineRSS := 0, peakRSS := 0, cancelled := False, runDone := False\<rparr>))"

definition StopRun :: "'w Engine \<Rightarrow> estate + 'w Engine" where
  "StopRun e = (if state e \<noteq> StateStarting \<and> state e \<noteq> StateRunning then Inl (state e)
                else Inr (e\<lparr>cancelled := True\<rparr>))"

text \<open>\<open>await\<close> is what the engine does until the run is done or 120 seconds have passed.\<close>

definition GracefulShutdown :: "('w Engine \<Rightarrow> 'w Engine) \<Rightarrow> 'w Engine \<Rightarrow> bool \<times> 'w Engine" where
  "GracefulShutdown await e =
     (let e' = (if state e = StateRunning \<or> state e = StateStarting then await (e\<lparr>cancelled := True\<rparr>) else e)
      in (case verdictResult e' of Some v \<Rightarrow> vPassed v | None \<Rightarrow> False, e'))"

definition HasWarnings :: "'w Engine \<Rightarrow> bool" where
  "HasWarnings e = (case verdictResult e of Some v \<Rightarrow> vResult v = ''PASSED_WITH_WARNINGS'' | None \<Rightarrow> False)"

definition setError :: "string \<Rightarrow> 'w Engine \<Rightarrow> 'w Engine" where
  "setError msg e = e\<lparr>state := StateError, runError := msg\<rparr>"

section \<open>The phases of the run loop\<close>

definition buildGroups :: "(string \<Rightarrow> Config \<Rightarrow> int \<Rightarrow> 'w) \<Rightarrow> Config \<Rightarrow> 'w Engine \<Rightarrow> 'w Engine" where
  "buildGroups mk c e =
     e\<lparr>workerGroups := concat (map (\<lambda>name.
         case GetWorkerConfig c name of
           Some wc \<Rightarrow> if Enabled wc then [(name, NewWorkerGroup mk name c)] else []
         | None \<Rightarrow> []) AllWorkerNames)\<rparr>"

fun startGroups :: "'w WorkerOps \<Rightarrow> string list \<Rightarrow> 'w Engine \<Rightarrow> string option \<times> 'w Engine" where
  "startGroups ops [] e = (None, e)"
| "startGroups ops (n # ns) e =
     (case map_of (workerGroups e) n of
        None \<Rightarrow> startGroups ops ns e
      | Some g \<Rightarrow>
          (let (r, g') = StartConsumers ops g;
               e' = e\<lparr>workerGroups := AList.update n g' (workerGroups e)\<rparr>
           in case r of Some err \<Rightarrow> (Some err, e') | None \<Rightarrow> startGroups ops ns e'))"

definition allReady :: "'w WorkerOps \<Rightarrow> 'w Engine \<Rightarrow> bool" where
  "allReady ops e = list_all (\<lambda>name. case map_of (workerGroups e) name of
       Some g \<Rightarrow> WaitForConsumerReady ops g | None \<Rightarrow> True) AllWorkerNames"

definition startProducers :: "'w WorkerOps \<Rightarrow> 'w Engine \<Rightarrow> 'w Engine" where
  "startProducers ops e = mapWorkers (wStartProducers ops) e"

definition stopAllProducersParallel :: "'w WorkerOps \<Rightarrow> 'w Engine \<Rightarrow> 'w Engine" where
  "stopAllProducersParallel ops e = mapWorkers (wStopProducers ops) e"

text \<open>\<open>traffic\<close> is the activity of the workers during the warm-up interval, \<open>settle\<close> during the
  second that follows; a cancellation in that second skips the reset.\<close>

definition warmup :: "'w WorkerOps \<Rightarrow> ('w Engine \<Rightarrow> 'w Engine) \<Rightarrow> ('w Engine \<Rightarrow> 'w Engine) \<Rightarrow> 'w Engine \<Rightarrow> 'w Engine" where
  "warmup ops traffic settle e =
     (let e = eEmit [GaugeSet ''WarmupActive'' [SDK] (Fin 1)] e;
          e = traffic (startProducers ops e);
          e = settle (stopAllProducersParallel ops e);
          e = (if cancelled e then e else mapWorkers (wReset ops) e)
      in eEmit [GaugeSet ''WarmupActive'' [SDK] (Fin 0)] e)"

definition beginMeasurement :: "'w WorkerOps \<Rightarrow> instant \<Rightarrow> Config \<Rightarrow> 'w Engine \<Rightarrow> 'w Engine" where
  "beginMeasurement ops now c e =
     (let e = startProducers ops (e\<lparr>producersStartedAt := now\<rparr>) in
      (eEmit (map (\<lambda>(name, g). SetTargetRate name (floatOfInt (GetWorkerRate c name))) (workerGroups e)) e)
        \<lparr>state := StateRunning\<rparr>)"

section \<open>Snapshots\<close>

text \<open>One scan of every tracker; every delta is added to the loss counter of its group.\<close>

definition scanWorker :: "'w WorkerOps \<Rightarrow> string \<Rightarrow> 'w \<Rightarrow> 'w \<times> metric_op list" where
  "scanWorker ops name w =
     (let b = wBase ops w; (t, deltas) = DetectGaps (trk b)
      in (wPut ops (b\<lparr>trk := t\<rparr>) w, map (\<lambda>(pid, delta). AddLost name delta) deltas))"

definition detectGapsAll :: "'w WorkerOps \<Rightarrow> 'w Engine \<Rightarrow> 'w Engine" where
  "detectGapsAll ops e =
     (let scanned = map (\<lambda>(name, g). (name, map (scanWorker ops name) g)) (workerGroups e) in
      eEmit (concat (map (\<lambda>(name, ws). concat (map snd ws)) scanned))
        (e\<lparr>workerGroups := map (\<lambda>(name, ws). (name, map fst ws)) scanned\<rparr>))"

definition totalReceived :: "'w WorkerOps \<Rightarrow> 'w Engine \<Rightarrow> u64" where
  "totalReceived ops e = gomap_sum (\<lambda>g. fold (\<lambda>w total. total + ReceivedCount (wBase ops w)) g 0) (workerGroups e)"

definition stablePolls :: nat where "stablePolls = 4"

text \<open>One element of the list is the traffic of one poll interval; the list ends at the deadline.\<close>

fun drainLoop :: "'w WorkerOps \<Rightarrow> ('w Engine \<Rightarrow> 'w Engine) list \<Rightarrow> u64 \<Rightarrow> nat \<Rightarrow> 'w Engine \<Rightarrow> 'w Engine" where
  "drainLoop ops [] prev stab e = e"
| "drainLoop ops (poll # polls) prev stab e =
     (let e = detectGapsAll ops (poll e); cur = totalReceived ops e in
      if cur = prev
      then (if Suc stab \<ge> stablePolls then e else drainLoop ops polls prev (Suc stab) e)
      else drainLoop ops polls cur 0 e)"

definition drainToQuiescence :: "'w WorkerOps \<Rightarrow> ('w Engine \<Rightarrow> 'w Engine) list \<Rightarrow> 'w Engine \<Rightarrow> 'w Engine" where
  "drainToQuiescence ops polls e = drainLoop ops polls (totalReceived ops e) 0 e"

definition addCounters :: "(counter \<Rightarrow> u64) \<Rightarrow> (counter \<Rightarrow> u64) \<Rightarrow> counter \<Rightarrow> u64" where
  "addCounters s w = (\<lambda>c. if c = DeliveryAttemptMax then (if w c > s c then w c else s c) else s c + w c)"

text \<open>The loop body: counters summed, the delivery attempt maximised, flags joined, the latency
  source with the most samples remembered with its count.\<close>

definition snapWorker :: "hist_lib \<Rightarrow> BaseWorker \<Rightarrow> WorkerSnapshot \<times> (int \<times> LatencyAccumulator option) \<Rightarrow>
    WorkerSnapshot \<times> (int \<times> LatencyAccumulator option)" where
  "snapWorker H b = (\<lambda>(snap, bestCount, best).
     (let snap' = snap\<lparr>scnt := addCounters (scnt snap) (cnt b),
              snapDowntime := fadd (snapDowntime snap) (DowntimeSeconds b),
              snapLost := snapLost snap + TotalLost (trk b),
              snapOutOfOrder := snapOutOfOrder snap + TotalOutOfOrder (trk b),
              sran := (\<lambda>p. sran snap p \<or> ran b p),
              snapPeakRate := (if fgt (PeakRateTracker_Peak (peakRate b)) (snapPeakRate snap)
                               then PeakRateTracker_Peak (peakRate b) else snapPeakRate snap),
              AvgRate := fadd (AvgRate snap) (SlidingRateWindow_Rate (rateWindow b))\<rparr>;
          n = LatencyAccumulator_Count (hTotalCount H) (latAccum b)
      in if n > bestCount then (snap', n, Some (latAccum b)) else (snap', bestCount, best)))"

definition finishSnapshot :: "hist_lib \<Rightarrow> string \<Rightarrow> WorkerSnapshot \<times> (int \<times> LatencyAccumulator option) \<Rightarrow> WorkerSnapshot" where
  "finishSnapshot H name = (\<lambda>(snap, _, best).
     (let snap = (case best of
            None \<Rightarrow> snap
          | Some a \<Rightarrow> (let (p50, p95, p99, p999) = Percentiles (hValueAt H) a in
              snap\<lparr>LatencyP50 := p50, LatencyP95 := p95, LatencyP99 := p99, LatencyP999 := p999\<rparr>))
      in if IsFanoutWorker name
         then snap\<lparr>scnt := (scnt snap)(FanoutDropped := scnt snap FanoutDropped + snapLost snap), snapLost := 0\<rparr>
         else snap))"

definition groupSnapshot :: "hist_lib \<Rightarrow> string \<Rightarrow> BaseWorker list \<Rightarrow> WorkerSnapshot" where
  "groupSnapshot H name bs = finishSnapshot H name (fold (snapWorker H) bs (zeroSnapshot, 0, None))"

definition captureWorkerSnapshots :: "'w WorkerOps \<Rightarrow> hist_lib \<Rightarrow> 'w Engine \<Rightarrow> 'w Engine" where
  "captureWorkerSnapshots ops H e =
     e\<lparr>workerSnapshots := Some (map (\<lambda>(name, g). (name, groupSnapshot H name (map (wBase ops) g))) (workerGroups e))\<rparr>"

definition stopConsumersAll :: "'w WorkerOps \<Rightarrow> 'w Engine \<Rightarrow> 'w Engine" where
  "stopConsumersAll ops e =
     e\<lparr>workerGroups := map (\<lambda>(name, g). (name, if name \<in> set AllWorkerNames then map (wStopConsumers ops) g else g))
        (workerGroups e)\<rparr>"

definition notePeak :: "u64 \<Rightarrow> 'w Engine \<Rightarrow> 'w Engine" where
  "notePeak sys e = (if sys > peakRSS e then e\<lparr>peakRSS := sys\<rparr> else e)"

definition shutdownWorkers :: "'w WorkerOps \<Rightarrow> hist_lib \<Rightarrow> instant \<Rightarrow> ('w Engine \<Rightarrow> 'w Engine) list \<Rightarrow> u64 \<Rightarrow> 'w Engine \<Rightarrow> 'w Engine" where
  "shutdownWorkers ops H now polls sys e =
     (let e = stopAllProducersParallel ops (e\<lparr>producersStoppedAt := now\<rparr>);
          e = drainToQuiescence ops polls e;
          e = detectGapsAll ops e;
          e = captureWorkerSnapshots ops H e;
          e = stopConsumersAll ops e
      in notePeak sys e)"

definition engineVerdict :: "Config \<Rightarrow> 'w Engine \<Rightarrow> 'w Engine" where
  "engineVerdict c e =
     e\<lparr>verdictResult := Some (computeVerdict c (i64 (producersStoppedAt e - producersStartedAt e))
        (case workerSnapshots e of Some s \<Rightarrow> s | None \<Rightarrow> []) (baselineRSS e) (peakRSS e))\<rparr>"

section \<open>Periodic tasks\<close>

definition rateTick :: "'w WorkerOps \<Rightarrow> 'w Engine \<Rightarrow> 'w Engine" where
  "rateTick ops e =
     (let e = mapWorkers (\<lambda>w. wPut ops (AdvanceRateWindows (wBase ops w)) w) e in
      eEmit (concat (map (\<lambda>(name, g).
        (let totalRate = fold (\<lambda>w r. fadd r (SlidingRateWindow_Rate (rateWindow (wBase ops w)))) g (Fin 0);
             totalSent = fold (\<lambda>w n. n + SentCount (wBase ops w)) g 0;
             totalRecv = fold (\<lambda>w n. n + ReceivedCount (wBase ops w)) g 0
         in [SetActualRate name totalRate,
             SetConsumerLag name (if totalSent > totalRecv then floatOfU64 (totalSent - totalRecv) else Fin 0)]))
        (workerGroups e))) e)"

definition uptimeTick :: "instant \<Rightarrow> 'w Engine \<Rightarrow> 'w Engine" where
  "uptimeTick now e = eEmit [GaugeSet ''UptimeSeconds'' [SDK] (Seconds (now - bootTime e))] e"

definition memoryTick :: "instant \<Rightarrow> instant \<Rightarrow> u64 \<Rightarrow> bool \<Rightarrow> 'w Engine \<Rightarrow> bool \<times> 'w Engine" where
  "memoryTick start now sys baselineSet e =
     (let e = notePeak sys e;
          deadline = (case runCfg e of
              Some c \<Rightarrow> if DurationParsed c > 0 \<and> DurationParsed c < 5 * Minute then 10 * Second else 5 * Minute
            | None \<Rightarrow> 5 * Minute)
      in if \<not> baselineSet \<and> now - start \<ge> deadline then (True, e\<lparr>baselineRSS := sys\<rparr>) else (baselineSet, e))"

definition gapTick :: "'w WorkerOps \<Rightarrow> 'w Engine \<Rightarrow> 'w Engine" where
  "gapTick ops e = detectGapsAll ops e"

definition finishRun :: "instant \<Rightarrow> 'w Engine \<Rightarrow> 'w Engine" where
  "finishRun now e =
     e\<lparr>state := (if state e \<noteq> StateError then StateStopped else state e), runEndedAt := Some now, runDone := True\<rparr>"

end
