(* ===== verification/EngineRun.thy ===== *)
theory EngineRun
  imports Engine
begin

text \<open>
  The engine as a state machine. A run loop is a goroutine at a phase between two critical
  sections; the system is the list of live run loops, each with the configuration it was
  given, and the engine state they share. The worker traffic, cancellations, periodic ticks
  and API calls interleave with the phases without restriction: a start is accepted whenever
  \<^verbatim>\<open>StartRunFromConfig\<close> accepts it, also while a run loop is alive.
\<close>

section \<open>Steps\<close>

datatype phase = PBuild | PStart | PReady | PWarm | PBegin | PRun | PStop | PVerdict | PEnd

type_synonym 'w system = "(phase \<times> Config) list \<times> 'w Engine"

definition activity :: "('w \<Rightarrow> 'w) \<Rightarrow> bool \<Rightarrow> 'w Engine \<Rightarrow> 'w Engine" where
  "activity f cancel e = (mapWorkers f e)\<lparr>cancelled := cancelled e \<or> cancel\<rparr>"

inductive phaseStep :: "'w WorkerOps \<Rightarrow> hist_lib \<Rightarrow> (string \<Rightarrow> Config \<Rightarrow> int \<Rightarrow> 'w) \<Rightarrow> Config \<Rightarrow>
    phase \<times> 'w Engine \<Rightarrow> phase \<times> 'w Engine \<Rightarrow> bool"
  for ops H mk c where
  build: "phaseStep ops H mk c (PBuild, e) (PStart, buildGroups mk c e)"
| started: "startGroups ops AllWorkerNames e = (None, e') \<Longrightarrow> phaseStep ops H mk c (PStart, e) (PReady, e')"
| start_failed: "startGroups ops AllWorkerNames e = (Some err, e') \<Longrightarrow>
    phaseStep ops H mk c (PStart, e) (PEnd, setError err e')"
| not_ready: "\<not> allReady ops e \<Longrightarrow> phaseStep ops H mk c (PReady, e) (PEnd, setError ''consumer ready'' e)"
| is_ready: "allReady ops e \<Longrightarrow> phaseStep ops H mk c (PReady, e) (if cancelled e then PEnd else PWarm, e)"
| warm: "e' = warmup ops (activity f b) (activity f' b') e \<Longrightarrow>
    phaseStep ops H mk c (PWarm, e) (if cancelled e' then PEnd else PBegin, e')"
| begin_run: "phaseStep ops H mk c (PBegin, e) (PRun, beginMeasurement ops now c e)"
| rate: "phaseStep ops H mk c (PRun, e) (PRun, rateTick ops e)"
| uptime: "phaseStep ops H mk c (PRun, e) (PRun, uptimeTick now e)"
| memory: "phaseStep ops H mk c (PRun, e) (PRun, snd (memoryTick t0 now sys bs e))"
| gaps: "phaseStep ops H mk c (PRun, e) (PRun, gapTick ops e)"
| over: "cancelled e \<or> DurationParsed c > 0 \<Longrightarrow> phaseStep ops H mk c (PRun, e) (PStop, e\<lparr>state := StateStopping\<rparr>)"
| shutdown: "phaseStep ops H mk c (PStop, e)
    (PVerdict, shutdownWorkers ops H now (map (\<lambda>f. activity f False) fs) sys e)"
| verdict: "phaseStep ops H mk c (PVerdict, e) (PEnd, engineVerdict c e)"

inductive sysStep :: "'w WorkerOps \<Rightarrow> hist_lib \<Rightarrow> (string \<Rightarrow> Config \<Rightarrow> int \<Rightarrow> 'w) \<Rightarrow>
    'w system \<Rightarrow> 'w system \<Rightarrow> bool"
  for ops H mk where
  api_start: "StartRunFromConfig now fresh c e = Inr e' \<Longrightarrow> sysStep ops H mk (ts, e) (ts @ [(PBuild, c)], e')"
| api_stop: "StopRun e = Inr e' \<Longrightarrow> sysStep ops H mk (ts, e) (ts, e')"
| traffic: "sysStep ops H mk (ts, e) (ts, activity f False e)"
| progress: "phaseStep ops H mk c (p, e) (p', e') \<Longrightarrow>
    sysStep ops H mk (ts @ (p, c) # us, e) (ts @ (p', c) # us, e')"
| finish: "sysStep ops H mk (ts @ (PEnd, c) # us, e) (ts @ us, finishRun now e)"

text \<open>The one race the code leaves open: a start accepted after a run loop has set the error state and
  before its deferred cleanup has run.\<close>

definition overtakes :: "'w system \<Rightarrow> 'w system \<Rightarrow> bool" where
  "overtakes x y \<longleftrightarrow> state (snd x) = StateError \<and> fst x \<noteq> [] \<and> length (fst x) < length (fst y)"

definition orderly :: "'w WorkerOps \<Rightarrow> hist_lib \<Rightarrow> (string \<Rightarrow> Config \<Rightarrow> int \<Rightarrow> 'w) \<Rightarrow> 'w system \<Rightarrow> 'w system \<Rightarrow> bool" where
  "orderly ops H mk x y \<longleftrightarrow> sysStep ops H mk x y \<and> \<not> overtakes x y"

section \<open>What the phases keep\<close>

definition same_run :: "'w Engine \<Rightarrow> 'w Engine \<Rightarrow> bool" where
  "same_run e e' \<longleftrightarrow> state e' = state e \<and> verdictResult e' = verdictResult e \<and>
     workerSnapshots e' = workerSnapshots e \<and> runDone e' = runDone e \<and> runStartedAt e' = runStartedAt e"

lemma same_run_refl [simp]: "same_run e e"
  by (simp add: same_run_def)

lemma same_run_trans: "same_run a b \<Longrightarrow> same_run b c \<Longrightarrow> same_run a c"
  by (simp add: same_run_def)

lemma same_run_worker [simp]:
  "same_run e (mapWorkers f e)" "same_run e (eEmit ms e)" "same_run e (activity f b e)" "same_run e (notePeak s e)"
  "same_run e (buildGroups mk c e)" "same_run e (detectGapsAll ops e)" "same_run e (stopConsumersAll ops e)"
  "same_run e (uptimeTick now e)"
  by (simp_all add: same_run_def mapWorkers_def eEmit_def activity_def notePeak_def buildGroups_def
      detectGapsAll_def stopConsumersAll_def uptimeTick_def Let_def)

lemma same_run_fields [simp]:
  "same_run e (e\<lparr>workerGroups := g\<rparr>)" "same_run e (e\<lparr>producersStoppedAt := t\<rparr>)" "same_run e (e\<lparr>baselineRSS := r\<rparr>)"
  "same_run e (e\<lparr>producersStartedAt := t\<rparr>)" "same_run e (e\<lparr>cancelled := b\<rparr>)"
  by (simp_all add: same_run_def)

lemma same_run_start: "startGroups ops ns e = (r, e') \<Longrightarrow> same_run e e'"
proof (induction ns arbitrary: e)
  case (Cons n ns)
  show ?case
  proof (cases "map_of (workerGroups e) n")
    case (Some g)
    let ?e = "e\<lparr>workerGroups := AList.update n (snd (StartConsumers ops g)) (workerGroups e)\<rparr>"
    have "same_run e ?e" by (rule same_run_fields)
    then show ?thesis
      using Cons.prems Some Cons.IH [of ?e] same_run_trans [of e ?e e']
      by (simp add: split_beta Let_def split: option.splits)
  qed (use Cons in simp)
qed simp

lemma same_run_drain: "same_run e (drainLoop ops (map (\<lambda>f. activity f False) fs) prev k e)"
proof (induction fs arbitrary: prev k e)
  case (Cons f fs)
  let ?e = "detectGapsAll ops (activity f False e)"
  have "same_run e ?e" by (rule same_run_trans [of _ "activity f False e"]) simp_all
  then show ?case using same_run_trans [OF _ Cons] by (simp add: Let_def)
qed simp

lemma warmup_same_run: "same_run e (warmup ops (activity f b) (activity f' b') e)"
  by (simp add: warmup_def Let_def startProducers_def stopAllProducersParallel_def same_run_def activity_def
      mapWorkers_def eEmit_def)

lemma rateTick_same_run: "same_run e (rateTick ops e)"
  by (simp add: rateTick_def Let_def same_run_def mapWorkers_def eEmit_def)

lemma memoryTick_same_run: "same_run e (snd (memoryTick t0 now sys bs e))"
  by (simp add: memoryTick_def Let_def same_run_def notePeak_def)

lemma shutdown_frame:
  assumes s_def: "s = shutdownWorkers ops H now (map (\<lambda>f. activity f False) fs) sys e"
  shows "state s = state e \<and> verdictResult s = verdictResult e \<and> workerSnapshots s \<noteq> None"
proof -
  let ?a = "stopAllProducersParallel ops (e\<lparr>producersStoppedAt := now\<rparr>)"
  let ?d = "drainToQuiescence ops (map (\<lambda>f. activity f False) fs) ?a"
  have "same_run e ?a" by (simp add: same_run_def stopAllProducersParallel_def mapWorkers_def)
  moreover have "same_run ?a ?d" unfolding drainToQuiescence_def by (rule same_run_drain)
  ultimately have "same_run e (detectGapsAll ops ?d)" by (meson same_run_trans same_run_worker(6))
  then show ?thesis
    unfolding s_def shutdownWorkers_def Let_def
    by (simp add: same_run_def captureWorkerSnapshots_def stopConsumersAll_def notePeak_def)
qed

section \<open>Runs without an overtaking start\<close>

fun run_ok :: "phase \<Rightarrow> 'w Engine \<Rightarrow> bool" where
  "run_ok PRun e = (state e = StateRunning \<and> verdictResult e = None)"
| "run_ok PStop e = (state e = StateStopping \<and> verdictResult e = None)"
| "run_ok PVerdict e = (state e = StateStopping \<and> verdictResult e = None \<and> workerSnapshots e \<noteq> None)"
| "run_ok PEnd e = ((state e \<in> {StateStarting, StateError} \<and> verdictResult e = None) \<or>
     (state e = StateStopping \<and> verdictResult e \<noteq> None \<and> workerSnapshots e \<noteq> None))"
| "run_ok _ e = (state e = StateStarting \<and> verdictResult e = None)"

definition sys_ok :: "'w system \<Rightarrow> bool" where
  "sys_ok = (\<lambda>(ts, e). (case ts of
       [] \<Rightarrow> state e \<in> {StateIdle, StateStopped, StateError} \<and>
             (verdictResult e \<noteq> None \<longrightarrow> state e = StateStopped \<and> workerSnapshots e \<noteq> None)
     | [(p, c)] \<Rightarrow> run_ok p e
     | _ \<Rightarrow> False))"

lemma run_ok_same: "run_ok p e \<Longrightarrow> same_run e e' \<Longrightarrow> run_ok p e'"
  by (cases p) (auto simp: same_run_def)

lemma phaseStep_ok: "phaseStep ops H mk c x y \<Longrightarrow> run_ok (fst x) (snd x) \<Longrightarrow> run_ok (fst y) (snd y)"
proof (induction rule: phaseStep.induct)
  case (build e)
  then show ?case by (simp add: buildGroups_def)
next
  case (started e e')
  then show ?case using same_run_start [OF started(1)] by (simp add: same_run_def)
next
  case (start_failed e err e')
  then show ?case using same_run_start [OF start_failed(1)] by (simp add: setError_def same_run_def)
next
  case (not_ready e)
  then show ?case by (simp add: setError_def)
next
  case (is_ready e)
  then show ?case by simp
next
  case (warm e' f b f' b' e)
  then show ?case using warmup_same_run [of e ops f b f' b'] by (simp add: same_run_def)
next
  case (begin_run e now)
  then show ?case
    by (simp add: beginMeasurement_def startProducers_def mapWorkers_def eEmit_def Let_def)
next
  case (rate e)
  show ?case using run_ok_same [OF rate rateTick_same_run] by simp
next
  case (uptime e now)
  show ?case using run_ok_same [OF uptime same_run_worker(8)] by simp
next
  case (memory e t0 now sys bs)
  show ?case using run_ok_same [OF memory memoryTick_same_run] by simp
next
  case (gaps e)
  show ?case using run_ok_same [OF gaps same_run_worker(6)] by (simp add: gapTick_def)
next
  case (over e)
  then show ?case by simp
next
  case (shutdown e now fs sys)
  then show ?case using shutdown_frame [OF refl, of ops H now fs sys e] by simp
next
  case (verdict e)
  then show ?case by (simp add: engineVerdict_def)
qed

lemma sys_ok_same: "same_run e e' \<Longrightarrow> sys_ok (ts, e) \<Longrightarrow> sys_ok (ts, e')"
proof -
  assume *: "same_run e e'" "sys_ok (ts, e)"
  have "run_ok p e \<Longrightarrow> run_ok p e'" for p using * run_ok_same by blast
  then show ?thesis using * by (auto simp: sys_ok_def same_run_def split: list.splits)
qed

lemma sys_ok_single: "sys_ok (ts @ t # us, e) \<Longrightarrow> ts = [] \<and> us = []"
  by (cases ts; cases us) (auto simp: sys_ok_def split: list.splits)

lemma run_ok_state: "run_ok p e \<Longrightarrow> state e \<in> {StateIdle, StateStopped, StateError} \<Longrightarrow> state e = StateError"
  by (cases p) auto

lemma sysStep_ok: "sysStep ops H mk x y \<Longrightarrow> \<not> overtakes x y \<Longrightarrow> sys_ok x \<Longrightarrow> sys_ok y"
proof (induction rule: sysStep.induct)
  case (api_start now fresh c e e' ts)
  have acc: "state e \<in> {StateIdle, StateStopped, StateError}" "state e' = StateStarting" "verdictResult e' = None"
    using api_start(1) by (auto simp: StartRunFromConfig_def split: if_splits)
  have "ts = []"
  proof (cases ts)
    case (Cons t us)
    then have "us = []" using sys_ok_single [of "[]" t us e] api_start(3) by simp
    then have "state e = StateError"
      using api_start(3) Cons run_ok_state [OF _ acc(1)] by (cases t) (auto simp: sys_ok_def)
    then show ?thesis using api_start(2) Cons by (simp add: overtakes_def)
  qed
  then show ?case using acc by (simp add: sys_ok_def)
next
  case (api_stop e e' ts)
  then have "same_run e e'" by (auto simp: StopRun_def split: if_splits)
  then show ?case using api_stop(3) by (rule sys_ok_same)
next
  case (traffic ts e f)
  show ?case by (rule sys_ok_same [OF _ traffic(2)]) simp
next
  case (progress c p e p' e' ts us)
  then have "ts = []" "us = []" using sys_ok_single by blast+
  then show ?case using progress phaseStep_ok [OF progress(1)] by (simp add: sys_ok_def)
next
  case (finish ts c us e now)
  then have "ts = []" "us = []" using sys_ok_single by blast+
  then show ?case using finish by (auto simp: sys_ok_def finishRun_def)
qed

lemma reachable_sys_ok:
  assumes "(orderly ops H mk)\<^sup>*\<^sup>* ([], NewEngine c now) s"
  shows "sys_ok s"
  using assms
proof induction
  case base
  show ?case by (simp add: sys_ok_def NewEngine_def)
next
  case (step y z)
  then show ?case by (auto simp: orderly_def intro: sysStep_ok)
qed

section \<open>What a worker promises the engine\<close>

text \<open>The laws of the embedded \<open>BaseWorker\<close> the engine relies on: reading back what was written, and
  a reset that clears the counters and flags.\<close>

locale engine_worker =
  fixes ops :: "'w WorkerOps"
  assumes base_put: "wBase ops (wPut ops b w) = b"
    and reset_cnt: "cnt (wBase ops (wReset ops w)) k = 0"
    and reset_ran: "\<not> ran (wBase ops (wReset ops w)) p"
    and reset_lost: "TotalLost (trk (wBase ops (wReset ops w))) = 0"
begin

lemma warmup_clears:
  assumes "\<not> cancelled (warmup ops t s e)" "(name, g) \<in> set (workerGroups (warmup ops t s e))" "w \<in> set g"
  shows "cnt (wBase ops w) k = 0" "\<not> ran (wBase ops w) p" "TotalLost (trk (wBase ops w)) = 0"
proof -
  let ?e = "s (stopAllProducersParallel ops (t (startProducers ops
      (eEmit [GaugeSet ''WarmupActive'' [SDK] (Fin 1)] e))))"
  have "\<not> cancelled ?e" using assms(1) by (simp add: warmup_def Let_def eEmit_def split: if_splits)
  then have "\<exists>w'. w = wReset ops w'"
    using assms(2,3) by (auto simp: warmup_def Let_def eEmit_def mapWorkers_def)
  then show "cnt (wBase ops w) k = 0" "\<not> ran (wBase ops w) p" "TotalLost (trk (wBase ops w)) = 0"
    using reset_cnt reset_ran reset_lost by auto
qed

lemma scan_base: "wBase ops (fst (scanWorker ops name w)) = (wBase ops w)\<lparr>trk := fst (DetectGaps (trk (wBase ops w)))\<rparr>"
  by (simp add: scanWorker_def split_beta Let_def base_put)

lemma scan_received:
  "totalReceived ops (detectGapsAll ops e) = totalReceived ops e"
proof -
  have "fold (\<lambda>w total. total + ReceivedCount (wBase ops w)) (map fst (map (scanWorker ops name) g)) a =
      fold (\<lambda>w total. total + ReceivedCount (wBase ops w)) g a" for name g a
    by (induction g arbitrary: a) (simp_all add: scan_base ReceivedCount_def)
  then have "gomap_sum (\<lambda>g. fold (\<lambda>w total. total + ReceivedCount (wBase ops w)) g 0)
      (map (\<lambda>x. (fst x, map fst (map (scanWorker ops (fst x)) (snd x)))) m) =
    gomap_sum (\<lambda>g. fold (\<lambda>w total. total + ReceivedCount (wBase ops w)) g 0) m" for m
    by (induction m) auto
  then show ?thesis
    by (simp add: totalReceived_def detectGapsAll_def eEmit_def Let_def comp_def split_beta)
qed

end

definition baseOps :: "BaseWorker WorkerOps" where
  "baseOps =
     \<lparr>wBase = (\<lambda>b. b), wPut = (\<lambda>b _. b), wStart = (\<lambda>b. (None, signalReady (b\<lparr>consuming := True\<rparr>))),
      wStartProducers = (\<lambda>b. b\<lparr>producing := True\<rparr>), wStopProducers = StopProducers, wStopConsumers = StopConsumers,
      wReset = ResetAfterWarmup\<rparr>"

interpretation bo: engine_worker baseOps
  by unfold_locales
    (simp_all add: baseOps_def ResetAfterWarmup_def TotalLost_def trackerSum_def Reset_def)

section \<open>Snapshots\<close>

lemma snapWorker_cnt:
  "k \<noteq> DeliveryAttemptMax \<Longrightarrow> scnt (fst (fold (snapWorker H) bs s)) k = scnt (fst s) k + sum_list (map (\<lambda>b. cnt b k) bs)"
proof (induction bs arbitrary: s)
  case (Cons b bs)
  have "scnt (fst (snapWorker H b s)) k = scnt (fst s) k + cnt b k"
    using Cons.prems by (cases s) (simp add: snapWorker_def addCounters_def Let_def)
  then show ?case using Cons by (simp add: add.assoc)
qed simp

lemma snapWorker_lost: "snapLost (fst (fold (snapWorker H) bs s)) = snapLost (fst s) + sum_list (map (\<lambda>b. TotalLost (trk b)) bs)"
proof (induction bs arbitrary: s)
  case (Cons b bs)
  have "snapLost (fst (snapWorker H b s)) = snapLost (fst s) + TotalLost (trk b)"
    by (cases s) (simp add: snapWorker_def Let_def)
  then show ?case using Cons by (simp add: add.assoc)
qed simp

lemma finishSnapshot_cnt:
  "scnt (finishSnapshot H name x) k =
     (if IsFanoutWorker name \<and> k = FanoutDropped then scnt (fst x) FanoutDropped + snapLost (fst x) else scnt (fst x) k)"
  "snapLost (finishSnapshot H name x) = (if IsFanoutWorker name then 0 else snapLost (fst x))"
  by (cases x; simp add: finishSnapshot_def Let_def split_beta split: option.splits)+

section \<open>Draining\<close>

lemma drain_quiet:
  assumes "\<And>e. totalReceived ops (detectGapsAll ops (p e)) = totalReceived ops e" "k < stablePolls"
    and "stablePolls - k \<le> n"
  shows "drainLoop ops (replicate n p) (totalReceived ops e) k e = ((\<lambda>e. detectGapsAll ops (p e)) ^^ (stablePolls - k)) e"
  using assms(2,3)
proof (induction n arbitrary: k e)
  case (Suc n)
  let ?e = "detectGapsAll ops (p e)"
  show ?case
  proof (cases "Suc k < stablePolls")
    case True
    have "drainLoop ops (replicate (Suc n) p) (totalReceived ops e) k e = drainLoop ops (replicate n p) (totalReceived ops ?e) (Suc k) ?e"
      using True assms(1) [of e] by (simp add: Let_def)
    also have "\<dots> = ((\<lambda>e. detectGapsAll ops (p e)) ^^ (stablePolls - Suc k)) ?e"
      using True Suc.prems by (intro Suc.IH) auto
    also have "\<dots> = ((\<lambda>e. detectGapsAll ops (p e)) ^^ (stablePolls - k)) e"
      using True funpow_swap1 [of "\<lambda>e. detectGapsAll ops (p e)" "stablePolls - Suc k" e]
      by (simp add: Suc_diff_Suc [symmetric] del: funpow.simps) (metis Suc_diff_Suc Suc_lessD comp_apply funpow.simps(2))
    finally show ?thesis .
  next
    case False
    then have "stablePolls - k = 1" using Suc.prems by simp
    then show ?thesis using False assms(1) [of e] by (simp add: Let_def)
  qed
qed simp

section \<open>A start between error and cleanup\<close>

text \<open>A worker whose start fails, to drive the error path.\<close>

definition failingOps :: "BaseWorker WorkerOps" where
  "failingOps = baseOps\<lparr>wStart := (\<lambda>b. (Some ''create topic'', b))\<rparr>"

definition anyWorker :: "string \<Rightarrow> Config \<Rightarrow> int \<Rightarrow> BaseWorker" where
  "anyWorker name c i = (case NewBaseWorker (\<lambda>_. []) name (TopicName (\<lambda>_. []) name i) i c of
     Some b \<Rightarrow> b | None \<Rightarrow> undefined)"

lemma startGroups_fails:
  assumes "map_of (workerGroups e) n = Some (w # ws)" "wStart ops w = (Some err, w')"
  shows "fst (startGroups ops (n # ns) e) = Some err"
  using assms by simp

lemma default_first_group:
  "\<exists>w ws. map_of (workerGroups (buildGroups mk DefaultConfig e)) WorkerPublishPullRoundTrip = Some (w # ws)"
proof -
  have "GetWorkerConfig DefaultConfig WorkerPublishPullRoundTrip = Some (mkWorker True 2 0 100)"
    by (simp add: GetWorkerConfig_def DefaultConfig_def defaultWorkers_def)
  then show ?thesis
    by (simp add: buildGroups_def AllWorkerNames_def NewWorkerGroup_def GetWorkerChannels_def mkWorker_def)
qed

section \<open>Properties\<close>

text \<open>C8: The run state machine. Along every interleaving of API calls, worker traffic, ticks and run-loop
  phases in which no start falls between a failed run's error and its cleanup, at most one run
  loop is alive; the engine state is the one its phase prescribes; a verdict is present only
  once snapshots have been captured and the run is stopping or stopped; with no run loop the
  engine is idle, stopped or in error. So the state test of \<^verbatim>\<open>StartRunFromConfig\<close> alone keeps a
  second run out: while a run loop is alive every start is refused, unless that run has
  failed and is about to clean up, and a stop reaches a run that has not begun to stop.\<close>

theorem engine_run_invariant:
  assumes "(orderly ops H mk)\<^sup>*\<^sup>* ([], NewEngine c0 now) (ts, e)"
  shows "length ts \<le> 1 \<and>
    (verdictResult e \<noteq> None \<longrightarrow> workerSnapshots e \<noteq> None \<and> state e \<in> {StateStopping, StateStopped}) \<and>
    (ts = [] \<longrightarrow> state e \<in> {StateIdle, StateStopped, StateError}) \<and>
    (\<forall>p c. ts = [(p, c)] \<longrightarrow> run_ok p e) \<and>
    (\<forall>now' fresh c e'. StartRunFromConfig now' fresh c e = Inr e' \<longrightarrow> ts = [] \<or> state e = StateError \<and> fst (hd ts) = PEnd) \<and>
    (\<forall>p c. ts = [(p, c)] \<and> p \<notin> {PStop, PVerdict, PEnd} \<longrightarrow> StopRun e = Inr (e\<lparr>cancelled := True\<rparr>))"
proof -
  have ok: "sys_ok (ts, e)" using reachable_sys_ok [OF assms] .
  have start: "state e \<in> {StateIdle, StateStopped, StateError}" if "StartRunFromConfig now' fresh c e = Inr e'" for now' fresh c e'
    using that by (auto simp: StartRunFromConfig_def split: if_splits)
  show ?thesis
  proof (cases ts)
    case (Cons t us)
    then have us: "us = []" using sys_ok_single [of "[]" t us e] ok by simp
    obtain p c where t: "t = (p, c)" by (cases t)
    then have "run_ok p e" using ok Cons us by (simp add: sys_ok_def)
    then show ?thesis using Cons us t start by (cases p) (auto simp: StopRun_def)
  qed (use ok in \<open>auto simp: sys_ok_def\<close>)
qed

theorem engine_run_invariant_witness:
  "\<exists>e :: BaseWorker Engine.
     StartRunFromConfig 5 ''r1'' DefaultConfig (NewEngine DefaultConfig 0) = Inr e \<and> run_ok PBuild e \<and>
     (\<forall>now fresh c e'. StartRunFromConfig now fresh c e \<noteq> Inr e') \<and> StopRun e = Inr (e\<lparr>cancelled := True\<rparr>)"
proof -
  obtain e :: "BaseWorker Engine" where e: "StartRunFromConfig 5 ''r1'' DefaultConfig (NewEngine DefaultConfig 0) = Inr e"
    by (simp add: StartRunFromConfig_def NewEngine_def)
  let ?S = "orderly baseOps \<lparr>hValueAt = \<lambda>_ _. 0, hTotalCount = \<lambda>_. 0\<rparr> anyWorker"
  have "?S ([], NewEngine DefaultConfig 0) ([] @ [(PBuild, DefaultConfig)], e)"
    using sysStep.api_start [OF e, where ts = "[]"] by (simp add: orderly_def overtakes_def)
  then have "?S\<^sup>*\<^sup>* ([], NewEngine DefaultConfig 0) ([(PBuild, DefaultConfig)], e)" by (simp add: r_into_rtranclp)
  from engine_run_invariant [OF this] e show ?thesis by (intro exI [of _ e]) auto
qed

text \<open>A start can overtake the cleanup of a failed run. The code marks the engine as failed
  before its deferred cleanup runs, and a failed engine accepts a new run: there is an
  interleaving after which a run loop is alive and building its workers while the state says
  stopped and the new run is marked done.\<close>

theorem start_overtakes_cleanup:
  "\<exists>e. (sysStep failingOps H anyWorker)\<^sup>*\<^sup>* ([], NewEngine DefaultConfig 0) ([(PBuild, DefaultConfig)], e) \<and>
     state e = StateStopped \<and> runDone e \<and> runStartedAt e = Some 10"
proof -
  let ?S = "sysStep failingOps H anyWorker"
  let ?c = DefaultConfig
  obtain e1 where e1: "StartRunFromConfig 5 ''a'' ?c (NewEngine ?c 0 :: BaseWorker Engine) = Inr e1" "state e1 = StateStarting"
    by (simp add: StartRunFromConfig_def NewEngine_def)
  have s1: "?S ([], NewEngine ?c 0) ([] @ [(PBuild, ?c)], e1)" using e1(1) by (rule sysStep.api_start)
  let ?e2 = "buildGroups anyWorker ?c e1"
  have s2: "?S ([] @ (PBuild, ?c) # [], e1) ([] @ (PStart, ?c) # [], ?e2)" by (intro sysStep.progress phaseStep.build)
  obtain w ws where g: "map_of (workerGroups ?e2) WorkerPublishPullRoundTrip = Some (w # ws)"
    using default_first_group [of anyWorker e1] by blast
  have "wStart failingOps w = (Some ''create topic'', w)" by (simp add: failingOps_def)
  from startGroups_fails [OF g this] obtain e3 where
    "startGroups failingOps AllWorkerNames ?e2 = (Some ''create topic'', e3)"
    unfolding AllWorkerNames_def by (metis prod.collapse)
  then have s3: "?S ([] @ (PStart, ?c) # [], ?e2) ([] @ (PEnd, ?c) # [], setError ''create topic'' e3)"
    by (intro sysStep.progress phaseStep.start_failed)
  obtain e4 where e4: "StartRunFromConfig 10 ''b'' ?c (setError ''create topic'' e3) = Inr e4" "state e4 = StateStarting"
    "runStartedAt e4 = Some 10"
    by (simp add: StartRunFromConfig_def setError_def)
  have s4: "?S ([(PEnd, ?c)], setError ''create topic'' e3) ([(PEnd, ?c)] @ [(PBuild, ?c)], e4)"
    using e4(1) by (rule sysStep.api_start)
  have s5: "?S ([] @ (PEnd, ?c) # [(PBuild, ?c)], e4) ([] @ [(PBuild, ?c)], finishRun 12 e4)" by (rule sysStep.finish)
  have "?S\<^sup>*\<^sup>* ([], NewEngine ?c 0) ([(PBuild, ?c)], finishRun 12 e4)"
    using s1 s2 s3 s4 s5 by (simp add: rtranclp.rtrancl_into_rtrancl)
  then show ?thesis using e4 by (intro exI [of _ "finishRun 12 e4"]) (simp add: finishRun_def)
qed

text \<open>C37: What \<^verbatim>\<open>StopConsumers\<close> records never reaches the verdict. The snapshots are captured before
  the consumers are stopped, so for any effect of stopping a worker the verdict is the same:
  a loss that a worker only adds to its counters while stopping cannot fail the run.\<close>

theorem verdict_ignores_stop_consumers:
  "verdictResult (engineVerdict c (shutdownWorkers (ops\<lparr>wStopConsumers := g\<rparr>) H now polls sys e)) =
   verdictResult (engineVerdict c (shutdownWorkers ops H now polls sys e))"
proof -
  let ?o = "ops\<lparr>wStopConsumers := g\<rparr>"
  have scan: "scanWorker ?o = scanWorker ops" by (simp add: scanWorker_def fun_eq_iff)
  have "detectGapsAll ?o = detectGapsAll ops" by (simp add: detectGapsAll_def scan fun_eq_iff)
  moreover have "totalReceived ?o = totalReceived ops" by (simp add: totalReceived_def fun_eq_iff)
  ultimately have "drainLoop ?o ps v k x = drainLoop ops ps v k x" for ps v k x
    by (induction ps arbitrary: v k x) (simp_all add: Let_def)
  then have "captureWorkerSnapshots ?o H (detectGapsAll ?o (drainToQuiescence ?o polls
        (stopAllProducersParallel ?o (e\<lparr>producersStoppedAt := now\<rparr>)))) =
      captureWorkerSnapshots ops H (detectGapsAll ops (drainToQuiescence ops polls
        (stopAllProducersParallel ops (e\<lparr>producersStoppedAt := now\<rparr>))))"
    by (simp add: captureWorkerSnapshots_def detectGapsAll_def scan drainToQuiescence_def
        \<open>totalReceived ?o = totalReceived ops\<close> stopAllProducersParallel_def)
  then show ?thesis
    by (simp add: shutdownWorkers_def Let_def engineVerdict_def stopConsumersAll_def notePeak_def)
qed

text \<open>Snapshots are sums. Every counter of a group's snapshot other than the delivery-attempt
  gauge is the sum over the group's workers; for the fan-out group the tracker loss is charged
  to the dropped deliveries and not to the loss, for every other group it is the loss.\<close>

theorem snapshot_sums:
  assumes "k \<noteq> DeliveryAttemptMax"
  shows "scnt (groupSnapshot H name bs) k = sum_list (map (\<lambda>b. cnt b k) bs) +
      (if IsFanoutWorker name \<and> k = FanoutDropped then sum_list (map (\<lambda>b. TotalLost (trk b)) bs) else 0) \<and>
    snapLost (groupSnapshot H name bs) =
      (if IsFanoutWorker name then 0 else sum_list (map (\<lambda>b. TotalLost (trk b)) bs))"
  using assms snapWorker_cnt [of k H bs "(zeroSnapshot, 0, None)"] snapWorker_cnt [of FanoutDropped H bs "(zeroSnapshot, 0, None)"]
    snapWorker_lost [of H bs "(zeroSnapshot, 0, None)"]
  by (auto simp: groupSnapshot_def finishSnapshot_cnt zeroSnapshot_def)

theorem snapshot_sums_witness:
  "scnt (groupSnapshot \<lparr>hValueAt = \<lambda>_ _. 0, hTotalCount = \<lambda>_. 0\<rparr> WorkerFanOut []) FanoutDropped = 0"
  using snapshot_sums [of FanoutDropped "\<lparr>hValueAt = \<lambda>_ _. 0, hTotalCount = \<lambda>_. 0\<rparr>" WorkerFanOut "[]"] by simp

text \<open>The drain ends at quiescence. When no poll brings a new delivery, the drain returns after
  exactly four polls, however long the deadline, having scanned the trackers each time.\<close>

theorem drain_ends_when_quiet:
  assumes "4 \<le> n"
  shows "drainToQuiescence baseOps (replicate n (\<lambda>e. e)) e = (detectGapsAll baseOps ^^ 4) e"
  using drain_quiet [of baseOps "\<lambda>e. e" 0 n e] assms bo.scan_received
  by (simp add: drainToQuiescence_def stablePolls_def)

theorem drain_ends_when_quiet_witness:
  "drainToQuiescence baseOps (replicate 40 (\<lambda>e. e)) (NewEngine DefaultConfig 0) =
   (detectGapsAll baseOps ^^ 4) (NewEngine DefaultConfig 0)"
  by (rule drain_ends_when_quiet) simp

text \<open>The measured window starts clean. After a warm-up that was not cancelled every worker's
  counters and probe flags are zero and its tracker reports no loss, whatever the warm-up
  traffic did, including what a probe found before it.\<close>

theorem warmup_erases:
  assumes "\<not> cancelled (warmup baseOps t s e)" "(name, g) \<in> set (workerGroups (warmup baseOps t s e))" "b \<in> set g"
  shows "cnt b k = 0 \<and> \<not> ran b p \<and> TotalLost (trk b) = 0"
  using bo.warmup_clears [OF assms] by (simp add: baseOps_def)

theorem warmup_erases_witness:
  "cnt (ResetAfterWarmup (StopProducers ((bump BatchAtomicityViolations 3 (anyWorker WorkerFanOut DefaultConfig 1))\<lparr>producing := True\<rparr>)))
     BatchAtomicityViolations = 0"
proof -
  let ?b = "bump BatchAtomicityViolations 3 (anyWorker WorkerFanOut DefaultConfig 1)"
  let ?e = "(NewEngine DefaultConfig 0)\<lparr>workerGroups := [(WorkerFanOut, [?b])]\<rparr>"
  have "\<not> cancelled (warmup baseOps (\<lambda>e. e) (\<lambda>e. e) ?e)"
    by (simp add: warmup_def Let_def startProducers_def stopAllProducersParallel_def mapWorkers_def eEmit_def NewEngine_def)
  moreover have "(WorkerFanOut, [ResetAfterWarmup (StopProducers (?b\<lparr>producing := True\<rparr>))])
      \<in> set (workerGroups (warmup baseOps (\<lambda>e. e) (\<lambda>e. e) ?e))"
    by (simp add: warmup_def Let_def startProducers_def stopAllProducersParallel_def mapWorkers_def eEmit_def
        NewEngine_def baseOps_def)
  ultimately show ?thesis using warmup_erases by fastforce
qed

end
