(* ===== verification/Transport.thy ===== *)
theory Transport
  imports EngineRun
begin

text \<open>
  The transport helpers of \<^verbatim>\<open>src/burnin/transport\<close> over the Google and gRPC client libraries.
  A call of a library is an argument (what the broker answers); an error is a gRPC status
  with the \<^verbatim>\<open>ErrorInfo\<close> reasons of its details, or a plain error. Wrapping with \<^verbatim>\<open>%w\<close> keeps the
  status, so an error is its own wrapping.
\<close>

section \<open>Errors\<close>

datatype grpc_code = OK | InvalidArgument | NotFound | AlreadyExists | PermissionDenied
  | FailedPrecondition | Unavailable | UnknownCode | OtherCode nat

datatype rpc_error = Status (stCode: grpc_code) (stReasons: "string list") | Plain string

datatype ack_status = AckSuccess | AckPermissionDenied | AckFailedPrecondition | AckInvalidAckID | AckOther

fun codeOf :: "rpc_error option \<Rightarrow> grpc_code" where
  "codeOf None = OK"
| "codeOf (Some (Status c _)) = c"
| "codeOf (Some (Plain _)) = UnknownCode"

definition IsAlreadyExists :: "rpc_error option \<Rightarrow> bool" where
  "IsAlreadyExists err \<longleftrightarrow> codeOf err = AlreadyExists"

definition IsNotFound :: "rpc_error option \<Rightarrow> bool" where
  "IsNotFound err \<longleftrightarrow> codeOf err = NotFound"

definition IsInvalidArgument :: "rpc_error option \<Rightarrow> bool" where
  "IsInvalidArgument err \<longleftrightarrow> codeOf err = InvalidArgument"

definition IsFailedPrecondition :: "rpc_error option \<Rightarrow> bool" where
  "IsFailedPrecondition err \<longleftrightarrow> codeOf err = FailedPrecondition"

definition InvalidAckIDReason :: string where
  "InvalidAckIDReason = ''PERMANENT_FAILURE_INVALID_ACK_ID''"

fun AckErrorReason :: "rpc_error option \<Rightarrow> string" where
  "AckErrorReason (Some (Status _ (r # _))) = r"
| "AckErrorReason _ = []"

definition ackStatusFromError :: "rpc_error option \<Rightarrow> ack_status" where
  "ackStatusFromError err =
     (if err = None then AckSuccess
      else case codeOf err of
             FailedPrecondition \<Rightarrow> if AckErrorReason err = InvalidAckIDReason then AckInvalidAckID else AckFailedPrecondition
           | PermissionDenied \<Rightarrow> AckPermissionDenied
           | _ \<Rightarrow> AckOther)"

fun ackStatusString :: "ack_status \<Rightarrow> string" where
  "ackStatusString AckSuccess = ''success''"
| "ackStatusString AckPermissionDenied = ''permission_denied''"
| "ackStatusString AckFailedPrecondition = ''failed_precondition''"
| "ackStatusString AckInvalidAckID = ''invalid_ack_id''"
| "ackStatusString AckOther = ''other''"

section \<open>Publishing\<close>

record Msg =
  mData :: string
  mAttributes :: "attributes option"
  mOrderingKey :: string
  mID :: string

definition mkMsg :: "string \<Rightarrow> attributes \<Rightarrow> Msg" where
  "mkMsg body attrs = \<lparr>mData = body, mAttributes = Some attrs, mOrderingKey = [], mID = []\<rparr>"

text \<open>\<open>send\<close> is \<^verbatim>\<open>Topic.Publish\<close> followed by \<^verbatim>\<open>Get\<close> of its result. \<^verbatim>\<open>PublishOrdered\<close> also
  returns the ordering keys it asked the library to resume.\<close>

definition PublishMessageSync :: "(Msg \<Rightarrow> rpc_error + string) \<Rightarrow> Msg \<Rightarrow> rpc_error + string" where
  "PublishMessageSync send m = send m"

definition PublishSync :: "(Msg \<Rightarrow> rpc_error + string) \<Rightarrow> string \<Rightarrow> attributes \<Rightarrow> rpc_error + string" where
  "PublishSync send body attrs = PublishMessageSync send (mkMsg body attrs)"

fun awaitAll :: "(rpc_error + string) list \<Rightarrow> rpc_error + string list" where
  "awaitAll [] = Inr []"
| "awaitAll (Inl e # rs) = Inl e"
| "awaitAll (Inr i # rs) = (case awaitAll rs of Inl e \<Rightarrow> Inl e | Inr is \<Rightarrow> Inr (i # is))"

definition PublishBatch :: "(Msg list \<Rightarrow> (rpc_error + string) list) \<Rightarrow> Msg list \<Rightarrow> rpc_error + string list" where
  "PublishBatch sendAll msgs = awaitAll (sendAll msgs)"

definition PublishOrdered :: "(Msg \<Rightarrow> rpc_error + string) \<Rightarrow> string \<Rightarrow> string \<Rightarrow> attributes \<Rightarrow>
    (rpc_error + string) \<times> string list" where
  "PublishOrdered send key body attrs =
     (case PublishMessageSync send ((mkMsg body attrs)\<lparr>mOrderingKey := key\<rparr>) of
        Inl e \<Rightarrow> (Inl e, [key])
      | Inr i \<Rightarrow> (Inr i, []))"

section \<open>Provisioning\<close>

text \<open>\<open>create\<close> answers a creation; \<open>handle\<close> is the handle of an existing resource.\<close>

definition EnsureTopic :: "(string \<Rightarrow> rpc_error + 'h) \<Rightarrow> (string \<Rightarrow> 'h) \<Rightarrow> string \<Rightarrow> rpc_error + 'h" where
  "EnsureTopic create handle topicID =
     (case create topicID of
        Inr h \<Rightarrow> Inr h
      | Inl e \<Rightarrow> if \<not> IsAlreadyExists (Some e) then Inl e else Inr (handle topicID))"

definition EnsureSubscription :: "(string \<Rightarrow> 'c \<Rightarrow> rpc_error + 'h) \<Rightarrow> (string \<Rightarrow> 'h) \<Rightarrow> string \<Rightarrow> 'c \<Rightarrow> rpc_error + 'h" where
  "EnsureSubscription create handle subID c =
     (case create subID c of
        Inr h \<Rightarrow> Inr h
      | Inl e \<Rightarrow> if \<not> IsAlreadyExists (Some e) then Inl e else Inr (handle subID))"

definition EnsureTopicWithSchema :: "(string \<Rightarrow> 'c \<Rightarrow> rpc_error + 'h) \<Rightarrow> (string \<Rightarrow> 'h) \<Rightarrow> string \<Rightarrow> 'c \<Rightarrow> rpc_error + 'h" where
  "EnsureTopicWithSchema create handle topicID settings =
     (case create topicID settings of
        Inr h \<Rightarrow> Inr h
      | Inl e \<Rightarrow> if \<not> IsAlreadyExists (Some e) then Inl e else Inr (handle topicID))"

definition createSchema :: "(string \<Rightarrow> rpc_error + 'h) \<Rightarrow> string \<Rightarrow> rpc_error + 'h option" where
  "createSchema create rid =
     (case create rid of
        Inr h \<Rightarrow> Inr (Some h)
      | Inl e \<Rightarrow> if IsAlreadyExists (Some e) then Inr None else Inl e)"

definition DeleteSchema :: "(string \<Rightarrow> rpc_error option) \<Rightarrow> string \<Rightarrow> rpc_error option" where
  "DeleteSchema del rid =
     (case del rid of
        None \<Rightarrow> None
      | Some e \<Rightarrow> if IsNotFound (Some e) \<or> IsAlreadyExists (Some e) then None else Some e)"

definition DeleteSnapshot :: "(string \<Rightarrow> rpc_error option) \<Rightarrow> string \<Rightarrow> rpc_error option" where
  "DeleteSnapshot del rid =
     (case del rid of
        None \<Rightarrow> None
      | Some e \<Rightarrow> if IsNotFound (Some e) \<or> IsAlreadyExists (Some e) then None else Some e)"

fun listSnapshots :: "(rpc_error + 's) list \<Rightarrow> rpc_error + 's list" where
  "listSnapshots [] = Inr []"
| "listSnapshots (Inl e # it) = Inl e"
| "listSnapshots (Inr c # it) = (case listSnapshots it of Inl e \<Rightarrow> Inl e | Inr cs \<Rightarrow> Inr (c # cs))"

definition GetSnapshot :: "(rpc_error + string option) list \<Rightarrow> string \<Rightarrow> rpc_error + string" where
  "GetSnapshot it snapshotID =
     (case listSnapshots it of
        Inl e \<Rightarrow> Inl e
      | Inr cs \<Rightarrow> if Some snapshotID \<in> set cs then Inr snapshotID else Inl (Plain ''not found''))"

definition SubscriptionPath :: "string \<Rightarrow> string \<Rightarrow> string" where
  "SubscriptionPath projectID sid =
     ''projects/'' @ (if projectID = [] then ''burnin'' else projectID) @ ''/subscriptions/'' @ sid"

definition SchemaSettings :: "string \<Rightarrow> string \<Rightarrow> string" where
  "SchemaSettings projectID sid =
     ''projects/'' @ (if projectID = [] then ''burnin'' else projectID) @ ''/schemas/'' @ sid"

record SubscriptionConfig =
  scTopic :: string
  scAckDeadline :: duration
  scOrdering :: bool
  scExactlyOnce :: bool
  scFilter :: string
  scDeadLetter :: "(string \<times> int) option"
  scRetry :: "(duration \<times> duration) option"

definition AckDeadline :: "int \<Rightarrow> duration" where
  "AckDeadline seconds = i64 (seconds * Second)"

definition plainSubscription :: "string \<Rightarrow> int \<Rightarrow> SubscriptionConfig" where
  "plainSubscription topic seconds =
     \<lparr>scTopic = topic, scAckDeadline = AckDeadline seconds, scOrdering = False, scExactlyOnce = False,
      scFilter = [], scDeadLetter = None, scRetry = None\<rparr>"

definition OrderingSubscriptionConfig :: "string \<Rightarrow> int \<Rightarrow> SubscriptionConfig" where
  "OrderingSubscriptionConfig topic seconds = (plainSubscription topic seconds)\<lparr>scOrdering := True\<rparr>"

definition FilteredSubscriptionConfig :: "string \<Rightarrow> int \<Rightarrow> string \<Rightarrow> SubscriptionConfig" where
  "FilteredSubscriptionConfig topic seconds filt = (plainSubscription topic seconds)\<lparr>scFilter := filt\<rparr>"

section \<open>Receiving\<close>

record ReceiveSettings =
  NumGoroutines :: int
  MaxOutstandingMessages :: int
  RsMaxOutstandingBytes :: int

definition DefaultMaxOutstanding :: int where "DefaultMaxOutstanding = 1000"

definition ConfigureReceiveWithBytes :: "int \<Rightarrow> int \<Rightarrow> ReceiveSettings \<Rightarrow> ReceiveSettings" where
  "ConfigureReceiveWithBytes numStreams maxOutstandingBytes s =
     (let s = s\<lparr>NumGoroutines := (if numStreams < 1 then 1 else numStreams),
               MaxOutstandingMessages := DefaultMaxOutstanding\<rparr>
      in if 0 < maxOutstandingBytes then s\<lparr>RsMaxOutstandingBytes := maxOutstandingBytes\<rparr> else s)"

definition ConfigureReceive :: "int \<Rightarrow> ReceiveSettings \<Rightarrow> ReceiveSettings" where
  "ConfigureReceive numStreams = ConfigureReceiveWithBytes numStreams 0"

text \<open>What the select of \<^verbatim>\<open>FlowControlClampProbe\<close> sees: a cancelled context, the idle timer, a
  batch of messages, the end of the stream, a receive error. The timer fires when nothing
  else does, so an exhausted list is the timer.\<close>

datatype fc_event = FcCancelled | FcIdle | FcBatch nat | FcEOF | FcError rpc_error bool

fun clampLoop :: "fc_event list \<Rightarrow> int \<Rightarrow> int \<times> rpc_error option" where
  "clampLoop [] unacked = (unacked, None)"
| "clampLoop (FcCancelled # es) unacked = (unacked, None)"
| "clampLoop (FcIdle # es) unacked = (unacked, None)"
| "clampLoop (FcEOF # es) unacked = (unacked, None)"
| "clampLoop (FcError e ctxErr # es) unacked = (unacked, if ctxErr then None else Some e)"
| "clampLoop (FcBatch n # es) unacked =
     (if n = 0 then clampLoop es unacked else clampLoop es (i64 (unacked + int n)))"

definition FlowControlClampProbe :: "rpc_error option \<Rightarrow> rpc_error option \<Rightarrow> fc_event list \<Rightarrow> int \<times> rpc_error option" where
  "FlowControlClampProbe openErr sendErr events =
     (case openErr of
        Some e \<Rightarrow> (0, Some e)
      | None \<Rightarrow> (case sendErr of Some e \<Rightarrow> (0, Some e) | None \<Rightarrow> clampLoop events 0))"

section \<open>Host and port\<close>

text \<open>\<open>splitHP\<close> is \<^verbatim>\<open>net.SplitHostPort\<close>.\<close>

definition splitHostPort :: "(string \<Rightarrow> (string \<times> string) option) \<Rightarrow> string \<Rightarrow> (string \<times> int) option" where
  "splitHostPort splitHP address =
     (case splitHP address of
        None \<Rightarrow> None
      | Some (host, port) \<Rightarrow> map_option (\<lambda>p. (host, p)) (ParseInt port))"

section \<open>Lemmas\<close>

lemma awaitAll_Inr: "awaitAll rs = Inr ids \<longleftrightarrow> rs = map Inr ids"
proof (induction rs arbitrary: ids)
  case (Cons r rs)
  show ?case
  proof (cases r)
    case (Inr i)
    show ?thesis
    proof (cases "awaitAll rs")
      case (Inl e)
      then have "rs \<noteq> map Inr is" for "is" using Cons [of "is"] by simp
      with Inl Inr show ?thesis by (auto simp: Cons_eq_map_conv)
    next
      case (Inr js)
      with Cons [of js] \<open>r = Inr i\<close> show ?thesis by (auto simp: Cons_eq_map_conv inj_map_eq_map)
    qed
  qed (simp add: Cons_eq_map_conv)
qed auto

lemma awaitAll_Inl: "awaitAll rs = Inl e \<longleftrightarrow> (\<exists>ids rest. rs = map Inr ids @ Inl e # rest)"
proof (induction rs)
  case (Cons r rs)
  show ?case
  proof (cases r)
    case (Inl x)
    then show ?thesis by (auto simp: Cons_eq_append_conv)
  next
    case (Inr i)
    have "(\<exists>ids rest. Inr i # rs = map Inr ids @ Inl e # rest) \<longleftrightarrow> (\<exists>ids rest. rs = map Inr ids @ Inl e # rest)"
      by (auto simp: Cons_eq_append_conv Cons_eq_map_conv)
    moreover have "awaitAll (Inr i # rs) = Inl e \<longleftrightarrow> awaitAll rs = Inl e" by (cases "awaitAll rs") simp_all
    ultimately show ?thesis using Inr Cons by simp
  qed
qed simp

lemma clampLoop_batches:
  assumes "\<forall>n\<in>set ns. 0 < n" "int (sum_list ns) + u < 2 ^ 63" "0 \<le> u"
  shows "clampLoop (map FcBatch ns @ FcIdle # es) u = (u + int (sum_list ns), None)"
  using assms
proof (induction ns arbitrary: u)
  case (Cons n ns)
  have "i64 (u + int n) = u + int n" using Cons.prems by (intro i64_id) auto
  then show ?case using Cons by (simp add: algebra_simps)
qed simp

end
