(* ===== verification/WorkerCore.thy ===== *)
theory WorkerCore
  imports Transport
begin

text \<open>
  What the worker files of \<^verbatim>\<open>src/burnin/worker\<close> share: the embedding of \<^verbatim>\<open>BaseWorker\<close>, the
  producer loop, the receive loop with its reconnections, the payload checks of a
  delivery. A loop runs over the list of what its environment does in each iteration
  (cancelled contexts, answers of the broker, deliveries, clocks); the end of the list is
  the moment of observation. Iterations of different goroutines interleave as a whole:
  what they share is the atomic counters and maps under a mutex. An iteration returns how
  it ended and what it put out: a producer the messages the broker accepted, a receiver
  the acks and nacks it sent.
\<close>

section \<open>Embedding\<close>

record WorkerCore =
  core :: BaseWorker

record SeqWorker = WorkerCore +
  wseq :: u64

definition onBase :: "(BaseWorker \<Rightarrow> BaseWorker) \<Rightarrow> 'a WorkerCore_scheme \<Rightarrow> 'a WorkerCore_scheme" where
  "onBase f w = w\<lparr>core := f (core w)\<rparr>"

section \<open>Loops\<close>

datatype flow = Next | Stop | Panic

fun runLoop :: "('i \<Rightarrow> 's \<Rightarrow> flow \<times> 'o list \<times> 's) \<Rightarrow> 'i list \<Rightarrow> 's \<Rightarrow> flow \<times> 'o list \<times> 's" where
  "runLoop step [] s = (Next, [], s)"
| "runLoop step (i # is) s =
     (case step i s of
        (Next, out, s') \<Rightarrow> (let (f, out', s'') = runLoop step is s' in (f, out @ out', s''))
      | r \<Rightarrow> r)"

section \<open>Producing\<close>

record pubIn =
  piStop :: bool
  piRateErr :: bool
  piDraw :: "nat \<Rightarrow> u64"
  piIntN :: "int \<Rightarrow> int"
  piStamp :: instant
  piSend :: "Msg \<Rightarrow> rpc_error + string"
  piCtxErr :: bool
  piDone :: instant
  piDur :: duration

definition producerName :: "'a WorkerCore_scheme \<Rightarrow> int \<Rightarrow> string" where
  "producerName w i = ''p-'' @ channelName (core w) @ ''-'' @ FormatInt i"

definition msgKey :: "string \<Rightarrow> u64 \<Rightarrow> string" where
  "msgKey pid n = pid @ ''#'' @ FormatUint n"

definition nextBody :: "pubIn \<Rightarrow> 'a WorkerCore_scheme \<Rightarrow> (string \<times> string) option" where
  "nextBody inp w = map_option (Build (piDraw inp)) (selectMessageSize (piIntN inp) (core w))"

definition metricObserveSend :: "duration \<Rightarrow> BaseWorker \<Rightarrow> BaseWorker" where
  "metricObserveSend d b = emit (ObserveSendDuration (bName b) d) b"

text \<open>The producer iteration of the workers that publish one instrumented message per turn;
  \<open>onOk\<close> is what a worker does between the answer and the counters.\<close>

definition produceWith :: "(string \<Rightarrow> instant \<Rightarrow> 'a SeqWorker_scheme \<Rightarrow> 'a SeqWorker_scheme) \<Rightarrow> int \<Rightarrow> pubIn \<Rightarrow>
    'a SeqWorker_scheme \<Rightarrow> flow \<times> Msg list \<times> 'a SeqWorker_scheme" where
  "produceWith onOk i inp w =
     (if piStop inp \<or> piRateErr inp then (Stop, [], w)
      else
        (let pid = producerName w i; n = wseq w + 1; w = w\<lparr>wseq := n\<rparr> in
         case nextBody inp w of
           None \<Rightarrow> (Panic, [], w)
         | Some (body, hex) \<Rightarrow>
             (let attrs = stampAttrs (piStamp inp) pid n hex in
              case PublishSync (piSend inp) body attrs of
                Inl e \<Rightarrow> if piCtxErr inp then (Stop, [], w)
                         else (Next, [], onBase (recordError ''publish_failure'') w)
              | Inr _ \<Rightarrow>
                  (let w = onOk (msgKey pid n) (piDone inp) w;
                       w = onBase (metricObserveSend (piDur inp)) w
                   in (Next, [mkMsg body attrs], onBase (recordSent (int (length body)) pid) w)))))"

definition produceOne :: "int \<Rightarrow> pubIn \<Rightarrow> 'a SeqWorker_scheme \<Rightarrow> flow \<times> Msg list \<times> 'a SeqWorker_scheme" where
  "produceOne = produceWith (\<lambda>_ _ w. w)"

definition producerCount :: "'a WorkerCore_scheme \<Rightarrow> int" where
  "producerCount w = (let n = ProducersPerChannel (workerCfg (core w)) in if n < 1 then 1 else n)"

definition StartProducersW :: "'a WorkerCore_scheme \<Rightarrow> 'a WorkerCore_scheme" where
  "StartProducersW = onBase (\<lambda>b. b\<lparr>producing := True\<rparr>)"

section \<open>Receiving\<close>

datatype settle = DoAck | DoNack

record delivery =
  dMsg :: Msg
  dNow :: instant

record 'm rcvIn =
  riStop :: bool
  riMsgs :: "'m list"
  riErr :: bool
  riCtxErr :: bool
  riWake :: bool

fun handleAll :: "('m \<Rightarrow> 'w \<Rightarrow> settle list \<times> 'w) \<Rightarrow> 'm list \<Rightarrow> 'w \<Rightarrow> settle list \<times> 'w" where
  "handleAll h [] w = ([], w)"
| "handleAll h (m # ms) w =
     (let (a, w) = h m w; (as, w) = handleAll h ms w in (a @ as, w))"

text \<open>One turn of a receive loop; the flag of the loop state says that no stream has been
  opened yet, \<open>announce\<close> that the loop signals readiness.\<close>

definition receiveTurn :: "bool \<Rightarrow> ('m \<Rightarrow> 'a WorkerCore_scheme \<Rightarrow> settle list \<times> 'a WorkerCore_scheme) \<Rightarrow> 'm rcvIn \<Rightarrow>
    bool \<times> 'a WorkerCore_scheme \<Rightarrow> flow \<times> settle list \<times> bool \<times> 'a WorkerCore_scheme" where
  "receiveTurn announce h inp s =
     (let (first, w) = s in
      if riStop inp then (Stop, [], first, w)
      else
        (let w = (if \<not> first then onBase recordReconnection w else w);
             w = (if announce then onBase signalReady w else w);
             (as, w) = handleAll h (riMsgs inp) w
         in if riCtxErr inp then (Stop, as, False, w)
            else if riErr inp then (if riWake inp then Next else Stop, as, False, onBase (recordError ''receive_failure'') w)
            else (Next, as, False, w)))"

definition receiveLoop :: "bool \<Rightarrow> ('m \<Rightarrow> 'a WorkerCore_scheme \<Rightarrow> settle list \<times> 'a WorkerCore_scheme) \<Rightarrow> 'm rcvIn list \<Rightarrow>
    'a WorkerCore_scheme \<Rightarrow> flow \<times> settle list \<times> bool \<times> 'a WorkerCore_scheme" where
  "receiveLoop announce h inps w = runLoop (receiveTurn announce h) inps (True, w)"

text \<open>\<^verbatim>\<open>watchDisconnect\<close> polls the generation and cancels the stream as soon as it has moved.\<close>

definition watchDisconnect :: "u64 \<Rightarrow> u64 list \<Rightarrow> bool" where
  "watchDisconnect gen polls = list_ex (\<lambda>g. g \<noteq> gen) polls"

definition reconnectBackoff :: "Config \<Rightarrow> duration" where
  "reconnectBackoff c = (if 0 < ReconnectInterval c then ReconnectInterval c else Second)"

section \<open>Payload checks\<close>

definition noteArrival :: "instant \<Rightarrow> string \<Rightarrow> string \<Rightarrow> instant option \<Rightarrow> BaseWorker \<Rightarrow> BaseWorker" where
  "noteArrival now body hex sentAt b =
     (let b = (if hex \<noteq> [] \<and> \<not> VerifyCRC body hex then recordCorrupted b else b)
      in case sentAt of Some t \<Rightarrow> recordLatency (timeSub now t) b | None \<Rightarrow> b)"

definition ackAndCount :: "'a WorkerCore_scheme \<Rightarrow> settle list \<times> 'a WorkerCore_scheme" where
  "ackAndCount w = ([DoAck], onBase recordAcked w)"

section \<open>Provisioning\<close>

record sdk =
  sdkClient :: "rpc_error option"
  sdkTopic :: "string \<Rightarrow> rpc_error + string"
  sdkSub :: "string \<Rightarrow> SubscriptionConfig \<Rightarrow> rpc_error + string"

definition ensureTopic :: "sdk \<Rightarrow> string \<Rightarrow> rpc_error option" where
  "ensureTopic k rid = (case EnsureTopic (sdkTopic k) (\<lambda>i. i) rid of Inl e \<Rightarrow> Some e | Inr _ \<Rightarrow> None)"

definition ensureSubscription :: "sdk \<Rightarrow> string \<Rightarrow> SubscriptionConfig \<Rightarrow> rpc_error option" where
  "ensureSubscription k rid c = (case EnsureSubscription (sdkSub k) (\<lambda>i. i) rid c of Inl e \<Rightarrow> Some e | Inr _ \<Rightarrow> None)"

fun firstError :: "rpc_error option list \<Rightarrow> rpc_error option" where
  "firstError [] = None"
| "firstError (Some e # rs) = Some e"
| "firstError (None # rs) = firstError rs"

definition startConsuming :: "rpc_error option list \<Rightarrow> 'a WorkerCore_scheme \<Rightarrow> rpc_error option \<times> 'a WorkerCore_scheme" where
  "startConsuming steps w = (firstError steps, onBase (\<lambda>b. b\<lparr>consuming := True\<rparr>) w)"

end
