(* ===== verification/Workers.thy ===== *)
theory Workers
  imports WorkerCore
begin

text \<open>
  The workers of \<^verbatim>\<open>src/burnin/worker\<close>, part one: \<^verbatim>\<open>publish_pull_round_trip.go\<close>, \<^verbatim>\<open>fan_out.go\<close>,
  \<^verbatim>\<open>ordering_keys.go\<close>, \<^verbatim>\<open>exactly_once.go\<close>, \<^verbatim>\<open>filtering.go\<close>, \<^verbatim>\<open>nack_redelivery.go\<close>, \<^verbatim>\<open>dead_letter.go\<close>
  and \<^verbatim>\<open>cross_protocol_interop.go\<close>. Each has its state, constructor, start, message handler,
  producer iteration, reset and stop.
\<close>

section \<open>Publish, pull, acknowledge\<close>

record PublishPullRoundTripWorker = SeqWorker +
  ppTopicID :: string
  ppSubID :: string

definition batchProbeProducerID :: string where "batchProbeProducerID = ''batch-probe''"
definition batchProbeGoogAttrKey :: string where "batchProbeGoogAttrKey = ''goog-burnin-atomicity''"

definition NewPublishPullRoundTripWorker :: "environ \<Rightarrow> Config \<Rightarrow> int \<Rightarrow> PublishPullRoundTripWorker option" where
  "NewPublishPullRoundTripWorker getenv c idx =
     (let topic = TopicName getenv WorkerPublishPullRoundTrip idx;
          sid = SubscriptionName getenv WorkerPublishPullRoundTrip idx
      in map_option (\<lambda>b. \<lparr>core = b, wseq = 0, ppTopicID = topic, ppSubID = sid\<rparr>)
           (NewBaseWorker getenv WorkerPublishPullRoundTrip (MappedTopicChannel topic) idx c))"

text \<open>The probe publishes a batch whose second message carries a forbidden attribute key;
  \<open>None\<close> is the panic of the size draw.\<close>

definition runAtomicityProbe :: "pubIn \<Rightarrow> (Msg list \<Rightarrow> (rpc_error + string) list) \<Rightarrow> PublishPullRoundTripWorker \<Rightarrow>
    PublishPullRoundTripWorker option" where
  "runAtomicityProbe inp sendAll w =
     (case nextBody inp w of
        None \<Rightarrow> None
      | Some (body, hex) \<Rightarrow>
          (let good = mkMsg body (stampAttrs (piStamp inp) batchProbeProducerID 1 hex);
               bad = mkMsg body [(AttrWorkerID, batchProbeProducerID), (AttrSequence, ''2''), (AttrContentHash, hex),
                                 (batchProbeGoogAttrKey, ''x'')]
           in Some (case PublishBatch sendAll [good, bad] of
                      Inr _ \<Rightarrow> onBase recordBatchAtomicityViolation w
                    | Inl e \<Rightarrow> if codeOf (Some e) \<noteq> InvalidArgument then onBase recordBatchAtomicityViolation w else w)))"

definition PublishPull_Start :: "sdk \<Rightarrow> pubIn \<Rightarrow> (Msg list \<Rightarrow> (rpc_error + string) list) \<Rightarrow> PublishPullRoundTripWorker \<Rightarrow>
    (rpc_error option \<times> PublishPullRoundTripWorker) option" where
  "PublishPull_Start k inp sendAll w =
     (let (err, w) = startConsuming [sdkClient k, ensureTopic k (ppTopicID w),
            ensureSubscription k (ppSubID w) (plainSubscription (ppTopicID w) (AckDeadlineSeconds (GCP (cfg (core w)))))] w
      in if err = None \<and> BatchAtomicityProbe (GCP (cfg (core w)))
         then map_option (\<lambda>w. (None, w)) (runAtomicityProbe inp sendAll w)
         else Some (err, w))"

definition PublishPull_handleMessage :: "string \<Rightarrow> delivery \<Rightarrow> PublishPullRoundTripWorker \<Rightarrow> settle list \<times> PublishPullRoundTripWorker" where
  "PublishPull_handleMessage consumerID d w =
     (let m = dMsg d;
          w = onBase (recordReceived (int (length (mData m))) consumerID) w;
          (pid, n, hex, sentAt, ok) = extractMeta (mAttributes m)
      in if ok \<and> pid = batchProbeProducerID then ackAndCount (onBase recordBatchAtomicityViolation w)
         else
           (let w = (if ok then onBase (\<lambda>b. fst (recordTracked pid n (noteArrival (dNow d) (mData m) hex sentAt b))) w else w)
            in ackAndCount w))"

definition consumerName :: "'a WorkerCore_scheme \<Rightarrow> string" where
  "consumerName w = ''c-'' @ channelName (core w)"

definition PublishPull_receiveLoop :: "delivery rcvIn list \<Rightarrow> PublishPullRoundTripWorker \<Rightarrow>
    flow \<times> settle list \<times> bool \<times> PublishPullRoundTripWorker" where
  "PublishPull_receiveLoop inps w = receiveLoop True (\<lambda>d w. PublishPull_handleMessage (consumerName w) d w) inps w"

text \<open>One round of the producer: \<open>BatchSize\<close> rate tokens, sequence numbers and bodies, one batch
  publish, then the counters of every message. A slot without an input is still waiting for
  its token.\<close>

record batchIn =
  biStop :: bool
  biSlots :: "pubIn list"
  biSendAll :: "Msg list \<Rightarrow> (rpc_error + string) list"
  biCtxErr :: bool
  biDur :: duration

definition batchSizeOf :: "'a WorkerCore_scheme \<Rightarrow> int" where
  "batchSizeOf w = (let n = BatchSize (GCP (cfg (core w))) in if n < 1 then 1 else n)"

fun fillBatch :: "string \<Rightarrow> nat \<Rightarrow> pubIn list \<Rightarrow> PublishPullRoundTripWorker \<Rightarrow> flow \<times> Msg list \<times> PublishPullRoundTripWorker" where
  "fillBatch pid 0 inps w = (Next, [], w)"
| "fillBatch pid (Suc k) [] w = (Stop, [], w)"
| "fillBatch pid (Suc k) (inp # inps) w =
     (if piRateErr inp then (Stop, [], w)
      else
        (let n = wseq w + 1; w = w\<lparr>wseq := n\<rparr> in
         case nextBody inp w of
           None \<Rightarrow> (Panic, [], w)
         | Some (body, hex) \<Rightarrow>
             (let (f, ms, w) = fillBatch pid k inps w
              in (f, mkMsg body (stampAttrs (piStamp inp) pid n hex) # ms, w))))"

definition PublishPull_produce :: "int \<Rightarrow> batchIn \<Rightarrow> PublishPullRoundTripWorker \<Rightarrow> flow \<times> Msg list \<times> PublishPullRoundTripWorker" where
  "PublishPull_produce i inp w =
     (if biStop inp then (Stop, [], w)
      else
        (let pid = producerName w i;
             (f, msgs, w) = fillBatch pid (nat (batchSizeOf w)) (biSlots inp) w
         in if f \<noteq> Next then (f, [], w)
            else case PublishBatch (biSendAll inp) msgs of
                   Inl e \<Rightarrow> if biCtxErr inp then (Stop, [], w) else (Next, [], onBase (recordError ''publish_failure'') w)
                 | Inr _ \<Rightarrow>
                     (Next, msgs,
                      fold (\<lambda>m w. onBase (\<lambda>b. recordSent (int (length (mData m))) pid (metricObserveSend (biDur inp) b)) w) msgs w)))"

definition PublishPull_StopConsumers :: "PublishPullRoundTripWorker \<Rightarrow> PublishPullRoundTripWorker" where
  "PublishPull_StopConsumers = onBase StopConsumers"

section \<open>Fan-out\<close>

record FanOutWorker = SeqWorker +
  foTopicID :: string
  foSubIDs :: "string list"

definition NewFanOutWorker :: "environ \<Rightarrow> Config \<Rightarrow> int \<Rightarrow> FanOutWorker option" where
  "NewFanOutWorker getenv c idx =
     (let topic = TopicName getenv WorkerFanOut idx
      in map_option (\<lambda>b. \<lparr>core = b, wseq = 0, foTopicID = topic,
             foSubIDs = map (FanoutSubscriptionName getenv WorkerFanOut idx) [0..FanoutSubscriptionCount c - 1]\<rparr>)
           (NewBaseWorker getenv WorkerFanOut (MappedTopicChannel topic) idx c))"

definition FanOut_Start :: "sdk \<Rightarrow> FanOutWorker \<Rightarrow> rpc_error option \<times> FanOutWorker" where
  "FanOut_Start k w =
     startConsuming ([sdkClient k, ensureTopic k (foTopicID w)] @
       map (\<lambda>sid. ensureSubscription k sid (plainSubscription (foTopicID w) (AckDeadlineSeconds (GCP (cfg (core w))))))
         (foSubIDs w)) w"

definition FanOut_handleMessage :: "string \<Rightarrow> delivery \<Rightarrow> FanOutWorker \<Rightarrow> settle list \<times> FanOutWorker" where
  "FanOut_handleMessage sid d w =
     (let m = dMsg d;
          w = onBase (recordReceived (int (length (mData m))) (''c-'' @ sid)) w;
          w = onBase recordFanoutDelivery w;
          (pid, n, hex, sentAt, ok) = extractMeta (mAttributes m);
          w = (if ok then onBase (\<lambda>b. fst (recordTracked (pid @ ''@'' @ sid) n (noteArrival (dNow d) (mData m) hex sentAt b))) w
               else w)
      in ackAndCount w)"

definition FanOut_receiveLoop :: "string \<Rightarrow> delivery rcvIn list \<Rightarrow> FanOutWorker \<Rightarrow> flow \<times> settle list \<times> bool \<times> FanOutWorker" where
  "FanOut_receiveLoop sid = receiveLoop True (FanOut_handleMessage sid)"

definition FanOut_produce :: "int \<Rightarrow> pubIn \<Rightarrow> FanOutWorker \<Rightarrow> flow \<times> Msg list \<times> FanOutWorker" where
  "FanOut_produce = produceOne"

definition FanOut_StopConsumers :: "FanOutWorker \<Rightarrow> FanOutWorker" where
  "FanOut_StopConsumers = onBase StopConsumers"

section \<open>Ordering keys\<close>

record OrderingKeysWorker = SeqWorker +
  okTopicID :: string
  okSubID :: string
  perKey :: "(string, u64) gomap"

definition orderingKeyCount :: nat where "orderingKeyCount = 8"

definition NewOrderingKeysWorker :: "environ \<Rightarrow> Config \<Rightarrow> int \<Rightarrow> OrderingKeysWorker option" where
  "NewOrderingKeysWorker getenv c idx =
     (let topic = TopicName getenv WorkerOrderingKeys idx;
          sid = SubscriptionName getenv WorkerOrderingKeys idx
      in map_option (\<lambda>b. \<lparr>core = b, wseq = 0, okTopicID = topic, okSubID = sid, perKey = []\<rparr>)
           (NewBaseWorker getenv WorkerOrderingKeys (MappedTopicChannel topic) idx c))"

definition OrderingKeys_Start :: "sdk \<Rightarrow> OrderingKeysWorker \<Rightarrow> rpc_error option \<times> OrderingKeysWorker" where
  "OrderingKeys_Start k w =
     startConsuming [sdkClient k, ensureTopic k (okTopicID w),
       ensureSubscription k (okSubID w) (OrderingSubscriptionConfig (okTopicID w) (AckDeadlineSeconds (GCP (cfg (core w)))))] w"

definition checkOrdering :: "string \<Rightarrow> string \<Rightarrow> string \<Rightarrow> OrderingKeysWorker \<Rightarrow> OrderingKeysWorker" where
  "checkOrdering pid key oseqStr w =
     (if key = [] \<or> oseqStr = [] then w
      else case ParseUint oseqStr of
             None \<Rightarrow> w
           | Some oseq \<Rightarrow>
               (let mapKey = pid @ ''|'' @ key in
                case map_of (perKey w) mapKey of
                  Some lst \<Rightarrow> if oseq < lst then onBase recordOrderingViolation w
                               else if lst < oseq then w\<lparr>perKey := AList.update mapKey oseq (perKey w)\<rparr>
                               else w
                | None \<Rightarrow> w\<lparr>perKey := AList.update mapKey oseq (perKey w)\<rparr>))"

definition OrderingKeys_handleMessage :: "string \<Rightarrow> delivery \<Rightarrow> OrderingKeysWorker \<Rightarrow> settle list \<times> OrderingKeysWorker" where
  "OrderingKeys_handleMessage consumerID d w =
     (let m = dMsg d;
          w = onBase (recordReceived (int (length (mData m))) consumerID) w;
          (pid, n, hex, sentAt, ok) = extractMeta (mAttributes m);
          w = (if ok then
                 (let (b, dup) = recordTracked pid n (noteArrival (dNow d) (mData m) hex sentAt (core w));
                      w = w\<lparr>core := b\<rparr>
                  in if \<not> dup
                     then checkOrdering pid (mOrderingKey m)
                            (case mAttributes m of Some a \<Rightarrow> attrGet a AttrOrderingSeq | None \<Rightarrow> []) w
                     else w)
               else w)
      in ackAndCount w)"

definition OrderingKeys_receiveLoop :: "delivery rcvIn list \<Rightarrow> OrderingKeysWorker \<Rightarrow> flow \<times> settle list \<times> bool \<times> OrderingKeysWorker" where
  "OrderingKeys_receiveLoop = receiveLoop True (\<lambda>d w. OrderingKeys_handleMessage (consumerName w) d w)"

definition OrderingKeys_ResetAfterWarmup :: "OrderingKeysWorker \<Rightarrow> OrderingKeysWorker" where
  "OrderingKeys_ResetAfterWarmup w = (onBase ResetAfterWarmup w)\<lparr>perKey := []\<rparr>"

text \<open>The producer keeps its own per-key sequence numbers and its round-robin index; a new
  producer starts them at zero.\<close>

record keyState =
  keySeq :: "u64 list"
  rr :: nat

definition newKeyState :: keyState where
  "newKeyState = \<lparr>keySeq = replicate orderingKeyCount 0, rr = 0\<rparr>"

definition OrderingKeys_produce :: "int \<Rightarrow> pubIn \<Rightarrow> keyState \<times> OrderingKeysWorker \<Rightarrow> flow \<times> Msg list \<times> keyState \<times> OrderingKeysWorker" where
  "OrderingKeys_produce i inp s =
     (let (ks, w) = s in
      if piStop inp \<or> piRateErr inp then (Stop, [], ks, w)
      else
        (let pid = producerName w i;
             keyIdx = rr ks mod orderingKeyCount;
             key = pid @ ''-k'' @ FormatInt (int keyIdx);
             oseq = keySeq ks ! keyIdx + 1;
             ks = \<lparr>keySeq = (keySeq ks)[keyIdx := oseq], rr = rr ks + 1\<rparr>;
             n = wseq w + 1;
             w = w\<lparr>wseq := n\<rparr>
         in case nextBody inp w of
              None \<Rightarrow> (Panic, [], ks, w)
            | Some (body, hex) \<Rightarrow>
                (let attrs = stampAttrs (piStamp inp) pid n hex @ [(AttrOrderingSeq, FormatUint oseq)] in
                 case PublishOrdered (piSend inp) key body attrs of
                   (Inl e, _) \<Rightarrow> if piCtxErr inp then (Stop, [], ks, w)
                                 else (Next, [], ks, onBase (recordError ''publish_failure'') w)
                 | (Inr _, _) \<Rightarrow>
                     (Next, [(mkMsg body attrs)\<lparr>mOrderingKey := key\<rparr>], ks,
                      onBase (\<lambda>b. recordSent (int (length body)) pid (metricObserveSend (piDur inp) b)) w))))"

definition OrderingKeys_StopConsumers :: "OrderingKeysWorker \<Rightarrow> OrderingKeysWorker" where
  "OrderingKeys_StopConsumers = onBase StopConsumers"

section \<open>Exactly once\<close>

record ExactlyOnceWorker = SeqWorker +
  eoTopicID :: string
  eoSubID :: string
  eoSubPath :: string

definition NewExactlyOnceWorker :: "environ \<Rightarrow> Config \<Rightarrow> int \<Rightarrow> ExactlyOnceWorker option" where
  "NewExactlyOnceWorker getenv c idx =
     (let topic = TopicName getenv WorkerExactlyOnce idx;
          sid = SubscriptionName getenv WorkerExactlyOnce idx
      in map_option (\<lambda>b. \<lparr>core = b, wseq = 0, eoTopicID = topic, eoSubID = sid, eoSubPath = []\<rparr>)
           (NewBaseWorker getenv WorkerExactlyOnce (MappedTopicChannel topic) idx c))"

text \<open>\<open>clientErr\<close> is the answer of the client constructor, \<open>ackErr\<close> of the unary acknowledge.\<close>

definition runInvalidAckProbe :: "rpc_error option \<Rightarrow> rpc_error option \<Rightarrow> ExactlyOnceWorker \<Rightarrow> ExactlyOnceWorker" where
  "runInvalidAckProbe clientErr ackErr w =
     (if \<not> ExactlyOnceProbe (GCP (cfg (core w))) then w
      else if clientErr \<noteq> None then onBase (recordError ''ack_failure'') w
      else
        (let w = w\<lparr>eoSubPath := SubscriptionPath (psProjectID (psCfg (core w))) (eoSubID w)\<rparr>;
             status = ackStatusFromError ackErr;
             w = onBase (markRan InvalidAckRan) w
         in if status = AckInvalidAckID \<or> (IsFailedPrecondition ackErr \<and> AckErrorReason ackErr = InvalidAckIDReason)
            then onBase recordExactlyOnceInvalidAckConfirmed w
            else w))"

definition ExactlyOnce_Start :: "sdk \<Rightarrow> rpc_error option \<Rightarrow> rpc_error option \<Rightarrow> ExactlyOnceWorker \<Rightarrow>
    rpc_error option \<times> ExactlyOnceWorker" where
  "ExactlyOnce_Start k clientErr ackErr w =
     (let (err, w) = startConsuming [sdkClient k, ensureTopic k (eoTopicID w),
            ensureSubscription k (eoSubID w)
              ((plainSubscription (eoTopicID w) (AckDeadlineSeconds (GCP (cfg (core w)))))\<lparr>scExactlyOnce := True\<rparr>)] w
      in if err = None then (None, runInvalidAckProbe clientErr ackErr w) else (err, w))"

text \<open>The two answers are those of the two \<^verbatim>\<open>AckWithResult\<close> calls; the second is only made
  when the first did not succeed.\<close>

definition ackWithReconciliation :: "(rpc_error + ack_status) \<Rightarrow> (rpc_error + ack_status) \<Rightarrow> ExactlyOnceWorker \<Rightarrow>
    settle list \<times> ExactlyOnceWorker" where
  "ackWithReconciliation r1 r2 w =
     (if r1 = Inr AckSuccess then ([DoAck], onBase (\<lambda>b. recordAcked (recordExactlyOnceAck True b)) w)
      else
        (let w = onBase (recordExactlyOnceAck False) w in
         if r2 = Inr AckSuccess
         then ([DoAck, DoAck], onBase (\<lambda>b. recordAcked (recordExactlyOnceAck True (reconcileExactlyOnce b))) w)
         else ([DoAck, DoAck], onBase (recordError ''ack_failure'') w)))"

record ackDelivery = delivery +
  dAck1 :: "rpc_error + ack_status"
  dAck2 :: "rpc_error + ack_status"

definition ExactlyOnce_handleMessage :: "string \<Rightarrow> ackDelivery \<Rightarrow> ExactlyOnceWorker \<Rightarrow> settle list \<times> ExactlyOnceWorker" where
  "ExactlyOnce_handleMessage consumerID d w =
     (let m = dMsg d;
          w = onBase (recordReceived (int (length (mData m))) consumerID) w;
          w = onBase (markRan ConfirmationsRan) w;
          (pid, n, hex, sentAt, ok) = extractMeta (mAttributes m);
          w = (if ok then onBase (\<lambda>b. fst (recordTracked pid n (noteArrival (dNow d) (mData m) hex sentAt b))) w else w)
      in ackWithReconciliation (dAck1 d) (dAck2 d) w)"

definition ExactlyOnce_receiveLoop :: "ackDelivery rcvIn list \<Rightarrow> ExactlyOnceWorker \<Rightarrow> flow \<times> settle list \<times> bool \<times> ExactlyOnceWorker" where
  "ExactlyOnce_receiveLoop = receiveLoop True (\<lambda>d w. ExactlyOnce_handleMessage (consumerName w) d w)"

definition ExactlyOnce_produce :: "int \<Rightarrow> pubIn \<Rightarrow> ExactlyOnceWorker \<Rightarrow> flow \<times> Msg list \<times> ExactlyOnceWorker" where
  "ExactlyOnce_produce = produceOne"

definition ExactlyOnce_StopConsumers :: "ExactlyOnceWorker \<Rightarrow> ExactlyOnceWorker" where
  "ExactlyOnce_StopConsumers = onBase StopConsumers"

section \<open>Filtering\<close>

record FilteringWorker = WorkerCore +
  fiTopicID :: string
  fiSubID :: string
  nonMatchSeq :: u64

definition filterMatchAttr :: string where "filterMatchAttr = ''match''"
definition filterMatchYes :: string where "filterMatchYes = ''yes''"
definition filterMatchNo :: string where "filterMatchNo = ''no''"

definition filterExpr :: string where
  "filterExpr = ''attributes.'' @ filterMatchAttr @ '' = '' @ [CHR 0x22] @ filterMatchYes @ [CHR 0x22]"

definition NewFilteringWorker :: "environ \<Rightarrow> Config \<Rightarrow> int \<Rightarrow> FilteringWorker option" where
  "NewFilteringWorker getenv c idx =
     (let topic = TopicName getenv WorkerFiltering idx;
          sid = SubscriptionName getenv WorkerFiltering idx
      in map_option (\<lambda>b. \<lparr>core = b, fiTopicID = topic, fiSubID = sid, nonMatchSeq = 0\<rparr>)
           (NewBaseWorker getenv WorkerFiltering (MappedTopicChannel topic) idx c))"

definition Filtering_Start :: "sdk \<Rightarrow> FilteringWorker \<Rightarrow> rpc_error option \<times> FilteringWorker" where
  "Filtering_Start k w =
     startConsuming [sdkClient k, ensureTopic k (fiTopicID w),
       ensureSubscription k (fiSubID w)
         (FilteredSubscriptionConfig (fiTopicID w) (AckDeadlineSeconds (GCP (cfg (core w)))) filterExpr)] w"

definition attrOf :: "Msg \<Rightarrow> string \<Rightarrow> string" where
  "attrOf m k = (case mAttributes m of Some a \<Rightarrow> attrGet a k | None \<Rightarrow> [])"

definition Filtering_handleMessage :: "string \<Rightarrow> delivery \<Rightarrow> FilteringWorker \<Rightarrow> settle list \<times> FilteringWorker" where
  "Filtering_handleMessage consumerID d w =
     (let m = dMsg d;
          w = onBase (recordReceived (int (length (mData m))) consumerID) w
      in if attrOf m filterMatchAttr \<noteq> filterMatchYes then ackAndCount (onBase recordFilterMismatch w)
         else
           (let w = onBase recordFilterMatchedDelivered w;
                (pid, n, hex, sentAt, ok) = extractMeta (mAttributes m);
                w = (if ok then onBase (\<lambda>b. fst (recordTracked pid n (noteArrival (dNow d) (mData m) hex sentAt b))) w else w)
            in ackAndCount w))"

definition Filtering_receiveLoop :: "delivery rcvIn list \<Rightarrow> FilteringWorker \<Rightarrow> flow \<times> settle list \<times> bool \<times> FilteringWorker" where
  "Filtering_receiveLoop = receiveLoop True (\<lambda>d w. Filtering_handleMessage (consumerName w) d w)"

definition publishNonMatch :: "pubIn \<Rightarrow> string \<Rightarrow> string \<Rightarrow> FilteringWorker \<Rightarrow> Msg list \<times> FilteringWorker" where
  "publishNonMatch inp body hex w =
     (let n = nonMatchSeq w + 1; w = w\<lparr>nonMatchSeq := n\<rparr>;
          attrs = stampAttrs (piStamp inp) (''n-'' @ channelName (core w)) n hex @ [(filterMatchAttr, filterMatchNo)]
      in case PublishSync (piSend inp) body attrs of
           Inl e \<Rightarrow> ([], if piCtxErr inp then w else onBase (recordError ''publish_failure'') w)
         | Inr _ \<Rightarrow> ([mkMsg body attrs], w))"

record matchState =
  matchSeq :: u64
  tick :: u64

definition newMatchState :: matchState where "newMatchState = \<lparr>matchSeq = 0, tick = 0\<rparr>"

definition Filtering_produce :: "int \<Rightarrow> pubIn \<Rightarrow> matchState \<times> FilteringWorker \<Rightarrow> flow \<times> Msg list \<times> matchState \<times> FilteringWorker" where
  "Filtering_produce i inp s =
     (let (ms, w) = s in
      if piStop inp \<or> piRateErr inp then (Stop, [], ms, w)
      else
        (let pid = producerName w i in
         case nextBody inp w of
           None \<Rightarrow> (Panic, [], ms, w)
         | Some (body, hex) \<Rightarrow>
             (let matching = (tick ms mod 2 = 0); ms = ms\<lparr>tick := tick ms + 1\<rparr> in
              if \<not> matching then (let (out, w) = publishNonMatch inp body hex w in (Next, out, ms, w))
              else
                (let n = matchSeq ms + 1;
                     attrs = stampAttrs (piStamp inp) pid n hex @ [(filterMatchAttr, filterMatchYes)] in
                 case PublishSync (piSend inp) body attrs of
                   Inl e \<Rightarrow> if piCtxErr inp then (Stop, [], ms, w)
                            else (Next, [], ms, onBase (recordError ''publish_failure'') w)
                 | Inr _ \<Rightarrow>
                     (Next, [mkMsg body attrs], ms\<lparr>matchSeq := n\<rparr>,
                      onBase (\<lambda>b. recordSent (int (length body)) pid (metricObserveSend (piDur inp) b)) w)))))"

definition Filtering_StopConsumers :: "FilteringWorker \<Rightarrow> FilteringWorker" where
  "Filtering_StopConsumers = onBase StopConsumers"

section \<open>Nack and redelivery\<close>

datatype nackState = stateNacked | stateRedelivered

record NackRedeliveryWorker = SeqWorker +
  nrTopicID :: string
  nrSubID :: string
  nackFraction :: float64
  nacked :: "(string, nackState) gomap"

definition clampFraction :: "float64 \<Rightarrow> float64" where
  "clampFraction nf = (let nf = (if flt nf (Fin 0) then Fin 0 else nf) in if fgt nf (Fin 1) then Fin 1 else nf)"

definition NewNackRedeliveryWorker :: "environ \<Rightarrow> Config \<Rightarrow> int \<Rightarrow> NackRedeliveryWorker option" where
  "NewNackRedeliveryWorker getenv c idx =
     (let topic = TopicName getenv WorkerNackRedelivery idx;
          sid = SubscriptionName getenv WorkerNackRedelivery idx
      in map_option (\<lambda>b. \<lparr>core = b, wseq = 0, nrTopicID = topic, nrSubID = sid,
             nackFraction = clampFraction (NackFraction (GCP c)), nacked = []\<rparr>)
           (NewBaseWorker getenv WorkerNackRedelivery (MappedTopicChannel topic) idx c))"

definition NackRedelivery_Start :: "sdk \<Rightarrow> NackRedeliveryWorker \<Rightarrow> rpc_error option \<times> NackRedeliveryWorker" where
  "NackRedelivery_Start k w =
     startConsuming [sdkClient k, ensureTopic k (nrTopicID w),
       ensureSubscription k (nrSubID w) (plainSubscription (nrTopicID w) (AckDeadlineSeconds (GCP (cfg (core w)))))] w"

definition consumerStreams :: "NackRedeliveryWorker \<Rightarrow> int" where
  "consumerStreams w = (let n = ConsumersPerChannel (workerCfg (core w)) in if n < 1 then 1 else n)"

text \<open>\<open>dDraw\<close> is the value of \<^verbatim>\<open>rng.Float64\<close>.\<close>

record drawDelivery = delivery +
  dDraw :: float64

definition NackRedelivery_handleMessage :: "string \<Rightarrow> drawDelivery \<Rightarrow> NackRedeliveryWorker \<Rightarrow> settle list \<times> NackRedeliveryWorker" where
  "NackRedelivery_handleMessage consumerID d w =
     (let m = dMsg d;
          w = onBase (recordReceived (int (length (mData m))) consumerID) w;
          (pid, n, hex, sentAt, ok) = extractMeta (mAttributes m)
      in if \<not> ok then ackAndCount w
         else
           (let w = onBase (\<lambda>b. fst (recordTracked pid n (noteArrival (dNow d) (mData m) hex sentAt b))) w;
                key = msgKey pid n
            in case map_of (nacked w) key of
                 Some stateNacked \<Rightarrow>
                   (let (a, w) = ackAndCount (w\<lparr>nacked := AList.update key stateRedelivered (nacked w)\<rparr>)
                    in (a, onBase recordNackRedelivered w))
               | Some stateRedelivered \<Rightarrow> ackAndCount w
               | None \<Rightarrow>
                   if flt (dDraw d) (nackFraction w)
                   then ([DoNack], w\<lparr>nacked := AList.update key stateNacked (nacked w)\<rparr>)
                   else ackAndCount w))"

definition NackRedelivery_receiveLoop :: "drawDelivery rcvIn list \<Rightarrow> NackRedeliveryWorker \<Rightarrow>
    flow \<times> settle list \<times> bool \<times> NackRedeliveryWorker" where
  "NackRedelivery_receiveLoop = receiveLoop True (\<lambda>d w. NackRedelivery_handleMessage (consumerName w) d w)"

definition NackRedelivery_produce :: "int \<Rightarrow> pubIn \<Rightarrow> NackRedeliveryWorker \<Rightarrow> flow \<times> Msg list \<times> NackRedeliveryWorker" where
  "NackRedelivery_produce = produceOne"

definition NackRedelivery_StopConsumers :: "NackRedeliveryWorker \<Rightarrow> NackRedeliveryWorker" where
  "NackRedelivery_StopConsumers = onBase StopConsumers"

section \<open>Dead letter\<close>

record DeadLetterWorker = SeqWorker +
  srcTopicID :: string
  dltTopicID :: string
  srcSubID :: string
  dltSubID :: string
  probeTopicID :: string
  probeSubID :: string
  published :: "(string, instant) gomap"
  republished :: "string set"

definition deadLetterBudget :: "Config \<Rightarrow> duration" where
  "deadLetterBudget c =
     (let attempts = (if MaxDeliveryAttempts (GCP c) < 5 then 5 else MaxDeliveryAttempts (GCP c))
      in i64 (i64 (i64 (AckDeadlineSeconds (GCP c) * Second) * (attempts + 2)) + 15 * Second))"

definition NewDeadLetterWorker :: "environ \<Rightarrow> Config \<Rightarrow> int \<Rightarrow> DeadLetterWorker option" where
  "NewDeadLetterWorker getenv c idx =
     (let topic = TopicName getenv WorkerDeadLetter idx;
          sid = SubscriptionName getenv WorkerDeadLetter idx
      in map_option (\<lambda>b. \<lparr>core = b, wseq = 0, srcTopicID = topic,
             dltTopicID = DeadLetterTopicName getenv WorkerDeadLetter idx,
             srcSubID = sid, dltSubID = DeadLetterSubscriptionName getenv WorkerDeadLetter idx,
             probeTopicID = topic @ ''_rbprobe'', probeSubID = sid @ ''_rbprobe'',
             published = [], republished = {}\<rparr>)
           (NewBaseWorker getenv WorkerDeadLetter (MappedTopicChannel topic) idx c))"

definition sourceSubscription :: "DeadLetterWorker \<Rightarrow> SubscriptionConfig" where
  "sourceSubscription w =
     (let g = GCP (cfg (core w)); attempts = (if MaxDeliveryAttempts g < 5 then 5 else MaxDeliveryAttempts g)
      in (plainSubscription (srcTopicID w) (AckDeadlineSeconds g))
           \<lparr>scDeadLetter := Some (''projects/'' @ psProjectID (psCfg (core w)) @ ''/topics/'' @ dltTopicID w, attempts),
            scRetry := Some (10 * Millisecond, 50 * Millisecond)\<rparr>)"

definition DeadLetter_Start :: "sdk \<Rightarrow> rpc_error option \<Rightarrow> DeadLetterWorker \<Rightarrow> rpc_error option \<times> DeadLetterWorker" where
  "DeadLetter_Start k subClientErr w =
     startConsuming [sdkClient k, ensureTopic k (srcTopicID w), ensureTopic k (dltTopicID w),
       ensureSubscription k (srcSubID w) (sourceSubscription w),
       ensureSubscription k (dltSubID w) (plainSubscription (dltTopicID w) (AckDeadlineSeconds (GCP (cfg (core w))))),
       subClientErr] w"

text \<open>One pull of the source driver: an error, or the delivery attempts of the messages it
  returned. It never acknowledges.\<close>

record pullIn =
  plStop :: bool
  plErr :: bool
  plCtxErr :: bool
  plAttempts :: "int list"
  plWake :: bool

definition sourceDrive :: "pullIn \<Rightarrow> DeadLetterWorker \<Rightarrow> flow \<times> settle list \<times> DeadLetterWorker" where
  "sourceDrive inp w =
     (if plStop inp then (Stop, [], w)
      else if plErr inp then
        (if plCtxErr inp then (Stop, [], w)
         else (if plWake inp then Next else Stop, [], onBase (recordError ''receive_failure'') w))
      else
        (let w = fold (\<lambda>a w. if 0 < a then onBase (setDeliveryAttemptMax (word_of_int a)) w else w) (plAttempts inp) w
         in (if plAttempts inp = [] \<and> \<not> plWake inp then Stop else Next, [], w)))"

definition sourceDriveLoop :: "pullIn list \<Rightarrow> DeadLetterWorker \<Rightarrow> flow \<times> settle list \<times> DeadLetterWorker" where
  "sourceDriveLoop inps w = runLoop sourceDrive inps (onBase signalReady w)"

definition handleDLQMessage :: "delivery \<Rightarrow> DeadLetterWorker \<Rightarrow> settle list \<times> DeadLetterWorker" where
  "handleDLQMessage d w =
     (let m = dMsg d;
          w = onBase (recordReceived (int (length (mData m))) (''c-dlq-'' @ channelName (core w))) w;
          (pid, n, _, sentAt, ok) = extractMeta (mAttributes m);
          w = (if ok then
                 (let w = (case sentAt of Some t \<Rightarrow> onBase (recordLatency (timeSub (dNow d) t)) w | None \<Rightarrow> w);
                      key = msgKey pid n
                  in if key \<notin> republished w
                     then onBase recordDeadLetterRepublished (w\<lparr>republished := insert key (republished w)\<rparr>)
                     else w)
               else w)
      in ackAndCount w)"

definition dlqConsumeLoop :: "delivery rcvIn list \<Rightarrow> DeadLetterWorker \<Rightarrow> flow \<times> settle list \<times> bool \<times> DeadLetterWorker" where
  "dlqConsumeLoop = receiveLoop False handleDLQMessage"

definition DeadLetter_produce :: "int \<Rightarrow> pubIn \<Rightarrow> DeadLetterWorker \<Rightarrow> flow \<times> Msg list \<times> DeadLetterWorker" where
  "DeadLetter_produce = produceWith (\<lambda>key t w. w\<lparr>published := AList.update key t (published w)\<rparr>)"

definition DeadLetter_ResetAfterWarmup :: "DeadLetterWorker \<Rightarrow> DeadLetterWorker" where
  "DeadLetter_ResetAfterWarmup w = (onBase ResetAfterWarmup w)\<lparr>published := [], republished := {}\<rparr>"

definition overdue :: "instant \<Rightarrow> duration \<Rightarrow> string set \<Rightarrow> (string, instant) gomap \<Rightarrow> u64" where
  "overdue now budget seen m =
     fold (\<lambda>(key, t) n. if key \<in> seen then n else if budget < timeSub now t then n + 1 else n) m 0"

definition reconcileDeadLetterLoss :: "instant \<Rightarrow> DeadLetterWorker \<Rightarrow> DeadLetterWorker" where
  "reconcileDeadLetterLoss now w =
     (let lost = overdue now (deadLetterBudget (cfg (core w))) (republished w) (published w)
      in if 0 < lost then onBase (recordDeadLetterLost lost) w else w)"

definition DeadLetter_StopConsumers :: "instant \<Rightarrow> DeadLetterWorker \<Rightarrow> DeadLetterWorker" where
  "DeadLetter_StopConsumers now w = onBase StopConsumers (reconcileDeadLetterLoss now w)"

subsection \<open>The retry-backoff probe\<close>

fun growingGaps :: "duration list \<Rightarrow> bool" where
  "growingGaps (a # b # gs) = (go_quot (i64 (a * 3)) 2 \<le> b \<or> growingGaps (b # gs))"
| "growingGaps _ = False"

record probeState =
  rbSeen :: instant
  rbBoundary :: "instant option"
  rbGaps :: "duration list"
  rbVisible :: bool

record probePoll =
  ppCtxErr :: bool
  ppErr :: bool
  ppNow :: instant
  ppGot :: bool
  ppWake :: bool

definition notePoll :: "instant \<Rightarrow> bool \<Rightarrow> probeState \<Rightarrow> probeState" where
  "notePoll now got s =
     (if got then
        (let s = (if \<not> rbVisible s
                  then s\<lparr>rbGaps := (case rbBoundary s of Some t \<Rightarrow> rbGaps s @ [timeSub now t] | None \<Rightarrow> rbGaps s),
                         rbBoundary := Some now\<rparr>
                  else s)
         in s\<lparr>rbVisible := True, rbSeen := now\<rparr>)
      else if rbVisible s \<and> 1500 * Millisecond < timeSub now (rbSeen s) then s\<lparr>rbVisible := False\<rparr>
      else s)"

text \<open>The polls end with the window: each poll of the list happens before its deadline.\<close>

fun probeLoop :: "probePoll list \<Rightarrow> probeState \<Rightarrow> DeadLetterWorker \<Rightarrow> DeadLetterWorker" where
  "probeLoop [] s w = w"
| "probeLoop (p # ps) s w =
     (if ppCtxErr p then w
      else if ppErr p then (if ppWake p then probeLoop ps s w else w)
      else
        (let s = notePoll (ppNow p) (ppGot p) s
         in if growingGaps (rbGaps s) then onBase recordRetryBackoffObserved w
            else if ppWake p then probeLoop ps s w else w))"

definition retryBackoffProbe :: "sdk \<Rightarrow> pubIn \<Rightarrow> probePoll list \<Rightarrow> DeadLetterWorker \<Rightarrow> DeadLetterWorker option" where
  "retryBackoffProbe k inp polls w =
     (if ensureTopic k (probeTopicID w) \<noteq> None then Some w
      else if ensureSubscription k (probeSubID w)
                ((plainSubscription (probeTopicID w) 10)\<lparr>scRetry := Some (Second, 8 * Second)\<rparr>) \<noteq> None then Some w
      else case nextBody inp w of
             None \<Rightarrow> None
           | Some (body, hex) \<Rightarrow>
               Some (case PublishSync (piSend inp) body
                            (stampAttrs (piStamp inp) (''p-rbprobe-'' @ channelName (core w)) 0 hex) of
                       Inl e \<Rightarrow> w
                     | Inr _ \<Rightarrow> probeLoop polls \<lparr>rbSeen = 0, rbBoundary = None, rbGaps = [], rbVisible = False\<rparr> w))"

section \<open>Cross-protocol interop\<close>

record CrossProtocolInteropWorker = SeqWorker +
  cpTopicID :: string
  cpChannel :: string
  cpPublished :: "(string, instant) gomap"
  consumed :: "string set"

definition interopConvergenceBudget :: duration where
  "interopConvergenceBudget = 10 * Second"

definition NewCrossProtocolInteropWorker :: "environ \<Rightarrow> Config \<Rightarrow> int \<Rightarrow> CrossProtocolInteropWorker option" where
  "NewCrossProtocolInteropWorker getenv c idx =
     (let topic = TopicName getenv WorkerCrossProtocol idx
      in map_option (\<lambda>b. \<lparr>core = b, wseq = 0, cpTopicID = topic, cpChannel = MappedTopicChannel topic,
             cpPublished = [], consumed = {}\<rparr>)
           (NewBaseWorker getenv WorkerCrossProtocol (MappedTopicChannel topic) idx c))"

definition CrossProtocol_Start :: "sdk \<Rightarrow> rpc_error option \<Rightarrow> rpc_error option \<Rightarrow> CrossProtocolInteropWorker \<Rightarrow>
    rpc_error option \<times> CrossProtocolInteropWorker" where
  "CrossProtocol_Start k dialErr subErr w =
     (let (err, w) = startConsuming [sdkClient k, ensureTopic k (cpTopicID w), dialErr, subErr] w
      in if err = None then (None, onBase signalReady w) else (err, w))"

definition onNativeError :: "CrossProtocolInteropWorker \<Rightarrow> CrossProtocolInteropWorker" where
  "onNativeError w = (if consuming (core w) then onBase (recordError ''interop_failure'') w else w)"

record NativeEvent =
  evBody :: string
  evTags :: "attributes option"
  evSequence :: u64

definition onNativeEvent :: "instant \<Rightarrow> NativeEvent \<Rightarrow> CrossProtocolInteropWorker \<Rightarrow> CrossProtocolInteropWorker" where
  "onNativeEvent now ev w =
     (let w = onBase (recordReceived (int (length (evBody ev))) (''c-native-'' @ channelName (core w))) w;
          (pid, n, hex, sentAt, ok) = extractMeta (evTags ev)
      in if \<not> ok then w
         else
           (let w = onBase (\<lambda>b. fst (recordTracked pid n (noteArrival now (evBody ev) hex sentAt b))) w;
                key = msgKey pid n
            in if key \<notin> consumed w then onBase recordInteropConverged (w\<lparr>consumed := insert key (consumed w)\<rparr>) else w))"

definition CrossProtocol_produce :: "int \<Rightarrow> pubIn \<Rightarrow> CrossProtocolInteropWorker \<Rightarrow> flow \<times> Msg list \<times> CrossProtocolInteropWorker" where
  "CrossProtocol_produce = produceWith (\<lambda>key t w. w\<lparr>cpPublished := AList.update key t (cpPublished w)\<rparr>)"

definition CrossProtocol_ResetAfterWarmup :: "CrossProtocolInteropWorker \<Rightarrow> CrossProtocolInteropWorker" where
  "CrossProtocol_ResetAfterWarmup w = (onBase ResetAfterWarmup w)\<lparr>cpPublished := [], consumed := {}\<rparr>"

definition reconcileConvergence :: "instant \<Rightarrow> CrossProtocolInteropWorker \<Rightarrow> CrossProtocolInteropWorker" where
  "reconcileConvergence now w =
     (let diverged = overdue now interopConvergenceBudget (consumed w) (cpPublished w)
      in if 0 < diverged then onBase (recordInteropDiverged diverged) w else w)"

definition CrossProtocol_StopConsumers :: "instant \<Rightarrow> CrossProtocolInteropWorker \<Rightarrow> CrossProtocolInteropWorker" where
  "CrossProtocol_StopConsumers now w = onBase StopConsumers (reconcileConvergence now w)"

end
