(* ===== verification/WorkerProps.thy ===== *)
theory WorkerProps
  imports Workers
begin

text \<open>
  What the message handlers and producers of \<open>Workers\<close> guarantee: every delivery is settled
  once and counted, the per-worker bookkeeping (ordering high-water marks, nack states,
  exactly-once reconciliation, dead-letter and interop sets) is exact, and what the
  producers put on the wire composes with the tracker.
\<close>

section \<open>Frames\<close>

lemma core_onBase [simp]: "core (onBase f w) = f (core w)"
  by (simp add: onBase_def)

lemma wseq_onBase [simp]: "wseq (onBase f w) = wseq w"
  by (simp add: onBase_def)

lemma perKey_onBase [simp]: "perKey (onBase f w) = perKey w"
  by (simp add: onBase_def)

lemma nacked_onBase [simp]: "nacked (onBase f w) = nacked w" "nackFraction (onBase f w) = nackFraction w"
  by (simp_all add: onBase_def)

lemma published_onBase [simp]: "published (onBase f w) = published w" "republished (onBase f w) = republished w"
  by (simp_all add: onBase_def)

lemma channelName_frame [simp]:
  "channelName (bump c n b) = channelName b" "channelName (emit m b) = channelName b"
  by (simp_all add: bump_def emit_def)

lemma noteArrival_cnt:
  "cnt (noteArrival now body hex t b) c =
     cnt b c + (if c = Corrupted \<and> hex \<noteq> [] \<and> \<not> VerifyCRC body hex then 1 else 0)"
  by (simp add: noteArrival_def Let_def worker_defs split: option.split)

lemma noteArrival_trk [simp]: "trk (noteArrival now body hex t b) = trk b"
  by (simp add: noteArrival_def Let_def worker_defs split: option.split)

lemma noteArrival_frame [simp]:
  "channelName (noteArrival now body hex t b) = channelName b" "ran (noteArrival now body hex t b) = ran b"
  by (simp_all add: noteArrival_def Let_def worker_defs split: option.split)

lemma recordTracked_channel [simp]: "channelName (fst (recordTracked pid seq b)) = channelName b"
  by (simp add: recordTracked_def recordDuplicated_def split_beta Let_def)

lemma recordReceived_trk [simp]: "trk (recordReceived n c b) = trk b" "channelName (recordReceived n c b) = channelName b"
  by (simp_all add: worker_defs)

lemma ackAndCount_simps [simp]:
  "fst (ackAndCount w) = [DoAck]"
  "cnt (core (snd (ackAndCount w))) c = cnt (core w) c + (if c = Acked then 1 else 0)"
  "trk (core (snd (ackAndCount w))) = trk (core w)"
  "channelName (core (snd (ackAndCount w))) = channelName (core w)"
  by (simp_all add: ackAndCount_def worker_defs)

lemma ackAndCount_fields [simp]:
  "nacked (snd (ackAndCount w)) = nacked w" "nackFraction (snd (ackAndCount w)) = nackFraction w"
  by (simp_all add: ackAndCount_def)

lemmas handler_simps = Let_def split_beta noteArrival_cnt recordTracked_cnt worker_defs

section \<open>The contract of a message handler\<close>

text \<open>A handler counts the delivery and settles it with one ack or one nack, and the ack
  counter follows the acks. The receive loop around any such handler accounts for every
  delivery and for every reconnection.\<close>

definition deliveries :: "'m rcvIn list \<Rightarrow> nat" where
  "deliveries inps = sum_list (map (length \<circ> riMsgs) inps)"

locale settling_handler =
  fixes h :: "'m \<Rightarrow> 'a WorkerCore_scheme \<Rightarrow> settle list \<times> 'a WorkerCore_scheme"
  assumes one: "length (fst (h m w)) = 1"
    and received: "cnt (core (snd (h m w))) Received = cnt (core w) Received + 1"
    and acked: "cnt (core (snd (h m w))) Acked = cnt (core w) Acked + of_nat (count_list (fst (h m w)) DoAck)"
    and reconnections: "cnt (core (snd (h m w))) Reconnections = cnt (core w) Reconnections"
begin

lemma all_settled:
  "length (fst (handleAll h ms w)) = length ms \<and>
   cnt (core (snd (handleAll h ms w))) Received = cnt (core w) Received + of_nat (length ms) \<and>
   cnt (core (snd (handleAll h ms w))) Acked = cnt (core w) Acked + of_nat (count_list (fst (handleAll h ms w)) DoAck) \<and>
   cnt (core (snd (handleAll h ms w))) Reconnections = cnt (core w) Reconnections"
proof (induction ms arbitrary: w)
  case (Cons m ms)
  show ?case
    using Cons [of "snd (h m w)"] one [of m w] received [of m w] acked [of m w] reconnections [of m w]
    by (simp add: split_beta Let_def)
qed simp

lemma turn_settled:
  assumes "\<not> riStop inp"
  shows "length (fst (snd (receiveTurn ann h inp (first, w)))) = length (riMsgs inp) \<and>
    \<not> fst (snd (snd (receiveTurn ann h inp (first, w)))) \<and>
    cnt (core (snd (snd (snd (receiveTurn ann h inp (first, w)))))) Received = cnt (core w) Received + of_nat (length (riMsgs inp)) \<and>
    cnt (core (snd (snd (snd (receiveTurn ann h inp (first, w)))))) Reconnections =
      cnt (core w) Reconnections + (if first then 0 else 1)"
proof -
  let ?w = "\<lambda>w. if ann then onBase signalReady w else w"
  note s = all_settled [of "riMsgs inp" "?w (if first then w else onBase recordReconnection w)"]
  show ?thesis using assms s
    by (cases first; cases ann) (simp_all add: receiveTurn_def Let_def split_beta worker_defs signalReady_def)
qed

lemma loop_settled:
  assumes "\<forall>inp\<in>set inps. \<not> riStop inp \<and> \<not> riCtxErr inp \<and> riWake inp"
  shows "let (f, as, first', w') = runLoop (receiveTurn ann h) inps (first, w) in
    f = Next \<and> length as = deliveries inps \<and>
    cnt (core w') Received = cnt (core w) Received + of_nat (deliveries inps) \<and>
    cnt (core w') Reconnections = cnt (core w) Reconnections +
      of_nat (if first then length inps - 1 else length inps)"
  using assms
proof (induction inps arbitrary: first w)
  case Nil
  then show ?case by (simp add: deliveries_def)
next
  case (Cons inp inps)
  obtain f as fs w1 where t: "receiveTurn ann h inp (first, w) = (f, as, fs, w1)" by (metis prod_cases4)
  have f: "f = Next" using Cons.prems t by (auto simp: receiveTurn_def Let_def split_beta split: if_splits)
  have s: "length as = length (riMsgs inp)" "\<not> fs"
      "cnt (core w1) Received = cnt (core w) Received + of_nat (length (riMsgs inp))"
      "cnt (core w1) Reconnections = cnt (core w) Reconnections + (if first then 0 else 1)"
    using turn_settled [of inp ann first w] Cons.prems by (simp_all add: t)
  have ih: "let (f, as, first', w') = runLoop (receiveTurn ann h) inps (False, w1) in
      f = Next \<and> length as = deliveries inps \<and>
      cnt (core w') Received = cnt (core w1) Received + of_nat (deliveries inps) \<and>
      cnt (core w') Reconnections = cnt (core w1) Reconnections + of_nat (length inps)"
    using Cons.IH [of False w1] Cons.prems by simp
  show ?case using ih f s by (auto simp: t Let_def split_beta deliveries_def)
qed

end

interpretation pp: settling_handler "PublishPull_handleMessage cid" for cid
  by unfold_locales (simp_all add: PublishPull_handleMessage_def handler_simps)

interpretation fo: settling_handler "FanOut_handleMessage sid" for sid
  by unfold_locales (simp_all add: FanOut_handleMessage_def handler_simps)

interpretation fi: settling_handler "Filtering_handleMessage cid" for cid
  by unfold_locales (simp_all add: Filtering_handleMessage_def handler_simps)

lemma checkOrdering_cnt:
  "c \<noteq> OrderingViolations \<Longrightarrow> cnt (core (checkOrdering pid k s w)) c = cnt (core w) c"
  by (simp add: checkOrdering_def Let_def worker_defs split: option.split)

interpretation ok: settling_handler "OrderingKeys_handleMessage cid" for cid
  by unfold_locales (simp_all add: OrderingKeys_handleMessage_def handler_simps checkOrdering_cnt)

interpretation nr: settling_handler "NackRedelivery_handleMessage cid" for cid
  by unfold_locales
    (simp_all add: NackRedelivery_handleMessage_def handler_simps split: option.split nackState.split)

interpretation dl: settling_handler handleDLQMessage
  by unfold_locales (simp_all add: handleDLQMessage_def handler_simps split: option.split)

section \<open>Nacked messages\<close>

definition deliveryKey :: "'x delivery_scheme \<Rightarrow> string option" where
  "deliveryKey d = (let (pid, n, _, _, ok) = extractMeta (mAttributes (dMsg d)) in if ok then Some (msgKey pid n) else None)"

text \<open>What should happen, read off the deliveries alone: a message is nacked on the first of its deliveries
  whose draw falls below the fraction, and it has recovered when it is delivered again after that.\<close>

definition drawn :: "float64 \<Rightarrow> drawDelivery \<Rightarrow> bool" where
  "drawn f d \<longleftrightarrow> flt (dDraw d) f"

definition nackAt :: "float64 \<Rightarrow> drawDelivery list \<Rightarrow> nat \<Rightarrow> bool" where
  "nackAt f ds i \<longleftrightarrow> deliveryKey (ds ! i) \<noteq> None \<and> drawn f (ds ! i) \<and>
     (\<forall>j<i. deliveryKey (ds ! j) = deliveryKey (ds ! i) \<longrightarrow> \<not> drawn f (ds ! j))"

definition recovered :: "float64 \<Rightarrow> drawDelivery list \<Rightarrow> string set" where
  "recovered f ds = {k. \<exists>i j. i < j \<and> j < length ds \<and> deliveryKey (ds ! i) = Some k \<and> drawn f (ds ! i) \<and>
     deliveryKey (ds ! j) = Some k}"

definition drawnKey :: "float64 \<Rightarrow> drawDelivery list \<Rightarrow> string \<Rightarrow> bool" where
  "drawnKey f ds k \<longleftrightarrow> (\<exists>d\<in>set ds. deliveryKey d = Some k \<and> drawn f d)"

lemma drawnKey_take: "j \<le> length ds \<Longrightarrow> drawnKey f (take j ds) k \<longleftrightarrow> (\<exists>i<j. deliveryKey (ds ! i) = Some k \<and> drawn f (ds ! i))"
  by (simp add: drawnKey_def nth_image [symmetric] Bex_def image_iff) blast

lemma recovered_iff:
  "k \<in> recovered f ds \<longleftrightarrow> (\<exists>j<length ds. deliveryKey (ds ! j) = Some k \<and> drawnKey f (take j ds) k)"
proof -
  have "(j < length ds \<and> deliveryKey (ds ! j) = Some k \<and> drawnKey f (take j ds) k) \<longleftrightarrow>
      (\<exists>i. i < j \<and> j < length ds \<and> deliveryKey (ds ! i) = Some k \<and> drawn f (ds ! i) \<and> deliveryKey (ds ! j) = Some k)" for j
    using drawnKey_take [of j ds f k] by auto
  then show ?thesis unfolding recovered_def by blast
qed

lemma recovered_snoc:
  "recovered f (ds @ [d]) = recovered f ds \<union> {k. deliveryKey d = Some k \<and> drawnKey f ds k}"
proof (rule set_eqI)
  fix k
  have "k \<in> recovered f (ds @ [d]) \<longleftrightarrow> (deliveryKey d = Some k \<and> drawnKey f ds k) \<or>
      (\<exists>j<length ds. deliveryKey ((ds @ [d]) ! j) = Some k \<and> drawnKey f (take j (ds @ [d])) k)"
    unfolding recovered_iff by (simp add: Ex_less_Suc)
  also have "(\<exists>j<length ds. deliveryKey ((ds @ [d]) ! j) = Some k \<and> drawnKey f (take j (ds @ [d])) k) \<longleftrightarrow> k \<in> recovered f ds"
    unfolding recovered_iff by (auto simp: nth_append)
  finally show "k \<in> recovered f (ds @ [d]) \<longleftrightarrow> k \<in> recovered f ds \<union> {k. deliveryKey d = Some k \<and> drawnKey f ds k}" by blast
qed

lemma recovered_drawn: "k \<in> recovered f ds \<Longrightarrow> drawnKey f ds k"
  by (auto simp: recovered_iff drawnKey_def dest: in_set_takeD)

lemma finite_recovered: "finite (recovered f ds)"
proof -
  have "recovered f ds \<subseteq> (\<lambda>j. the (deliveryKey (ds ! j))) ` {..<length ds}" by (force simp: recovered_iff)
  then show ?thesis by (rule finite_subset) simp
qed

text \<open>The first drawn delivery of a message is the one that is nacked.\<close>

lemma recovered_nacked:
  "recovered f ds = {k. \<exists>i j. i < j \<and> j < length ds \<and> nackAt f ds i \<and> deliveryKey (ds ! i) = Some k \<and> deliveryKey (ds ! j) = Some k}"
proof (intro set_eqI iffI)
  fix k
  assume "k \<in> recovered f ds"
  then obtain i j where ij: "i < j" "j < length ds" "deliveryKey (ds ! i) = Some k \<and> drawn f (ds ! i)" "deliveryKey (ds ! j) = Some k"
    by (auto simp: recovered_def)
  define n where "n = (LEAST i. deliveryKey (ds ! i) = Some k \<and> drawn f (ds ! i))"
  have "deliveryKey (ds ! n) = Some k \<and> drawn f (ds ! n)" "n \<le> i" "\<forall>m<n. \<not> (deliveryKey (ds ! m) = Some k \<and> drawn f (ds ! m))"
    unfolding n_def using ij(3) by (rule LeastI, rule Least_le, blast dest: not_less_Least)
  then show "k \<in> {k. \<exists>i j. i < j \<and> j < length ds \<and> nackAt f ds i \<and> deliveryKey (ds ! i) = Some k \<and> deliveryKey (ds ! j) = Some k}"
    using ij by (intro CollectI exI [of _ n] exI [of _ j]) (auto simp: nackAt_def)
qed (auto simp: recovered_def nackAt_def)

lemma nackAt_snoc:
  "i < length ds \<Longrightarrow> nackAt f (ds @ [d]) i = nackAt f ds i"
  "nackAt f (ds @ [d]) (length ds) \<longleftrightarrow> (\<exists>k. deliveryKey d = Some k \<and> drawn f d \<and> \<not> drawnKey f ds k)"
proof -
  show "i < length ds \<Longrightarrow> nackAt f (ds @ [d]) i = nackAt f ds i" by (simp add: nackAt_def nth_append)
  show "nackAt f (ds @ [d]) (length ds) \<longleftrightarrow> (\<exists>k. deliveryKey d = Some k \<and> drawn f d \<and> \<not> drawnKey f ds k)"
    by (auto simp: nackAt_def drawnKey_def nth_append all_set_conv_all_nth Bex_set list_ex_length)
qed

lemma handleAll_snoc:
  "handleAll h (ms @ [m]) w =
     (fst (handleAll h ms w) @ fst (h m (snd (handleAll h ms w))), snd (h m (snd (handleAll h ms w))))"
  by (induction ms arbitrary: w) (simp_all add: split_beta Let_def)

text \<open>One delivery, by what the map says of its message.\<close>

lemma nack_step:
  "NackRedelivery_handleMessage cid d w = r \<Longrightarrow>
   nackFraction (snd r) = nackFraction w \<and>
   (case deliveryKey d of
      None \<Rightarrow> fst r = [DoAck] \<and> nacked (snd r) = nacked w \<and> cnt (core (snd r)) NackRedelivered = cnt (core w) NackRedelivered
    | Some k \<Rightarrow>
       (case map_of (nacked w) k of
          Some stateNacked \<Rightarrow> fst r = [DoAck] \<and> nacked (snd r) = AList.update k stateRedelivered (nacked w) \<and>
            cnt (core (snd r)) NackRedelivered = cnt (core w) NackRedelivered + 1
        | Some stateRedelivered \<Rightarrow> fst r = [DoAck] \<and> nacked (snd r) = nacked w \<and>
            cnt (core (snd r)) NackRedelivered = cnt (core w) NackRedelivered
        | None \<Rightarrow> fst r = [if drawn (nackFraction w) d then DoNack else DoAck] \<and>
            nacked (snd r) = (if drawn (nackFraction w) d then AList.update k stateNacked (nacked w) else nacked w) \<and>
            cnt (core (snd r)) NackRedelivered = cnt (core w) NackRedelivered))"
proof -
  obtain pid n hex t ok where e: "extractMeta (mAttributes (dMsg d)) = (pid, n, hex, t, ok)" by (metis prod_cases5)
  have k: "deliveryKey d = (if ok then Some (msgKey pid n) else None)" by (simp add: deliveryKey_def e)
  assume r: "NackRedelivery_handleMessage cid d w = r"
  show ?thesis unfolding r [symmetric] k
    by (simp add: NackRedelivery_handleMessage_def e handler_simps drawn_def split: option.split nackState.split)
qed

lemma nack_run:
  fixes ds :: "drawDelivery list" and cid :: string
  assumes "nacked w = []"
  defines "r \<equiv> handleAll (NackRedelivery_handleMessage cid) ds w" and "f \<equiv> nackFraction w"
  shows "nackFraction (snd r) = f \<and>
    (\<forall>k. map_of (nacked (snd r)) k =
       (if k \<in> recovered f ds then Some stateRedelivered else if drawnKey f ds k then Some stateNacked else None)) \<and>
    fst r = map (\<lambda>i. if nackAt f ds i then DoNack else DoAck) [0..<length ds] \<and>
    cnt (core (snd r)) NackRedelivered = cnt (core w) NackRedelivered + of_nat (card (recovered f ds))"
  unfolding r_def
proof (induction ds rule: rev_induct)
  case Nil
  then show ?case by (simp add: f_def assms recovered_def drawnKey_def)
next
  case (snoc d ds)
  let ?p = "handleAll (NackRedelivery_handleMessage cid) ds w"
  let ?s = "NackRedelivery_handleMessage cid d (snd ?p)"
  have ih: "nackFraction (snd ?p) = f" "fst ?p = map (\<lambda>i. if nackAt f ds i then DoNack else DoAck) [0..<length ds]"
    "map_of (nacked (snd ?p)) k =
       (if k \<in> recovered f ds then Some stateRedelivered else if drawnKey f ds k then Some stateNacked else None)"
    "cnt (core (snd ?p)) NackRedelivered = cnt (core w) NackRedelivered + of_nat (card (recovered f ds))" for k
    using snoc by simp_all
  have dk: "drawnKey f (ds @ [d]) k \<longleftrightarrow> drawnKey f ds k \<or> deliveryKey d = Some k \<and> drawn f d" for k
    by (auto simp: drawnKey_def)
  note st = nack_step [OF refl, of cid d "snd ?p", unfolded ih(1,3)]
  have as: "map (\<lambda>i. if nackAt f (ds @ [d]) i then DoNack else DoAck) [0..<length (ds @ [d])] =
      fst ?p @ [if nackAt f (ds @ [d]) (length ds) then DoNack else DoAck]"
    by (simp add: ih(2) nackAt_snoc(1))
  show ?case
  proof (cases "deliveryKey d")
    case None
    then show ?thesis using st ih unfolding as handleAll_snoc fst_conv snd_conv
      by (simp add: recovered_snoc dk nackAt_snoc(2))
  next
    case (Some k)
    have rec: "recovered f (ds @ [d]) = (if drawnKey f ds k then insert k (recovered f ds) else recovered f ds)"
      using Some by (auto simp: recovered_snoc)
    consider "k \<in> recovered f ds" "drawnKey f ds k" | "k \<notin> recovered f ds" "drawnKey f ds k" | "k \<notin> recovered f ds" "\<not> drawnKey f ds k"
      using recovered_drawn by blast
    then show ?thesis
      using st ih Some unfolding as handleAll_snoc fst_conv snd_conv nackAt_snoc(2) rec dk
      by cases (auto simp: update_conv' insert_absorb card_insert_if finite_recovered)
  qed
qed

section \<open>Exactly-once acknowledgements\<close>

definition ackOk :: "(rpc_error + ack_status) \<times> (rpc_error + ack_status) \<Rightarrow> bool" where
  "ackOk r \<longleftrightarrow> fst r = Inr AckSuccess \<or> snd r = Inr AckSuccess"

fun ackAll :: "((rpc_error + ack_status) \<times> (rpc_error + ack_status)) list \<Rightarrow> ExactlyOnceWorker \<Rightarrow> ExactlyOnceWorker" where
  "ackAll [] w = w"
| "ackAll ((r1, r2) # rs) w = ackAll rs (snd (ackWithReconciliation r1 r2 w))"

lemma word_Suc_nonzero: "unat (a :: u64) < 2 ^ 64 - 1 \<Longrightarrow> a + 1 \<noteq> 0"
proof
  assume "unat a < 2 ^ 64 - 1" "a + 1 = 0"
  then have "unat (a + 1) = unat a + 1" using unat_plus_small [of a 1] by simp
  with \<open>a + 1 = 0\<close> show False by simp
qed

lemma ack_step:
  fixes r1 r2 :: "rpc_error + ack_status"
  assumes "unat (cnt (core w) ExactlyOnceUnreconciled) < 2 ^ 64 - 1"
  defines "w' \<equiv> snd (ackWithReconciliation r1 r2 w)"
  shows "cnt (core w') ExactlyOnceConfirmed = cnt (core w) ExactlyOnceConfirmed + (if ackOk (r1, r2) then 1 else 0) \<and>
    cnt (core w') Acked = cnt (core w) Acked + (if ackOk (r1, r2) then 1 else 0) \<and>
    cnt (core w') ExactlyOnceUnreconciled = cnt (core w) ExactlyOnceUnreconciled + (if ackOk (r1, r2) then 0 else 1) \<and>
    cnt (core w') Errors = cnt (core w) Errors + (if ackOk (r1, r2) then 0 else 1)"
  using word_Suc_nonzero [OF assms(1)]
  by (simp add: w'_def ackWithReconciliation_def ackOk_def Let_def recordExactlyOnceAck_def reconcileExactlyOnce_def
      cas_simps recordAcked_def recordError_def)

lemma ack_run:
  assumes "unat (cnt (core w) ExactlyOnceUnreconciled) + length rs < 2 ^ 64"
  shows "cnt (core (ackAll rs w)) ExactlyOnceConfirmed = cnt (core w) ExactlyOnceConfirmed + of_nat (length (filter ackOk rs)) \<and>
    cnt (core (ackAll rs w)) Acked = cnt (core w) Acked + of_nat (length (filter ackOk rs)) \<and>
    cnt (core (ackAll rs w)) ExactlyOnceUnreconciled =
      cnt (core w) ExactlyOnceUnreconciled + of_nat (length (filter (Not \<circ> ackOk) rs)) \<and>
    cnt (core (ackAll rs w)) Errors = cnt (core w) Errors + of_nat (length (filter (Not \<circ> ackOk) rs))"
  using assms
proof (induction rs arbitrary: w)
  case (Cons r rs)
  obtain r1 r2 where r: "r = (r1, r2)" by (cases r)
  let ?w = "snd (ackWithReconciliation r1 r2 w)"
  let ?u = "cnt (core w) ExactlyOnceUnreconciled"
  have small: "unat ?u < 2 ^ 64 - 1" using Cons.prems by simp
  note st = ack_step [OF small, of r1 r2]
  have "unat (?u + 1) = unat ?u + 1" using unat_plus_small [of ?u 1] small by simp
  then have "unat (cnt (core ?w) ExactlyOnceUnreconciled) + length rs < 2 ^ 64"
    using st Cons.prems by (cases "ackOk (r1, r2)") simp_all
  from Cons.IH [OF this] st show ?case by (cases "ackOk (r1, r2)") (simp_all add: r)
qed simp

section \<open>Ordering keys\<close>

text \<open>The specification: a delivery regresses when an earlier delivery of its key carried a
  higher number.\<close>

definition regresses :: "(string \<times> u64) list \<Rightarrow> string \<times> u64 \<Rightarrow> bool" where
  "regresses seen x \<longleftrightarrow> (\<exists>y\<in>set seen. fst y = fst x \<and> snd x < snd y)"

fun regressions :: "(string \<times> u64) list \<Rightarrow> (string \<times> u64) list \<Rightarrow> nat" where
  "regressions seen [] = 0"
| "regressions seen (x # xs) = (if regresses seen x then 1 else 0) + regressions (seen @ [x]) xs"

definition checkAll :: "string \<Rightarrow> (string \<times> u64) list \<Rightarrow> OrderingKeysWorker \<Rightarrow> OrderingKeysWorker" where
  "checkAll pid xs w = fold (\<lambda>(k, n) w. checkOrdering pid k (FormatUint n) w) xs w"

fun highest :: "(string \<times> u64) list \<Rightarrow> string \<Rightarrow> u64 option \<Rightarrow> bool" where
  "highest seen k None = (k \<notin> fst ` set seen)"
| "highest seen k (Some m) = ((k, m) \<in> set seen \<and> (\<forall>n. (k, n) \<in> set seen \<longrightarrow> n \<le> m))"

definition highWater :: "string \<Rightarrow> (string \<times> u64) list \<Rightarrow> OrderingKeysWorker \<Rightarrow> bool" where
  "highWater pid seen w \<longleftrightarrow> (\<forall>k. highest seen k (map_of (perKey w) (pid @ ''|'' @ k)))"

lemma highest_other: "j \<noteq> k \<Longrightarrow> highest (seen @ [(j, n)]) k v = highest seen k v"
  by (cases v) auto

lemma highest_same:
  assumes "highest seen k v"
  shows "highest (seen @ [(k, n)]) k (Some (case v of None \<Rightarrow> n | Some m \<Rightarrow> max m n)) \<and>
    (regresses seen (k, n) \<longleftrightarrow> (\<exists>m. v = Some m \<and> n < m))"
proof (cases v)
  case None
  then show ?thesis using assms by (force simp: regresses_def)
next
  case (Some m)
  then have "(k, m) \<in> set seen" "\<forall>n. (k, n) \<in> set seen \<longrightarrow> n \<le> m" using assms by simp_all
  then have "regresses seen (k, n) \<longleftrightarrow> n < m" by (force simp: regresses_def)
  then show ?thesis using \<open>(k, m) \<in> set seen\<close> \<open>\<forall>n. (k, n) \<in> set seen \<longrightarrow> n \<le> m\<close>
    by (auto simp: Some max_def)
qed

lemma FormatUint_nonempty [simp]: "FormatUint n \<noteq> []"
  by (simp add: FormatUint_def)

lemma checkOrdering_key:
  assumes "k \<noteq> []"
  shows "map_of (perKey (checkOrdering pid k (FormatUint n) w)) q =
      (if q = pid @ ''|'' @ k then Some (case map_of (perKey w) q of None \<Rightarrow> n | Some m \<Rightarrow> max m n)
       else map_of (perKey w) q)"
    and "cnt (core (checkOrdering pid k (FormatUint n) w)) OrderingViolations =
      cnt (core w) OrderingViolations + (case map_of (perKey w) (pid @ ''|'' @ k) of Some m \<Rightarrow> if n < m then 1 else 0 | None \<Rightarrow> 0)"
  using assms
  by (cases "map_of (perKey w) (pid @ ''|'' @ k)";
      auto simp: checkOrdering_def ParseUint_FormatUint update_conv' worker_defs max_def Let_def)+

lemma check_step:
  assumes "highWater pid seen w" "k \<noteq> []"
  shows "highWater pid (seen @ [(k, n)]) (checkOrdering pid k (FormatUint n) w) \<and>
    cnt (core (checkOrdering pid k (FormatUint n) w)) OrderingViolations =
      cnt (core w) OrderingViolations + (if regresses seen (k, n) then 1 else 0)"
proof -
  let ?v = "map_of (perKey w) (pid @ ''|'' @ k)"
  have h: "highest seen j (map_of (perKey w) (pid @ ''|'' @ j))" for j using assms(1) by (simp add: highWater_def)
  note same = highest_same [OF h, of k n]
  have "highest (seen @ [(k, n)]) j (map_of (perKey (checkOrdering pid k (FormatUint n) w)) (pid @ ''|'' @ j))" for j
  proof (cases "j = k")
    case True
    then show ?thesis using same by (simp add: checkOrdering_key(1) [OF assms(2)])
  next
    case False
    then show ?thesis using h [of j] by (simp add: checkOrdering_key(1) [OF assms(2)] highest_other)
  qed
  moreover have "cnt (core (checkOrdering pid k (FormatUint n) w)) OrderingViolations =
      cnt (core w) OrderingViolations + (if regresses seen (k, n) then 1 else 0)"
    using same by (cases ?v) (simp_all add: checkOrdering_key(2) [OF assms(2)])
  ultimately show ?thesis by (simp add: highWater_def)
qed

lemma check_run:
  assumes "highWater pid seen w" "\<forall>x\<in>set xs. fst x \<noteq> []"
  shows "cnt (core (checkAll pid xs w)) OrderingViolations = cnt (core w) OrderingViolations + of_nat (regressions seen xs)"
  using assms
proof (induction xs arbitrary: seen w)
  case (Cons x xs)
  obtain k n where x: "x = (k, n)" by (cases x)
  note st = check_step [OF Cons.prems(1), of k n]
  show ?case
    using st Cons.prems Cons.IH [of "seen @ [(k, n)]" "checkOrdering pid k (FormatUint n) w"]
    by (simp add: x checkAll_def)
qed (simp add: checkAll_def)

lemma highWater_fresh: "perKey w = [] \<Longrightarrow> highWater pid [] w"
  by (simp add: highWater_def)

section \<open>Overdue messages\<close>

definition isOverdue :: "instant \<Rightarrow> duration \<Rightarrow> string set \<Rightarrow> string \<times> instant \<Rightarrow> bool" where
  "isOverdue now budget seen x \<longleftrightarrow> fst x \<notin> seen \<and> budget < timeSub now (snd x)"

lemma overdue_count: "overdue now budget seen m = of_nat (length (filter (isOverdue now budget seen) m))"
proof -
  have "fold (\<lambda>(key, t) n. if key \<in> seen then n else if budget < timeSub now t then n + 1 else n) m a =
      a + of_nat (length (filter (isOverdue now budget seen) m))" for a :: u64
    by (induction m arbitrary: a) (auto simp: isOverdue_def)
  then show ?thesis by (simp add: overdue_def)
qed

lemma recordDeadLetterLost_cnt: "cnt (recordDeadLetterLost n b) DeadLetterLost = cnt b DeadLetterLost + n"
  by (simp add: worker_defs)

definition keysSeen :: "'x delivery_scheme list \<Rightarrow> string set" where
  "keysSeen ds = {k. \<exists>d\<in>set ds. deliveryKey d = Some k}"

lemma finite_keysSeen: "finite (keysSeen ds)"
proof -
  have "keysSeen ds \<subseteq> (\<lambda>d. the (deliveryKey d)) ` set ds" by (force simp: keysSeen_def)
  then show ?thesis by (rule finite_subset) simp
qed

lemma dlq_step:
  fixes d :: delivery and w :: DeadLetterWorker
  defines "r \<equiv> handleDLQMessage d w"
  shows "fst r = [DoAck] \<and> republished (snd r) = republished w \<union> set_option (deliveryKey d) \<and>
    published (snd r) = published w \<and> cfg (core (snd r)) = cfg (core w) \<and>
    cnt (core (snd r)) DeadLetterLost = cnt (core w) DeadLetterLost \<and>
    cnt (core (snd r)) DeadLetterRepublished =
      cnt (core w) DeadLetterRepublished + (if set_option (deliveryKey d) \<subseteq> republished w then 0 else 1)"
proof -
  obtain pid n hex t ok where e: "extractMeta (mAttributes (dMsg d)) = (pid, n, hex, t, ok)" by (metis prod_cases5)
  show ?thesis
    by (cases t) (auto simp: r_def handleDLQMessage_def e Let_def ackAndCount_def deliveryKey_def worker_defs)
qed

lemma dlq_run:
  fixes ds :: "delivery list"
  assumes "republished w = {}"
  defines "r \<equiv> handleAll handleDLQMessage ds w"
  shows "fst r = replicate (length ds) DoAck \<and> republished (snd r) = keysSeen ds \<and> published (snd r) = published w \<and>
    cfg (core (snd r)) = cfg (core w) \<and> cnt (core (snd r)) DeadLetterLost = cnt (core w) DeadLetterLost \<and>
    cnt (core (snd r)) DeadLetterRepublished = cnt (core w) DeadLetterRepublished + of_nat (card (keysSeen ds))"
  unfolding r_def
proof (induction ds rule: rev_induct)
  case Nil
  then show ?case by (simp add: keysSeen_def assms)
next
  case (snoc d ds)
  have k: "keysSeen (ds @ [d]) = keysSeen ds \<union> set_option (deliveryKey d)" by (cases "deliveryKey d") (auto simp: keysSeen_def)
  have "card (keysSeen (ds @ [d])) = card (keysSeen ds) + (if set_option (deliveryKey d) \<subseteq> keysSeen ds then 0 else 1)"
    unfolding k by (cases "deliveryKey d") (auto simp: finite_keysSeen insert_absorb)
  moreover have "replicate (Suc (length ds)) DoAck = replicate (length ds) DoAck @ [DoAck]" by (simp add: replicate_append_same)
  ultimately show ?case
    using snoc dlq_step [of d "snd (handleAll handleDLQMessage ds w)"] by (simp add: handleAll_snoc k)
qed

section \<open>What the filtering producer sends\<close>

lemma attrOf_stamped:
  "attrOf (mkMsg body (stampAttrs now pid n hex @ [(filterMatchAttr, v)])) filterMatchAttr = v"
  "attrOf (mkMsg body (stampAttrs now pid n hex @ rest)) AttrSequence = FormatUint n"
  "attrOf (mkMsg body (stampAttrs now pid n hex @ rest)) AttrWorkerID = pid"
  by (simp_all add: attrOf_def mkMsg_def stampAttrs_def attrGet_def attr_names filterMatchAttr_def)

definition matching :: "Msg \<Rightarrow> bool" where
  "matching m \<longleftrightarrow> attrOf m filterMatchAttr = filterMatchYes"

definition seqAttrs :: "u64 \<Rightarrow> nat \<Rightarrow> string list" where
  "seqAttrs s k = map (\<lambda>j. FormatUint (s + 1 + of_nat j)) [0..<k]"

lemma seqAttrs_Suc: "seqAttrs s (Suc k) = FormatUint (s + 1) # seqAttrs (s + 1) k"
  by (simp add: seqAttrs_def upt_conv_Cons map_Suc_upt [symmetric] comp_def algebra_simps del: upt_Suc map_Suc_upt)

lemma filter_turn:
  assumes "Filtering_produce i inp (ms, w) = (f, out, ms', w')"
  shows "producerName w' i = producerName w i \<and>
    (map (\<lambda>m. attrOf m AttrSequence) (filter matching out) = [] \<and> matchSeq ms' = matchSeq ms \<and>
       cnt (core w') Sent = cnt (core w) Sent \<or>
     map (\<lambda>m. attrOf m AttrSequence) (filter matching out) = [FormatUint (matchSeq ms + 1)] \<and>
       matchSeq ms' = matchSeq ms + 1 \<and> cnt (core w') Sent = cnt (core w) Sent + 1) \<and>
    (\<forall>m\<in>set (filter matching out). attrOf m AttrWorkerID = producerName w i)"
  using assms
  by (auto simp: Filtering_produce_def publishNonMatch_def Let_def split_beta matching_def attrOf_stamped producerName_def
      filterMatchYes_def filterMatchNo_def metricObserveSend_def worker_defs split: if_splits option.splits sum.splits)

lemma filter_run:
  assumes "runLoop (Filtering_produce i) inps (ms, w) = (f, out, ms', w')"
  shows "\<exists>k. map (\<lambda>m. attrOf m AttrSequence) (filter matching out) = seqAttrs (matchSeq ms) k \<and>
    matchSeq ms' = matchSeq ms + of_nat k \<and> cnt (core w') Sent = cnt (core w) Sent + of_nat k \<and> k \<le> length inps \<and>
    (\<forall>m\<in>set (filter matching out). attrOf m AttrWorkerID = producerName w i)"
  using assms
proof (induction inps arbitrary: ms w f out)
  case Nil
  then show ?case by (intro exI [of _ 0]) (auto simp: seqAttrs_def)
next
  case (Cons inp inps)
  obtain g o1 ms1 w1 where t: "Filtering_produce i inp (ms, w) = (g, o1, ms1, w1)" by (metis prod_cases4)
  note st = filter_turn [OF t]
  have one: "seqAttrs s (Suc 0) = [FormatUint (s + 1)]" "seqAttrs s 0 = []" for s by (simp_all add: seqAttrs_def)
  show ?case
  proof (cases "g = Next")
    case True
    obtain f2 o2 s2 where e: "runLoop (Filtering_produce i) inps (ms1, w1) = (f2, o2, s2)" by (metis prod_cases3)
    have r: "runLoop (Filtering_produce i) inps (ms1, w1) = (f2, o2, ms', w')" "out = o1 @ o2"
      using Cons.prems t True e by simp_all
    obtain k where k: "map (\<lambda>m. attrOf m AttrSequence) (filter matching o2) = seqAttrs (matchSeq ms1) k"
      "matchSeq ms' = matchSeq ms1 + of_nat k" "cnt (core w') Sent = cnt (core w1) Sent + of_nat k" "k \<le> length inps"
      "\<forall>m\<in>set (filter matching o2). attrOf m AttrWorkerID = producerName w1 i"
      using Cons.IH [OF r(1)] by blast
    from st show ?thesis
    proof (elim conjE disjE)
      assume "matchSeq ms1 = matchSeq ms" "map (\<lambda>m. attrOf m AttrSequence) (filter matching o1) = []"
        "cnt (core w1) Sent = cnt (core w) Sent"
      then show ?thesis using k st r(2) by (intro exI [of _ k]) auto
    next
      assume "matchSeq ms1 = matchSeq ms + 1" "map (\<lambda>m. attrOf m AttrSequence) (filter matching o1) = [FormatUint (matchSeq ms + 1)]"
        "cnt (core w1) Sent = cnt (core w) Sent + 1"
      then show ?thesis using k st r(2) by (intro exI [of _ "Suc k"]) (auto simp: seqAttrs_Suc)
    qed
  next
    case False
    then have "(f, out, ms', w') = (g, o1, ms1, w1)" using Cons.prems t by (cases g) simp_all
    with st show ?thesis
    proof (elim conjE disjE)
      assume "matchSeq ms1 = matchSeq ms" "map (\<lambda>m. attrOf m AttrSequence) (filter matching o1) = []"
        "cnt (core w1) Sent = cnt (core w) Sent" "(f, out, ms', w') = (g, o1, ms1, w1)"
      then show ?thesis using st by (intro exI [of _ 0]) (auto simp: one)
    next
      assume "matchSeq ms1 = matchSeq ms + 1" "map (\<lambda>m. attrOf m AttrSequence) (filter matching o1) = [FormatUint (matchSeq ms + 1)]"
        "cnt (core w1) Sent = cnt (core w) Sent + 1" "(f, out, ms', w') = (g, o1, ms1, w1)"
      then show ?thesis using st by (intro exI [of _ "Suc 0"]) (auto simp: one)
    qed
  qed
qed

section \<open>What the other producers send\<close>

text \<open>A genuine message of a producer carries its id, a sequence number and the checksum of
  its own body.\<close>

definition genuine :: "string \<Rightarrow> u64 \<Rightarrow> Msg \<Rightarrow> bool" where
  "genuine pid n m \<longleftrightarrow> (\<exists>now body. m = mkMsg body (stampAttrs now pid n (crcHex body)))"

lemma extract_genuine:
  assumes "genuine pid n m" "pid \<noteq> []"
  shows "\<exists>t. extractMeta (mAttributes m) = (pid, n, crcHex (mData m), t, True)"
  using assms
  by (auto simp: genuine_def mkMsg_def extractMeta_def stampAttrs_def attrGet_def attr_names ParseUint_FormatUint Let_def)

text \<open>The broker's answers: \<open>True\<close> accepts whatever it is sent, \<open>False\<close> rejects it.\<close>

definition answers :: "pubIn \<Rightarrow> bool \<Rightarrow> bool" where
  "answers inp a \<longleftrightarrow> (\<forall>m. (\<exists>r. piSend inp m = Inr r) \<longleftrightarrow> a)"

fun acceptedSeqs :: "u64 \<Rightarrow> bool list \<Rightarrow> u64 list" where
  "acceptedSeqs s [] = []"
| "acceptedSeqs s (a # as) = (if a then [s + 1] else []) @ acceptedSeqs (s + 1) as"

lemma produce_turn:
  assumes "produceOne i inp w = (Next, out, w')" "answers inp a"
  shows "wseq w' = wseq w + 1 \<and> trk (core w') = trk (core w) \<and> producerName w' i = producerName w i \<and>
    cnt (core w') Sent = cnt (core w) Sent + (if a then 1 else 0) \<and>
    cnt (core w') Errors = cnt (core w) Errors + (if a then 0 else 1) \<and>
    (if a then \<exists>m. out = [m] \<and> genuine (producerName w i) (wseq w + 1) m else out = [])"
proof -
  have b: "snd (Build d k) = crcHex (fst (Build d k))" for d k by (simp add: Build_def Let_def)
  have "genuine pid n (mkMsg (fst (Build d k)) (stampAttrs now pid n (snd (Build d k))))" for pid n d k now
    unfolding b genuine_def by blast
  moreover have "\<exists>e. piSend inp m = Inl e" if "\<not> a" for m using assms(2) that by (cases "piSend inp m") (auto simp: answers_def)
  moreover have "\<exists>r. piSend inp m = Inr r" if a for m using assms(2) that by (auto simp: answers_def)
  ultimately show ?thesis using assms(1)
    by (cases a) (auto simp: produceOne_def produceWith_def nextBody_def Let_def split_beta producerName_def
        metricObserveSend_def PublishSync_def PublishMessageSync_def worker_defs
        split: if_splits option.splits sum.splits, (metis Inl_Inr_False)+)
qed

lemma produce_run:
  assumes "runLoop (produceOne i) inps w = (Next, out, w')" "list_all2 answers inps acc"
  shows "wseq w' = wseq w + of_nat (length inps) \<and> trk (core w') = trk (core w) \<and>
    producerName w' i = producerName w i \<and>
    cnt (core w') Sent = cnt (core w) Sent + of_nat (length out) \<and>
    cnt (core w') Errors = cnt (core w) Errors + of_nat (length (filter Not acc)) \<and>
    list_all2 (genuine (producerName w i)) (acceptedSeqs (wseq w) acc) out"
  using assms(2,1)
proof (induction inps acc arbitrary: w out rule: list_all2_induct)
  case (Cons inp inps a acc)
  obtain g o1 w1 where t: "produceOne i inp w = (g, o1, w1)" by (metis prod_cases3)
  then have g: "g = Next" using Cons.prems by (cases g) simp_all
  note st = produce_turn [OF t [unfolded g] Cons.hyps(1)]
  obtain f2 o2 w2 where e: "runLoop (produceOne i) inps w1 = (f2, o2, w2)" by (metis prod_cases3)
  then have r: "f2 = Next" "w2 = w'" "out = o1 @ o2" using Cons.prems t g by simp_all
  show ?case using Cons.IH [OF e [unfolded r(1,2)]] st r(3) by (cases a) auto
qed simp

section \<open>Deliveries into the tracker\<close>

fun trackAll :: "string \<Rightarrow> u64 list \<Rightarrow> Tracker \<Rightarrow> Tracker \<times> bool list" where
  "trackAll key [] t = (t, [])"
| "trackAll key (n # ns) t =
     (let (t, dup, _) = Record t key n; (t, dups) = trackAll key ns t in (t, dup # dups))"

lemma trackAll_next:
  assumes "producers t = [(key, ps)]"
  shows "trackAll key ns t =
    (t\<lparr>producers := [(key, fst (runNext (reorderWindow t) ps ns))]\<rparr>, snd (runNext (reorderWindow t) ps ns))"
  using assms
proof (induction ns arbitrary: t ps)
  case (Cons n ns)
  let ?t = "t\<lparr>producers := [(key, fst (recordNext (reorderWindow t) ps n))]\<rparr>"
  have "Record t key n = (?t, snd (recordNext (reorderWindow t) ps n))"
    using Cons.prems by (simp add: Record_def split_beta)
  then show ?case using Cons.IH [of ?t "fst (recordNext (reorderWindow t) ps n)"] by (simp add: split_beta Let_def)
qed simp

lemma trackAll_fresh:
  "trackAll key (n # ns) (New rw) =
     (\<lparr>reorderWindow = rw, producers = [(key, fst (runProducer rw n ns))]\<rparr>, snd (runProducer rw n ns))"
proof -
  let ?t = "\<lparr>reorderWindow = rw, producers = [(key, recordFirst rw n)]\<rparr>"
  have "Record (New rw) key n = (?t, False, False)" by (simp add: Record_def New_def)
  then show ?thesis using trackAll_next [of ?t key "recordFirst rw n" ns]
    by (simp add: runProducer_simps split_beta Let_def)
qed

lemma fanout_step:
  fixes w :: FanOutWorker and sid :: string
  assumes "genuine pid n (dMsg d)" "pid \<noteq> []"
  defines "w' \<equiv> snd (FanOut_handleMessage sid d w)"
  shows "trk (core w') = fst (Record (trk (core w)) (pid @ ''@'' @ sid) n) \<and>
    cnt (core w') Corrupted = cnt (core w) Corrupted \<and>
    cnt (core w') Duplicated = cnt (core w) Duplicated +
      (if fst (snd (Record (trk (core w)) (pid @ ''@'' @ sid) n)) then 1 else 0)"
proof -
  obtain t where "extractMeta (mAttributes (dMsg d)) = (pid, n, crcHex (mData (dMsg d)), t, True)"
    using extract_genuine [OF assms(1,2)] by blast
  then show ?thesis
    by (simp add: w'_def FanOut_handleMessage_def Let_def split_beta noteArrival_cnt recordTracked_cnt recordTracked_trk
        recordTracked_dup VerifyCRC_iff) (simp add: worker_defs)
qed

lemma fanout_run:
  fixes w :: FanOutWorker and sid :: string and ds :: "delivery list"
  assumes "list_all2 (\<lambda>n d. genuine pid n (dMsg d)) ns ds" "pid \<noteq> []"
  defines "w' \<equiv> snd (handleAll (FanOut_handleMessage sid) ds w)"
  defines "r \<equiv> trackAll (pid @ ''@'' @ sid) ns (trk (core w))"
  shows "trk (core w') = fst r \<and> cnt (core w') Corrupted = cnt (core w) Corrupted \<and>
    cnt (core w') Duplicated = cnt (core w) Duplicated + of_nat (length (filter id (snd r)))"
  unfolding w'_def r_def using assms(1)
proof (induction ns ds arbitrary: w rule: list_all2_induct)
  case (Cons n ns d ds)
  show ?case using Cons.IH [of "snd (FanOut_handleMessage sid d w)"] fanout_step [OF Cons.hyps(1) assms(2), of sid w]
    by (auto simp: split_beta Let_def)
qed simp

section \<open>The receive loops\<close>

definition undisturbed :: "'m rcvIn list \<Rightarrow> bool" where
  "undisturbed inps \<longleftrightarrow> (\<forall>inp\<in>set inps. \<not> riStop inp \<and> \<not> riCtxErr inp \<and> riWake inp)"

definition accounts :: "('m rcvIn list \<Rightarrow> 'a WorkerCore_scheme \<Rightarrow> flow \<times> settle list \<times> bool \<times> 'a WorkerCore_scheme) \<Rightarrow>
    'm rcvIn list \<Rightarrow> 'a WorkerCore_scheme \<Rightarrow> bool" where
  "accounts loop inps w \<longleftrightarrow>
     (let (f, as, first, w') = loop inps w in
      f = Next \<and> length as = deliveries inps \<and>
      cnt (core w') Received = cnt (core w) Received + of_nat (deliveries inps) \<and>
      cnt (core w') Reconnections = cnt (core w) Reconnections + of_nat (length inps - 1))"

context settling_handler
begin

lemma loop_accounts: "undisturbed inps \<Longrightarrow> accounts (receiveLoop ann h) inps w"
  using loop_settled [of inps ann True w] by (simp add: accounts_def undisturbed_def receiveLoop_def Let_def split_beta)

end

interpretation ppl: settling_handler "\<lambda>d w. PublishPull_handleMessage (consumerName w) d w"
  by unfold_locales (simp_all add: pp.one pp.received pp.acked pp.reconnections)

interpretation fil: settling_handler "\<lambda>d w. Filtering_handleMessage (consumerName w) d w"
  by unfold_locales (simp_all add: fi.one fi.received fi.acked fi.reconnections)

interpretation okl: settling_handler "\<lambda>d w. OrderingKeys_handleMessage (consumerName w) d w"
  by unfold_locales (simp_all add: ok.one ok.received ok.acked ok.reconnections)

interpretation nrl: settling_handler "\<lambda>d w. NackRedelivery_handleMessage (consumerName w) d w"
  by unfold_locales (simp_all add: nr.one nr.received nr.acked nr.reconnections)

end
