(* ===== verification/WorkerClaims.thy ===== *)
theory WorkerClaims
  imports WorkerProps
begin

text \<open>
  The properties of the message handlers and producers of \<open>Workers\<close>, with a concrete run of
  each. They rest on the lemmas of \<open>WorkerProps\<close> and on the tracker.
\<close>

section \<open>Concrete workers\<close>

definition demoBase :: "string \<Rightarrow> BaseWorker" where
  "demoBase name = (anyWorker name DefaultConfig 1)\<lparr>trk := New 4\<rparr>"

definition demoFanOut :: FanOutWorker where
  "demoFanOut = \<lparr>core = demoBase WorkerFanOut, wseq = 0, foTopicID = ''t'', foSubIDs = [''s0'']\<rparr>"

definition demoNack :: NackRedeliveryWorker where
  "demoNack = \<lparr>core = demoBase WorkerNackRedelivery, wseq = 0, nrTopicID = ''t'', nrSubID = ''s'',
     nackFraction = Fin (1 / 2), nacked = []\<rparr>"

definition demoOrdering :: OrderingKeysWorker where
  "demoOrdering = \<lparr>core = demoBase WorkerOrderingKeys, wseq = 0, okTopicID = ''t'', okSubID = ''s'', perKey = []\<rparr>"

definition demoExactly :: ExactlyOnceWorker where
  "demoExactly = \<lparr>core = demoBase WorkerExactlyOnce, wseq = 0, eoTopicID = ''t'', eoSubID = ''s'', eoSubPath = []\<rparr>"

definition demoDead :: DeadLetterWorker where
  "demoDead = \<lparr>core = demoBase WorkerDeadLetter, wseq = 0, srcTopicID = ''t'', dltTopicID = ''d'', srcSubID = ''s'',
     dltSubID = ''ds'', probeTopicID = ''pt'', probeSubID = ''ps'',
     published = [(''p-x-0#1'', 0), (''p-x-0#2'', 0)], republished = {''p-x-0#1''}\<rparr>"

definition demoMsg :: "string \<Rightarrow> u64 \<Rightarrow> Msg" where
  "demoMsg pid n = mkMsg ''ab'' (stampAttrs 0 pid n (crcHex ''ab''))"

definition accepting :: pubIn where
  "accepting = \<lparr>piStop = False, piRateErr = False, piDraw = (\<lambda>_. 0), piIntN = (\<lambda>_. 0), piStamp = 0,
     piSend = (\<lambda>_. Inr ''id''), piCtxErr = False, piDone = 0, piDur = 0\<rparr>"

definition rejecting :: pubIn where
  "rejecting = accepting\<lparr>piSend := (\<lambda>_. Inl (Status Unavailable []))\<rparr>"

lemma demoBase_simps [simp]: "cnt (demoBase WorkerNackRedelivery) c = 0" "cnt (demoBase WorkerFanOut) c = 0"
  "cnt (demoBase WorkerOrderingKeys) c = 0" "cnt (demoBase WorkerExactlyOnce) c = 0" "cnt (demoBase WorkerDeadLetter) c = 0"
  "trk (demoBase name) = New 4" "cfg (demoBase WorkerDeadLetter) = DefaultConfig"
  "sizeDistrib (demoBase WorkerFanOut) = None"
  by (simp_all add: demoBase_def anyWorker_def NewBaseWorker_def GetWorkerConfig_def DefaultConfig_def Let_def
      worker_names)

section \<open>Receiving\<close>

text \<open>C10: Every delivery is settled and accounted for. Around each of the six at-least-once
  handlers, a receive loop that goes through any number of streams, receive failures and
  forced disconnects sends exactly one ack or nack per delivery; its received counter
  grows by the number of deliveries and its reconnection counter by the number of streams
  after the first.\<close>

theorem receive_loops_account:
  assumes "undisturbed inps" "undisturbed inps'"
  shows "accounts PublishPull_receiveLoop inps wp \<and> accounts (FanOut_receiveLoop sid) inps wa \<and>
    accounts OrderingKeys_receiveLoop inps wo \<and> accounts Filtering_receiveLoop inps wi \<and>
    accounts NackRedelivery_receiveLoop inps' wn \<and> accounts dlqConsumeLoop inps wd"
  using ppl.loop_accounts [OF assms(1), of True wp] fo.loop_accounts [OF assms(1), of True sid wa]
    okl.loop_accounts [OF assms(1), of True wo] fil.loop_accounts [OF assms(1), of True wi]
    nrl.loop_accounts [OF assms(2), of True wn] dl.loop_accounts [OF assms(1), of False wd]
  unfolding PublishPull_receiveLoop_def [abs_def] FanOut_receiveLoop_def OrderingKeys_receiveLoop_def
    Filtering_receiveLoop_def NackRedelivery_receiveLoop_def dlqConsumeLoop_def
  by blast

definition demoTurns :: "delivery rcvIn list" where
  "demoTurns = [\<lparr>riStop = False, riMsgs = [\<lparr>dMsg = demoMsg ''p'' 1, dNow = 0\<rparr>], riErr = False, riCtxErr = False, riWake = True\<rparr>,
                \<lparr>riStop = False, riMsgs = [], riErr = True, riCtxErr = False, riWake = True\<rparr>]"

theorem receive_loops_account_witness: "accounts dlqConsumeLoop demoTurns demoDead"
proof -
  have "undisturbed demoTurns" "undisturbed ([] :: drawDelivery rcvIn list)" by (simp_all add: undisturbed_def demoTurns_def)
  from receive_loops_account [OF this] show ?thesis by blast
qed


lemma demo_key: "deliveryKey \<lparr>dMsg = demoMsg ''p'' n, dNow = t, \<dots> = x\<rparr> = Some (msgKey ''p'' n)"
proof -
  have "genuine ''p'' n (demoMsg ''p'' n)" by (auto simp: genuine_def demoMsg_def)
  from extract_genuine [OF this] show ?thesis by (auto simp: deliveryKey_def)
qed

lemma msgKey_inject: "msgKey pid a = msgKey pid b \<longleftrightarrow> a = b"
  unfolding msgKey_def by (metis ParseUint_FormatUint append_same_eq option.inject same_append_eq)

definition demoNackRun :: "drawDelivery list" where
  "demoNackRun = map (\<lambda>(n, x). \<lparr>dMsg = demoMsg ''p'' n, dNow = 0, dDraw = Fin x\<rparr>) [(1, 0), (2, 3 / 4), (1, 0), (2, 0), (1, 0)]"

lemma demoNack_spec:
  "map (\<lambda>i. if nackAt (Fin (1 / 2)) demoNackRun i then DoNack else DoAck) [0..<length demoNackRun] = [DoNack, DoAck, DoAck, DoNack, DoAck]"
  "recovered (Fin (1 / 2)) demoNackRun = {msgKey ''p'' 1}"
  by (auto simp: demoNackRun_def nackAt_def recovered_iff drawnKey_def drawn_def demo_key msgKey_inject upt_rec
      Ex_less_Suc All_less_Suc numeral_eq_Suc)


text \<open>C13: Exactly-once reconciliation. After any sequence of acknowledgements, each answered
  once or twice by the broker, the confirmed and acked counters have grown by the messages
  of which some attempt succeeded, and the unreconciled and error counters by the messages
  of which both attempts failed: a failure followed by a successful retry leaves no trace.\<close>

theorem exactly_once_reconciled:
  assumes "unat (cnt (core w) ExactlyOnceUnreconciled) + length rs < 2 ^ 64"
  shows "cnt (core (ackAll rs w)) ExactlyOnceConfirmed =
      cnt (core w) ExactlyOnceConfirmed + of_nat (length (filter ackOk rs)) \<and>
    cnt (core (ackAll rs w)) Acked = cnt (core w) Acked + of_nat (length (filter ackOk rs)) \<and>
    cnt (core (ackAll rs w)) ExactlyOnceUnreconciled =
      cnt (core w) ExactlyOnceUnreconciled + of_nat (length (filter (Not \<circ> ackOk) rs)) \<and>
    cnt (core (ackAll rs w)) Errors = cnt (core w) Errors + of_nat (length (filter (Not \<circ> ackOk) rs))"
  using ack_run [OF assms] .

theorem exactly_once_reconciled_witness:
  "cnt (core (ackAll [(Inr AckSuccess, Inr AckOther), (Inr AckInvalidAckID, Inr AckSuccess), (Inr AckOther, Inl (Plain []))]
     demoExactly)) ExactlyOnceUnreconciled = 1"
  using exactly_once_reconciled [of demoExactly
      "[(Inr AckSuccess, Inr AckOther), (Inr AckInvalidAckID, Inr AckSuccess), (Inr AckOther, Inl (Plain []))]"]
  by (simp add: demoExactly_def ackOk_def)

section \<open>Ordering\<close>

text \<open>C14: The ordering check is exact. From an empty high-water map, the violation counter grows
  by exactly the number of deliveries that carry a lower per-key number than an earlier
  delivery of the same key, whatever the interleaving of the keys.\<close>

theorem ordering_check_exact:
  assumes "perKey w = []" "\<forall>x\<in>set xs. fst x \<noteq> []"
  shows "cnt (core (checkAll pid xs w)) OrderingViolations =
    cnt (core w) OrderingViolations + of_nat (regressions [] xs)"
  using check_run [OF highWater_fresh [OF assms(1)] assms(2)] .

theorem ordering_check_exact_witness:
  "cnt (core (checkAll ''p'' [(''a'', 1), (''b'', 1), (''a'', 3), (''a'', 2), (''b'', 2), (''a'', 3)] demoOrdering))
     OrderingViolations = 1"
  using ordering_check_exact [of demoOrdering "[(''a'', 1), (''b'', 1), (''a'', 3), (''a'', 2), (''b'', 2), (''a'', 3)]" "''p''"]
  by (simp add: demoOrdering_def regresses_def)

text \<open>A warm-up message that arrives late turns correct order into violations. The reset
  empties the high-water map and the restarted producer counts each key from one again, so
  one delivery of the warm-up numbered \<open>h\<close> that arrives after the reset makes every one of
  the next in-order deliveries below \<open>h\<close> a violation.\<close>

theorem late_warmup_message_flags_order:
  assumes "k < h" "h < 2 ^ 64" "key \<noteq> []"
  shows "cnt (core (checkAll pid ((key, of_nat h) # map (\<lambda>j. (key, of_nat j)) [1..<Suc k])
      (OrderingKeys_ResetAfterWarmup w))) OrderingViolations = of_nat k \<and>
    keySeq newKeyState = replicate orderingKeyCount 0"
proof -
  let ?xs = "map (\<lambda>j. (key, of_nat j :: u64)) [1..<Suc k]"
  have low: "of_nat j < (of_nat h :: u64)" if "j \<le> k" for j
    using that assms(1,2) by (simp add: word_less_nat_alt unat_of_nat_small)
  have all: "regressions seen (map (\<lambda>j. (key, of_nat j :: u64)) js) = length js"
    if "(key, of_nat h) \<in> set seen" "\<forall>j\<in>set js. j \<le> k" for seen js
    using that
  proof (induction js arbitrary: seen)
    case (Cons j js)
    have "regresses seen (key, of_nat j)" using Cons.prems low by (force simp: regresses_def)
    then show ?case using Cons by simp
  qed simp
  have "regressions [(key, of_nat h)] ?xs = length [1..<Suc k]" by (rule all) auto
  then have "regressions [] ((key, of_nat h) # ?xs) = k" by (simp add: regresses_def del: upt_Suc)
  moreover have "\<forall>x\<in>set ((key, of_nat h :: u64) # ?xs). fst x \<noteq> []" using assms(3) by auto
  ultimately show ?thesis
    using check_run [OF highWater_fresh, of "OrderingKeys_ResetAfterWarmup w" "(key, of_nat h) # ?xs" pid]
    by (simp add: OrderingKeys_ResetAfterWarmup_def ResetAfterWarmup_def onBase_def newKeyState_def)
qed

theorem late_warmup_message_flags_order_witness:
  "cnt (core (checkAll ''p'' ((''k'', of_nat 5) # map (\<lambda>j. (''k'', of_nat j)) [1..<Suc 2])
     (OrderingKeys_ResetAfterWarmup demoOrdering))) OrderingViolations = 2"
  using late_warmup_message_flags_order [of 2 5 "''k''" "''p''" demoOrdering] by simp

section \<open>Producing\<close>

text \<open>C24: The filtering producer's matching stream is gap-free. However the publishes alternate
  and fail, the matching messages the broker accepted carry the consecutive sequence
  numbers from one, under the producer's own id, and exactly they are counted as sent.\<close>

theorem filtering_stream_contiguous:
  assumes "runLoop (Filtering_produce i) inps (newMatchState, w) = (f, out, ms, w')"
  shows "\<exists>k. map (\<lambda>m. attrOf m AttrSequence) (filter matching out) = map (\<lambda>j. FormatUint (of_nat j)) [1..<Suc k] \<and>
    matchSeq ms = of_nat k \<and> cnt (core w') Sent = cnt (core w) Sent + of_nat k \<and>
    (\<forall>m\<in>set (filter matching out). attrOf m AttrWorkerID = producerName w i)"
proof -
  have "seqAttrs 0 k = map (\<lambda>j. FormatUint (of_nat j)) [1..<Suc k]" for k
    unfolding seqAttrs_def map_Suc_upt [symmetric] One_nat_def by (simp add: comp_def)
  then show ?thesis using filter_run [OF assms] by (auto simp: newMatchState_def)
qed

definition demoFilter :: FilteringWorker where
  "demoFilter = \<lparr>core = demoBase WorkerFanOut, fiTopicID = ''t'', fiSubID = ''s'', nonMatchSeq = 0\<rparr>"

theorem filtering_stream_contiguous_witness:
  "\<exists>f out ms w'. runLoop (Filtering_produce 0) [accepting, accepting, rejecting, rejecting, accepting] (newMatchState, demoFilter)
     = (f, out, ms, w') \<and> (\<exists>k. matchSeq ms = of_nat k \<and> cnt (core w') Sent = of_nat k)"
proof -
  obtain f out ms w' where e: "runLoop (Filtering_produce 0) [accepting, accepting, rejecting, rejecting, accepting]
      (newMatchState, demoFilter) = (f, out, ms, w')" by (metis prod_cases4)
  from filtering_stream_contiguous [OF this] e show ?thesis by (auto simp: demoFilter_def)
qed

lemma demo_turn:
  assumes "sizeDistrib (core w) = None" "inp \<in> {accepting, rejecting}"
  shows "\<exists>out w'. produceOne i inp w = (Next, out, w') \<and> sizeDistrib (core w') = None"
  using assms
  by (auto simp: produceOne_def produceWith_def accepting_def rejecting_def nextBody_def selectMessageSize_def
      PublishSync_def PublishMessageSync_def split_beta Let_def onBase_def metricObserveSend_def recordSent_def
      recordError_def bump_def emit_def)

lemma demo_run:
  assumes "sizeDistrib (core w) = None" "set inps \<subseteq> {accepting, rejecting}"
  shows "\<exists>out w'. runLoop (produceOne i) inps w = (Next, out, w')"
  using assms
proof (induction inps arbitrary: w)
  case (Cons inp inps)
  obtain o1 w1 where t: "produceOne i inp w = (Next, o1, w1)" "sizeDistrib (core w1) = None"
    using demo_turn [of w inp i] Cons.prems by auto
  moreover obtain o2 w2 where "runLoop (produceOne i) inps w1 = (Next, o2, w2)"
    using Cons.IH [OF t(2)] Cons.prems by auto
  ultimately show ?case by simp
qed simp

text \<open>C11: The round trip. Messages a fan-out producer published, whichever of them the broker
  accepted, reach a subscription in any order and any number of times. When the deliveries
  stay within the reorder window, the worker counts every delivery, finds no corruption and
  no loss, and its duplicate counter is the number of repeated deliveries.\<close>

theorem fanout_round_trip:
  fixes sid :: string and now :: "nat \<Rightarrow> instant"
  assumes "runLoop (FanOut_produce i) inps w = (Next, out, w1)" "list_all2 answers inps acc"
    and "trk (core w) = New rw" "1 \<le> rw" "rw < 2 ^ 62"
    and "\<forall>j\<in>set (k # ks). j < length out"
    and "acceptedSeqs (wseq w) acc ! k = x" "map (\<lambda>j. acceptedSeqs (wseq w) acc ! j) ks = xs"
    and "list_all seq_ok (x # xs)" "inWindow (nat rw) (unat x) {unat x} xs"
  defines "w2 \<equiv> snd (handleAll (FanOut_handleMessage sid) (map (\<lambda>j. \<lparr>dMsg = out ! j, dNow = now j\<rparr>) (k # ks)) w1)"
  shows "TotalLost (trk (core w2)) = 0 \<and> cnt (core w2) Corrupted = cnt (core w1) Corrupted \<and>
    cnt (core w2) Received = cnt (core w1) Received + of_nat (Suc (length ks)) \<and>
    cnt (core w2) Duplicated = cnt (core w1) Duplicated + of_nat (length (filter id (repeats {unat x} xs)))"
proof -
  let ?ds = "map (\<lambda>j. \<lparr>dMsg = out ! j, dNow = now j\<rparr>) (k # ks) :: delivery list"
  let ?pid = "producerName w i"
  have g: "trk (core w1) = New rw" "list_all2 (genuine ?pid) (acceptedSeqs (wseq w) acc) out"
    using produce_run [OF assms(1) [unfolded FanOut_produce_def] assms(2)] assms(3) by simp_all
  have pid: "?pid \<noteq> []" by (simp add: producerName_def)
  have "genuine ?pid (acceptedSeqs (wseq w) acc ! j) (out ! j)" if "j < length out" for j
    using list_all2_nthD2 [OF g(2) that] .
  then have "list_all2 (\<lambda>n d. genuine ?pid n (dMsg d)) (map (\<lambda>j. acceptedSeqs (wseq w) acc ! j) (k # ks)) ?ds"
    using assms(6) by (auto simp: list_all2_conv_all_nth nth_Cons split: nat.split)
  moreover have "map (\<lambda>j. acceptedSeqs (wseq w) acc ! j) (k # ks) = x # xs" using assms(7,8) by simp
  ultimately have dg: "list_all2 (\<lambda>n d. genuine ?pid n (dMsg d)) (x # xs) ?ds" by metis
  have f: "ps_ok rw (recordFirst rw x)" "exactly (unat x) {unat x} (absProd (recordFirst rw x))"
    using recordFirst_refines [of rw x] assms exactly_first by simp_all
  have r: "ps_ok rw (fst (runProducer rw x xs))" "suspect (absProd (fst (runProducer rw x xs))) = {}"
      "snd (runProducer rw x xs) = False # repeats {unat x} xs"
    using runNext_exact [OF f] assms(9,10) by (simp_all add: runProducer_simps exactly_def)
  then have lost: "confirmedLost (fst (runProducer rw x xs)) = 0" by (auto simp: ps_ok_def)
  have t: "trackAll (?pid @ ''@'' @ sid) (x # xs) (trk (core w1)) =
      (\<lparr>reorderWindow = rw, producers = [(?pid @ ''@'' @ sid, fst (runProducer rw x xs))]\<rparr>, False # repeats {unat x} xs)"
    unfolding g(1) trackAll_fresh r(3) ..
  have len: "length ?ds = Suc (length ks)" by simp
  show ?thesis
    using fanout_run [OF dg pid, of sid w1, unfolded t] conjunct1 [OF conjunct2 [OF fo.all_settled [of sid ?ds w1]]] lost
    unfolding w2_def len by (simp add: TotalLost_def trackerSum_def del: handleAll.simps list.map)
qed

theorem fanout_round_trip_witness:
  "\<exists>out w1. runLoop (FanOut_produce 0) [accepting, accepting, accepting] demoFanOut = (Next, out, w1) \<and>
     TotalLost (trk (core (snd (handleAll (FanOut_handleMessage ''s0'')
       (map (\<lambda>j. \<lparr>dMsg = out ! j, dNow = 0\<rparr>) [0, 2, 1, 2]) w1)))) = 0"
proof -
  obtain out w1 where o: "runLoop (FanOut_produce 0) [accepting, accepting, accepting] demoFanOut = (Next, out, w1)"
    using demo_run [of demoFanOut "[accepting, accepting, accepting]" 0] by (auto simp: FanOut_produce_def demoFanOut_def)
  have a: "list_all2 answers [accepting, accepting, accepting] [True, True, True]" by (simp add: answers_def accepting_def)
  have "list_all2 (genuine (producerName demoFanOut 0)) (acceptedSeqs (wseq demoFanOut) [True, True, True]) out"
    using produce_run [OF o [unfolded FanOut_produce_def] a] by blast
  then have l: "length out = 3" using list_all2_lengthD by fastforce
  have w: "inWindow (nat 4) (unat (1 :: u64)) {unat (1 :: u64)} [3, 2, 3]" by (simp add: watermark_stop watermark_step)
  from fanout_round_trip [OF o a, of 4 0 "[2, 1, 2]" 1 "[3, 2, 3]" "''s0''" "\<lambda>_. 0"] o l w show ?thesis
    by (auto simp: demoFanOut_def seq_ok_def simp del: handleAll.simps runLoop.simps)
qed

text \<open>A rejected publish is counted as a lost message. The producer takes its sequence number
  before the publish and keeps it when the publish fails, so that number never reaches the
  tracker. With a reorder window of four, one rejection among seven publishes, all six
  accepted messages delivered once and in order: six sent, six received, one loss.\<close>

theorem rejected_publish_counted_lost:
  fixes sid :: string
  assumes "runLoop (FanOut_produce i) inps w = (Next, out, w1)"
    and "list_all2 answers inps [True, False, True, True, True, True, True]"
    and "trk (core w) = New 4" "wseq w = 0"
  defines "w2 \<equiv> snd (handleAll (FanOut_handleMessage sid) (map (\<lambda>m. \<lparr>dMsg = m, dNow = 0\<rparr>) out) w1)"
  shows "length out = 6 \<and> cnt (core w1) Sent = cnt (core w) Sent + 6 \<and>
    cnt (core w2) Received = cnt (core w1) Received + 6 \<and> TotalLost (trk (core w2)) = 1"
proof -
  let ?pid = "producerName w i"
  let ?ds = "map (\<lambda>m. \<lparr>dMsg = m, dNow = 0\<rparr>) out :: delivery list"
  note p = produce_run [OF assms(1) [unfolded FanOut_produce_def] assms(2)]
  have g: "list_all2 (genuine ?pid) [1, 3, 4, 5, 6, 7] out" using p assms(4) by simp
  then have len: "length out = 6" by (simp add: list_all2_lengthD [symmetric])
  have "list_all2 (\<lambda>n d. genuine ?pid n (dMsg d)) [1, 3, 4, 5, 6, 7] ?ds"
    using g by (simp add: list_all2_map2)
  moreover have "?pid \<noteq> []" by (simp add: producerName_def)
  ultimately have "trk (core w2) = fst (trackAll (?pid @ ''@'' @ sid) [1, 3, 4, 5, 6, 7] (New 4))"
    using fanout_run [of ?pid "[1, 3, 4, 5, 6, 7]" ?ds sid w1] p assms(3) by (simp add: w2_def del: trackAll.simps)
  moreover have "confirmedLost (fst (runProducer 4 1 [3, 4, 5, 6, 7])) = 1" by code_simp
  ultimately have "TotalLost (trk (core w2)) = 1" by (simp add: trackAll_fresh TotalLost_def trackerSum_def del: trackAll.simps)
  then show ?thesis using p len fo.all_settled [of sid ?ds w1] by (simp add: w2_def)
qed

theorem rejected_publish_counted_lost_witness:
  "\<exists>out w1. runLoop (FanOut_produce 0) (accepting # rejecting # replicate 5 accepting) demoFanOut = (Next, out, w1) \<and>
     TotalLost (trk (core (snd (handleAll (FanOut_handleMessage ''s0'') (map (\<lambda>m. \<lparr>dMsg = m, dNow = 0\<rparr>) out) w1)))) = 1"
proof -
  obtain out w1 where o: "runLoop (FanOut_produce 0) (accepting # rejecting # replicate 5 accepting) demoFanOut = (Next, out, w1)"
    using demo_run [of demoFanOut "accepting # rejecting # replicate 5 accepting" 0]
    by (auto simp: FanOut_produce_def demoFanOut_def simp del: runLoop.simps)
  have a: "list_all2 answers (accepting # rejecting # replicate 5 accepting) [True, False, True, True, True, True, True]"
    by (simp add: answers_def accepting_def rejecting_def numeral_eq_Suc)
  from rejected_publish_counted_lost [OF o a, of "''s0''"] o show ?thesis
    by (auto simp: demoFanOut_def simp del: runLoop.simps)
qed

section \<open>Reconciliation at the end of a run\<close>

text \<open>The end-of-run reconciliation is exact. Stopping the dead-letter and the interop worker
  charges exactly the published messages that have not come back and are older than the
  budget, and leaves every other counter alone.\<close>

theorem stop_charges_overdue:
  "cnt (core (DeadLetter_StopConsumers now wd)) c = cnt (core wd) c +
     (if c = DeadLetterLost
      then of_nat (length (filter (isOverdue now (deadLetterBudget (cfg (core wd))) (republished wd)) (published wd))) else 0) \<and>
   cnt (core (CrossProtocol_StopConsumers now wc)) c = cnt (core wc) c +
     (if c = InteropDiverged
      then of_nat (length (filter (isOverdue now (10 * Second) (consumed wc)) (cpPublished wc))) else 0)"
  by (auto simp: DeadLetter_StopConsumers_def CrossProtocol_StopConsumers_def reconcileDeadLetterLoss_def
      reconcileConvergence_def overdue_count StopConsumers_def worker_defs interopConvergenceBudget_def Let_def word_gt_0)

text \<open>C25: The dead-letter accounts balance. Whatever is delivered on the queue, in any order and any number of
  times, every delivery is acked and the republished counter is the number of distinct
  instrumented messages among them; and stopping the worker charges as lost exactly the
  published messages that are not among them and are older than the budget.\<close>

theorem dead_letters_counted_once:
  assumes "republished w = {}" "cnt (core w) DeadLetterRepublished = 0"
    and "handleAll handleDLQMessage ds w = (as, w')"
  shows "as = replicate (length ds) DoAck \<and>
    cnt (core w') DeadLetterRepublished = of_nat (card {k. \<exists>d\<in>set ds. deliveryKey d = Some k}) \<and>
    cnt (core (DeadLetter_StopConsumers now w')) DeadLetterLost = cnt (core w) DeadLetterLost +
      of_nat (length (filter (\<lambda>(k, t). (\<forall>d\<in>set ds. deliveryKey d \<noteq> Some k) \<and> deadLetterBudget (cfg (core w)) < timeSub now t)
        (published w)))"
proof -
  note run = dlq_run [OF assms(1), of ds, unfolded assms(3) fst_conv snd_conv]
  have "isOverdue now b (keysSeen ds) = (\<lambda>(k, t). (\<forall>d\<in>set ds. deliveryKey d \<noteq> Some k) \<and> b < timeSub now t)" for b
    by (auto simp: fun_eq_iff isOverdue_def keysSeen_def)
  then show ?thesis
    using run assms(2) by (auto simp: DeadLetter_StopConsumers_def reconcileDeadLetterLoss_def overdue_count StopConsumers_def
        worker_defs keysSeen_def [symmetric] Let_def word_gt_0)
qed

theorem dead_letters_counted_once_witness:
  "\<exists>as w'. handleAll handleDLQMessage [\<lparr>dMsg = demoMsg ''p'' 1, dNow = 0\<rparr>, \<lparr>dMsg = mkMsg ''x'' [], dNow = 0\<rparr>, \<lparr>dMsg = demoMsg ''p'' 1, dNow = 0\<rparr>]
       (demoDead\<lparr>republished := {}, published := [(msgKey ''p'' 1, 0), (msgKey ''p'' 2, 0)]\<rparr>) = (as, w') \<and>
     as = [DoAck, DoAck, DoAck] \<and> cnt (core w') DeadLetterRepublished = 1 \<and>
     cnt (core (DeadLetter_StopConsumers Hour w')) DeadLetterLost = 1"
proof -
  let ?w = "demoDead\<lparr>republished := {}, published := [(msgKey ''p'' 1, 0), (msgKey ''p'' 2, 0)]\<rparr>"
  let ?ds = "[\<lparr>dMsg = demoMsg ''p'' 1, dNow = 0\<rparr>, \<lparr>dMsg = mkMsg ''x'' [], dNow = 0\<rparr>, \<lparr>dMsg = demoMsg ''p'' 1, dNow = 0\<rparr>]"
  obtain as w' where e: "handleAll handleDLQMessage ?ds ?w = (as, w')" by (metis surj_pair)
  have n: "deliveryKey \<lparr>dMsg = mkMsg ''x'' [], dNow = 0\<rparr> = None" by (simp add: deliveryKey_def extractMeta_def mkMsg_def attrGet_def Let_def)
  have "{k. \<exists>d\<in>set ?ds. deliveryKey d = Some k} = {msgKey ''p'' 1}" by (auto simp: demo_key n)
  moreover have "deadLetterBudget DefaultConfig < timeSub Hour 0" by (simp add: deadLetterBudget_def DefaultConfig_def defaultGCP_def timeSub_def time_units i64_def)
  ultimately show ?thesis
    using dead_letters_counted_once [OF _ _ e, of Hour] e
    by (simp add: demo_key n msgKey_inject) (simp add: demoDead_def)
qed

text \<open>One step is enough for the retry-backoff probe. Its comment asks for two consecutive
  growing steps, strictly increasing; the code reports growth as soon as one gap is at
  least one and a half times the one before it, also after shrinking gaps, and two gaps of
  length zero already count.\<close>

theorem growing_gaps_one_step:
  "growingGaps gs \<longleftrightarrow> (\<exists>i. Suc i < length gs \<and> go_quot (i64 (gs ! i * 3)) 2 \<le> gs ! Suc i)"
proof (induction gs rule: growingGaps.induct)
  case (1 a b gs)
  have "(\<exists>i. Suc i < length (a # b # gs) \<and> go_quot (i64 ((a # b # gs) ! i * 3)) 2 \<le> (a # b # gs) ! Suc i) \<longleftrightarrow>
      go_quot (i64 (a * 3)) 2 \<le> b \<or> (\<exists>i. Suc i < length (b # gs) \<and> go_quot (i64 ((b # gs) ! i * 3)) 2 \<le> (b # gs) ! Suc i)"
    (is "(\<exists>i. ?P i) = (_ \<or> (\<exists>i. ?Q i))")
  proof -
    have "(\<exists>i. ?P i) = (?P 0 \<or> (\<exists>i. ?P (Suc i)))" by (metis not0_implies_Suc)
    then show ?thesis by simp
  qed
  with 1 show ?case by simp
qed simp_all

end
