(* ===== verification/GoJson.thy ===== *)
theory GoJson
  imports GoStrings
begin

text \<open>
  What the harness uses of Go's \<^verbatim>\<open>encoding/json\<close>: UTF-8 decoding as in \<^verbatim>\<open>unicode/utf8\<close>, quoting and
  unquoting of strings, and the reader of a whole text with its depth limit. A string is a
  list of bytes. The round trips say what a reader gets back: a string comes back with every
  invalid byte replaced by U+FFFD, an integer comes back as it is.
\<close>

section \<open>UTF-8\<close>

abbreviation byte :: "char \<Rightarrow> nat" where
  "byte c \<equiv> of_char c"

definition tailOK :: "nat \<Rightarrow> nat \<Rightarrow> nat \<Rightarrow> string \<Rightarrow> bool" where
  "tailOK lo hi k s \<longleftrightarrow> k \<le> length s \<and>
     (case s of [] \<Rightarrow> False | b # bs \<Rightarrow> lo \<le> byte b \<and> byte b \<le> hi \<and>
        list_all (\<lambda>c. 0x80 \<le> byte c \<and> byte c \<le> 0xBF) (take (k - 1) bs))"

text \<open>The number of bytes of the rune at the head, 0 when there is no valid one.\<close>

fun runeWidth :: "string \<Rightarrow> nat" where
  "runeWidth [] = 0"
| "runeWidth (a # s) =
     (let n = byte a in
      if n < 0x80 then 1
      else if n < 0xC2 \<or> 0xF4 < n then 0
      else if n < 0xE0 then (if tailOK 0x80 0xBF 1 s then 2 else 0)
      else if n < 0xF0 then
        (if tailOK (if n = 0xE0 then 0xA0 else 0x80) (if n = 0xED then 0x9F else 0xBF) 2 s then 3 else 0)
      else (if tailOK (if n = 0xF0 then 0x90 else 0x80) (if n = 0xF4 then 0x8F else 0xBF) 3 s then 4 else 0))"

definition replacement :: string where
  "replacement = [CHR 0xEF, CHR 0xBF, CHR 0xBD]"

function toValidUTF8 :: "string \<Rightarrow> string" where
  "toValidUTF8 [] = []"
| "toValidUTF8 (a # s) =
     (let w = runeWidth (a # s) in
      if w = 0 then replacement @ toValidUTF8 s else take w (a # s) @ toValidUTF8 (drop (w - 1) s))"
  by pat_completeness auto
termination by (relation "measure length") auto

definition encodeRune :: "nat \<Rightarrow> string" where
  "encodeRune n =
     (if n < 0x80 then [char_of n]
      else if n < 0x800 then [char_of (0xC0 + n div 64), char_of (0x80 + n mod 64)]
      else if n < 0x10000 then [char_of (0xE0 + n div 4096), char_of (0x80 + n div 64 mod 64), char_of (0x80 + n mod 64)]
      else [char_of (0xF0 + n div 262144), char_of (0x80 + n div 4096 mod 64), char_of (0x80 + n div 64 mod 64),
            char_of (0x80 + n mod 64)])"

section \<open>Writing strings\<close>

definition quoteSafe :: "char \<Rightarrow> bool" where
  "quoteSafe c \<longleftrightarrow> 0x20 \<le> byte c \<and> byte c < 0x80 \<and> c \<notin> {CHR 0x22, CHR 0x5C, CHR ''<'', CHR ''>'', CHR ''&''}"

definition escapeByte :: "char \<Rightarrow> string" where
  "escapeByte c =
     CHR 0x5C #
     (if c = CHR 0x5C \<or> c = CHR 0x22 then [c]
      else if c = CHR 0x08 then ''b''
      else if c = CHR 0x0C then ''f''
      else if c = CHR 0x0A then ''n''
      else if c = CHR 0x0D then ''r''
      else if c = CHR 0x09 then ''t''
      else ''u00'' @ [digitChar (byte c div 16), digitChar (byte c mod 16)])"

function quoteBytes :: "string \<Rightarrow> string" where
  "quoteBytes [] = []"
| "quoteBytes (a # s) =
     (if byte a < 0x80 then (if quoteSafe a then [a] else escapeByte a) @ quoteBytes s
      else
        (let w = runeWidth (a # s); r = take w (a # s) in
         if w = 0 then (CHR 0x5C # ''ufffd'') @ quoteBytes s
         else if r = encodeRune 0x2028 then (CHR 0x5C # ''u2028'') @ quoteBytes (drop (w - 1) s)
         else if r = encodeRune 0x2029 then (CHR 0x5C # ''u2029'') @ quoteBytes (drop (w - 1) s)
         else r @ quoteBytes (drop (w - 1) s)))"
  by pat_completeness auto
termination by (relation "measure length") auto

definition appendString :: "string \<Rightarrow> string" where
  "appendString s = CHR 0x22 # quoteBytes s @ [CHR 0x22]"

section \<open>Reading strings\<close>

definition hexVal :: "char \<Rightarrow> nat option" where
  "hexVal c =
     (let n = byte c in
      if 48 \<le> n \<and> n \<le> 57 then Some (n - 48)
      else if 97 \<le> n \<and> n \<le> 102 then Some (n - 87)
      else if 65 \<le> n \<and> n \<le> 70 then Some (n - 55)
      else None)"

fun hex4 :: "string \<Rightarrow> (nat \<times> string) option" where
  "hex4 (a # b # c # d # s) =
     (case (hexVal a, hexVal b, hexVal c, hexVal d) of
        (Some h, Some i, Some j, Some k) \<Rightarrow> Some (4096 * h + 256 * i + 16 * j + k, s)
      | _ \<Rightarrow> None)"
| "hex4 _ = None"

text \<open>The rune of \<^verbatim>\<open>\uXXXX\<close>: a surrogate takes the escape after it into account, and is U+FFFD when
  the two are no pair.\<close>

definition decodeSurrogate :: "nat \<Rightarrow> string \<Rightarrow> string \<times> string" where
  "decodeSurrogate r s =
     (if 0xD800 \<le> r \<and> r < 0xE000 then
        (case s of
           a # u # s' \<Rightarrow>
             (case (if a = CHR 0x5C \<and> u = CHR ''u'' then hex4 s' else None) of
                Some (r2, s'') \<Rightarrow>
                  if r < 0xDC00 \<and> 0xDC00 \<le> r2 \<and> r2 < 0xE000
                  then (encodeRune (0x10000 + (r - 0xD800) * 1024 + (r2 - 0xDC00)), s'')
                  else (replacement, s)
              | None \<Rightarrow> (replacement, s))
         | _ \<Rightarrow> (replacement, s))
      else (encodeRune r, s))"

definition unescape :: "char \<Rightarrow> string \<Rightarrow> (string \<times> string) option" where
  "unescape c s =
     (if c = CHR 0x5C \<or> c = CHR 0x22 \<or> c = CHR ''/'' then Some ([c], s)
      else if c = CHR ''b'' then Some ([CHR 0x08], s)
      else if c = CHR ''f'' then Some ([CHR 0x0C], s)
      else if c = CHR ''n'' then Some ([CHR 0x0A], s)
      else if c = CHR ''r'' then Some ([CHR 0x0D], s)
      else if c = CHR ''t'' then Some ([CHR 0x09], s)
      else if c = CHR ''u'' then (case hex4 s of None \<Rightarrow> None | Some (r, s') \<Rightarrow> Some (decodeSurrogate r s'))
      else None)"

lemma hex4_shorter: "hex4 s = Some (r, s') \<Longrightarrow> length s' < length s"
  by (cases s rule: hex4.cases) (auto split: option.splits)

lemma unescape_shorter: "unescape c s = Some (x, s') \<Longrightarrow> length s' \<le> length s"
  by (auto simp: unescape_def decodeSurrogate_def dest!: hex4_shorter split: if_splits option.splits list.splits)

text \<open>The text after an opening quote: the value of the string and what follows its closing quote.\<close>

function unquote :: "string \<Rightarrow> (string \<times> string) option" where
  "unquote [] = None"
| "unquote (c # s) =
     (if c = CHR 0x22 then Some ([], s)
      else if c = CHR 0x5C then
        (case s of [] \<Rightarrow> None
         | e # s' \<Rightarrow> (case unescape e s' of None \<Rightarrow> None | Some (x, s'') \<Rightarrow> map_option (apfst ((@) x)) (unquote s'')))
      else if byte c < 0x20 then None
      else
        (let w = runeWidth (c # s) in
         if w = 0 then map_option (apfst ((@) replacement)) (unquote s)
         else map_option (apfst ((@) (take w (c # s)))) (unquote (drop (w - 1) s))))"
  by pat_completeness auto
termination
  by (relation "measure length") (auto dest: unescape_shorter)

section \<open>Reading a text\<close>

datatype json = JNull | JBool bool | JNum string | JStr string | JArr "json list" | JObj "(string \<times> json) list"

definition isSpace :: "char \<Rightarrow> bool" where
  "isSpace c \<longleftrightarrow> c \<in> {CHR '' '', CHR 0x09, CHR 0x0A, CHR 0x0D}"

definition skipSpace :: "string \<Rightarrow> string" where
  "skipSpace s = dropWhile isSpace s"

definition isDigit :: "char \<Rightarrow> bool" where
  "isDigit c \<longleftrightarrow> 48 \<le> byte c \<and> byte c \<le> 57"

definition scanDigits :: "string \<Rightarrow> (string \<times> string) option" where
  "scanDigits s = (let d = takeWhile isDigit s in if d = [] then None else Some (d, dropWhile isDigit s))"

definition scanInt :: "string \<Rightarrow> (string \<times> string) option" where
  "scanInt s = (case s of c # s' \<Rightarrow> if c = CHR ''0'' then Some ([c], s') else scanDigits s | [] \<Rightarrow> None)"

definition scanFrac :: "string \<Rightarrow> (string \<times> string) option" where
  "scanFrac s = (case s of c # s' \<Rightarrow> if c = CHR ''.'' then map_option (apfst ((#) c)) (scanDigits s') else Some ([], s)
                 | [] \<Rightarrow> Some ([], []))"

definition scanExp :: "string \<Rightarrow> (string \<times> string) option" where
  "scanExp s =
     (case s of
        c # s' \<Rightarrow>
          if c = CHR ''e'' \<or> c = CHR ''E'' then
            (case s' of
               g # s'' \<Rightarrow> if g = CHR ''+'' \<or> g = CHR ''-'' then map_option (apfst (\<lambda>d. c # g # d)) (scanDigits s'')
                         else map_option (apfst ((#) c)) (scanDigits s')
             | [] \<Rightarrow> None)
          else Some ([], s)
      | [] \<Rightarrow> Some ([], []))"

definition scanNumber :: "string \<Rightarrow> (string \<times> string) option" where
  "scanNumber s =
     (let neg = (s \<noteq> [] \<and> hd s = CHR ''-''); t = (if neg then tl s else s) in
      case scanInt t of None \<Rightarrow> None
      | Some (i, t) \<Rightarrow>
          (case scanFrac t of None \<Rightarrow> None
           | Some (f, t) \<Rightarrow>
               (case scanExp t of None \<Rightarrow> None
                | Some (x, t) \<Rightarrow> Some ((if neg then ''-'' else []) @ i @ f @ x, t))))"

definition literal :: "string \<Rightarrow> json \<Rightarrow> string \<Rightarrow> (json \<times> string) option" where
  "literal name v s = (if take (length name) s = name then Some (v, drop (length name) s) else None)"

text \<open>One value and the text after it. Every call of the reader consumes a unit of fuel, every bracket a
  level of \<open>depth\<close>; a text of length \<open>n\<close> never needs more than \<open>2 n + 2\<close> units.\<close>

fun readValue :: "nat \<Rightarrow> nat \<Rightarrow> string \<Rightarrow> (json \<times> string) option"
and readElems :: "nat \<Rightarrow> nat \<Rightarrow> string \<Rightarrow> (json list \<times> string) option"
and readMembers :: "nat \<Rightarrow> nat \<Rightarrow> string \<Rightarrow> ((string \<times> json) list \<times> string) option" where
  "readValue 0 depth s = None"
| "readValue (Suc fuel) depth s =
     (case skipSpace s of
        [] \<Rightarrow> None
      | c # s' \<Rightarrow>
          if c = CHR 0x22 then map_option (apfst JStr) (unquote s')
          else if c = CHR ''{'' then
            (if depth = 0 then None
             else case skipSpace s' of
               d # s'' \<Rightarrow> if d = CHR ''}'' then Some (JObj [], s'')
                         else map_option (apfst JObj) (readMembers fuel (depth - 1) (d # s''))
             | [] \<Rightarrow> None)
          else if c = CHR ''['' then
            (if depth = 0 then None
             else case skipSpace s' of
               d # s'' \<Rightarrow> if d = CHR '']'' then Some (JArr [], s'')
                         else map_option (apfst JArr) (readElems fuel (depth - 1) (d # s''))
             | [] \<Rightarrow> None)
          else if c = CHR ''t'' then literal ''rue'' (JBool True) s'
          else if c = CHR ''f'' then literal ''alse'' (JBool False) s'
          else if c = CHR ''n'' then literal ''ull'' JNull s'
          else map_option (apfst JNum) (scanNumber (c # s')))"
| "readElems 0 depth s = None"
| "readElems (Suc fuel) depth s =
     (case readValue fuel depth s of None \<Rightarrow> None
      | Some (v, t) \<Rightarrow>
          (case skipSpace t of
             [] \<Rightarrow> None
           | c # t' \<Rightarrow> if c = CHR '']'' then Some ([v], t')
                      else if c = CHR '','' then map_option (apfst ((#) v)) (readElems fuel depth t')
                      else None))"
| "readMembers 0 depth s = None"
| "readMembers (Suc fuel) depth s =
     (case skipSpace s of
        [] \<Rightarrow> None
      | q # s' \<Rightarrow>
          if q \<noteq> CHR 0x22 then None
          else case unquote s' of None \<Rightarrow> None
          | Some (k, t) \<Rightarrow>
              (case skipSpace t of
                 [] \<Rightarrow> None
               | c # t' \<Rightarrow>
                   if c \<noteq> CHR '':'' then None
                   else case readValue fuel depth t' of None \<Rightarrow> None
                   | Some (v, u) \<Rightarrow>
                       (case skipSpace u of
                          [] \<Rightarrow> None
                        | e # u' \<Rightarrow> if e = CHR ''}'' then Some ([(k, v)], u')
                                   else if e = CHR '','' then map_option (apfst ((#) (k, v))) (readMembers fuel depth u')
                                   else None)))"

definition maxNestingDepth :: nat where "maxNestingDepth = 10000"

definition readText :: "string \<Rightarrow> json option" where
  "readText s =
     (case readValue (2 * length s + 2) maxNestingDepth s of
        Some (v, t) \<Rightarrow> if skipSpace t = [] then Some v else None
      | None \<Rightarrow> None)"

text \<open>Two names match when their case foldings agree: besides the ASCII letters the long s and the
  Kelvin sign fold to one of them.\<close>

fun foldName :: "string \<Rightarrow> string" where
  "foldName s =
     (case s of
        [] \<Rightarrow> []
      | a # t \<Rightarrow>
          if take 2 s = [CHR 0xC5, CHR 0xBF] then CHR ''S'' # foldName (drop 1 t)
          else if take 3 s = [CHR 0xE2, CHR 0x84, CHR 0xAA] then CHR ''K'' # foldName (drop 2 t)
          else (if 97 \<le> byte a \<and> byte a \<le> 122 then char_of (byte a - 32) else a) # foldName t)"

declare foldName.simps [simp del]

section \<open>Fuel\<close>

text \<open>More fuel never changes an answer, and the fuel of \<open>readText\<close> is never what makes it refuse: with
  any larger amount the answer is the same.\<close>

lemma skipSpace_le: "length (skipSpace s) \<le> length s"
  by (simp add: skipSpace_def length_dropWhile_le)

lemma skipSpace_cons: "skipSpace s = c # t \<Longrightarrow> length t < length s"
  using skipSpace_le [of s] by simp

lemma scanDigits_shorter: "scanDigits s = Some (d, t) \<Longrightarrow> length t < length s"
  by (induction s) (auto simp: scanDigits_def Let_def length_dropWhile_le le_imp_less_Suc split: if_splits)

lemma scanInt_shorter: "scanInt s = Some (d, t) \<Longrightarrow> length t < length s"
  by (auto simp: scanInt_def dest: scanDigits_shorter split: list.splits if_splits)

lemma scanFrac_le: "scanFrac s = Some (d, t) \<Longrightarrow> length t \<le> length s"
  by (auto simp: scanFrac_def dest!: scanDigits_shorter split: list.splits if_splits)

lemma scanExp_le: "scanExp s = Some (d, t) \<Longrightarrow> length t \<le> length s"
  by (auto simp: scanExp_def dest!: scanDigits_shorter split: list.splits if_splits)

lemma scanNumber_shorter: "scanNumber s = Some (d, t) \<Longrightarrow> length t < length s"
  by (cases s) (fastforce simp: scanNumber_def Let_def dest!: scanInt_shorter scanFrac_le scanExp_le split: if_splits option.splits)+

lemma unquote_shorter: "unquote s = Some (x, t) \<Longrightarrow> length t < length s"
proof (induction s arbitrary: x t rule: unquote.induct)
  case (2 c s)
  note r = 2(4) and ih = 2(1-3)
  consider (esc) "c = CHR 0x5C" | (other) "c \<noteq> CHR 0x5C" by blast
  then show ?case
  proof cases
    case esc
    then obtain e s' y s'' z where "s = e # s'" "unescape e s' = Some (y, s'')" "unquote s'' = Some (z, t)"
      using r by (auto split: list.splits option.splits)
    then show ?thesis using ih(1) [of e s' "(y, s'')" y s''] esc unescape_shorter [of e s' y s''] by fastforce
  next
    case other
    show ?thesis
    proof (cases "c = CHR 0x22")
      case False
      define n where "n = (if runeWidth (c # s) = 0 then 0 else runeWidth (c # s) - 1)"
      have "unquote (drop n s) \<noteq> None \<and> snd (the (unquote (drop n s))) = t \<and> \<not> byte c < 0x20"
        using r other False by (auto simp: n_def Let_def simp del: runeWidth.simps split: if_splits)
      then obtain z where z: "unquote (drop n s) = Some (z, t)" "\<not> byte c < 0x20" by auto
      have "length t < length (drop n s)"
        using z ih(2,3) [OF False other z(2) refl, of z t] by (cases "runeWidth (c # s) = 0") (simp_all add: n_def)
      then show ?thesis by simp
    qed (use r in simp)
  qed
qed simp

lemma literal_shorter: "literal name v s = Some (x, t) \<Longrightarrow> length t \<le> length s"
  by (auto simp: literal_def split: if_splits)

lemmas shorter = skipSpace_cons scanNumber_shorter unquote_shorter literal_shorter

lemma read_shorter:
  "readValue f d s = Some (v, t) \<Longrightarrow> length t < length s"
  "readElems f d s = Some (vs, t) \<Longrightarrow> length t < length s"
  "readMembers f d s = Some (ms, t) \<Longrightarrow> length t < length s"
proof (induction f d s and f d s and f d s arbitrary: v t and vs t and ms t rule: readValue_readElems_readMembers.induct)
  case (2 fuel depth s)
  then show ?case
    by (fastforce dest!: shorter split: list.splits if_splits option.splits)
next
  case (4 fuel depth s)
  then show ?case
    by (fastforce dest!: skipSpace_cons split: list.splits if_splits option.splits)
next
  case (6 fuel depth s)
  then show ?case
    by (fastforce dest!: skipSpace_cons unquote_shorter split: list.splits if_splits option.splits)
qed simp_all

lemma read_fuel:
  "2 * length s + 1 \<le> f \<Longrightarrow> readValue (Suc f) d s = readValue f d s"
  "2 * length s + 2 \<le> f \<Longrightarrow> readElems (Suc f) d s = readElems f d s"
  "2 * length s + 2 \<le> f \<Longrightarrow> readMembers (Suc f) d s = readMembers f d s"
proof (induction f arbitrary: d s)
  case (Suc f)
  { case 1
    have "readElems (Suc f) k (y # t') = readElems f k (y # t') \<and> readMembers (Suc f) k (y # t') = readMembers f k (y # t')"
      if "skipSpace s = c # t" "skipSpace t = y # t'" for c t y t' k
      using skipSpace_cons [OF that(1)] skipSpace_cons [OF that(2)] 1 Suc.IH(2,3) by simp
    then show ?case
      by (simp only: readValue.simps) (simp del: readElems.simps readMembers.simps split: list.split)
  next
    case 2
    then have "readValue (Suc f) d s = readValue f d s" using Suc.IH(1) by simp
    moreover have "readElems (Suc f) d t' = readElems f d t'" if "readValue f d s = Some (v, t)" "skipSpace t = c # t'" for v t c t'
      using read_shorter(1) [OF that(1)] skipSpace_cons [OF that(2)] 2 Suc.IH(2) by simp
    ultimately show ?case by (simp only: readElems.simps) (simp del: readValue.simps readElems.simps readMembers.simps split: option.split list.split)
  next
    case 3
    have V: "readValue (Suc f) d t' = readValue f d t'" if "skipSpace s = q # s'" "unquote s' = Some (k, t)" "skipSpace t = c # t'" for q s' k t c t'
      using skipSpace_cons [OF that(1)] unquote_shorter [OF that(2)] skipSpace_cons [OF that(3)] 3 Suc.IH(1) by simp
    have M: "readMembers (Suc f) d u' = readMembers f d u'"
      if "skipSpace s = q # s'" "unquote s' = Some (k, t)" "skipSpace t = c # t'" "readValue f d t' = Some (v, u)" "skipSpace u = e # u'"
      for q s' k t c t' v u e u'
    proof -
      have "length u' < length s"
        using skipSpace_cons [OF that(1)] unquote_shorter [OF that(2)] skipSpace_cons [OF that(3)] read_shorter(1) [OF that(4)]
          skipSpace_cons [OF that(5)] by simp
      then show ?thesis using 3 Suc.IH(3) by simp
    qed
    show ?case using V M by (simp only: readMembers.simps) (simp del: readValue.simps readElems.simps readMembers.simps split: option.split list.split)
  }
qed simp_all

lemma readText_fuel:
  assumes "2 * length s + 2 \<le> f"
  shows "readText s = (case readValue f maxNestingDepth s of
    Some (v, t) \<Rightarrow> if skipSpace t = [] then Some v else None | None \<Rightarrow> None)"
proof -
  have "readValue f maxNestingDepth s = readValue (2 * length s + 2) maxNestingDepth s"
    using assms by (induction f rule: dec_induct) (use read_fuel(1) in auto)
  then show ?thesis by (simp add: readText_def)
qed

declare readValue.simps [simp del] readElems.simps [simp del] readMembers.simps [simp del]

section \<open>Round trips\<close>

lemma tailOK_take: "tailOK lo hi k s \<Longrightarrow> 0 < k \<Longrightarrow> tailOK lo hi k (take k s @ t)"
  by (cases s; cases k) (auto simp: tailOK_def)

lemma runeWidth_take:
  assumes "runeWidth (a # s) = Suc w"
  shows "runeWidth (a # take w s @ t) = Suc w" "w \<le> length s"
  using assms by (auto simp: Let_def tailOK_take tailOK_def [of _ _ _ s] split: if_splits)

lemma runeWidth_high: "runeWidth (a # s) = w \<Longrightarrow> 0x80 \<le> byte a \<Longrightarrow> w \<noteq> Suc 0"
  by (auto simp: Let_def split: if_splits)

lemma hexVal_digit: "d < 16 \<Longrightarrow> hexVal (digitChar d) = Some d"
  by (simp add: hexVal_def digitChar_def Let_def)

lemma unquote_escapeByte:
  assumes "byte c < 0x80" "\<not> quoteSafe c"
  shows "unquote (escapeByte c @ s) = map_option (apfst ((@) [c])) (unquote s)"
proof -
  have h: "hexVal (CHR ''0'') = Some 0" by (simp add: hexVal_def)
  have d: "byte c div 16 < 16" using assms by simp
  have e: "4096 * 0 + 256 * 0 + 16 * (byte c div 16) + byte c mod 16 = byte c" by simp
  have "[char_of (byte c)] = [c]" by simp
  then show ?thesis
    using assms(1) by (simp add: escapeByte_def unescape_def hexVal_digit [OF d] hexVal_digit h decodeSurrogate_def encodeRune_def)
qed

lemma unquote_safe: "quoteSafe a \<Longrightarrow> unquote (a # s) = map_option (apfst ((@) [a])) (unquote s)"
  by (auto simp: quoteSafe_def Let_def)

lemma unquote_rune:
  assumes "runeWidth (a # s) = Suc w" "0x80 \<le> byte a"
  shows "unquote (take (Suc w) (a # s) @ t) = map_option (apfst ((@) (take (Suc w) (a # s)))) (unquote t)"
proof -
  have q: "a \<noteq> CHR 0x22" "a \<noteq> CHR 0x5C" using assms(2) by auto
  have w: "runeWidth (a # take w s @ t) = Suc w" "w \<le> length s" using runeWidth_take [OF assms(1)] by auto
  have "unquote (a # take w s @ t) = map_option (apfst ((@) (a # take w s))) (unquote t)"
    using q assms(2) w(2) by (subst unquote.simps) (simp add: w(1) del: runeWidth.simps)
  then show ?thesis by simp
qed

lemma hexVal_consts: "hexVal (CHR ''f'') = Some 15" "hexVal (CHR ''d'') = Some 13" "hexVal (CHR ''0'') = Some 0"
  "hexVal (CHR ''2'') = Some 2" "hexVal (CHR ''8'') = Some 8" "hexVal (CHR ''9'') = Some 9"
  by (simp_all add: hexVal_def)

lemma encodeRune_consts: "encodeRune 0xFFFD = replacement" "encodeRune 0x2029 \<noteq> encodeRune 0x2028"
  by (simp_all add: encodeRune_def replacement_def char_of_eq_iff)

lemma unquote_u:
  "unquote ((CHR 0x5C # ''ufffd'') @ t) = map_option (apfst ((@) replacement)) (unquote t)"
  "unquote ((CHR 0x5C # ''u2028'') @ t) = map_option (apfst ((@) (encodeRune 0x2028))) (unquote t)"
  "unquote ((CHR 0x5C # ''u2029'') @ t) = map_option (apfst ((@) (encodeRune 0x2029))) (unquote t)"
  by (simp_all add: unescape_def hexVal_consts decodeSurrogate_def encodeRune_consts)

lemma quote_unquote: "unquote (quoteBytes s @ CHR 0x22 # t) = Some (toValidUTF8 s, t)"
proof (induction s rule: quoteBytes.induct)
  case (2 a s)
  show ?case
  proof (cases "byte a < 0x80")
    case True
    then show ?thesis
      using 2(1) by (cases "quoteSafe a") (simp_all add: unquote_safe unquote_escapeByte del: unquote.simps)
  next
    case h: False
    then show ?thesis
    proof (cases "runeWidth (a # s)")
      case 0
      then show ?thesis using h 2(2) [OF h refl refl] by (simp add: unquote_u del: unquote.simps runeWidth.simps append_Cons)
    next
      case (Suc w)
      have ih: "unquote (quoteBytes (drop w s) @ CHR 0x22 # t) = Some (toValidUTF8 (drop w s), t)"
        using 2(3-) [OF h refl refl] Suc encodeRune_consts(2)
        by (cases "take (Suc w) (a # s) = encodeRune 0x2028"; cases "take (Suc w) (a # s) = encodeRune 0x2029")
          (simp_all del: unquote.simps runeWidth.simps take_Suc_Cons)
      show ?thesis using h Suc ih unquote_rune [OF Suc]
        by (simp add: unquote_u Let_def del: unquote.simps runeWidth.simps append_Cons take_Suc_Cons)
    qed
  qed
qed simp

lemma toValidUTF8_ascii: "list_all (\<lambda>c. byte c < 0x80) s \<Longrightarrow> toValidUTF8 s = s"
  by (induction s) (simp_all add: Let_def)

lemma digitChar_isDigit [simp]: "d < 10 \<Longrightarrow> isDigit (digitChar d)"
  by (simp add: isDigit_def digitChar_def)

lemma formatBase_digits: "list_all isDigit (formatBase 10 n)"
proof (induction n rule: less_induct)
  case (less n)
  show ?case
  proof (cases "n < 10")
    case False
    then show ?thesis using less [of "n div 10"] by (simp add: formatBase_big)
  qed (simp add: formatBase_small)
qed

lemma formatBase_zero: "formatBase 10 n = CHR ''0'' # cs \<Longrightarrow> cs = []"
proof (induction n arbitrary: cs rule: less_induct)
  case (less n)
  show ?case
  proof (cases "n < 10")
    case False
    obtain ds where f: "formatBase 10 (n div 10) = CHR ''0'' # ds"
      using less(2) False by (cases "formatBase 10 (n div 10)") (simp_all add: formatBase_big)
    then have "formatBase 10 (n div 10) = ''0''" using less(1) [OF _ f] False by simp
    then have "baseValue 10 (formatBase 10 (n div 10)) = 0" by (simp add: baseValue_def charDigit_def)
    then show ?thesis using False by (simp add: baseValue_format)
  qed (use less in \<open>simp add: formatBase_small\<close>)
qed

lemma takeWhile_digits:
  assumes "list_all isDigit ds" "t \<noteq> [] \<Longrightarrow> \<not> isDigit (hd t)"
  shows "takeWhile isDigit (ds @ t) = ds" "dropWhile isDigit (ds @ t) = t"
  using assms by (induction ds) (auto simp: neq_Nil_conv, (cases t; auto)+)

lemma scanInt_format:
  assumes "t \<noteq> [] \<Longrightarrow> \<not> isDigit (hd t)"
  shows "scanInt (formatBase 10 n @ t) = Some (formatBase 10 n, t)"
proof (cases "formatBase 10 n")
  case (Cons c cs)
  then show ?thesis
    using formatBase_zero [of n cs] takeWhile_digits [OF formatBase_digits [of n] assms]
    by (cases "c = CHR ''0''") (auto simp: scanInt_def scanDigits_def Let_def)
qed simp

definition ends_number :: "string \<Rightarrow> bool" where
  "ends_number t \<longleftrightarrow> (\<exists>c u. t = c # u \<and> c \<in> {CHR '','', CHR ''}'', CHR '']'', CHR '' ''})"

lemma scanNumber_format:
  assumes "ends_number t"
  shows "scanNumber (FormatInt i @ t) = Some (FormatInt i, t)" "scanNumber (FormatUint v @ t) = Some (FormatUint v, t)"
proof -
  have d: "\<not> isDigit (hd t)" and f: "scanFrac t = Some ([], t)" "scanExp t = Some ([], t)"
    using assms by (auto simp: ends_number_def isDigit_def scanFrac_def scanExp_def)
  have s: "scanInt (formatBase 10 n @ t) = Some (formatBase 10 n, t)" for n using scanInt_format d by simp
  have h: "hd (formatBase 10 n @ t) \<noteq> CHR ''-''" for n
    using formatBase_head [of n] digitChar_not_sign by auto
  show "scanNumber (FormatInt i @ t) = Some (FormatInt i, t)" "scanNumber (FormatUint v @ t) = Some (FormatUint v, t)"
    using h s f by (simp_all add: scanNumber_def FormatInt_def FormatUint_def Let_def)
qed

section \<open>Objects\<close>

text \<open>An object as \<^verbatim>\<open>Marshal\<close> writes it, from the names and the texts of its fields.\<close>

fun writeMembers :: "(string \<times> string) list \<Rightarrow> string" where
  "writeMembers [] = []"
| "writeMembers [(k, v)] = appendString k @ CHR '':'' # v"
| "writeMembers ((k, v) # ms) = appendString k @ CHR '':'' # v @ CHR '','' # writeMembers ms"

definition writeObject :: "(string \<times> string) list \<Rightarrow> string" where
  "writeObject ms = CHR ''{'' # writeMembers ms @ ''}''"

definition reads :: "string \<Rightarrow> json \<Rightarrow> bool" where
  "reads v j \<longleftrightarrow> (\<forall>f d t. ends_number t \<longrightarrow> readValue (Suc f) d (v @ t) = Some (j, t))"

lemma skipSpace_simps [simp]: "\<not> isSpace c \<Longrightarrow> skipSpace (c # s) = c # s"
  by (simp add: skipSpace_def)

lemma reads_string: "reads (appendString s) (JStr (toValidUTF8 s))"
  by (simp add: reads_def readValue.simps appendString_def isSpace_def quote_unquote del: unquote.simps)

lemma reads_number:
  assumes "\<And>t. ends_number t \<Longrightarrow> scanNumber (v @ t) = Some (v, t)" "v = c # cs" "isDigit c \<or> c = CHR ''-''"
  shows "reads v (JNum v)"
proof -
  have "\<not> isSpace c" "c \<notin> {CHR 0x22, CHR ''{'', CHR ''['', CHR ''t'', CHR ''f'', CHR ''n''}"
    using assms(3) by (auto simp: isDigit_def isSpace_def)
  then show ?thesis using assms(1,2) by (simp add: reads_def readValue.simps)
qed

lemma reads_ints: "reads (FormatInt i) (JNum (FormatInt i))" "reads (FormatUint v) (JNum (FormatUint v))"
proof -
  have d: "\<exists>c cs. formatBase 10 n = c # cs \<and> isDigit c" for n
    using formatBase_head [of n] by auto
  have i: "\<exists>c cs. FormatInt i = c # cs \<and> (isDigit c \<or> c = CHR ''-'')"
    using d [of "nat i"] by (simp add: FormatInt_def) blast
  show "reads (FormatInt i) (JNum (FormatInt i))" using i reads_number scanNumber_format(1) by metis
  show "reads (FormatUint v) (JNum (FormatUint v))" using d [of "unat v"] reads_number scanNumber_format(2) unfolding FormatUint_def by metis
qed

lemma read_member:
  assumes "reads v j" "ends_number t"
  shows "readMembers (Suc (Suc f)) d (appendString k @ CHR '':'' # v @ t) =
    (case skipSpace t of
       [] \<Rightarrow> None
     | e # u' \<Rightarrow> if e = CHR ''}'' then Some ([(toValidUTF8 k, j)], u')
                else if e = CHR '','' then map_option (apfst ((#) (toValidUTF8 k, j))) (readMembers (Suc f) d u')
                else None)"
  using assms by (simp add: readMembers.simps [of "Suc f"] appendString_def isSpace_def quote_unquote reads_def del: unquote.simps)

lemma read_members:
  assumes "ms \<noteq> []" "list_all2 (\<lambda>(k, v) (k', j). reads v j \<and> k' = toValidUTF8 k) ms js" "length ms < f"
  shows "readMembers f d (writeMembers ms @ CHR ''}'' # t) = Some (js, t)"
  using assms
proof (induction ms arbitrary: js f rule: writeMembers.induct)
  case (2 k v)
  obtain g where f: "f = Suc (Suc g)" using 2(3) by (cases f; cases "f - 1") auto
  obtain j where js: "js = [(toValidUTF8 k, j)]" "reads v j" using 2(2) by (auto simp: list_all2_Cons1)
  have "ends_number (CHR ''}'' # t)" by (simp add: ends_number_def)
  from read_member [OF js(2) this] show ?case using js(1) f by (simp add: isSpace_def)
next
  case (3 k v m ms)
  obtain j js' where js: "js = (toValidUTF8 k, j) # js'" "reads v j"
      "list_all2 (\<lambda>(k, v) (k', j). reads v j \<and> k' = toValidUTF8 k) (m # ms) js'"
    using 3(3) by (auto simp: list_all2_Cons1)
  obtain g where f: "f = Suc (Suc g)" "length (m # ms) < Suc g" using 3(4) by (cases f; cases "f - 1") auto
  have "ends_number (CHR '','' # writeMembers (m # ms) @ CHR ''}'' # t)" by (simp add: ends_number_def)
  from read_member [OF js(2) this] show ?case
    using 3(1) [OF _ js(3) f(2)] js(1) f(1) by (simp add: isSpace_def)
qed simp

lemma writeMembers_length: "length ms \<le> length (writeMembers ms)"
  by (induction ms rule: writeMembers.induct) (auto simp: appendString_def)

theorem readText_writeObject:
  assumes "ms \<noteq> []" "list_all2 (\<lambda>(k, v) (k', j). reads v j \<and> k' = toValidUTF8 k) ms js"
  shows "readText (writeObject ms) = Some (JObj js)"
proof -
  obtain c where w: "writeMembers ms = CHR 0x22 # c" using assms(1) by (cases ms rule: writeMembers.cases) (auto simp: appendString_def)
  have "readMembers (2 * length (writeObject ms) + 1) 9999 (writeMembers ms @ CHR ''}'' # []) = Some (js, [])"
    using read_members [OF assms] writeMembers_length [of ms] by (simp add: writeObject_def)
  then show ?thesis
    using w by (simp add: readText_def readValue.simps writeObject_def isSpace_def maxNestingDepth_def skipSpace_def)
qed

end
