(* ===== verification/Schema.thy ===== *)
theory Schema
  imports WorkerClaims GoJson
begin

text \<open>
  The schema-enforcement worker of \<^verbatim>\<open>src/burnin/worker/schema_enforce.go\<close>. Its instrumentation travels in
  the body, a JSON object written by \<^verbatim>\<open>Marshal\<close> and read by \<^verbatim>\<open>Unmarshal\<close>; both are modelled on the
  bytes with \<open>GoJson\<close>. What the schema service and the broker answer is an argument. The call of
  \<^verbatim>\<open>ValidateMessage\<close> in the probe only decides a log line and is left out.
\<close>

section \<open>The body\<close>

record schemaBody =
  sbWorkerID :: string
  sbSeq :: u64
  sbContentHash :: string
  sbTsNS :: int
  sbPad :: string

definition zeroBody :: schemaBody where
  "zeroBody = \<lparr>sbWorkerID = [], sbSeq = 0, sbContentHash = [], sbTsNS = 0, sbPad = []\<rparr>"

definition bodyFields :: "string list" where
  "bodyFields = [''worker_id'', ''seq'', ''content_hash'', ''ts_ns'', ''pad'']"

definition marshalBody :: "schemaBody \<Rightarrow> string" where
  "marshalBody sb =
     writeObject [(''worker_id'', appendString (sbWorkerID sb)), (''seq'', FormatUint (sbSeq sb)),
       (''content_hash'', appendString (sbContentHash sb)), (''ts_ns'', FormatInt (sbTsNS sb)), (''pad'', appendString (sbPad sb))]"

definition findField :: "string \<Rightarrow> string option" where
  "findField k = (if k \<in> set bodyFields then Some k else find (\<lambda>n. foldName n = foldName k) bodyFields)"

definition stringField :: "json \<Rightarrow> string \<Rightarrow> string option" where
  "stringField v old = (case v of JStr s \<Rightarrow> Some s | JNull \<Rightarrow> Some old | _ \<Rightarrow> None)"

definition uintField :: "json \<Rightarrow> u64 \<Rightarrow> u64 option" where
  "uintField v old = (case v of JNum l \<Rightarrow> ParseUint l | JNull \<Rightarrow> Some old | _ \<Rightarrow> None)"

definition intField :: "json \<Rightarrow> int \<Rightarrow> int option" where
  "intField v old = (case v of JNum l \<Rightarrow> ParseInt l | JNull \<Rightarrow> Some old | _ \<Rightarrow> None)"

definition setField :: "string \<times> json \<Rightarrow> schemaBody \<Rightarrow> schemaBody option" where
  "setField kv sb =
     (let (k, v) = kv in
      case findField k of
        None \<Rightarrow> Some sb
      | Some n \<Rightarrow>
          if n = ''worker_id'' then map_option (\<lambda>x. sb\<lparr>sbWorkerID := x\<rparr>) (stringField v (sbWorkerID sb))
          else if n = ''seq'' then map_option (\<lambda>x. sb\<lparr>sbSeq := x\<rparr>) (uintField v (sbSeq sb))
          else if n = ''content_hash'' then map_option (\<lambda>x. sb\<lparr>sbContentHash := x\<rparr>) (stringField v (sbContentHash sb))
          else if n = ''ts_ns'' then map_option (\<lambda>x. sb\<lparr>sbTsNS := x\<rparr>) (intField v (sbTsNS sb))
          else map_option (\<lambda>x. sb\<lparr>sbPad := x\<rparr>) (stringField v (sbPad sb)))"

fun setFields :: "(string \<times> json) list \<Rightarrow> schemaBody \<Rightarrow> schemaBody option" where
  "setFields [] sb = Some sb"
| "setFields (kv # kvs) sb = (case setField kv sb of None \<Rightarrow> None | Some sb \<Rightarrow> setFields kvs sb)"

text \<open>\<open>None\<close> is any error of \<^verbatim>\<open>Unmarshal\<close>: the text is no JSON, is no object, or a field has the wrong type.\<close>

definition unmarshalBody :: "string \<Rightarrow> schemaBody option" where
  "unmarshalBody data =
     (case readText data of
        Some (JObj kvs) \<Rightarrow> setFields kvs zeroBody
      | Some JNull \<Rightarrow> Some zeroBody
      | _ \<Rightarrow> None)"

section \<open>The schema\<close>

datatype schemaEncoding = EncodingJSON | EncodingBinary
datatype schemaKind = SchemaAvro | SchemaProtocolBuffer

definition schemaEncodingOf :: "string \<Rightarrow> schemaEncoding" where
  "schemaEncodingOf enc = (if enc = ''binary'' then EncodingBinary else EncodingJSON)"

definition textLines :: "string list \<Rightarrow> string" where
  "textLines ls = (case ls of [] \<Rightarrow> [] | l # ls \<Rightarrow> l @ concat (map (\<lambda>l. CHR 0x0A # l) ls))"

definition quoted :: "string \<Rightarrow> string" where
  "quoted s = CHR 0x22 # s @ [CHR 0x22]"

definition avroField :: "string \<Rightarrow> string \<Rightarrow> string" where
  "avroField n t = ''    {'' @ quoted ''name'' @ '': '' @ quoted n @ '', '' @ quoted ''type'' @ '': '' @ quoted t @ ''}''"

definition avroSchemaDefinition :: string where
  "avroSchemaDefinition =
     textLines [''{'',
       ''  '' @ quoted ''type'' @ '': '' @ quoted ''record'' @ '','',
       ''  '' @ quoted ''name'' @ '': '' @ quoted ''BurninSchemaEnforce'' @ '','',
       ''  '' @ quoted ''namespace'' @ '': '' @ quoted ''kubemq.burnin'' @ '','',
       ''  '' @ quoted ''fields'' @ '': ['',
       avroField ''worker_id'' ''string'' @ '','',
       avroField ''seq'' ''long'' @ '','',
       avroField ''content_hash'' ''string'' @ '','',
       avroField ''ts_ns'' ''long'' @ '','',
       avroField ''pad'' ''string'',
       ''  ]'',
       ''}'']"

definition protoSchemaDefinition :: string where
  "protoSchemaDefinition =
     textLines [''syntax = '' @ quoted ''proto3'' @ '';'', ''package kubemq.burnin;'', ''message BurninSchemaEnforce {'',
       ''  string worker_id = 1;'', ''  int64 seq = 2;'', ''  string content_hash = 3;'', ''  int64 ts_ns = 4;'',
       ''  string pad = 5;'', ''}'']"

section \<open>The worker\<close>

record SchemaEnforceWorker = SeqWorker +
  seTopicID :: string
  seSubID :: string
  seSchemaID :: string
  seSchemaType :: string
  seEncoding :: schemaEncoding
  seSchemaClient :: bool

definition NewSchemaEnforceWorker :: "environ \<Rightarrow> Config \<Rightarrow> int \<Rightarrow> SchemaEnforceWorker option" where
  "NewSchemaEnforceWorker getenv c idx =
     (let topic = TopicName getenv WorkerSchemaEnforce idx in
      map_option (\<lambda>b. \<lparr>core = b, wseq = 0, seTopicID = topic, seSubID = SubscriptionName getenv WorkerSchemaEnforce idx,
          seSchemaID = SchemaName getenv WorkerSchemaEnforce idx, seSchemaType = SchemaType (GCP c),
          seEncoding = schemaEncodingOf (SchemaEncoding (GCP c)), seSchemaClient = False\<rparr>)
        (NewBaseWorker getenv WorkerSchemaEnforce (MappedTopicChannel topic) idx c))"

record schemaSdk =
  skPubSub :: sdk
  skClient :: "rpc_error option"
  skCreate :: "schemaKind \<Rightarrow> string \<Rightarrow> string \<Rightarrow> rpc_error + unit"
  skTopic :: "string \<Rightarrow> string \<times> schemaEncoding \<Rightarrow> rpc_error + string"

definition registerSchema :: "schemaSdk \<Rightarrow> SchemaEnforceWorker \<Rightarrow> rpc_error option" where
  "registerSchema k w =
     (let defn = (if seSchemaType w = ''protobuf'' then protoSchemaDefinition else avroSchemaDefinition);
          kind = (if seSchemaType w = ''protobuf'' then SchemaProtocolBuffer else SchemaAvro)
      in case createSchema (\<lambda>rid. skCreate k kind rid defn) (seSchemaID w) of Inl e \<Rightarrow> Some e | Inr _ \<Rightarrow> None)"

definition schemaTopic :: "schemaSdk \<Rightarrow> SchemaEnforceWorker \<Rightarrow> rpc_error option" where
  "schemaTopic k w =
     (case EnsureTopicWithSchema (skTopic k) (\<lambda>i. i) (seTopicID w)
        (SchemaSettings (psProjectID (psCfg (core w))) (seSchemaID w), seEncoding w) of
        Inl e \<Rightarrow> Some e | Inr _ \<Rightarrow> None)"

definition SchemaEnforce_Start :: "schemaSdk \<Rightarrow> SchemaEnforceWorker \<Rightarrow> rpc_error option \<times> SchemaEnforceWorker" where
  "SchemaEnforce_Start k w =
     startConsuming [skClient k, registerSchema k w, sdkClient (skPubSub k), schemaTopic k w,
       ensureSubscription (skPubSub k) (seSubID w) (plainSubscription (seTopicID w) (AckDeadlineSeconds (GCP (cfg (core w)))))]
       (w\<lparr>seSchemaClient := (skClient k = None)\<rparr>)"

section \<open>The probe\<close>

definition buildNonConformingBody :: "SchemaEnforceWorker \<Rightarrow> string" where
  "buildNonConformingBody w =
     ''{'' @ quoted ''worker_id'' @ '':'' @ [CHR 0x22] @ ''probe-'' @ channelName (core w) @ [CHR 0x22] @ '','' @
       quoted ''seq'' @ '':'' @ quoted ''not-a-number'' @ '','' @ quoted ''content_hash'' @ '':'' @ quoted ''00000000'' @ '','' @
       quoted ''ts_ns'' @ '':0,'' @ quoted ''pad'' @ '':'' @ quoted ''x'' @ ''}''"

definition bareMsg :: "string \<Rightarrow> Msg" where
  "bareMsg body = \<lparr>mData = body, mAttributes = None, mOrderingKey = [], mID = []\<rparr>"

definition runNonConformingProbe :: "pubIn \<Rightarrow> SchemaEnforceWorker \<Rightarrow> Msg list \<times> SchemaEnforceWorker" where
  "runNonConformingProbe inp w =
     (if piStop inp then ([], w)
      else
        (let m = bareMsg (buildNonConformingBody w); w = onBase (markRan SchemaEnforceRan) w in
         case PublishMessageSync (piSend inp) m of
           Inr _ \<Rightarrow> ([m], onBase recordSchemaRejectViolation w)
         | Inl e \<Rightarrow>
             if piCtxErr inp then ([], w)
             else if codeOf (Some e) = InvalidArgument then ([], onBase recordSchemaEnforceConfirmed w)
             else ([], onBase (recordError ''schema_probe_failure'') w)))"

section \<open>Receiving\<close>

definition SchemaEnforce_handleMessage :: "string \<Rightarrow> delivery \<Rightarrow> SchemaEnforceWorker \<Rightarrow> settle list \<times> SchemaEnforceWorker" where
  "SchemaEnforce_handleMessage consumerID d w =
     (let data = mData (dMsg d);
          w = onBase (recordReceived (int (length data)) consumerID) w
      in case unmarshalBody data of
           None \<Rightarrow> ackAndCount (onBase recordCorrupted w)
         | Some sb \<Rightarrow>
             if sbWorkerID sb = [] then ackAndCount (onBase recordCorrupted w)
             else
               (let w = onBase (noteArrival (dNow d) (sbPad sb) (sbContentHash sb)
                          (if 0 < sbTsNS sb then Some (sbTsNS sb) else None)) w;
                    w = onBase (\<lambda>b. fst (recordTracked (sbWorkerID sb) (sbSeq sb) b)) w
                in ackAndCount w))"

definition SchemaEnforce_receiveLoop :: "delivery rcvIn list \<Rightarrow> SchemaEnforceWorker \<Rightarrow>
    flow \<times> settle list \<times> bool \<times> SchemaEnforceWorker" where
  "SchemaEnforce_receiveLoop = receiveLoop True (\<lambda>d w. SchemaEnforce_handleMessage (consumerName w) d w)"

section \<open>Producing\<close>

text \<open>\<^verbatim>\<open>Marshal\<close> of a struct of strings and integers never fails, so the error branch of
  \<^verbatim>\<open>buildConformingBody\<close> is not reached. \<open>None\<close> is the panic of the size selection.\<close>

definition buildConformingBody :: "pubIn \<Rightarrow> string \<Rightarrow> u64 \<Rightarrow> SchemaEnforceWorker \<Rightarrow> string option" where
  "buildConformingBody inp producerID n w =
     map_option (\<lambda>(pad, hex). marshalBody
         \<lparr>sbWorkerID = producerID, sbSeq = n, sbContentHash = hex, sbTsNS = piStamp inp, sbPad = pad\<rparr>)
       (nextBody inp w)"

definition SchemaEnforce_produce :: "int \<Rightarrow> pubIn \<Rightarrow> SchemaEnforceWorker \<Rightarrow> flow \<times> Msg list \<times> SchemaEnforceWorker" where
  "SchemaEnforce_produce i inp w =
     (if piStop inp \<or> piRateErr inp then (Stop, [], w)
      else
        (let pid = producerName w i; n = wseq w + 1; w = w\<lparr>wseq := n\<rparr> in
         case buildConformingBody inp pid n w of
           None \<Rightarrow> (Panic, [], w)
         | Some body \<Rightarrow>
             (case PublishMessageSync (piSend inp) (bareMsg body) of
                Inl e \<Rightarrow> if piCtxErr inp then (Stop, [], w)
                         else (Next, [], onBase (recordError ''publish_failure'') w)
              | Inr _ \<Rightarrow>
                  (Next, [bareMsg body],
                   onBase (\<lambda>b. recordSent (int (length body)) pid (metricObserveSend (piDur inp) b)) w))))"

definition SchemaEnforce_StartProducers :: "pubIn \<Rightarrow> SchemaEnforceWorker \<Rightarrow> Msg list \<times> SchemaEnforceWorker" where
  "SchemaEnforce_StartProducers inp w =
     (let (out, w) = runNonConformingProbe inp w in (out, StartProducersW w))"

text \<open>Stopping returns the schemas it asked the service to delete.\<close>

definition SchemaEnforce_StopConsumers :: "SchemaEnforceWorker \<Rightarrow> string list \<times> SchemaEnforceWorker" where
  "SchemaEnforce_StopConsumers w =
     (if seSchemaClient w then [seSchemaID w] else [], onBase StopConsumers w)"

section \<open>The body survives the wire\<close>

lemma field_names: "toValidUTF8 ''worker_id'' = ''worker_id''" "toValidUTF8 ''seq'' = ''seq''"
  "toValidUTF8 ''content_hash'' = ''content_hash''" "toValidUTF8 ''ts_ns'' = ''ts_ns''" "toValidUTF8 ''pad'' = ''pad''"
  by (rule toValidUTF8_ascii, simp)+

lemma readText_marshal:
  "readText (marshalBody sb) = Some (JObj [(''worker_id'', JStr (toValidUTF8 (sbWorkerID sb))), (''seq'', JNum (FormatUint (sbSeq sb))),
     (''content_hash'', JStr (toValidUTF8 (sbContentHash sb))), (''ts_ns'', JNum (FormatInt (sbTsNS sb))),
     (''pad'', JStr (toValidUTF8 (sbPad sb)))])"
  unfolding marshalBody_def
  by (rule readText_writeObject) (simp_all add: reads_string reads_ints field_names)

lemma unmarshal_marshal:
  assumes "- (2 ^ 63) \<le> sbTsNS sb" "sbTsNS sb < 2 ^ 63"
  shows "unmarshalBody (marshalBody sb) =
    Some (sb\<lparr>sbWorkerID := toValidUTF8 (sbWorkerID sb), sbContentHash := toValidUTF8 (sbContentHash sb), sbPad := toValidUTF8 (sbPad sb)\<rparr>)"
  using assms
  by (simp add: unmarshalBody_def readText_marshal setField_def findField_def bodyFields_def stringField_def uintField_def intField_def
      ParseUint_FormatUint ParseInt_FormatInt zeroBody_def)

text \<open>The bytes that a message body consists of are ASCII: hexadecimal digits.\<close>

lemma ascii_hex: "list_all (\<lambda>c. byte c < 0x80) hexAlphabet"
  by (simp add: hexAlphabet_def)

lemma Build_ascii: "toValidUTF8 (fst (Build draw n)) = fst (Build draw n)" "toValidUTF8 (crcHex body) = crcHex body"
proof -
  have "set (fst (Build draw n)) \<subseteq> set hexAlphabet" using randomHexFrom_spec by (auto simp: Build_def randomHex_def Let_def)
  then show "toValidUTF8 (fst (Build draw n)) = fst (Build draw n)"
    using ascii_hex by (intro toValidUTF8_ascii) (auto simp: list_all_iff)
  have "byte c < 0x80" if "c \<in> set (sprintfX 8 k)" for c k
    using that set_formatBase [of 16 k] by (auto simp: sprintfX_def padZero_def digitChar_def split: if_splits)
  then show "toValidUTF8 (crcHex body) = crcHex body" by (intro toValidUTF8_ascii) (auto simp: crcHex_def list_all_iff)
qed

lemma quoteBytes_safe: "list_all quoteSafe s \<Longrightarrow> quoteBytes s = s"
  by (induction s) (auto simp: quoteSafe_def)

lemma appendString_safe: "list_all quoteSafe s \<Longrightarrow> quoted s = appendString s"
  by (simp add: quoted_def appendString_def quoteBytes_safe)

lemma probe_body:
  assumes "list_all quoteSafe (channelName (core w))"
  shows "unmarshalBody (buildNonConformingBody w) = None"
proof -
  have z: "FormatInt 0 = ''0''" by (simp add: FormatInt_def formatBase_small digitChar_def char_of_eq_iff)
  have q: "list_all quoteSafe (''probe-'' @ channelName (core w))" using assms by (simp add: quoteSafe_def)
  have b: "buildNonConformingBody w = writeObject
     [(''worker_id'', appendString (''probe-'' @ channelName (core w))), (''seq'', appendString ''not-a-number''),
      (''content_hash'', appendString ''00000000''), (''ts_ns'', FormatInt 0), (''pad'', appendString ''x'')]"
    using appendString_safe [OF q, symmetric]
    by (simp add: buildNonConformingBody_def writeObject_def quoted_def appendString_safe [symmetric] quoteSafe_def z)
  have "readText (buildNonConformingBody w) = Some (JObj [(''worker_id'', JStr (toValidUTF8 (''probe-'' @ channelName (core w)))),
      (''seq'', JStr (toValidUTF8 ''not-a-number'')), (''content_hash'', JStr (toValidUTF8 ''00000000'')),
      (''ts_ns'', JNum (FormatInt 0)), (''pad'', JStr (toValidUTF8 ''x''))])"
    unfolding b by (rule readText_writeObject) (simp_all add: reads_string reads_ints field_names del: toValidUTF8.simps)
  then show ?thesis
    by (simp add: unmarshalBody_def setField_def findField_def bodyFields_def stringField_def uintField_def del: toValidUTF8.simps)
qed

interpretation se: settling_handler "SchemaEnforce_handleMessage cid" for cid
  by unfold_locales (simp_all add: SchemaEnforce_handleMessage_def handler_simps split: option.split)

interpretation sel: settling_handler "\<lambda>d w. SchemaEnforce_handleMessage (consumerName w) d w"
  by unfold_locales (simp_all add: se.one se.received se.acked se.reconnections)

lemma produced_body:
  assumes "SchemaEnforce_produce i inp w = (f, [m], w')"
  shows "\<exists>n. m = bareMsg (marshalBody \<lparr>sbWorkerID = producerName w i, sbSeq = wseq w', sbContentHash = snd (Build (piDraw inp) n),
    sbTsNS = piStamp inp, sbPad = fst (Build (piDraw inp) n)\<rparr>)"
  using assms
  by (auto simp: SchemaEnforce_produce_def buildConformingBody_def nextBody_def Let_def split_beta worker_defs producerName_def
      split: if_splits option.splits sum.splits)

section \<open>Properties\<close>

text \<open>C18: The body round trip. Whatever the strings, \<^verbatim>\<open>Unmarshal\<close> gives back the body that \<^verbatim>\<open>Marshal\<close> wrote, with
  the bytes that are no UTF-8 replaced; the sequence number comes back exactly over the whole
  range of its type, and so does a time stamp that fits 64 bits.\<close>

theorem schema_body_roundtrip:
  assumes "- (2 ^ 63) \<le> sbTsNS sb" "sbTsNS sb < 2 ^ 63"
  shows "unmarshalBody (marshalBody sb) = Some (sb\<lparr>sbWorkerID := toValidUTF8 (sbWorkerID sb),
    sbContentHash := toValidUTF8 (sbContentHash sb), sbPad := toValidUTF8 (sbPad sb)\<rparr>)"
  using assms by (rule unmarshal_marshal)

theorem schema_body_roundtrip_witness:
  "unmarshalBody (marshalBody \<lparr>sbWorkerID = [CHR ''a'', CHR 0x22, CHR 0xFF], sbSeq = - 1, sbContentHash = ''<'', sbTsNS = - 7, sbPad = []\<rparr>) =
    Some \<lparr>sbWorkerID = [CHR ''a'', CHR 0x22, CHR 0xEF, CHR 0xBF, CHR 0xBD], sbSeq = - 1, sbContentHash = ''<'', sbTsNS = - 7, sbPad = []\<rparr>"
  using schema_body_roundtrip [of "\<lparr>sbWorkerID = [CHR ''a'', CHR 0x22, CHR 0xFF], sbSeq = - 1, sbContentHash = ''<'', sbTsNS = - 7, sbPad = []\<rparr>"]
  by (simp add: Let_def replacement_def)

text \<open>C19: A conforming message is tracked as it was sent. Delivered to the handler of any worker, it is
  acked once, its checksum holds, and the tracker records exactly the producer and the
  sequence number of the publication.\<close>

theorem schema_delivery_tracked:
  assumes "SchemaEnforce_produce i inp w = (f, [m], w')" "toValidUTF8 (producerName w i) = producerName w i"
    and "- (2 ^ 63) \<le> piStamp inp" "piStamp inp < 2 ^ 63"
  shows "case SchemaEnforce_handleMessage cid \<lparr>dMsg = m, dNow = now\<rparr> v of (as, v') \<Rightarrow>
    as = [DoAck] \<and> cnt (core v') Corrupted = cnt (core v) Corrupted \<and>
    trk (core v') = fst (Record (trk (core v)) (producerName w i) (wseq w'))"
proof -
  obtain n where m: "m = bareMsg (marshalBody \<lparr>sbWorkerID = producerName w i, sbSeq = wseq w',
      sbContentHash = snd (Build (piDraw inp) n), sbTsNS = piStamp inp, sbPad = fst (Build (piDraw inp) n)\<rparr>)"
    using produced_body [OF assms(1)] by blast
  have c: "snd (Build (piDraw inp) n) = crcHex (fst (Build (piDraw inp) n))" by (simp add: Build_def Let_def)
  have u: "unmarshalBody (mData m) = Some \<lparr>sbWorkerID = producerName w i, sbSeq = wseq w',
      sbContentHash = snd (Build (piDraw inp) n), sbTsNS = piStamp inp, sbPad = fst (Build (piDraw inp) n)\<rparr>"
    using assms(2-4) by (simp add: m bareMsg_def unmarshal_marshal Build_ascii c)
  have "producerName w i \<noteq> []" by (simp add: producerName_def)
  then show ?thesis
    by (simp add: SchemaEnforce_handleMessage_def u ackAndCount_def handler_simps recordTracked_trk c VerifyCRC_def del: split_paired_Ex)
qed

definition demoSchema :: SchemaEnforceWorker where
  "demoSchema = \<lparr>core = demoBase WorkerSchemaEnforce, wseq = 0, seTopicID = ''t'', seSubID = ''s'', seSchemaID = ''i'',
     seSchemaType = ''avro'', seEncoding = EncodingJSON, seSchemaClient = True\<rparr>"

lemma demoSchema_simps [simp]:
  "cnt (core demoSchema) c = 0" "trk (core demoSchema) = New 4" "sizeDistrib (core demoSchema) = None"
  "cfg (core demoSchema) = DefaultConfig" "channelName (core demoSchema) = channelName (demoBase WorkerSchemaEnforce)"
  by (simp_all add: demoSchema_def demoBase_def anyWorker_def NewBaseWorker_def GetWorkerConfig_def DefaultConfig_def Let_def
      worker_names)

lemma demo_channel: "list_all quoteSafe (channelName (demoBase WorkerSchemaEnforce))"
  by (simp add: demoBase_def anyWorker_def NewBaseWorker_def GetWorkerConfig_def DefaultConfig_def Let_def worker_names
      TopicName_def resourcePrefix_def MappedTopicChannel_def sprintfD_def padZero_def formatBase_small digitChar_def quoteSafe_def
      char_of_eq_iff list_all_iff)

theorem schema_delivery_tracked_witness:
  "\<exists>f m w'. SchemaEnforce_produce 0 accepting demoSchema = (f, [m], w') \<and>
    (case SchemaEnforce_handleMessage ''c'' \<lparr>dMsg = m, dNow = 0\<rparr> demoSchema of (as, v') \<Rightarrow>
      as = [DoAck] \<and> cnt (core v') Corrupted = 0 \<and> trk (core v') = fst (Record (New 4) (producerName demoSchema 0) 1))"
proof -
  have z: "selectMessageSize g (core demoSchema) = Some 1024" for g by (simp add: selectMessageSize_def DefaultConfig_def)
  have s: "wseq demoSchema = 0" by (simp add: demoSchema_def)
  have "\<exists>f m w'. SchemaEnforce_produce 0 accepting demoSchema = (f, [m], w') \<and> wseq w' = 1"
    by (simp add: SchemaEnforce_produce_def accepting_def buildConformingBody_def nextBody_def z s PublishMessageSync_def Let_def
        split_beta onBase_def)
  then obtain f m w' where p: "SchemaEnforce_produce 0 accepting demoSchema = (f, [m], w')" "wseq w' = 1" by blast
  have n: "toValidUTF8 (producerName demoSchema 0) = producerName demoSchema 0"
    using demo_channel
    by (intro toValidUTF8_ascii) (auto simp: list_all_iff quoteSafe_def producerName_def FormatInt_def formatBase_small digitChar_def)
  from schema_delivery_tracked [OF p(1) n, where cid = "''c''" and now = 0 and v = demoSchema] p show ?thesis by (auto simp: accepting_def)
qed

text \<open>The receive loop accounts for every delivery of the schema-bound subscription, readable or not,
  over any number of streams.\<close>

theorem schema_loop_accounts:
  "undisturbed inps \<Longrightarrow> accounts SchemaEnforce_receiveLoop inps w"
  unfolding SchemaEnforce_receiveLoop_def by (rule sel.loop_accounts)

theorem schema_loop_accounts_witness:
  "accounts SchemaEnforce_receiveLoop [\<lparr>riStop = False, riMsgs = [\<lparr>dMsg = bareMsg ''junk'', dNow = 0\<rparr>], riErr = True, riCtxErr = False, riWake = True\<rparr>]
     demoSchema"
  by (rule schema_loop_accounts) (simp add: undisturbed_def)

text \<open>The probe of the measured window decides the gate. Whatever the probe of the warm-up saw, after the
  reset and the second start the schema gate is silent exactly when the broker rejected the
  malformed body with \<^verbatim>\<open>InvalidArgument\<close> and the run was not being cancelled.\<close>

theorem schema_probe_judged:
  assumes "\<not> piStop inp"
    and "snd (SchemaEnforce_StartProducers warm w) = w1" "onBase ResetAfterWarmup (onBase StopProducers w1) = w2"
    and "SchemaEnforce_StartProducers inp w2 = (out, w3)"
  shows "coverageGates WorkerSchemaEnforce (zeroSnapshot\<lparr>scnt := cnt (core w3), sran := ran (core w3)\<rparr>) = [] \<longleftrightarrow>
    (\<exists>e. piSend inp (bareMsg (buildNonConformingBody w2)) = Inl e \<and> codeOf (Some e) = InvalidArgument \<and> \<not> piCtxErr inp)"
proof -
  have z: "cnt (core w2) c = 0" "ran (core w2) p = False" for c p using assms(3) by (auto simp: onBase_def ResetAfterWarmup_def)
  show ?thesis
    using assms(1,4)
    by (auto simp: SchemaEnforce_StartProducers_def runNonConformingProbe_def StartProducersW_def PublishMessageSync_def Let_def
        split_beta coverageGates_def failIf_def worker_neq worker_names worker_preds markRan_def worker_defs z onBase_def split: sum.splits if_splits)
qed

definition refusing :: pubIn where
  "refusing = accepting\<lparr>piSend := (\<lambda>_. Inl (Status InvalidArgument []))\<rparr>"

theorem schema_probe_judged_witness:
  "\<exists>out w3. SchemaEnforce_StartProducers refusing
      (onBase ResetAfterWarmup (onBase StopProducers (snd (SchemaEnforce_StartProducers accepting demoSchema)))) = (out, w3) \<and>
    coverageGates WorkerSchemaEnforce (zeroSnapshot\<lparr>scnt := cnt (core w3), sran := ran (core w3)\<rparr>) = []"
proof -
  let ?w2 = "onBase ResetAfterWarmup (onBase StopProducers (snd (SchemaEnforce_StartProducers accepting demoSchema)))"
  obtain out w3 where e: "SchemaEnforce_StartProducers refusing ?w2 = (out, w3)" by (cases "SchemaEnforce_StartProducers refusing ?w2")
  have "\<not> piStop refusing" by (simp add: refusing_def accepting_def)
  from schema_probe_judged [OF this refl refl e] e show ?thesis by (simp add: refusing_def accepting_def)
qed

text \<open>The probe never enters the accounting of the conforming stream. With a channel name of plain
  characters, a malformed body that the broker let through is counted as corrupted, acked,
  and leaves the tracker as it was.\<close>

theorem accepted_probe_untracked:
  assumes "runNonConformingProbe inp w = ([m], w')" "list_all quoteSafe (channelName (core w))"
  shows "case SchemaEnforce_handleMessage cid \<lparr>dMsg = m, dNow = now\<rparr> w' of (as, v) \<Rightarrow>
    as = [DoAck] \<and> trk (core v) = trk (core w) \<and> cnt (core v) Corrupted = cnt (core w) Corrupted + 1 \<and>
    cnt (core v) SchemaRejectViolations = cnt (core w) SchemaRejectViolations + 1"
proof -
  have m: "mData m = buildNonConformingBody w" and w': "w' = onBase recordSchemaRejectViolation (onBase (markRan SchemaEnforceRan) w)"
    using assms(1) by (auto simp: runNonConformingProbe_def bareMsg_def Let_def split: if_splits sum.splits)
  show ?thesis
    by (simp add: SchemaEnforce_handleMessage_def m probe_body [OF assms(2)] w' markRan_def handler_simps)
qed

theorem accepted_probe_untracked_witness:
  "\<exists>m w'. runNonConformingProbe accepting demoSchema = ([m], w') \<and>
    trk (core (snd (SchemaEnforce_handleMessage ''c'' \<lparr>dMsg = m, dNow = 0\<rparr> w'))) = New 4"
proof -
  obtain m w' where e: "runNonConformingProbe accepting demoSchema = ([m], w')"
    by (simp add: runNonConformingProbe_def accepting_def PublishMessageSync_def Let_def)
  have "list_all quoteSafe (channelName (core demoSchema))" using demo_channel by simp
  from accepted_probe_untracked [OF e this, of "''c''" 0] e show ?thesis by (auto simp: split_beta)
qed

text \<open>The configured encoding reaches the topic and not the bodies. Under either encoding a turn of the
  producer publishes the same bytes, the text of a JSON object, while the topic is bound with
  the configured one.\<close>

theorem bodies_ignore_encoding:
  "fst (snd (SchemaEnforce_produce i inp (w\<lparr>seEncoding := EncodingBinary\<rparr>))) = fst (snd (SchemaEnforce_produce i inp (w\<lparr>seEncoding := EncodingJSON\<rparr>))) \<and>
   (\<forall>m \<in> set (fst (snd (SchemaEnforce_produce i inp w))). \<exists>kvs. readText (mData m) = Some (JObj kvs)) \<and>
   schemaTopic k (w\<lparr>seEncoding := EncodingBinary\<rparr>) =
     (case EnsureTopicWithSchema (skTopic k) (\<lambda>t. t) (seTopicID w) (SchemaSettings (psProjectID (psCfg (core w))) (seSchemaID w), EncodingBinary) of
        Inl e \<Rightarrow> Some e | Inr _ \<Rightarrow> None)"
  by (auto simp: SchemaEnforce_produce_def buildConformingBody_def nextBody_def producerName_def schemaTopic_def Let_def bareMsg_def
      readText_marshal split_beta split: option.split sum.split)

definition demoSchemaSdk :: schemaSdk where
  "demoSchemaSdk = \<lparr>skPubSub = \<lparr>sdkClient = None, sdkTopic = Inr, sdkSub = (\<lambda>s _. Inr s)\<rparr>, skClient = None,
     skCreate = (\<lambda>_ _ _. Inr ()), skTopic = (\<lambda>t _. Inr t)\<rparr>"

theorem bodies_ignore_encoding_witness:
  "\<forall>m \<in> set (fst (snd (SchemaEnforce_produce 0 accepting demoSchema))). \<exists>kvs. readText (mData m) = Some (JObj kvs)"
  using bodies_ignore_encoding [of 0 accepting demoSchema demoSchemaSdk] by blast

end
