(* ===== verification/Report.thy ===== *)
theory Report
  imports EngineRun
begin

text \<open>
  The report of \<^verbatim>\<open>src/burnin/report/report.go\<close> and the parts of \<^verbatim>\<open>src/burnin/main.go\<close> that build it
  from the engine, reconcile it with the engine's verdict and choose the exit code. The
  statistics of a worker keep the snapshot they are copied from. A check is its outcome and
  its numbers: its name is the key of the map, its text is not modelled. The console
  report is in \<open>Output\<close>.
\<close>

section \<open>The report\<close>

record WorkerStats =
  wsEnabled :: bool
  wsSnap :: WorkerSnapshot
  wsLossPct :: float64
  wsTargetRate :: int
  wsChannels :: int

record ResourceStats =
  PeakRSSMB :: float64
  BaselineRSSMB :: float64
  MemoryGrowthFactor :: float64

record Summary =
  sumRunID :: string
  sumSDK :: string
  sumSDKVersion :: string
  sumMode :: string
  sumBrokerAddress :: string
  sumProjectID :: string
  sumEmulatorHost :: string
  StartedAt :: "instant option"
  EndedAt :: "instant option"
  DurationSeconds :: float64
  AllWorkersEnabled :: bool
  sumWorkers :: "(string, WorkerStats) gomap"
  Resources :: ResourceStats

datatype report_warning =
    RDuplicationExempt string float64 float64
  | RLatencyExempt string float64 float64
  | RMemory float64 float64
  | REngine message

record CheckResult =
  crPassed :: bool
  Advisory :: bool
  crValue :: float64
  crThreshold :: float64

record ReportVerdict =
  rvResult :: string
  rvPassed :: bool
  rvWarnings :: "report_warning list"
  rvChecks :: "(string, CheckResult) gomap"

definition lossGateThreshold :: "float64 \<Rightarrow> float64" where
  "lossGateThreshold base = (if flt base boundaryLossPct then boundaryLossPct else base)"

definition putCheck :: "string \<Rightarrow> CheckResult \<Rightarrow> ReportVerdict \<Rightarrow> ReportVerdict" where
  "putCheck name cr v = v\<lparr>rvChecks := AList.update name cr (rvChecks v)\<rparr>"

definition addHard :: "string \<Rightarrow> float64 \<Rightarrow> float64 \<Rightarrow> ReportVerdict \<Rightarrow> ReportVerdict" where
  "addHard name val threshold v =
     (let passed = fle val threshold;
          v = putCheck name \<lparr>crPassed = passed, Advisory = False, crValue = val, crThreshold = threshold\<rparr> v
      in if \<not> passed then v\<lparr>rvPassed := False\<rparr> else v)"

definition addWarning :: "report_warning \<Rightarrow> ReportVerdict \<Rightarrow> ReportVerdict" where
  "addWarning m v = v\<lparr>rvWarnings := rvWarnings v @ [m]\<rparr>"

text \<open>A structured gate on a counter that must be zero.\<close>

definition zeroCheck :: "string \<Rightarrow> u64 \<Rightarrow> ReportVerdict \<Rightarrow> ReportVerdict" where
  "zeroCheck name n v =
     (let v = putCheck name \<lparr>crPassed = (n = 0), Advisory = False, crValue = floatOfU64 n, crThreshold = Fin 0\<rparr> v
      in if 0 < n then v\<lparr>rvPassed := False\<rparr> else v)"

definition reportLoss :: "Config \<Rightarrow> string \<Rightarrow> WorkerSnapshot \<Rightarrow> ReportVerdict \<Rightarrow> ReportVerdict" where
  "reportLoss c name ws v =
     (if 0 < scnt ws Sent \<and> \<not> IsFanoutWorker name
      then addHard (''message_loss:'' @ name) (pct (snapLost ws) (scnt ws Sent)) (lossGateThreshold (MaxLossPct (Thresholds c))) v
      else v)"

definition reportDuplication :: "Config \<Rightarrow> string \<Rightarrow> WorkerSnapshot \<Rightarrow> ReportVerdict \<Rightarrow> ReportVerdict" where
  "reportDuplication c name ws v =
     (if 0 < scnt ws Received
      then
        (let dupPct = pct (scnt ws Duplicated) (scnt ws Received); t = MaxDuplicationPct (Thresholds c) in
         if IsDuplicationGateExempt name
         then (if fgt dupPct t then addWarning (RDuplicationExempt name dupPct t) v else v)
         else addHard (''duplication:'' @ name) dupPct t v)
      else v)"

definition reportLatency :: "Config \<Rightarrow> string \<Rightarrow> WorkerSnapshot \<Rightarrow> ReportVerdict \<Rightarrow> ReportVerdict" where
  "reportLatency c name ws v =
     (if fgt (LatencyP99 ws) (Fin 0)
      then
        (let t = MaxP99LatencyMS (Thresholds c) in
         if IsLatencyGateExempt name
         then (if fgt (LatencyP99 ws) t then addWarning (RLatencyExempt name (LatencyP99 ws) t) v else v)
         else addHard (''p99_latency:'' @ name) (LatencyP99 ws) t v)
      else v)"

definition reportErrors :: "Config \<Rightarrow> string \<Rightarrow> WorkerSnapshot \<Rightarrow> ReportVerdict \<Rightarrow> ReportVerdict" where
  "reportErrors c name ws v =
     (let tot = scnt ws Sent + scnt ws Received in
      if 0 < tot then addHard (''error_rate:'' @ name) (pct (scnt ws Errors) tot) (MaxErrorRatePct (Thresholds c)) v
      else v)"

definition reportFidelity :: "string \<Rightarrow> WorkerSnapshot \<Rightarrow> ReportVerdict \<Rightarrow> ReportVerdict" where
  "reportFidelity name ws v =
     (let v = (if IsOrderingWorker name then zeroCheck (''ordering_violations:'' @ name) (scnt ws OrderingViolations) v else v);
          v = (if IsExactlyOnceWorker name
               then zeroCheck (''exactly_once_reconciled:'' @ name) (scnt ws ExactlyOnceUnreconciled) v else v);
          v = (if IsDeadLetterWorker name then zeroCheck (''dead_letter_loss:'' @ name) (scnt ws DeadLetterLost) v else v);
          v = (if IsFanoutWorker name then zeroCheck (''fanout_dropped:'' @ name) (scnt ws FanoutDropped) v else v)
      in if IsInteropWorker name then zeroCheck (''interop_convergence:'' @ name) (scnt ws InteropDiverged) v else v)"

definition reportWorker :: "Config \<Rightarrow> string \<times> WorkerStats \<Rightarrow> ReportVerdict \<Rightarrow> ReportVerdict" where
  "reportWorker c nw v =
     (let (name, st) = nw; ws = wsSnap st in
      if \<not> wsEnabled st then v
      else reportFidelity name ws (reportErrors c name ws (reportLatency c name ws (reportDuplication c name ws (reportLoss c name ws v)))))"

definition reportMemory :: "Config \<Rightarrow> ResourceStats \<Rightarrow> ReportVerdict \<Rightarrow> ReportVerdict" where
  "reportMemory c r v =
     (if fgt (BaselineRSSMB r) (Fin 0)
      then
        (let growth = MemoryGrowthFactor r; t = MaxMemoryGrowthFactor (Thresholds c); passed = fle growth t;
             v = putCheck ''memory_stability'' \<lparr>crPassed = passed, Advisory = True, crValue = growth, crThreshold = t\<rparr> v
         in if \<not> passed then addWarning (RMemory growth t) v else v)
      else v)"

definition GenerateVerdict :: "Summary \<Rightarrow> Config \<Rightarrow> ReportVerdict" where
  "GenerateVerdict s c =
     (let v = \<lparr>rvResult = ''PASSED'', rvPassed = True, rvWarnings = [], rvChecks = []\<rparr>;
          v = fold (reportWorker c) (sumWorkers s) v;
          v = zeroCheck ''corruption'' (gomap_sum (\<lambda>st. scnt (wsSnap st) Corrupted) (sumWorkers s)) v;
          v = reportMemory c (Resources s) v
      in if \<not> rvPassed v then v\<lparr>rvResult := ''FAILED''\<rparr>
         else if rvWarnings v \<noteq> [] then v\<lparr>rvResult := ''PASSED_WITH_WARNINGS''\<rparr> else v)"

section \<open>Building the report from the engine\<close>

definition workerStats :: "Config \<Rightarrow> WorkerSnapshot \<Rightarrow> WorkerConfig \<Rightarrow> WorkerStats" where
  "workerStats c snap wc =
     \<lparr>wsEnabled = True, wsSnap = snap,
      wsLossPct = (if 0 < scnt snap Sent then pct (snapLost snap) (scnt snap Sent) else Fin 0),
      wsTargetRate = Rate wc, wsChannels = Channels wc\<rparr>"

definition reportedWorkers :: "Config \<Rightarrow> (string, WorkerSnapshot) gomap \<Rightarrow> (string, WorkerStats) gomap" where
  "reportedWorkers c snaps =
     concat (map (\<lambda>name.
       case map_of snaps name of
         None \<Rightarrow> []
       | Some snap \<Rightarrow>
           (case GetWorkerConfig c name of
              None \<Rightarrow> []
            | Some wc \<Rightarrow> if \<not> Enabled wc then [] else [(name, workerStats c snap wc)])) AllWorkerNames)"

definition resourceStats :: "u64 \<Rightarrow> u64 \<Rightarrow> ResourceStats" where
  "resourceStats baseline peak =
     \<lparr>PeakRSSMB = fdiv (fdiv (floatOfU64 peak) (Fin 1024)) (Fin 1024),
      BaselineRSSMB = fdiv (fdiv (floatOfU64 baseline) (Fin 1024)) (Fin 1024),
      MemoryGrowthFactor = (if 0 < baseline then fdiv (floatOfU64 peak) (floatOfU64 baseline) else Fin 0)\<rparr>"

definition runConfigOf :: "Config \<Rightarrow> 'w Engine \<Rightarrow> Config" where
  "runConfigOf startup e = (case runCfg e of Some c \<Rightarrow> c | None \<Rightarrow> startup)"

definition buildSummary :: "Config \<Rightarrow> (string, WorkerSnapshot) gomap \<Rightarrow> 'w Engine \<Rightarrow> Summary" where
  "buildSummary c snaps e =
     (let ws = reportedWorkers c snaps in
      \<lparr>sumRunID = runID e, sumSDK = SDK, sumSDKVersion = SDKVersion (Output c), sumMode = Mode c, sumBrokerAddress = Address (Broker c),
       sumProjectID = ProjectID (GCP c), sumEmulatorHost = EmulatorHostF (GCP c),
       StartedAt = runStartedAt e, EndedAt = runEndedAt e,
       DurationSeconds = (case (runStartedAt e, runEndedAt e) of (Some a, Some b) \<Rightarrow> Seconds (timeSub b a) | _ \<Rightarrow> Fin 0),
       AllWorkersEnabled = (length ws = length AllWorkerNames), sumWorkers = ws,
       Resources = resourceStats (baselineRSS e) (peakRSS e)\<rparr>)"

definition reconcile :: "VerdictResult option \<Rightarrow> ReportVerdict \<Rightarrow> ReportVerdict" where
  "reconcile ev v =
     (case ev of
        None \<Rightarrow> v
      | Some r \<Rightarrow>
          if \<not> vPassed r
          then v\<lparr>rvPassed := False, rvResult := ''FAILED'', rvWarnings := rvWarnings v @ map REngine (vWarnings r)\<rparr>
          else if vResult r = ''PASSED_WITH_WARNINGS'' \<and> rvResult v = ''PASSED''
          then v\<lparr>rvResult := ''PASSED_WITH_WARNINGS'', rvWarnings := rvWarnings v @ map REngine (vWarnings r)\<rparr>
          else v)"

definition RunReport :: "Config \<Rightarrow> 'w Engine \<Rightarrow> (Summary \<times> ReportVerdict) option" where
  "RunReport startup e =
     (case workerSnapshots e of
        None \<Rightarrow> None
      | Some snaps \<Rightarrow>
          (let c = runConfigOf startup e; s = buildSummary c snaps e
           in Some (s, reconcile (verdictResult e) (GenerateVerdict s c))))"

section \<open>Start-up and exit\<close>

text \<open>What \<^verbatim>\<open>main\<close> does with the loaded configuration: an exit code, or it goes on.\<close>

definition startupExit :: "bool \<Rightarrow> Config option \<Rightarrow> int option" where
  "startupExit validateConfig loaded =
     (case loaded of
        None \<Rightarrow> Some 1
      | Some c \<Rightarrow>
          (let hasErrors = list_ex (\<lambda>e. \<not> isWarning e) (Validate c)
           in if validateConfig then Some (if hasErrors then 1 else 0) else if hasErrors then Some 1 else None))"

text \<open>What a turn of the select of \<^verbatim>\<open>waitForExit\<close> sees: a signal, or a tick with the state of the
  engine at it. \<open>None\<close> is that it still waits.\<close>

datatype waitEvent = Signal | Tick estate

fun waitForExit :: "bool \<Rightarrow> waitEvent list \<Rightarrow> waitEvent option" where
  "waitForExit bounded [] = None"
| "waitForExit bounded (Signal # es) = Some Signal"
| "waitForExit bounded (Tick s # es) =
     (if bounded \<and> (s = StateStopped \<or> s = StateError) then Some (Tick s) else waitForExit bounded es)"

definition exitCode :: "('w Engine \<Rightarrow> 'w Engine) \<Rightarrow> 'w Engine \<Rightarrow> int" where
  "exitCode await e =
     (let (passed, e') = GracefulShutdown await e in
      if \<not> passed then 1 else if HasWarnings e' then 2 else 0)"

datatype logLevel = LevelDebug | LevelInfo | LevelWarn | LevelError

text \<open>\<^verbatim>\<open>strings.ToLower\<close> as far as the level names need it: beside the ASCII capitals the dotted
  capital I (two bytes) has one of their letters as its lower case, no other character does.\<close>

definition lowerChar :: "char \<Rightarrow> char" where
  "lowerChar c = (let n = of_char c :: nat in if 65 \<le> n \<and> n \<le> 90 then char_of (n + 32) else c)"

fun toLower :: "string \<Rightarrow> string" where
  "toLower [] = []"
| "toLower [c] = [lowerChar c]"
| "toLower (c # d # cs) =
     (if c = CHR 0xC4 \<and> d = CHR 0xB0 then CHR ''i'' # toLower cs else lowerChar c # toLower (d # cs))"

definition parseLogLevel :: "string \<Rightarrow> logLevel" where
  "parseLogLevel s =
     (let l = toLower s in
      if l = ''debug'' then LevelDebug
      else if l = ''warn'' \<or> l = ''warning'' then LevelWarn
      else if l = ''error'' then LevelError
      else LevelInfo)"

section \<open>Status\<close>

record WorkerStatus =
  stSent :: u64
  stReceived :: u64
  stErrors :: u64
  stRate :: float64

definition workerStatus :: "'w WorkerOps \<Rightarrow> 'w list \<Rightarrow> WorkerStatus" where
  "workerStatus ops g =
     fold (\<lambda>w s. let b = wBase ops w in
        s\<lparr>stSent := stSent s + SentCount b, stReceived := stReceived s + ReceivedCount b, stErrors := stErrors s + ErrorCount b,
          stRate := fadd (stRate s) (SlidingRateWindow_Rate (rateWindow b))\<rparr>) g
       \<lparr>stSent = 0, stReceived = 0, stErrors = 0, stRate = Fin 0\<rparr>"

definition uptime :: "instant \<Rightarrow> 'w Engine \<Rightarrow> float64" where
  "uptime now e = (case runStartedAt e of Some t \<Rightarrow> Seconds (timeSub now t) | None \<Rightarrow> Fin 0)"

record RunStatus =
  rsState :: estate
  rsRunID :: string
  rsUptime :: float64
  rsWorkers :: "(string, WorkerStatus) gomap"

definition adapter_RunStatus :: "'w WorkerOps \<Rightarrow> instant \<Rightarrow> 'w Engine \<Rightarrow> RunStatus" where
  "adapter_RunStatus ops now e =
     \<lparr>rsState = state e, rsRunID = runID e, rsUptime = uptime now e,
      rsWorkers = map (\<lambda>(name, g). (name, workerStatus ops g)) (workerGroups e)\<rparr>"

record MetricsSnapshot =
  TotalSentM :: u64
  TotalReceivedM :: u64
  TotalErrorsM :: u64
  TotalLostM :: u64
  TotalCorruptedM :: u64
  TotalDuplicatedM :: u64
  FanoutDeliveriesM :: u64
  FanoutDroppedM :: u64
  UptimeSecondsM :: float64

definition addMetrics :: "BaseWorker \<Rightarrow> MetricsSnapshot \<Rightarrow> MetricsSnapshot" where
  "addMetrics b m =
     m\<lparr>TotalSentM := TotalSentM m + SentCount b, TotalReceivedM := TotalReceivedM m + ReceivedCount b,
       TotalErrorsM := TotalErrorsM m + ErrorCount b, TotalLostM := TotalLostM m + TotalLost (trk b),
       TotalCorruptedM := TotalCorruptedM m + CorruptedCount b, TotalDuplicatedM := TotalDuplicatedM m + DuplicatedCount b,
       FanoutDeliveriesM := FanoutDeliveriesM m + cnt b FanoutDeliveries,
       FanoutDroppedM := FanoutDroppedM m + cnt b FanoutDropped\<rparr>"

record ChannelSnapshot =
  csID :: string
  csWorker :: string
  csChannel :: string
  csSent :: u64
  csReceived :: u64
  csErrors :: u64
  csRate :: float64

definition channelSnapshot :: "BaseWorker \<Rightarrow> ChannelSnapshot" where
  "channelSnapshot b =
     \<lparr>csID = bName b @ ''/'' @ channelName b, csWorker = bName b, csChannel = channelName b, csSent = SentCount b,
      csReceived = ReceivedCount b, csErrors = ErrorCount b, csRate = SlidingRateWindow_Rate (rateWindow b)\<rparr>"

record RunSnapshot =
  rnState :: estate
  rnRunID :: string
  rnConfig :: "Config option"
  rnWorkers :: "(string, ChannelSnapshot list) gomap"
  rnMetrics :: MetricsSnapshot

definition adapter_RunSnapshot :: "'w WorkerOps \<Rightarrow> instant \<Rightarrow> 'w Engine \<Rightarrow> RunSnapshot" where
  "adapter_RunSnapshot ops now e =
     \<lparr>rnState = state e, rnRunID = runID e, rnConfig = runCfg e,
      rnWorkers = map (\<lambda>(name, g). (name, map (channelSnapshot \<circ> wBase ops) g)) (workerGroups e),
      rnMetrics = fold (addMetrics \<circ> wBase ops) (concat (map snd (workerGroups e)))
        \<lparr>TotalSentM = 0, TotalReceivedM = 0, TotalErrorsM = 0, TotalLostM = 0, TotalCorruptedM = 0, TotalDuplicatedM = 0,
         FanoutDeliveriesM = 0, FanoutDroppedM = 0,
         UptimeSecondsM = (if workerGroups e = [] then Fin 0 else uptime now e)\<rparr>\<rparr>"

section \<open>When the report passes\<close>

lemma checks_simps [simp]:
  "rvPassed (putCheck n cr v) = rvPassed v" "rvPassed (addWarning m v) = rvPassed v"
  "rvPassed (addHard n x t v) \<longleftrightarrow> rvPassed v \<and> fle x t"
  "rvPassed (zeroCheck n k v) \<longleftrightarrow> rvPassed v \<and> k = 0"
  by (auto simp: putCheck_def addWarning_def addHard_def zeroCheck_def Let_def word_gt_0)

definition reportClean :: "Config \<Rightarrow> string \<Rightarrow> WorkerSnapshot \<Rightarrow> bool" where
  "reportClean c name ws \<longleftrightarrow>
     (0 < scnt ws Sent \<and> \<not> IsFanoutWorker name \<longrightarrow>
        fle (pct (snapLost ws) (scnt ws Sent)) (lossGateThreshold (MaxLossPct (Thresholds c)))) \<and>
     (0 < scnt ws Received \<and> \<not> IsDuplicationGateExempt name \<longrightarrow>
        fle (pct (scnt ws Duplicated) (scnt ws Received)) (MaxDuplicationPct (Thresholds c))) \<and>
     (fgt (LatencyP99 ws) (Fin 0) \<and> \<not> IsLatencyGateExempt name \<longrightarrow> fle (LatencyP99 ws) (MaxP99LatencyMS (Thresholds c))) \<and>
     (0 < scnt ws Sent + scnt ws Received \<longrightarrow>
        fle (pct (scnt ws Errors) (scnt ws Sent + scnt ws Received)) (MaxErrorRatePct (Thresholds c))) \<and>
     (IsOrderingWorker name \<longrightarrow> scnt ws OrderingViolations = 0) \<and>
     (IsExactlyOnceWorker name \<longrightarrow> scnt ws ExactlyOnceUnreconciled = 0) \<and>
     (IsDeadLetterWorker name \<longrightarrow> scnt ws DeadLetterLost = 0) \<and>
     (IsFanoutWorker name \<longrightarrow> scnt ws FanoutDropped = 0) \<and>
     (IsInteropWorker name \<longrightarrow> scnt ws InteropDiverged = 0)"

lemma report_gates_passed:
  "rvPassed (reportLoss c name ws v) \<longleftrightarrow> rvPassed v \<and> (0 < scnt ws Sent \<and> \<not> IsFanoutWorker name \<longrightarrow>
     fle (pct (snapLost ws) (scnt ws Sent)) (lossGateThreshold (MaxLossPct (Thresholds c))))"
  "rvPassed (reportDuplication c name ws v) \<longleftrightarrow> rvPassed v \<and> (0 < scnt ws Received \<and> \<not> IsDuplicationGateExempt name \<longrightarrow>
     fle (pct (scnt ws Duplicated) (scnt ws Received)) (MaxDuplicationPct (Thresholds c)))"
  "rvPassed (reportLatency c name ws v) \<longleftrightarrow> rvPassed v \<and> (fgt (LatencyP99 ws) (Fin 0) \<and> \<not> IsLatencyGateExempt name \<longrightarrow>
     fle (LatencyP99 ws) (MaxP99LatencyMS (Thresholds c)))"
  "rvPassed (reportErrors c name ws v) \<longleftrightarrow> rvPassed v \<and> (0 < scnt ws Sent + scnt ws Received \<longrightarrow>
     fle (pct (scnt ws Errors) (scnt ws Sent + scnt ws Received)) (MaxErrorRatePct (Thresholds c)))"
  by (auto simp: reportLoss_def reportDuplication_def reportLatency_def reportErrors_def Let_def)

lemma reportFidelity_passed:
  "rvPassed (reportFidelity name ws v) \<longleftrightarrow> rvPassed v \<and>
     (IsOrderingWorker name \<longrightarrow> scnt ws OrderingViolations = 0) \<and>
     (IsExactlyOnceWorker name \<longrightarrow> scnt ws ExactlyOnceUnreconciled = 0) \<and>
     (IsDeadLetterWorker name \<longrightarrow> scnt ws DeadLetterLost = 0) \<and>
     (IsFanoutWorker name \<longrightarrow> scnt ws FanoutDropped = 0) \<and>
     (IsInteropWorker name \<longrightarrow> scnt ws InteropDiverged = 0)"
  by (simp add: reportFidelity_def Let_def)

lemma reportWorker_passed:
  "rvPassed (reportWorker c (name, st) v) \<longleftrightarrow> rvPassed v \<and> (wsEnabled st \<longrightarrow> reportClean c name (wsSnap st))"
  by (simp add: reportWorker_def Let_def report_gates_passed reportFidelity_passed reportClean_def conj_assoc)

lemma reportFold_passed:
  "rvPassed (fold (reportWorker c) ws v) \<longleftrightarrow> rvPassed v \<and> (\<forall>(n, st)\<in>set ws. wsEnabled st \<longrightarrow> reportClean c n (wsSnap st))"
proof (induction ws arbitrary: v)
  case (Cons x ws)
  show ?case using Cons by (cases x) (auto simp: reportWorker_passed)
qed simp

lemma reportMemory_passed [simp]: "rvPassed (reportMemory c r v) = rvPassed v"
  by (simp add: reportMemory_def Let_def)

lemma GenerateVerdict_passed:
  "rvPassed (GenerateVerdict s c) \<longleftrightarrow>
     (\<forall>(n, st)\<in>set (sumWorkers s). wsEnabled st \<longrightarrow> reportClean c n (wsSnap st)) \<and>
     gomap_sum (\<lambda>st. scnt (wsSnap st) Corrupted) (sumWorkers s) = 0"
  by (simp add: GenerateVerdict_def Let_def reportFold_passed)

lemma rvResult_frame [simp]:
  "rvResult (putCheck n cr v) = rvResult v" "rvResult (addWarning m v) = rvResult v"
  "rvResult (addHard n x t v) = rvResult v" "rvResult (zeroCheck n k v) = rvResult v"
  "rvResult (reportMemory c r v) = rvResult v"
  by (simp_all add: putCheck_def addWarning_def addHard_def zeroCheck_def reportMemory_def Let_def)

lemma rvResult_fold [simp]: "rvResult (fold (reportWorker c) ws v) = rvResult v"
  by (induction ws arbitrary: v)
    (auto simp: reportWorker_def reportFidelity_def reportErrors_def reportLatency_def reportDuplication_def
      reportLoss_def Let_def split_beta)

lemma GenerateVerdict_result:
  "rvResult (GenerateVerdict s c) =
     (if \<not> rvPassed (GenerateVerdict s c) then ''FAILED''
      else if rvWarnings (GenerateVerdict s c) \<noteq> [] then ''PASSED_WITH_WARNINGS'' else ''PASSED'')"
  by (simp add: GenerateVerdict_def Let_def)

section \<open>Against the engine's verdict\<close>

lemma fle_total: "a \<noteq> NaN \<Longrightarrow> b \<noteq> NaN \<Longrightarrow> \<not> fgt a b \<Longrightarrow> fle a b"
  by (cases a; cases b) (auto simp: fgt_def fle_def)

lemma lossGateThreshold_covers:
  assumes "t \<noteq> NaN" "x \<noteq> NaN" "\<not> (fgt x t \<and> fgt x boundaryLossPct)"
  shows "fle x (lossGateThreshold t)"
proof (cases "fgt x t")
  case True
  then have "\<not> fgt x boundaryLossPct" using assms(3) by blast
  then have b: "fle x boundaryLossPct" by (intro fle_total) (use assms(2) in \<open>auto simp: boundaryLossPct_def\<close>)
  show ?thesis
  proof (cases "flt t boundaryLossPct")
    case False
    with True b assms show ?thesis by (cases x; cases t) (auto simp: fgt_def fle_def boundaryLossPct_def lossGateThreshold_def)
  qed (use b in \<open>simp add: lossGateThreshold_def\<close>)
next
  case False
  then have "fle x t" using assms(1,2) fle_total by blast
  with assms show ?thesis by (cases x; cases t) (auto simp: fle_def boundaryLossPct_def lossGateThreshold_def)
qed

lemma floatOfU64_finite: "\<exists>y. floatOfU64 n = Fin y \<and> 0 \<le> y \<and> (0 < n \<longrightarrow> 1 \<le> y)"
proof -
  have top: "roundF (2 ^ 64) = Fin (2 ^ 64)" by (rule roundF_at [of 64 _ "2 ^ 52"]) (simp_all add: pow2_def)
  have n: "(0 :: rat) \<le> of_int (uint n)" "of_int (uint n) \<le> (2 ^ 64 :: rat)"
  proof -
    have "uint n \<le> 2 ^ 64" using uint_bounded [of n] by simp
    then show "of_int (uint n) \<le> (2 ^ 64 :: rat)" by (metis of_int_le_iff of_int_numeral of_int_power)
    show "(0 :: rat) \<le> of_int (uint n)" by (simp only: of_int_0_le_iff uint_ge_0)
  qed
  obtain y where y: "floatOfU64 n = Fin y" "0 \<le> y" using roundF_mono [OF n top] by (auto simp: floatOfU64_def)
  moreover have "1 \<le> y" if "0 < n"
  proof -
    have "1 \<le> uint n" using that by (simp add: word_less_alt)
    then have "(1 :: rat) \<le> of_int (uint n)" by (simp only: of_int_1_le_iff)
    from roundF_mono [OF _ this, of y] y show ?thesis by (auto simp: floatOfU64_def)
  qed
  ultimately show ?thesis by blast
qed

lemma pct_not_NaN: "0 < b \<Longrightarrow> pct a b \<noteq> NaN"
proof -
  assume b: "0 < b"
  obtain x y where "floatOfU64 a = Fin x" "0 \<le> x" "floatOfU64 b = Fin y" "1 \<le> y"
    using floatOfU64_finite [of a] floatOfU64_finite [of b] b by auto
  then have "pct a b = fmul (roundF (x / y)) (Fin 100)" "0 \<le> x / y" by (simp_all add: pct_def fdiv_def)
  then show ?thesis using roundF_nonneg [of "x / y"]
    by (auto simp: fmul_def infSign_def roundF_def Let_def)
qed

text \<open>Thresholds that are numbers.\<close>

definition numeric :: "Config \<Rightarrow> bool" where
  "numeric c \<longleftrightarrow> MaxLossPct (Thresholds c) \<noteq> NaN \<and> MaxDuplicationPct (Thresholds c) \<noteq> NaN \<and>
     MaxP99LatencyMS (Thresholds c) \<noteq> NaN \<and> MaxErrorRatePct (Thresholds c) \<noteq> NaN"

lemma valid_p99: "valid c \<Longrightarrow> MaxP99LatencyMS (Thresholds c) \<noteq> NaN \<Longrightarrow> fgt (MaxP99LatencyMS (Thresholds c)) (Fin 0)"
  by (cases "MaxP99LatencyMS (Thresholds c)")
    (auto simp: Validate_parts validateThresholds_def Let_def list_all_check fle_def fgt_def)

lemma clean_reportClean:
  assumes "valid c" "numeric c" "clean c d n s"
  shows "reportClean c n s \<and> scnt s Corrupted = 0"
proof -
  have q: "quiet (lossGate c n s)" "quiet (duplicationGate c n s)" "quiet (latencyGate c n s)" "quiet (errorGate c n s)"
    "quiet (fidelityGates n s)" using assms(3) by (simp_all add: clean_quiet)
  have p: "fgt (MaxP99LatencyMS (Thresholds c)) (Fin 0)" using valid_p99 assms(1,2) by (simp add: numeric_def)
  have "fle (pct (snapLost s) (scnt s Sent)) (lossGateThreshold (MaxLossPct (Thresholds c)))" if "0 < scnt s Sent"
    using q(1) that assms(2) by (intro lossGateThreshold_covers pct_not_NaN) (auto simp: lossGate_def numeric_def Let_def)
  moreover have "fle (pct (scnt s Duplicated) (scnt s Received)) (MaxDuplicationPct (Thresholds c))"
    if "0 < scnt s Received" "\<not> IsDuplicationGateExempt n"
    using q(2) that assms(2) by (intro fle_total pct_not_NaN) (auto simp: duplicationGate_def numeric_def Let_def)
  moreover have "fle (LatencyP99 s) (MaxP99LatencyMS (Thresholds c))" if "fgt (LatencyP99 s) (Fin 0)" "\<not> IsLatencyGateExempt n"
    using q(3) that assms(2) p by (intro fle_total) (auto simp: latencyGate_def checkLatency_def numeric_def Let_def)
  moreover have "fle (pct (scnt s Errors) (scnt s Sent + scnt s Received)) (MaxErrorRatePct (Thresholds c))"
    if "0 < scnt s Sent + scnt s Received"
    using q(4) that assms(2) by (intro fle_total pct_not_NaN) (auto simp: errorGate_def numeric_def Let_def)
  moreover have "scnt s Corrupted = 0" using q(1) by (simp add: lossGate_def word_gt_0)
  ultimately show ?thesis using q(5) by (auto simp: reportClean_def fidelityGates_def word_gt_0)
qed

lemma reportedWorkers_snaps: "(n, st) \<in> set (reportedWorkers c snaps) \<Longrightarrow> (n, wsSnap st) \<in> set snaps"
  by (auto simp: reportedWorkers_def workerStats_def split: option.splits if_splits dest: map_of_SomeD [OF sym])

lemma gomap_sum_zero: "\<forall>x\<in>set m. f (snd x) = 0 \<Longrightarrow> gomap_sum f m = 0"
  by (induction m) simp_all

lemma report_passes:
  assumes "valid c" "numeric c" "\<forall>(n, s)\<in>set snaps. clean c d n s" "sumWorkers sm = reportedWorkers c snaps"
  shows "rvPassed (GenerateVerdict sm c)"
proof -
  have r: "reportClean c n (wsSnap st) \<and> scnt (wsSnap st) Corrupted = 0" if "(n, st) \<in> set (reportedWorkers c snaps)" for n st
    using clean_reportClean [OF assms(1,2)] reportedWorkers_snaps [OF that] assms(3) by blast
  then have "\<forall>x\<in>set (reportedWorkers c snaps). scnt (wsSnap (snd x)) Corrupted = 0" by auto
  then have "gomap_sum (\<lambda>st. scnt (wsSnap st) Corrupted) (reportedWorkers c snaps) = 0"
    by (rule gomap_sum_zero)
  then show ?thesis using r by (auto simp: GenerateVerdict_passed assms(4))
qed

lemma exitCode_settled:
  assumes "state e \<noteq> StateRunning" "state e \<noteq> StateStarting" "verdictResult e = Some r"
  shows "exitCode await e = (if \<not> vPassed r then 1 else if vResult r = ''PASSED_WITH_WARNINGS'' then 2 else 0)"
  using assms by (simp add: exitCode_def GracefulShutdown_def HasWarnings_def)

lemma RunReport_some:
  assumes "workerSnapshots e = Some snaps" "verdictResult e = Some r" "runConfigOf startup e = c"
  shows "RunReport startup e =
    Some (buildSummary c snaps e, reconcile (Some r) (GenerateVerdict (buildSummary c snaps e) c))"
  using assms by (simp add: RunReport_def Let_def)

lemma buildSummary_workers [simp]: "sumWorkers (buildSummary c snaps e) = reportedWorkers c snaps"
  by (simp add: buildSummary_def Let_def)

text \<open>C20: The report and the exit code agree. For a finished run judged by the engine, under a
  validated configuration whose thresholds are numbers, the gates of the report are among
  those of the engine: the report passes exactly when the engine does, says FAILED exactly
  when the process exits with one, and says PASSED_WITH_WARNINGS whenever it exits with two.\<close>

theorem report_matches_engine:
  fixes e :: "'w Engine"
  assumes "workerSnapshots e = Some snaps" "verdictResult e = Some r" "r = computeVerdict c d snaps bl pk"
    and "runConfigOf startup e = c" "valid c" "numeric c" "state e \<noteq> StateRunning" "state e \<noteq> StateStarting"
  shows "\<exists>s v. RunReport startup e = Some (s, v) \<and> (rvPassed v \<longleftrightarrow> vPassed r) \<and>
    (rvResult v = ''FAILED'' \<longleftrightarrow> exitCode await e = 1) \<and>
    (exitCode await e = 2 \<longrightarrow> rvResult v = ''PASSED_WITH_WARNINGS'')"
proof -
  let ?s = "buildSummary c snaps e"
  have p: "vPassed r \<Longrightarrow> rvPassed (GenerateVerdict ?s c)"
    using report_passes [OF assms(5,6), of snaps d ?s] by (simp add: assms(3) verdict_shape)
  have res: "\<not> vPassed r \<Longrightarrow> vResult r = ''FAILED''" "vPassed r \<Longrightarrow> vResult r \<noteq> ''FAILED''"
    unfolding assms(3) verdict_shape by auto
  show ?thesis
    using RunReport_some [OF assms(1,2,4)] p res exitCode_settled [OF assms(7,8,2), of await] GenerateVerdict_result [of ?s c]
    by (auto simp: reconcile_def)
qed

definition finished :: "Config \<Rightarrow> (string, WorkerSnapshot) gomap \<Rightarrow> BaseWorker Engine" where
  "finished c snaps = (NewEngine c 0)\<lparr>state := StateStopped, runCfg := Some c, workerSnapshots := Some snaps,
     verdictResult := Some (computeVerdict c 0 snaps 0 0)\<rparr>"

theorem report_matches_engine_witness:
  "\<exists>s v. RunReport DefaultConfig (finished DefaultConfig [(WorkerFiltering, zeroSnapshot\<lparr>scnt := (\<lambda>_. 0)(FilterMismatch := 1)\<rparr>)]) =
     Some (s, v) \<and> \<not> rvPassed v \<and> rvResult v = ''FAILED''"
proof -
  let ?snaps = "[(WorkerFiltering, zeroSnapshot\<lparr>scnt := (\<lambda>_. 0)(FilterMismatch := 1)\<rparr>)]"
  let ?e = "finished DefaultConfig ?snaps"
  have "\<not> quiet (coverageGates WorkerFiltering (zeroSnapshot\<lparr>scnt := (\<lambda>_. 0)(FilterMismatch := 1)\<rparr>))"
    by (simp add: coverageGates_def IsFilteringWorker_def)
  then have f: "\<not> vPassed (computeVerdict DefaultConfig 0 ?snaps 0 0)" by (simp add: verdict_shape clean_quiet)
  have n: "numeric DefaultConfig" by (simp add: numeric_def DefaultConfig_def defaultThresholds_def)
  from report_matches_engine [of ?e ?snaps "computeVerdict DefaultConfig 0 ?snaps 0 0" DefaultConfig 0 0 0 DefaultConfig "\<lambda>e. e"]
  show ?thesis using f n default_valid exitCode_settled [of ?e "computeVerdict DefaultConfig 0 ?snaps 0 0" "\<lambda>e. e"]
    by (auto simp: finished_def runConfigOf_def)
qed

section \<open>Where they differ\<close>

lemma warnings_frame [simp]:
  "rvWarnings (putCheck n cr v) = rvWarnings v" "rvWarnings (addHard n x t v) = rvWarnings v"
  "rvWarnings (zeroCheck n k v) = rvWarnings v" "rvWarnings (addWarning m v) = rvWarnings v @ [m]"
  by (simp_all add: putCheck_def addHard_def zeroCheck_def addWarning_def Let_def)

lemma section_warnings:
  "rvWarnings (reportLoss c n ws v) = rvWarnings v" "rvWarnings (reportErrors c n ws v) = rvWarnings v"
  "rvWarnings (reportFidelity n ws v) = rvWarnings v"
  "set (rvWarnings v) \<subseteq> set (rvWarnings (reportLatency c n ws v))"
  "set (rvWarnings v) \<subseteq> set (rvWarnings (reportDuplication c n ws v))"
  "0 < scnt ws Received \<Longrightarrow> IsDuplicationGateExempt n \<Longrightarrow>
     fgt (pct (scnt ws Duplicated) (scnt ws Received)) (MaxDuplicationPct (Thresholds c)) \<Longrightarrow>
     rvWarnings (reportDuplication c n ws v) \<noteq> []"
  by (auto simp: reportLoss_def reportErrors_def reportFidelity_def reportLatency_def reportDuplication_def Let_def)

lemma reportWorker_warnings:
  "set (rvWarnings v) \<subseteq> set (rvWarnings (reportWorker c x v))"
  "wsEnabled (snd x) \<Longrightarrow> 0 < scnt (wsSnap (snd x)) Received \<Longrightarrow> IsDuplicationGateExempt (fst x) \<Longrightarrow>
     fgt (pct (scnt (wsSnap (snd x)) Duplicated) (scnt (wsSnap (snd x)) Received)) (MaxDuplicationPct (Thresholds c)) \<Longrightarrow>
     rvWarnings (reportWorker c x v) \<noteq> []"
proof -
  obtain n st where x: "x = (n, st)" by force
  let ?v = "reportDuplication c n (wsSnap st) (reportLoss c n (wsSnap st) v)"
  have r: "wsEnabled st \<Longrightarrow> rvWarnings (reportWorker c x v) = rvWarnings (reportLatency c n (wsSnap st) ?v)"
    by (simp add: reportWorker_def x section_warnings Let_def)
  note g = section_warnings(4) [of ?v c n "wsSnap st"] section_warnings(5) [of "reportLoss c n (wsSnap st) v" c n "wsSnap st"]
  show "set (rvWarnings v) \<subseteq> set (rvWarnings (reportWorker c x v))"
  proof (cases "wsEnabled st")
    case True
    then show ?thesis using r g by (simp add: section_warnings(1))
  qed (simp add: reportWorker_def x)
  show "rvWarnings (reportWorker c x v) \<noteq> []" if "wsEnabled (snd x)" "0 < scnt (wsSnap (snd x)) Received"
    "IsDuplicationGateExempt (fst x)"
    "fgt (pct (scnt (wsSnap (snd x)) Duplicated) (scnt (wsSnap (snd x)) Received)) (MaxDuplicationPct (Thresholds c))"
    using that r g section_warnings(6) [of "wsSnap st" n c "reportLoss c n (wsSnap st) v"] by (auto simp: x)
qed

lemma reportFold_warnings: "set (rvWarnings v) \<subseteq> set (rvWarnings (fold (reportWorker c) ws v))"
proof (induction ws arbitrary: v)
  case (Cons x ws)
  show ?case using Cons [of "reportWorker c x v"] reportWorker_warnings(1) [of v c x] by auto
qed simp

lemma GenerateVerdict_warns:
  assumes "x \<in> set (sumWorkers s)" "wsEnabled (snd x)" "0 < scnt (wsSnap (snd x)) Received" "IsDuplicationGateExempt (fst x)"
    and "fgt (pct (scnt (wsSnap (snd x)) Duplicated) (scnt (wsSnap (snd x)) Received)) (MaxDuplicationPct (Thresholds c))"
  shows "rvWarnings (GenerateVerdict s c) \<noteq> []"
proof -
  obtain a b where ab: "sumWorkers s = a @ x # b" using split_list [OF assms(1)] by blast
  let ?v = "\<lparr>rvResult = ''PASSED'', rvPassed = True, rvWarnings = [], rvChecks = []\<rparr> :: ReportVerdict"
  have "rvWarnings (reportWorker c x (fold (reportWorker c) a ?v)) \<noteq> []" using reportWorker_warnings(2) assms(2-) by blast
  then have f: "rvWarnings (fold (reportWorker c) (sumWorkers s) ?v) \<noteq> []"
    using reportFold_warnings [of "reportWorker c x (fold (reportWorker c) a ?v)" c b] by (auto simp: ab)
  show ?thesis using f
    by (simp add: GenerateVerdict_def Let_def reportMemory_def)
qed

text \<open>A warning the exit code does not show. When a worker exempt from the duplication gate is
  above the threshold and the engine's verdict is PASSED, the report says
  PASSED_WITH_WARNINGS and the process exits with zero.\<close>

theorem exempt_warning_exits_zero:
  fixes e :: "'w Engine"
  assumes "workerSnapshots e = Some snaps" "verdictResult e = Some r" "r = computeVerdict c d snaps bl pk"
    and "runConfigOf startup e = c" "valid c" "numeric c" "state e \<noteq> StateRunning" "state e \<noteq> StateStarting"
    and "vPassed r" "vResult r = ''PASSED''"
    and "map_of snaps name = Some snap" "GetWorkerConfig c name = Some wc" "Enabled wc" "name \<in> set AllWorkerNames"
    and "IsDuplicationGateExempt name" "0 < scnt snap Received"
    and "fgt (pct (scnt snap Duplicated) (scnt snap Received)) (MaxDuplicationPct (Thresholds c))"
  shows "\<exists>s v. RunReport startup e = Some (s, v) \<and> rvResult v = ''PASSED_WITH_WARNINGS'' \<and> exitCode await e = 0"
proof -
  let ?s = "buildSummary c snaps e"
  have "(name, workerStats c snap wc) \<in> set (sumWorkers ?s)"
    using assms(11-14) by (force simp: reportedWorkers_def)
  then have w: "rvWarnings (GenerateVerdict ?s c) \<noteq> []"
    by (rule GenerateVerdict_warns) (use assms(15-) in \<open>simp_all add: workerStats_def\<close>)
  have "rvPassed (GenerateVerdict ?s c)"
    using report_passes [OF assms(5,6), of snaps d ?s] assms(9) by (simp add: assms(3) verdict_shape)
  then have "rvResult (GenerateVerdict ?s c) = ''PASSED_WITH_WARNINGS''" using w by (simp add: GenerateVerdict_result)
  then show ?thesis
    using RunReport_some [OF assms(1,2,4)] exitCode_settled [OF assms(7,8,2), of await] assms(9,10) by (simp add: reconcile_def)
qed

text \<open>A threshold that is no number splits the verdicts. With NaN as the loss threshold, which
  \<^verbatim>\<open>Validate\<close> accepts, every reported worker that sent anything fails the report, while the
  engine's loss gate cannot fire: a run the engine passes exits with zero and a report that
  says FAILED.\<close>

theorem nan_threshold_splits_verdicts:
  fixes e :: "'w Engine"
  assumes "workerSnapshots e = Some snaps" "verdictResult e = Some r" "runConfigOf startup e = c"
    and "state e \<noteq> StateRunning" "state e \<noteq> StateStarting" "MaxLossPct (Thresholds c) = NaN"
    and "vPassed r" "vResult r = ''PASSED''"
    and "map_of snaps name = Some snap" "GetWorkerConfig c name = Some wc" "Enabled wc" "name \<in> set AllWorkerNames"
    and "\<not> IsFanoutWorker name" "0 < scnt snap Sent"
  shows "\<exists>s v. RunReport startup e = Some (s, v) \<and> rvResult v = ''FAILED'' \<and> exitCode await e = 0"
proof -
  let ?s = "buildSummary c snaps e"
  have m: "(name, workerStats c snap wc) \<in> set (sumWorkers ?s)" using assms(9-12) by (force simp: reportedWorkers_def)
  have "\<not> reportClean c name snap" using assms(6,13,14) by (simp add: reportClean_def lossGateThreshold_def)
  then have "\<not> rvPassed (GenerateVerdict ?s c)" using m by (force simp: GenerateVerdict_passed workerStats_def)
  then show ?thesis
    using RunReport_some [OF assms(1,2,3)] exitCode_settled [OF assms(4,5,2), of await] assms(7,8)
    by (simp add: reconcile_def GenerateVerdict_result)
qed

text \<open>Stopping is not awaited. A signal that arrives while the run is stopping, before its
  verdict is stored, exits with one at once, whatever the run would have found.\<close>

theorem stopping_not_awaited:
  assumes "state e = StateStopping" "verdictResult e = None"
  shows "exitCode await e = 1 \<and> snd (GracefulShutdown await e) = e"
  using assms by (simp add: exitCode_def GracefulShutdown_def)

theorem stopping_not_awaited_witness:
  "exitCode (\<lambda>e. e\<lparr>verdictResult := Some (computeVerdict DefaultConfig 0 [] 0 0)\<rparr>)
     ((NewEngine DefaultConfig 0 :: BaseWorker Engine)\<lparr>state := StateStopping\<rparr>) = 1"
  using stopping_not_awaited [of "(NewEngine DefaultConfig 0 :: BaseWorker Engine)\<lparr>state := StateStopping\<rparr>"]
  by (simp add: NewEngine_def)

section \<open>Two finished runs\<close>

definition dupSnaps :: "(string, WorkerSnapshot) gomap" where
  "dupSnaps = [(WorkerDeadLetter, zeroSnapshot\<lparr>scnt := (\<lambda>_. 0)(Received := 1, Duplicated := 1)\<rparr>)]"

definition nanConfig :: Config where
  "nanConfig = DefaultConfig\<lparr>Thresholds := defaultThresholds\<lparr>MaxLossPct := NaN\<rparr>\<rparr>"

definition nanSnaps :: "(string, WorkerSnapshot) gomap" where
  "nanSnaps = [(WorkerDeadLetter, zeroSnapshot\<lparr>scnt := (\<lambda>_. 0)(Sent := 1)\<rparr>)]"

lemma demo_pct: "pct 0 1 = Fin 0" "pct 1 1 = Fin 100"
  by (simp_all add: pct_def fdiv_def fmul_def)

lemmas demo_gates = clean_quiet lossGate_def duplicationGate_def latencyGate_def errorGate_def throughputGate_def
  fidelityGates_def coverageGates_def probeGates_def checkLatency_def
  IsDuplicationGateExempt_def IsLatencyGateExempt_def IsDeadLetterWorker_def IsOrderingWorker_def IsExactlyOnceWorker_def
  IsFanoutWorker_def IsInteropWorker_def IsFilteringWorker_def IsSchemaEnforceWorker_def IsSeekSnapshotWorker_def
  IsInflightCapWorker_def worker_names

lemma dup_clean: "clean DefaultConfig 0 WorkerDeadLetter (zeroSnapshot\<lparr>scnt := (\<lambda>_. 0)(Received := 1, Duplicated := 1)\<rparr>)"
  by (simp add: demo_gates zeroSnapshot_def demo_pct DefaultConfig_def defaultThresholds_def fgt_def)

lemma nan_clean: "clean nanConfig 0 WorkerDeadLetter (zeroSnapshot\<lparr>scnt := (\<lambda>_. 0)(Sent := 1)\<rparr>)"
  by (simp add: demo_gates zeroSnapshot_def demo_pct nanConfig_def DefaultConfig_def defaultThresholds_def fgt_def)

lemma demo_worker: "GetWorkerConfig DefaultConfig WorkerDeadLetter = Some (DeadLetter defaultWorkers)"
  "GetWorkerConfig nanConfig WorkerDeadLetter = Some (DeadLetter defaultWorkers)"
  "Enabled (DeadLetter defaultWorkers)" "WorkerDeadLetter \<in> set AllWorkerNames"
  by (simp_all add: GetWorkerConfig_def nanConfig_def DefaultConfig_def defaultWorkers_def mkWorker_def AllWorkerNames_def worker_names)

lemma finished_simps [simp]:
  "workerSnapshots (finished c snaps) = Some snaps" "verdictResult (finished c snaps) = Some (computeVerdict c 0 snaps 0 0)"
  "state (finished c snaps) = StateStopped" "runConfigOf startup (finished c snaps) = c"
  by (simp_all add: finished_def runConfigOf_def)

theorem exempt_warning_exits_zero_witness:
  "\<exists>s v. RunReport DefaultConfig (finished DefaultConfig dupSnaps) = Some (s, v) \<and> rvResult v = ''PASSED_WITH_WARNINGS'' \<and>
     exitCode (\<lambda>e. e) (finished DefaultConfig dupSnaps) = 0"
proof -
  have v: "vPassed (computeVerdict DefaultConfig 0 dupSnaps 0 0)" "vResult (computeVerdict DefaultConfig 0 dupSnaps 0 0) = ''PASSED''"
    using dup_clean by (simp_all add: verdict_shape dupSnaps_def memoryGrew_def)
  show ?thesis
    by (rule exempt_warning_exits_zero [OF _ _ refl _ default_valid _ _ _ v _ demo_worker(1,3,4), where snap = "snd (hd dupSnaps)"])
      (simp_all add: dupSnaps_def numeric_def IsDuplicationGateExempt_def IsDeadLetterWorker_def zeroSnapshot_def demo_pct fgt_def
        DefaultConfig_def defaultThresholds_def)
qed

theorem nan_threshold_splits_verdicts_witness:
  "\<exists>s v. RunReport nanConfig (finished nanConfig nanSnaps) = Some (s, v) \<and> rvResult v = ''FAILED'' \<and>
     exitCode (\<lambda>e. e) (finished nanConfig nanSnaps) = 0"
proof -
  have v: "vPassed (computeVerdict nanConfig 0 nanSnaps 0 0)" "vResult (computeVerdict nanConfig 0 nanSnaps 0 0) = ''PASSED''"
    using nan_clean by (simp_all add: verdict_shape nanSnaps_def memoryGrew_def)
  have m: "map_of nanSnaps WorkerDeadLetter = Some (snd (hd nanSnaps))" by (simp add: nanSnaps_def)
  have p: "0 < scnt (snd (hd nanSnaps)) Sent" by (simp add: nanSnaps_def)
  have t: "MaxLossPct (Thresholds nanConfig) = NaN" by (simp add: nanConfig_def)
  have f: "\<not> IsFanoutWorker WorkerDeadLetter" by (simp add: IsFanoutWorker_def worker_neq)
  show ?thesis
    by (rule nan_threshold_splits_verdicts [OF _ _ _ _ _ t v m demo_worker(2,3,4) f p]) simp_all
qed

end
