(* ===== verification/Control.thy ===== *)
theory Control
  imports Report WorkerCore GoJson
begin

text \<open>
  The control plane: the overlay of \<^verbatim>\<open>src/burnin/api/models.go\<close>, the HTTP handlers of
  \<^verbatim>\<open>src/burnin/server/server.go\<close> over the adapter of \<^verbatim>\<open>src/burnin/main.go\<close>, and the forced disconnects of
  \<^verbatim>\<open>src/burnin/disconnect/disconnect.go\<close>. The body of a request is the value the JSON decoder left, whose
  error the handler ignores; a path is what the mux matches, after its cleaning. The text of a
  response is kept as the data it is written from.
\<close>

section \<open>The overlay\<close>

record RunConfig =
  rcDuration :: string
  rcMode :: string
  rcGCP :: "GCPConfig option"
  rcWorkers :: "WorkersConfig option"
  rcMessage :: "MessageConfig option"
  rcThresholds :: "ThresholdsConfig option"
  rcForcedDisconnect :: "ForcedDisconnConfig option"

definition emptyRunConfig :: RunConfig where
  "emptyRunConfig = \<lparr>rcDuration = [], rcMode = [], rcGCP = None, rcWorkers = None, rcMessage = None, rcThresholds = None,
     rcForcedDisconnect = None\<rparr>"

text \<open>What a struct becomes by \<^verbatim>\<open>Marshal\<close> and \<^verbatim>\<open>Unmarshal\<close>: strings are coerced to UTF-8, integers, booleans and
  finite floats come back, and \<^verbatim>\<open>Marshal\<close> refuses a float that is not finite.\<close>

definition finite64 :: "float64 \<Rightarrow> bool" where
  "finite64 x = (case x of Fin _ \<Rightarrow> True | _ \<Rightarrow> False)"

definition gcpFloats :: "GCPConfig \<Rightarrow> float64 list" where
  "gcpFloats g = [NackFraction g]"

definition thresholdFloats :: "ThresholdsConfig \<Rightarrow> float64 list" where
  "thresholdFloats t = [MaxLossPct t, MaxDuplicationPct t, MaxP50LatencyMS t, MaxP95LatencyMS t, MaxP99LatencyMS t,
     MaxP999LatencyMS t, MinThroughputPct t, MaxErrorRatePct t, MaxMemoryGrowthFactor t, MaxDowntimePct t]"

definition configFloats :: "Config \<Rightarrow> float64 list" where
  "configFloats c = gcpFloats (GCP c) @ [ReconnectMultiplier (Recovery c)] @ thresholdFloats (Thresholds c)"

definition overlayFloats :: "RunConfig \<Rightarrow> float64 list" where
  "overlayFloats rc = (case rcGCP rc of Some g \<Rightarrow> gcpFloats g | None \<Rightarrow> []) @
     (case rcThresholds rc of Some t \<Rightarrow> thresholdFloats t | None \<Rightarrow> [])"

definition jsonGCP :: "GCPConfig \<Rightarrow> GCPConfig" where
  "jsonGCP g = g\<lparr>ProjectID := toValidUTF8 (ProjectID g), EmulatorHostF := toValidUTF8 (EmulatorHostF g),
     GFilter := toValidUTF8 (GFilter g), DeadLetterTopic := toValidUTF8 (DeadLetterTopic g),
     SchemaType := toValidUTF8 (SchemaType g), SchemaEncoding := toValidUTF8 (SchemaEncoding g)\<rparr>"

definition jsonMessage :: "MessageConfig \<Rightarrow> MessageConfig" where
  "jsonMessage m = m\<lparr>SizeMode := toValidUTF8 (SizeMode m), SizeDistributionF := toValidUTF8 (SizeDistributionF m)\<rparr>"

definition jsonThresholds :: "ThresholdsConfig \<Rightarrow> ThresholdsConfig" where
  "jsonThresholds t = t\<lparr>MaxDuration := toValidUTF8 (MaxDuration t)\<rparr>"

definition jsonDisconnect :: "ForcedDisconnConfig \<Rightarrow> ForcedDisconnConfig" where
  "jsonDisconnect f = f\<lparr>FDInterval := toValidUTF8 (FDInterval f), FDDuration := toValidUTF8 (FDDuration f)\<rparr>"

text \<open>The fields tagged \<^verbatim>\<open>json:"-"\<close> of the copy are zero.\<close>

definition unparsed :: "Config \<Rightarrow> Config" where
  "unparsed c = c\<lparr>DurationParsed := 0, WarmupDurationParsed := 0, ReportIntervalParsed := 0, ForcedDisconnInterval := 0,
     ForcedDisconnDuration := 0, ReconnectInterval := 0, ReconnectMaxInterval := 0, MaxDurationParsed := 0, Warnings := []\<rparr>"

definition jsonCopy :: "Config \<Rightarrow> Config" where
  "jsonCopy c = unparsed (c\<lparr>Version := toValidUTF8 (Version c),
     Broker := \<lparr>Address = toValidUTF8 (Address (Broker c)), GRPCAddressF = toValidUTF8 (GRPCAddressF (Broker c)),
                ClientIDPrefix = toValidUTF8 (ClientIDPrefix (Broker c))\<rparr>,
     Mode := toValidUTF8 (Mode c), Duration := toValidUTF8 (Duration c), RunID := toValidUTF8 (RunID c),
     WarmupDuration := toValidUTF8 (WarmupDuration c), GCP := jsonGCP (GCP c), Message := jsonMessage (Message c),
     Metrics := (Metrics c)\<lparr>ReportInterval := toValidUTF8 (ReportInterval (Metrics c))\<rparr>,
     Logging := \<lparr>Format = toValidUTF8 (Format (Logging c)), Level = toValidUTF8 (Level (Logging c))\<rparr>,
     ForcedDisconnect := jsonDisconnect (ForcedDisconnect c),
     Recovery := (Recovery c)\<lparr>RReconnectInterval := toValidUTF8 (RReconnectInterval (Recovery c)),
                              RReconnectMaxInterval := toValidUTF8 (RReconnectMaxInterval (Recovery c))\<rparr>,
     Output := \<lparr>ReportFile = toValidUTF8 (ReportFile (Output c)), SDKVersion = toValidUTF8 (SDKVersion (Output c))\<rparr>,
     Thresholds := jsonThresholds (Thresholds c), Origins := toValidUTF8 (Origins c)\<rparr>)"

definition overlayWith :: "RunConfig \<Rightarrow> Config \<Rightarrow> Config" where
  "overlayWith rc c =
     (let c = (if rcDuration rc \<noteq> [] then c\<lparr>Duration := toValidUTF8 (rcDuration rc)\<rparr> else c);
          c = (if rcMode rc \<noteq> [] then c\<lparr>Mode := toValidUTF8 (rcMode rc)\<rparr> else c);
          c = (case rcGCP rc of Some g \<Rightarrow> c\<lparr>GCP := jsonGCP g\<rparr> | None \<Rightarrow> c);
          c = (case rcWorkers rc of Some w \<Rightarrow> c\<lparr>Workers := w\<rparr> | None \<Rightarrow> c);
          c = (case rcMessage rc of Some m \<Rightarrow> c\<lparr>Message := jsonMessage m\<rparr> | None \<Rightarrow> c);
          c = (case rcThresholds rc of Some t \<Rightarrow> c\<lparr>Thresholds := jsonThresholds t\<rparr> | None \<Rightarrow> c)
      in (case rcForcedDisconnect rc of Some f \<Rightarrow> c\<lparr>ForcedDisconnect := jsonDisconnect f\<rparr> | None \<Rightarrow> c))"

datatype start_error =
  MarshalBase | MarshalOverlay | BadDurations load_error | InvalidConfig ValidationError | EngineBusy estate

definition ToInternalConfig :: "string \<Rightarrow> RunConfig \<Rightarrow> Config \<Rightarrow> start_error + Config" where
  "ToInternalConfig freshID rc base =
     (if \<not> list_all finite64 (configFloats base) then Inl MarshalBase
      else if \<not> list_all finite64 (overlayFloats rc) then Inl MarshalOverlay
      else
        (case ParseDurationsPublic (overlayWith rc (jsonCopy base)) of
           Inl e \<Rightarrow> Inl (BadDurations e)
         | Inr c \<Rightarrow>
             (let c = (if RunID c = [] then c\<lparr>RunID := freshID\<rparr> else c) in
              case find (\<lambda>e. \<not> isWarning e) (Validate c) of
                Some e \<Rightarrow> Inl (InvalidConfig e)
              | None \<Rightarrow> Inr c)))"

section \<open>The adapter\<close>

definition resolveEmulator :: "environ \<Rightarrow> Config \<Rightarrow> Config" where
  "resolveEmulator getenv c =
     (if EmulatorHostF (GCP c) = []
      then c\<lparr>GCP := (GCP c)\<lparr>EmulatorHostF := EmulatorHost getenv [] (Address (Broker c))\<rparr>\<rparr>
      else c)"

definition adapter_StartRun :: "environ \<Rightarrow> instant \<Rightarrow> string \<Rightarrow> Config \<Rightarrow> RunConfig \<Rightarrow> 'w Engine \<Rightarrow> start_error + 'w Engine" where
  "adapter_StartRun getenv now freshID startup rc e =
     (case ToInternalConfig freshID rc startup of
        Inl err \<Rightarrow> Inl err
      | Inr c \<Rightarrow>
          (case StartRunFromConfig now freshID (resolveEmulator getenv c) e of
             Inl s \<Rightarrow> Inl (EngineBusy s)
           | Inr e' \<Rightarrow> Inr e'))"

section \<open>The server\<close>

record request =
  rMethod :: string
  rPath :: string
  rBody :: RunConfig

datatype body = NoBody | Strings "(string \<times> string) list" | StartFailed start_error | StopFailed estate
  | ConfigBody Config | ReportBody Summary ReportVerdict | StatusBody RunStatus | SnapshotBody RunSnapshot | MetricsText

record response =
  pStatus :: int
  pHeaders :: "(string \<times> string) list"
  pBody :: body

definition writeJSON :: "int \<Rightarrow> body \<Rightarrow> response" where
  "writeJSON status v = \<lparr>pStatus = status, pHeaders = [(''Content-Type'', ''application/json'')], pBody = v\<rparr>"

fun stateString :: "estate \<Rightarrow> string" where
  "stateString StateIdle = ''idle''"
| "stateString StateStarting = ''starting''"
| "stateString StateRunning = ''running''"
| "stateString StateStopping = ''stopping''"
| "stateString StateStopped = ''stopped''"
| "stateString StateError = ''error''"

definition methodNotAllowed :: response where
  "methodNotAllowed = writeJSON 405 (Strings [(''error'', ''method not allowed'')])"

definition handleHealth :: response where
  "handleHealth = writeJSON 200 (Strings [(''status'', ''alive'')])"

definition handleReady :: "'w Engine \<Rightarrow> response" where
  "handleReady e = writeJSON 200 (Strings [(''status'', ''ready''), (''state'', stateString (state e))])"

definition handleInfo :: "Config \<Rightarrow> response" where
  "handleInfo c =
     (let emulator = (if EmulatorHostF (GCP c) = [] then Address (Broker c) else EmulatorHostF (GCP c)) in
      writeJSON 200 (Strings [(''connector'', ''gcp-pub-sub''), (''sdk'', SDK), (''version'', SDKVersion (Output c)),
        (''broker'', Address (Broker c)), (''endpoint'', emulator), (''project_id'', ProjectID (GCP c)),
        (''port'', FormatInt (Port (Metrics c)))]))"

text \<open>The handler reads the state first and starts the run later: \<open>seen\<close> is the state it read, \<open>e\<close> the
  engine it finds when it starts the run. Without a concurrent request they agree.\<close>

definition handleRunStartAt :: "environ \<Rightarrow> instant \<Rightarrow> string \<Rightarrow> Config \<Rightarrow> estate \<Rightarrow> request \<Rightarrow> 'w Engine \<Rightarrow> response \<times> 'w Engine" where
  "handleRunStartAt getenv now freshID startup seen r e =
     (if rMethod r \<noteq> ''POST'' then (methodNotAllowed, e)
      else
        (let s = stateString seen in
         if s \<noteq> ''idle'' \<and> s \<noteq> ''stopped'' \<and> s \<noteq> ''error''
         then (writeJSON 409 (Strings [(''error'', ''cannot start run in state '' @ appendString s), (''state'', s)]), e)
         else
           (case adapter_StartRun getenv now freshID startup (rBody r) e of
              Inl err \<Rightarrow> (writeJSON 500 (StartFailed err), e)
            | Inr e' \<Rightarrow> (writeJSON 202 (Strings [(''status'', ''starting''), (''run_id'', runID e')]), e'))))"

definition handleRunStart :: "environ \<Rightarrow> instant \<Rightarrow> string \<Rightarrow> Config \<Rightarrow> request \<Rightarrow> 'w Engine \<Rightarrow> response \<times> 'w Engine" where
  "handleRunStart getenv now freshID startup r e = handleRunStartAt getenv now freshID startup (state e) r e"

definition handleRunStop :: "request \<Rightarrow> 'w Engine \<Rightarrow> response \<times> 'w Engine" where
  "handleRunStop r e =
     (if rMethod r \<noteq> ''POST'' then (methodNotAllowed, e)
      else
        (case StopRun e of
           Inl s \<Rightarrow> (writeJSON 409 (StopFailed s), e)
         | Inr e' \<Rightarrow> (writeJSON 202 (Strings [(''state'', ''stopping'')]), e')))"

definition handleRunStatus :: "'w WorkerOps \<Rightarrow> instant \<Rightarrow> 'w Engine \<Rightarrow> response" where
  "handleRunStatus ops now e = writeJSON 200 (StatusBody (adapter_RunStatus ops now e))"

definition handleRunConfig :: "'w Engine \<Rightarrow> response" where
  "handleRunConfig e =
     (case runCfg e of
        None \<Rightarrow> writeJSON 404 (Strings [(''error'', ''no active or completed run'')])
      | Some c \<Rightarrow> writeJSON 200 (ConfigBody c))"

definition handleRunReport :: "Config \<Rightarrow> 'w Engine \<Rightarrow> response" where
  "handleRunReport startup e =
     (case RunReport startup e of
        None \<Rightarrow> writeJSON 404 (Strings [(''error'', ''no report available (run not stopped)'')])
      | Some (s, v) \<Rightarrow> writeJSON 200 (ReportBody s v))"

definition handleRunSnapshot :: "'w WorkerOps \<Rightarrow> instant \<Rightarrow> 'w Engine \<Rightarrow> response" where
  "handleRunSnapshot ops now e = writeJSON 200 (SnapshotBody (adapter_RunSnapshot ops now e))"

text \<open>The mux: every pattern is a whole path, and any other path is not found.\<close>

definition route :: "'w WorkerOps \<Rightarrow> environ \<Rightarrow> instant \<Rightarrow> string \<Rightarrow> Config \<Rightarrow> request \<Rightarrow> 'w Engine \<Rightarrow> response \<times> 'w Engine" where
  "route ops getenv now freshID startup r e =
     (if rPath r = ''/health'' then (handleHealth, e)
      else if rPath r = ''/ready'' then (handleReady e, e)
      else if rPath r = ''/info'' then (handleInfo startup, e)
      else if rPath r = ''/metrics'' then (\<lparr>pStatus = 200, pHeaders = [], pBody = MetricsText\<rparr>, e)
      else if rPath r = ''/run/start'' then handleRunStart getenv now freshID startup r e
      else if rPath r = ''/run/stop'' then handleRunStop r e
      else if rPath r = ''/run/status'' then (handleRunStatus ops now e, e)
      else if rPath r = ''/run/config'' then (handleRunConfig e, e)
      else if rPath r = ''/run/report'' then (handleRunReport startup e, e)
      else if rPath r = ''/run'' then (handleRunSnapshot ops now e, e)
      else (\<lparr>pStatus = 404, pHeaders = [], pBody = NoBody\<rparr>, e))"

definition corsHeaders :: "Config \<Rightarrow> (string \<times> string) list" where
  "corsHeaders startup =
     [(''Access-Control-Allow-Origin'', if Origins startup = [] then ''*'' else Origins startup),
      (''Access-Control-Allow-Methods'', ''GET, POST, OPTIONS''),
      (''Access-Control-Allow-Headers'', ''Content-Type, Accept'')]"

definition corsMiddleware :: "Config \<Rightarrow> (request \<Rightarrow> 'e \<Rightarrow> response \<times> 'e) \<Rightarrow> request \<Rightarrow> 'e \<Rightarrow> response \<times> 'e" where
  "corsMiddleware startup next r e =
     (if rMethod r = ''OPTIONS'' then (\<lparr>pStatus = 204, pHeaders = corsHeaders startup, pBody = NoBody\<rparr>, e)
      else (let (p, e) = next r e in (p\<lparr>pHeaders := corsHeaders startup @ pHeaders p\<rparr>, e)))"

definition serve :: "'w WorkerOps \<Rightarrow> environ \<Rightarrow> instant \<Rightarrow> string \<Rightarrow> Config \<Rightarrow> request \<Rightarrow> 'w Engine \<Rightarrow> response \<times> 'w Engine" where
  "serve ops getenv now freshID startup = corsMiddleware startup (route ops getenv now freshID startup)"

section \<open>Forced disconnects\<close>

text \<open>What a turn of \<^verbatim>\<open>Manager.Run\<close> meets: the context is done, or a tick, during whose outage the
  context may be cancelled. \<^verbatim>\<open>DisconnectConsumers\<close> goes to every worker of the engine.\<close>

datatype dcEvent = DcDone | DcTick bool

definition disconnectAll :: "'w WorkerOps \<Rightarrow> 'w Engine \<Rightarrow> 'w Engine" where
  "disconnectAll ops e =
     mapWorkers (\<lambda>w. wPut ops (DisconnectConsumers (wBase ops w)) w) (eEmit [IncForcedDisconnect] e)"

fun disconnectLoop :: "'w WorkerOps \<Rightarrow> dcEvent list \<Rightarrow> 'w Engine \<Rightarrow> 'w Engine" where
  "disconnectLoop ops [] e = e"
| "disconnectLoop ops (DcDone # evs) e = e"
| "disconnectLoop ops (DcTick cancelled' # evs) e =
     (if cancelled' then disconnectAll ops e else disconnectLoop ops evs (disconnectAll ops e))"

definition Manager_Run :: "'w WorkerOps \<Rightarrow> duration \<Rightarrow> dcEvent list \<Rightarrow> 'w Engine \<Rightarrow> 'w Engine" where
  "Manager_Run ops interval evs e = (if interval = 0 then e else disconnectLoop ops evs e)"

definition startDisconnects :: "'w WorkerOps \<Rightarrow> Config \<Rightarrow> dcEvent list \<Rightarrow> 'w Engine \<Rightarrow> 'w Engine" where
  "startDisconnects ops c evs e =
     (if 0 < ForcedDisconnInterval c then Manager_Run ops (ForcedDisconnInterval c) evs e else e)"

section \<open>When a run starts\<close>

lemma stateString_startable:
  "stateString s \<noteq> ''idle'' \<and> stateString s \<noteq> ''stopped'' \<and> stateString s \<noteq> ''error'' \<longleftrightarrow>
   s \<noteq> StateIdle \<and> s \<noteq> StateStopped \<and> s \<noteq> StateError"
  by (cases s) simp_all

lemma serve_start:
  assumes "rMethod r = ''POST''" "rPath r = ''/run/start''"
  shows "serve ops getenv now fresh startup r e =
    (let (p, e') = handleRunStart getenv now fresh startup r e in (p\<lparr>pHeaders := corsHeaders startup @ pHeaders p\<rparr>, e'))"
  using assms by (simp add: serve_def corsMiddleware_def route_def)

lemma StartRun_startable:
  "state e \<in> {StateIdle, StateStopped, StateError} \<Longrightarrow> \<exists>e'. StartRunFromConfig now fresh c e = Inr e' \<and>
     state e' = StateStarting \<and> runCfg e' = Some c \<and> runID e' = (if RunID c = [] then fresh else RunID c) \<and> verdictResult e' = None"
  by (auto simp: StartRunFromConfig_def)

lemma route_engine:
  "snd (route ops getenv now fresh startup r e) =
     (if rPath r = ''/run/start'' then snd (handleRunStart getenv now fresh startup r e)
      else if rPath r = ''/run/stop'' then snd (handleRunStop r e) else e)"
proof -
  consider "rPath r = ''/run/start''" | "rPath r = ''/run/stop''" | "rPath r \<noteq> ''/run/start''" "rPath r \<noteq> ''/run/stop''" by blast
  then show ?thesis
  proof cases
    case 3
    then show ?thesis unfolding route_def if_distrib [of snd] by (simp only: if_False snd_conv if_cancel)
  qed (simp_all add: route_def)
qed

lemma serve_engine:
  "snd (serve ops getenv now fresh startup r e) =
     (if rMethod r = ''OPTIONS'' then e else snd (route ops getenv now fresh startup r e))"
  by (simp add: serve_def corsMiddleware_def split_beta Let_def)

definition posts :: "request \<Rightarrow> string \<Rightarrow> bool" where
  "posts r path \<longleftrightarrow> rMethod r = ''POST'' \<and> rPath r = path"

definition inProgress :: "estate set" where
  "inProgress = {StateStarting, StateRunning, StateStopping}"

lemma inProgress_iff: "s \<in> inProgress \<longleftrightarrow> s \<notin> {StateIdle, StateStopped, StateError}"
  by (cases s) (simp_all add: inProgress_def)

lemma serve_status:
  "pStatus (fst (serve ops getenv now fresh startup r e)) =
     (if rMethod r = ''OPTIONS'' then 204 else pStatus (fst (route ops getenv now fresh startup r e)))"
  by (simp add: serve_def corsMiddleware_def split_beta Let_def)

lemma route_status_other:
  assumes "rPath r \<noteq> ''/run/start''" "rPath r \<noteq> ''/run/stop''"
  shows "pStatus (fst (route ops getenv now fresh startup r e)) \<in> {200, 404}"
proof -
  have "pStatus (handleRunConfig e) \<in> {200, 404}" "pStatus (handleRunReport startup e) \<in> {200, 404}"
    by (simp_all add: handleRunConfig_def handleRunReport_def writeJSON_def split: option.split prod.split)
  moreover have "pStatus handleHealth = 200" "pStatus (handleReady e) = 200" "pStatus (handleInfo startup) = 200"
    "pStatus (handleRunStatus ops now e) = 200" "pStatus (handleRunSnapshot ops now e) = 200"
    by (simp_all add: handleHealth_def handleReady_def handleInfo_def handleRunStatus_def handleRunSnapshot_def writeJSON_def Let_def)
  ultimately show ?thesis using assms unfolding route_def by (simp split: if_split)
qed

text \<open>The requests of a client one after another, with the clock and the random run id of each.\<close>

definition serveAll :: "'w WorkerOps \<Rightarrow> environ \<Rightarrow> Config \<Rightarrow> (instant \<times> string \<times> request) list \<Rightarrow> 'w Engine \<Rightarrow> 'w Engine" where
  "serveAll ops getenv startup rs e = fold (\<lambda>(now, fresh, r) e. snd (serve ops getenv now fresh startup r e)) rs e"

section \<open>Parsed durations\<close>

definition wanted :: "bool \<Rightarrow> string \<Rightarrow> duration option" where
  "wanted w s = (if w then parseDuration s else Some 0)"

definition withDurations :: "duration list \<Rightarrow> Config \<Rightarrow> Config" where
  "withDurations ds c = c\<lparr>DurationParsed := ds ! 0, WarmupDurationParsed := ds ! 1, ReportIntervalParsed := ds ! 2,
     ForcedDisconnInterval := ds ! 3, ForcedDisconnDuration := ds ! 4, ReconnectInterval := ds ! 5, ReconnectMaxInterval := ds ! 6,
     MaxDurationParsed := ds ! 7\<rparr>"

definition durationsOf :: "Config \<Rightarrow> duration option list" where
  "durationsOf c =
     [wanted (Duration c \<noteq> [] \<and> Duration c \<noteq> ''0'') (Duration c), wanted (WarmupDuration c \<noteq> []) (WarmupDuration c),
      wanted (ReportInterval (Metrics c) \<noteq> []) (ReportInterval (Metrics c)),
      wanted (FDInterval (ForcedDisconnect c) \<noteq> [] \<and> FDInterval (ForcedDisconnect c) \<noteq> ''0'') (FDInterval (ForcedDisconnect c)),
      wanted (FDDuration (ForcedDisconnect c) \<noteq> []) (FDDuration (ForcedDisconnect c)),
      wanted (RReconnectInterval (Recovery c) \<noteq> []) (RReconnectInterval (Recovery c)),
      wanted (RReconnectMaxInterval (Recovery c) \<noteq> []) (RReconnectMaxInterval (Recovery c)),
      wanted (MaxDuration (Thresholds c) \<noteq> []) (MaxDuration (Thresholds c))]"

definition noDurations :: "Config \<Rightarrow> bool" where
  "noDurations c \<longleftrightarrow> list_all ((=) 0) [DurationParsed c, WarmupDurationParsed c, ReportIntervalParsed c, ForcedDisconnInterval c,
     ForcedDisconnDuration c, ReconnectInterval c, ReconnectMaxInterval c, MaxDurationParsed c]"

lemma setParsed_wanted:
  assumes "\<not> w \<longrightarrow> upd 0 c = c"
  shows "setParsed w s err upd (Inr c) = (case wanted w s of None \<Rightarrow> Inl (err s) | Some d \<Rightarrow> Inr (upd d c))"
  using assms by (simp add: setParsed_def wanted_def)

lemma setParsed_Inl [simp]: "setParsed w s err upd (Inl e) = Inl e"
  by (simp add: setParsed_def)

lemma parseDurations_list:
  assumes "noDurations c"
  shows "parseDurations c = Inr c' \<longleftrightarrow> (\<exists>ds. durationsOf c = map Some ds \<and> c' = withDurations ds c)"
  using assms
  by (cases c) (auto simp: parseDurations_def Let_def setParsed_wanted durationsOf_def withDurations_def noDurations_def Cons_eq_map_conv
      split: option.splits)

lemma durationsOf_frame [simp]:
  "durationsOf (unparsed c) = durationsOf c" "durationsOf (withDurations ds c) = durationsOf c"
  "durationsOf (c\<lparr>RunID := x\<rparr>) = durationsOf c" "durationsOf (c\<lparr>Warnings := ws\<rparr>) = durationsOf c"
  by (simp_all add: durationsOf_def unparsed_def withDurations_def)

lemma noDurations_frame [simp]: "noDurations (unparsed c)" "noDurations (c\<lparr>Warnings := ws\<rparr>) = noDurations c"
  "noDurations (c\<lparr>Workers := w\<rparr>) = noDurations c" "noDurations (c\<lparr>Broker := b\<rparr>) = noDurations c"
  by (simp_all add: noDurations_def unparsed_def)

lemma parse_again:
  assumes "noDurations c" "parseDurations c = Inr c'"
  shows "parseDurations (unparsed (c'\<lparr>RunID := x\<rparr>)) = Inr (c'\<lparr>RunID := x, Warnings := []\<rparr>)"
proof -
  obtain ds where ds: "durationsOf c = map Some ds" "c' = withDurations ds c" using assms parseDurations_list by blast
  have "withDurations ds (unparsed (c'\<lparr>RunID := x\<rparr>)) = c'\<lparr>RunID := x, Warnings := []\<rparr>"
    by (simp add: ds(2) withDurations_def unparsed_def)
  then show ?thesis using ds by (subst parseDurations_list) auto
qed

lemma noDurations_overrides: "noDurations (applyEnvOverrides getenv order c) = noDurations c"
proof -
  have u: "noDurations (updWorkerConfig n f c) = noDurations c" for n f c
    using upd_worker_rest noDurations_frame(3) by metis
  have f: "(\<And>x c. noDurations (F x c) = noDurations c) \<Longrightarrow> noDurations (fold F xs c) = noDurations c"
    for F :: "string \<times> string \<Rightarrow> Config \<Rightarrow> Config" and xs c
    by (induction xs arbitrary: c) simp_all
  have "noDurations (overrideWorkers getenv order c) = noDurations c" for c
    unfolding overrideWorkers_def by (rule f) (simp add: u split: prod.split)
  then show ?thesis by (simp add: applyEnvOverrides_def overrideAddress_def Let_def)
qed

lemma Validate_warnings: "Validate (c\<lparr>Warnings := ws\<rparr>) = Validate c"
proof -
  have "validateWorkers (c\<lparr>Warnings := ws\<rparr>) = validateWorkers c" by (rule validateWorkers_cong) simp_all
  then show ?thesis by (simp add: Validate_def validateGCP_def validateMessage_def validateThresholds_def)
qed

lemma Load_parsed:
  assumes "Load getenv order rf strict lax fresh path = Inr base" "fresh \<noteq> []"
    and "\<And>data c. strict data DefaultConfig = Some c \<or> lax data DefaultConfig = Some c \<Longrightarrow> noDurations c"
  shows "parseDurations (unparsed base) = Inr (base\<lparr>Warnings := []\<rparr>)" "RunID base \<noteq> []"
proof -
  obtain c where c: "(if path = [] then Inr DefaultConfig
      else (case rf path of None \<Rightarrow> Inl ReadFile | Some data \<Rightarrow> decodeFile strict lax data)) = Inr c"
    using assms(1) unfolding Load_def by (simp split: sum.splits)
  have b: "(case parseDurations (applyEnvOverrides getenv order c) of Inl e \<Rightarrow> Inl e
      | Inr c \<Rightarrow> Inr (if RunID c = [] then c\<lparr>RunID := fresh\<rparr> else c)) = Inr base"
    using assms(1) unfolding Load_def c by simp
  have "noDurations DefaultConfig" by (simp add: noDurations_def DefaultConfig_def)
  then have d: "noDurations c"
    using c assms(3) by (fastforce simp: decodeFile_def split: if_splits option.splits)
  obtain c' where p: "parseDurations (applyEnvOverrides getenv order c) = Inr c'"
      "base = (if RunID c' = [] then c'\<lparr>RunID := fresh\<rparr> else c')"
    using b by (auto split: sum.splits)
  have "base = c'\<lparr>RunID := RunID base\<rparr>" using p(2) by auto
  then show "parseDurations (unparsed base) = Inr (base\<lparr>Warnings := []\<rparr>)"
    using parse_again [OF _ p(1), of "RunID base"] d noDurations_overrides by (metis (no_types))
  show "RunID base \<noteq> []" using p(2) assms(2) by auto
qed

lemma overlay_empty: "overlayWith emptyRunConfig c = c" "overlayFloats emptyRunConfig = []"
  by (simp_all add: overlayWith_def overlayFloats_def emptyRunConfig_def Let_def)

section \<open>Properties\<close>

text \<open>The strings of a configuration and of an overlay that go through the JSON encoder.\<close>

definition utf8 :: "string \<Rightarrow> bool" where
  "utf8 s \<longleftrightarrow> toValidUTF8 s = s"

definition gcpStrings :: "GCPConfig \<Rightarrow> string list" where
  "gcpStrings g = [ProjectID g, EmulatorHostF g, GFilter g, DeadLetterTopic g, SchemaType g, SchemaEncoding g]"

definition configStrings :: "Config \<Rightarrow> string list" where
  "configStrings c = gcpStrings (GCP c) @
     [Version c, Address (Broker c), GRPCAddressF (Broker c), ClientIDPrefix (Broker c), Mode c, Duration c, RunID c, WarmupDuration c,
      SizeMode (Message c), SizeDistributionF (Message c), ReportInterval (Metrics c), Format (Logging c), Level (Logging c),
      FDInterval (ForcedDisconnect c), FDDuration (ForcedDisconnect c), RReconnectInterval (Recovery c),
      RReconnectMaxInterval (Recovery c), ReportFile (Output c), SDKVersion (Output c), MaxDuration (Thresholds c), Origins c]"

definition overlayStrings :: "RunConfig \<Rightarrow> string list" where
  "overlayStrings rc = [rcDuration rc, rcMode rc] @ (case rcGCP rc of Some g \<Rightarrow> gcpStrings g | None \<Rightarrow> []) @
     (case rcMessage rc of Some m \<Rightarrow> [SizeMode m, SizeDistributionF m] | None \<Rightarrow> []) @
     (case rcThresholds rc of Some t \<Rightarrow> [MaxDuration t] | None \<Rightarrow> []) @
     (case rcForcedDisconnect rc of Some f \<Rightarrow> [FDInterval f, FDDuration f] | None \<Rightarrow> [])"

lemma jsonCopy_utf8: "list_all utf8 (configStrings c) \<Longrightarrow> jsonCopy c = unparsed c"
  by (cases c) (auto simp: jsonCopy_def unparsed_def configStrings_def gcpStrings_def utf8_def jsonGCP_def jsonMessage_def
      jsonThresholds_def jsonDisconnect_def)

definition orElse :: "'a option \<Rightarrow> 'a \<Rightarrow> 'a" where
  "orElse x y = (case x of Some v \<Rightarrow> v | None \<Rightarrow> y)"

text \<open>A block of the result is the overlay's when it has one and the base's otherwise.\<close>

definition overlaid :: "RunConfig \<Rightarrow> Config \<Rightarrow> Config \<Rightarrow> bool" where
  "overlaid rc base c \<longleftrightarrow>
     Duration c = (if rcDuration rc = [] then Duration base else rcDuration rc) \<and> Mode c = (if rcMode rc = [] then Mode base else rcMode rc) \<and>
     GCP c = orElse (rcGCP rc) (GCP base) \<and> Workers c = orElse (rcWorkers rc) (Workers base) \<and>
     Message c = orElse (rcMessage rc) (Message base) \<and> Thresholds c = orElse (rcThresholds rc) (Thresholds base) \<and>
     ForcedDisconnect c = orElse (rcForcedDisconnect rc) (ForcedDisconnect base) \<and>
     Version c = Version base \<and> Broker c = Broker base \<and> RunID c = RunID base \<and> WarmupDuration c = WarmupDuration base \<and>
     Metrics c = Metrics base \<and> Logging c = Logging base \<and> Recovery c = Recovery base \<and>
     DrainTimeoutSeconds c = DrainTimeoutSeconds base \<and> Output c = Output base \<and> Warmup c = Warmup base \<and> Origins c = Origins base"

lemma overlayWith_overlaid: "list_all utf8 (overlayStrings rc) \<Longrightarrow> overlaid rc base (overlayWith rc (unparsed base))"
  by (cases rc; cases "rcGCP rc"; cases "rcWorkers rc"; cases "rcMessage rc"; cases "rcThresholds rc"; cases "rcForcedDisconnect rc")
    (auto simp: overlaid_def orElse_def overlayWith_def unparsed_def overlayStrings_def gcpStrings_def utf8_def jsonGCP_def
      jsonMessage_def jsonThresholds_def jsonDisconnect_def Let_def)

lemma noDurations_overlay: "noDurations (overlayWith rc c) = noDurations c"
  by (simp add: noDurations_def overlayWith_def Let_def split: option.split)

lemma overlaid_frame: "overlaid rc base (withDurations ds c) = overlaid rc base c"
  by (simp add: overlaid_def withDurations_def)

definition parsedOf :: "Config \<Rightarrow> duration list" where
  "parsedOf c = [DurationParsed c, WarmupDurationParsed c, ReportIntervalParsed c, ForcedDisconnInterval c, ForcedDisconnDuration c,
     ReconnectInterval c, ReconnectMaxInterval c, MaxDurationParsed c]"

lemma overlaid_durations: "overlaid rc base c \<Longrightarrow> overlaid rc base d \<Longrightarrow> durationsOf c = durationsOf d"
  by (simp add: overlaid_def durationsOf_def)

lemma overlaid_unique:
  assumes "overlaid rc base c" "overlaid rc base d" "Warnings c = Warnings d"
  shows "c = withDurations (parsedOf c) d"
  using assms by (cases c; cases d) (simp add: overlaid_def withDurations_def parsedOf_def)

lemma parsedOf_with: "length ds = 8 \<Longrightarrow> parsedOf (withDurations ds c) = ds"
  by (auto simp: parsedOf_def withDurations_def length_Suc_conv eval_nat_numeral)

lemma warnings_kept: "Warnings (withDurations ds c) = Warnings c"
  by (simp add: withDurations_def)

lemma parse_overlay:
  assumes "list_all utf8 (overlayStrings rc)"
  shows "parseDurations (overlayWith rc (unparsed base)) = Inr c \<longleftrightarrow>
    overlaid rc base c \<and> durationsOf c = map Some (parsedOf c) \<and> Warnings c = []"
proof -
  let ?d = "overlayWith rc (unparsed base)"
  have o: "overlaid rc base ?d" by (rule overlayWith_overlaid [OF assms])
  have w: "Warnings ?d = []" by (simp add: overlayWith_def unparsed_def Let_def split: option.split)
  have p: "parseDurations ?d = Inr c \<longleftrightarrow> (\<exists>ds. durationsOf ?d = map Some ds \<and> c = withDurations ds ?d)"
    by (rule parseDurations_list) (simp add: noDurations_overlay)
  show ?thesis
  proof
    assume "parseDurations ?d = Inr c"
    then obtain ds where ds: "durationsOf ?d = map Some ds" "c = withDurations ds ?d" using p by blast
    have "length ds = 8" using arg_cong [OF ds(1), of length] by (simp add: durationsOf_def)
    then show "overlaid rc base c \<and> durationsOf c = map Some (parsedOf c) \<and> Warnings c = []"
      using ds o overlaid_frame [of rc base ds ?d] parsedOf_with [of ds ?d] w by (simp add: warnings_kept)
  next
    assume c: "overlaid rc base c \<and> durationsOf c = map Some (parsedOf c) \<and> Warnings c = []"
    then show "parseDurations ?d = Inr c"
      using p overlaid_unique [of rc base c ?d] overlaid_durations [of rc base c ?d] o w by metis
  qed
qed

lemma find_valid: "find (\<lambda>e. \<not> isWarning e) (Validate c) = None \<longleftrightarrow> valid c"
  by (auto simp: valid_def find_None_iff list_all_iff)

text \<open>C22: A start request overlays the startup configuration. For a configuration that \<^verbatim>\<open>Load\<close> returned, with
  valid UTF-8 strings, and an overlay with such strings: a request is accepted with a
  configuration exactly when no float of either is infinite or NaN and the configuration has
  the blocks the request carries and, for every block it omits, the startup configuration's, is
  valid, holds the parsed value of each of its duration strings and no warnings; so nothing is
  lost in the JSON copy and the result is determined. In particular an empty request of a valid
  configuration with finite floats runs it unchanged except for its dropped warnings.\<close>

theorem start_overlays_config:
  assumes "Load getenv order rf strict lax fresh path = Inr base" "fresh \<noteq> []"
    and "\<And>data c. strict data DefaultConfig = Some c \<or> lax data DefaultConfig = Some c \<Longrightarrow> noDurations c"
    and "list_all utf8 (configStrings base)" "list_all utf8 (overlayStrings rc)"
  shows "(ToInternalConfig fresh' rc base = Inr c \<longleftrightarrow>
      list_all finite64 (configFloats base) \<and> list_all finite64 (overlayFloats rc) \<and>
      overlaid rc base c \<and> valid c \<and> durationsOf c = map Some (parsedOf c) \<and> Warnings c = []) \<and>
    (list_all finite64 (configFloats base) \<and> valid base \<longrightarrow>
       ToInternalConfig fresh' emptyRunConfig base = Inr (base\<lparr>Warnings := []\<rparr>))"
proof -
  have p: "parseDurations (unparsed base) = Inr (base\<lparr>Warnings := []\<rparr>)" "RunID base \<noteq> []"
    using Load_parsed [OF assms(1-3)] by auto
  note j = jsonCopy_utf8 [OF assms(4)] and q = parse_overlay [OF assms(5), of base]
  have r: "RunID d \<noteq> []" if "parseDurations (overlayWith rc (unparsed base)) = Inr d" for d
    using that q p(2) by (simp add: overlaid_def)
  have "ToInternalConfig fresh' rc base = Inr c \<longleftrightarrow> list_all finite64 (configFloats base) \<and> list_all finite64 (overlayFloats rc) \<and>
      parseDurations (overlayWith rc (unparsed base)) = Inr c \<and> valid c"
    using r by (cases "parseDurations (overlayWith rc (unparsed base))")
      (auto simp: ToInternalConfig_def ParseDurationsPublic_def j find_valid [symmetric] split: option.split)
  moreover have "ToInternalConfig fresh' emptyRunConfig base = Inr (base\<lparr>Warnings := []\<rparr>)"
    if "list_all finite64 (configFloats base)" "valid base"
    using that p find_valid [of base] by (simp add: ToInternalConfig_def overlay_empty j ParseDurationsPublic_def Validate_warnings)
  ultimately show ?thesis using q by blast
qed

definition demoDurations :: "duration list" where
  "demoDurations = [Hour, 0, 30 * Second, 0, 5 * Second, Second, 30 * Second, 168 * Hour]"

definition demoLoaded :: Config where
  "demoLoaded = withDurations demoDurations (DefaultConfig\<lparr>RunID := ''0badcafe''\<rparr>)"

lemma default_parses: "parseDuration ''1h'' = Some Hour" "parseDuration ''30s'' = Some (30 * Second)"
  "parseDuration ''5s'' = Some (5 * Second)" "parseDuration ''1s'' = Some Second" "parseDuration ''168h'' = Some (168 * Hour)"
  by (simp_all add: parseDuration_def ParseDuration_def durationTerm_def unitMap_def unitChar_def digitVal_def time_units Let_def)

lemma default_durations: "durationsOf DefaultConfig = map Some demoDurations"
  by (simp add: durationsOf_def DefaultConfig_def defaultThresholds_def wanted_def default_parses demoDurations_def)

lemma override_nothing: "applyEnvOverrides (\<lambda>_. []) order c = c"
proof -
  have "updWorkerConfig n (applyWorkerEnv (\<lambda>_. []) env) d = d" for n env d
  proof -
    have "applyWorkerEnv (\<lambda>_. []) env = (\<lambda>x. x)" by (simp add: fun_eq_iff applyWorkerEnv_def Let_def)
    then show ?thesis by (simp add: updWorkerConfig_def Let_def)
  qed
  then have "overrideWorkers (\<lambda>_. []) order c = c" for c
    unfolding overrideWorkers_def by (induction order arbitrary: c) (auto simp: split_beta)
  then show ?thesis by (simp add: applyEnvOverrides_def overrideAddress_def Let_def)
qed

lemma demo_load: "Load (\<lambda>_. []) envNames (\<lambda>_. None) (\<lambda>_ _. None) (\<lambda>_ _. None) ''0badcafe'' [] = Inr demoLoaded"
proof -
  have "noDurations DefaultConfig" by (simp add: noDurations_def DefaultConfig_def)
  then have "parseDurations DefaultConfig = Inr (withDurations demoDurations DefaultConfig)"
    using parseDurations_list default_durations by blast
  moreover have "RunID DefaultConfig = []" by (simp add: DefaultConfig_def)
  ultimately show ?thesis by (simp add: Load_def override_nothing demoLoaded_def withDurations_def)
qed

lemma demo_utf8: "list_all utf8 (configStrings demoLoaded)"
proof -
  have "list_all (\<lambda>c. byte c < 0x80) s \<Longrightarrow> toValidUTF8 s = s" for s by (rule toValidUTF8_ascii)
  then show ?thesis
    by (simp add: utf8_def configStrings_def gcpStrings_def demoLoaded_def withDurations_def DefaultConfig_def defaultGCP_def
        defaultThresholds_def ConfigVersion_def del: toValidUTF8.simps)
qed

lemmas demo_ascii = jsonCopy_utf8 [OF demo_utf8]

lemma demo_valid: "valid demoLoaded" "list_all finite64 (configFloats demoLoaded)"
proof -
  have "validateWorkers demoLoaded = validateWorkers DefaultConfig"
    by (rule validateWorkers_cong) (simp_all add: demoLoaded_def withDurations_def)
  then have "Validate demoLoaded = Validate DefaultConfig"
    by (simp add: Validate_def validateGCP_def validateMessage_def validateThresholds_def demoLoaded_def withDurations_def)
  then show "valid demoLoaded" using default_valid by (simp add: valid_def)
  show "list_all finite64 (configFloats demoLoaded)"
    by (simp add: configFloats_def gcpFloats_def thresholdFloats_def finite64_def demoLoaded_def withDurations_def default_defs)
qed

lemma demo_five:
  "list_all finite64 (overlayFloats (emptyRunConfig\<lparr>rcDuration := ''5s''\<rparr>))"
  "overlaid (emptyRunConfig\<lparr>rcDuration := ''5s''\<rparr>) demoLoaded (demoLoaded\<lparr>Duration := ''5s'', DurationParsed := 5 * Second\<rparr>)"
  "valid (demoLoaded\<lparr>Duration := ''5s'', DurationParsed := 5 * Second\<rparr>)"
  "durationsOf (demoLoaded\<lparr>Duration := ''5s'', DurationParsed := 5 * Second\<rparr>) =
     map Some (parsedOf (demoLoaded\<lparr>Duration := ''5s'', DurationParsed := 5 * Second\<rparr>))"
  "Warnings demoLoaded = []"
proof -
  let ?c = "demoLoaded\<lparr>Duration := ''5s'', DurationParsed := 5 * Second\<rparr>"
  show "list_all finite64 (overlayFloats (emptyRunConfig\<lparr>rcDuration := ''5s''\<rparr>))" by (simp add: overlayFloats_def emptyRunConfig_def)
  show "overlaid (emptyRunConfig\<lparr>rcDuration := ''5s''\<rparr>) demoLoaded ?c" by (simp add: overlaid_def orElse_def emptyRunConfig_def)
  have "validateWorkers ?c = validateWorkers demoLoaded" by (rule validateWorkers_cong) simp_all
  then have "Validate ?c = Validate demoLoaded"
    by (simp add: Validate_def validateGCP_def validateMessage_def validateThresholds_def)
  then show "valid ?c" using demo_valid(1) by (simp add: valid_def)
  have "durationsOf demoLoaded = map Some demoDurations" using default_durations by (simp add: demoLoaded_def)
  then show "durationsOf ?c = map Some (parsedOf ?c)"
    by (simp add: durationsOf_def parsedOf_def demoLoaded_def withDurations_def demoDurations_def wanted_def default_parses)
  show "Warnings demoLoaded = []" by (simp add: demoLoaded_def withDurations_def DefaultConfig_def)
qed

theorem start_overlays_config_witness:
  "ToInternalConfig ''deadbeef'' emptyRunConfig demoLoaded = Inr demoLoaded \<and>
   ToInternalConfig ''deadbeef'' (emptyRunConfig\<lparr>rcDuration := ''5s''\<rparr>) demoLoaded =
     Inr (demoLoaded\<lparr>Duration := ''5s'', DurationParsed := 5 * Second\<rparr>)"
proof -
  have o: "list_all utf8 (overlayStrings (emptyRunConfig\<lparr>rcDuration := ''5s''\<rparr>))"
    by (simp add: overlayStrings_def emptyRunConfig_def utf8_def toValidUTF8_ascii del: toValidUTF8.simps)
  have w: "demoLoaded\<lparr>Warnings := []\<rparr> = demoLoaded" by (simp add: demoLoaded_def withDurations_def DefaultConfig_def)
  note c = start_overlays_config [OF demo_load _ _ demo_utf8 o, of "''deadbeef''"]
  show ?thesis using c [of "demoLoaded\<lparr>Duration := ''5s'', DurationParsed := 5 * Second\<rparr>"] demo_valid demo_five w by simp
qed

text \<open>C21: The answer to a start request is determined, and only an accepted one changes the engine. A POST
  to \<^verbatim>\<open>/run/start\<close> is answered with 409 exactly while a run is in progress, with 500 exactly when
  the body does not make a valid configuration, and with 202 otherwise; then the engine is
  starting the merged configuration, with no verdict of an earlier run.\<close>

theorem start_request_answer:
  assumes "rMethod r = ''POST''" "rPath r = ''/run/start''" "serve ops getenv now fresh startup r e = (p, e')"
  shows "(pStatus p = 409 \<longleftrightarrow> state e \<in> {StateStarting, StateRunning, StateStopping}) \<and>
    (pStatus p = 202 \<longleftrightarrow> state e \<in> {StateIdle, StateStopped, StateError} \<and> (\<exists>c. ToInternalConfig fresh (rBody r) startup = Inr c)) \<and>
    (pStatus p \<notin> {202, 409} \<longrightarrow> pStatus p = 500) \<and>
    (if pStatus p = 202
     then (\<exists>c. ToInternalConfig fresh (rBody r) startup = Inr c \<and> runCfg e' = Some (resolveEmulator getenv c)) \<and>
          state e' = StateStarting \<and> verdictResult e' = None
     else e' = e)"
proof (cases "state e \<in> {StateIdle, StateStopped, StateError}")
  case True
  then have s: "\<not> (stateString (state e) \<noteq> ''idle'' \<and> stateString (state e) \<noteq> ''stopped'' \<and> stateString (state e) \<noteq> ''error'')"
    by auto
  show ?thesis
  proof (cases "ToInternalConfig fresh (rBody r) startup")
    case (Inl err)
    then show ?thesis
      using assms(1,3) s True by (auto simp: serve_start [OF assms(1,2)] handleRunStart_def handleRunStartAt_def adapter_StartRun_def writeJSON_def Let_def)
  next
    case (Inr c)
    obtain x where "StartRunFromConfig now fresh (resolveEmulator getenv c) e = Inr x" "state x = StateStarting"
        "runCfg x = Some (resolveEmulator getenv c)" "verdictResult x = None"
      using StartRun_startable [OF True, of now fresh "resolveEmulator getenv c"] by blast
    then show ?thesis
      using assms(1,3) s True Inr
      by (auto simp: serve_start [OF assms(1,2)] handleRunStart_def handleRunStartAt_def adapter_StartRun_def writeJSON_def Let_def)
  qed
next
  case False
  then have "stateString (state e) \<noteq> ''idle'' \<and> stateString (state e) \<noteq> ''stopped'' \<and> stateString (state e) \<noteq> ''error''"
    "state e \<in> {StateStarting, StateRunning, StateStopping}"
    by (cases "state e"; simp)+
  then show ?thesis
    using assms(1,3) False by (auto simp: serve_start [OF assms(1,2)] handleRunStart_def handleRunStartAt_def writeJSON_def Let_def)
qed

definition startRequest :: request where
  "startRequest = \<lparr>rMethod = ''POST'', rPath = ''/run/start'', rBody = emptyRunConfig\<rparr>"

lemma demo_accepts: "ToInternalConfig fresh emptyRunConfig demoLoaded = Inr demoLoaded"
proof -
  have "find (\<lambda>e. \<not> isWarning e) (Validate demoLoaded) = None"
    using demo_valid(1) by (auto simp: valid_def find_None_iff list_all_iff)
  moreover have "parseDurations (unparsed demoLoaded) = Inr (demoLoaded\<lparr>Warnings := []\<rparr>)" "RunID demoLoaded \<noteq> []"
    by (rule Load_parsed [OF demo_load]; simp)+
  moreover have "demoLoaded\<lparr>Warnings := []\<rparr> = demoLoaded" by (simp add: demoLoaded_def withDurations_def DefaultConfig_def)
  ultimately show ?thesis
    using demo_valid(2) demo_ascii by (simp add: ToInternalConfig_def overlay_empty ParseDurationsPublic_def)
qed

theorem start_request_answer_witness:
  "pStatus (fst (serve baseOps (\<lambda>_. []) 0 ''deadbeef'' demoLoaded startRequest (NewEngine demoLoaded 0))) = 202 \<and>
   pStatus (fst (serve baseOps (\<lambda>_. []) 0 ''deadbeef'' demoLoaded startRequest ((NewEngine demoLoaded 0)\<lparr>state := StateRunning\<rparr>))) = 409"
proof -
  have r: "rMethod startRequest = ''POST''" "rPath startRequest = ''/run/start''" "rBody startRequest = emptyRunConfig"
    by (simp_all add: startRequest_def)
  have n: "state (NewEngine demoLoaded 0) = StateIdle" by (simp add: NewEngine_def)
  show ?thesis
    using start_request_answer [OF r(1,2) prod.collapse [symmetric], of baseOps "\<lambda>_. []" 0 "''deadbeef''" demoLoaded "NewEngine demoLoaded 0"]
      start_request_answer [OF r(1,2) prod.collapse [symmetric], of baseOps "\<lambda>_. []" 0 "''deadbeef''" demoLoaded "(NewEngine demoLoaded 0)\<lparr>state := StateRunning\<rparr>"]
      demo_accepts by (simp add: r n)
qed

text \<open>A start that was accepted: what the engine is afterwards.\<close>

definition freshlyStarted :: "environ \<Rightarrow> Config \<Rightarrow> 'w Engine \<Rightarrow> bool" where
  "freshlyStarted getenv c e \<longleftrightarrow> state e = StateStarting \<and> runCfg e = Some (resolveEmulator getenv c) \<and> \<not> cancelled e \<and>
     \<not> runDone e \<and> runError e = [] \<and> verdictResult e = None \<and> workerSnapshots e = None"

lemma start_engine:
  "handleRunStartAt getenv now fresh startup seen r e =
    (if rMethod r \<noteq> ''POST'' then (methodNotAllowed, e)
     else if seen \<in> inProgress
     then (writeJSON 409 (Strings [(''error'', ''cannot start run in state '' @ appendString (stateString seen)), (''state'', stateString seen)]), e)
     else case adapter_StartRun getenv now fresh startup (rBody r) e of
         Inl err \<Rightarrow> (writeJSON 500 (StartFailed err), e)
       | Inr e' \<Rightarrow> (writeJSON 202 (Strings [(''status'', ''starting''), (''run_id'', runID e')]), e'))"
  unfolding handleRunStartAt_def Let_def stateString_startable inProgress_iff by simp

lemma ToInternal_valid:
  assumes "ToInternalConfig fresh rc startup = Inr c"
  shows "valid c"
proof -
  have "find (\<lambda>e. \<not> isWarning e) (Validate c) = None"
    using assms unfolding ToInternalConfig_def Let_def by (simp only: split: sum.splits if_splits option.splits) auto
  then show ?thesis by (auto simp: valid_def find_None_iff list_all_iff)
qed

lemma StartRun_fresh:
  "StartRunFromConfig now fresh (resolveEmulator getenv c) e = Inr e' \<Longrightarrow> state e \<notin> inProgress \<and> freshlyStarted getenv c e'"
  "StartRunFromConfig now fresh (resolveEmulator getenv c) e = Inl s \<Longrightarrow> state e \<in> inProgress"
  unfolding StartRunFromConfig_def freshlyStarted_def inProgress_iff by (auto split: if_splits)

lemma adapter_accepts:
  assumes "adapter_StartRun getenv now fresh startup rc e = Inr e'"
  shows "state e \<notin> inProgress \<and> (\<exists>c. ToInternalConfig fresh rc startup = Inr c \<and> valid c \<and> freshlyStarted getenv c e')"
proof -
  obtain c where c: "ToInternalConfig fresh rc startup = Inr c"
    using assms by (auto simp: adapter_StartRun_def split: sum.splits)
  then have "StartRunFromConfig now fresh (resolveEmulator getenv c) e = Inr e'"
    using assms by (auto simp: adapter_StartRun_def split: sum.splits)
  with c show ?thesis using StartRun_fresh(1) ToInternal_valid by blast
qed

lemma adapter_refuses:
  "adapter_StartRun getenv now fresh startup rc e = Inl err \<Longrightarrow>
     state e \<in> inProgress \<or> (\<forall>c. ToInternalConfig fresh rc startup \<noteq> Inr c)"
  using StartRun_fresh(2) by (fastforce simp: adapter_StartRun_def split: sum.splits)

lemma serve_posted_start:
  assumes "rPath r = ''/run/start''" "rMethod r \<noteq> ''OPTIONS''"
  shows "pStatus (fst (serve ops getenv now fresh startup r e)) = pStatus (fst (handleRunStartAt getenv now fresh startup (state e) r e))"
    "snd (serve ops getenv now fresh startup r e) = snd (handleRunStartAt getenv now fresh startup (state e) r e)"
  using assms by (simp_all add: serve_status serve_engine route_engine route_def handleRunStart_def)

lemma serve_posted_stop:
  assumes "rPath r = ''/run/stop''" "rMethod r \<noteq> ''OPTIONS''"
  shows "pStatus (fst (serve ops getenv now fresh startup r e)) =
      (if rMethod r \<noteq> ''POST'' then 405 else if state e \<in> {StateStarting, StateRunning} then 202 else 409)"
    "snd (serve ops getenv now fresh startup r e) =
      (if rMethod r = ''POST'' \<and> state e \<in> {StateStarting, StateRunning} then e\<lparr>cancelled := True\<rparr> else e)"
  using assms by (auto simp: serve_status serve_engine route_engine route_def handleRunStop_def StopRun_def methodNotAllowed_def writeJSON_def)

lemma serve_in_progress:
  assumes "state e \<in> inProgress"
  shows "snd (serve ops getenv now fresh startup r e) =
    e\<lparr>cancelled := cancelled e \<or> state e \<noteq> StateStopping \<and> posts r ''/run/stop''\<rparr>"
proof -
  have "snd (handleRunStart getenv now fresh startup r e) = e" using assms by (simp add: handleRunStart_def start_engine)
  moreover have "state e \<noteq> StateStopping \<longleftrightarrow> state e \<in> {StateStarting, StateRunning}" using assms by (auto simp: inProgress_def)
  moreover have "e\<lparr>cancelled := cancelled e\<rparr> = e" by simp
  ultimately show ?thesis
    by (auto simp: serve_engine route_engine posts_def handleRunStop_def StopRun_def)
qed

lemma serveAll_in_progress:
  assumes "state e \<in> inProgress"
  shows "serveAll ops getenv startup rs e =
    e\<lparr>cancelled := cancelled e \<or> state e \<noteq> StateStopping \<and> (\<exists>(now, fresh, r)\<in>set rs. posts r ''/run/stop'')\<rparr>"
  using assms
proof (induction rs arbitrary: e)
  case (Cons q rs)
  obtain now fresh r where q: "q = (now, fresh, r)" by (metis prod_cases3)
  let ?e = "snd (serve ops getenv now fresh startup r e)"
  have e: "?e = e\<lparr>cancelled := cancelled e \<or> state e \<noteq> StateStopping \<and> posts r ''/run/stop''\<rparr>"
    using Cons.prems by (rule serve_in_progress)
  then have "state ?e \<in> inProgress" using Cons.prems by simp
  from Cons.IH [OF this] show ?case by (simp add: serveAll_def q e conj_disj_distribL disj_assoc)
qed (simp add: serveAll_def)

text \<open>C9: Which requests move the engine, and how. A request is answered with 202 exactly when it posts a start
  to an engine with no run in progress and its body makes a valid configuration, or posts a stop
  to a starting or running engine; with 405 exactly when it uses another method on those two
  paths; with 409 exactly when it posts a start during a run or a stop outside one. Only a 202
  changes the engine: a start leaves it freshly started on a configuration that validates, a stop
  cancels the run. While a run is in progress no sequence of requests, of any methods, paths and
  bodies, changes anything but the cancellation, which is set exactly when one posts a stop
  before the run is stopping. And a start whose state test another start has overtaken is
  answered with 500 and leaves the engine as it was.\<close>

theorem requests_move_engine:
  assumes "serve ops getenv now fresh startup r e = (p, e')"
  shows "(pStatus p = 202 \<longleftrightarrow>
      posts r ''/run/start'' \<and> state e \<in> {StateIdle, StateStopped, StateError} \<and> (\<exists>c. ToInternalConfig fresh (rBody r) startup = Inr c) \<or>
      posts r ''/run/stop'' \<and> state e \<in> {StateStarting, StateRunning}) \<and>
    (pStatus p = 405 \<longleftrightarrow> rPath r \<in> {''/run/start'', ''/run/stop''} \<and> rMethod r \<notin> {''POST'', ''OPTIONS''}) \<and>
    (pStatus p = 409 \<longleftrightarrow> posts r ''/run/start'' \<and> state e \<in> {StateStarting, StateRunning, StateStopping} \<or>
      posts r ''/run/stop'' \<and> state e \<notin> {StateStarting, StateRunning}) \<and>
    (if pStatus p \<noteq> 202 then e' = e
     else if rPath r = ''/run/stop'' then e' = e\<lparr>cancelled := True\<rparr>
     else \<exists>c. valid c \<and> freshlyStarted getenv c e') \<and>
    (state e \<in> {StateStarting, StateRunning, StateStopping} \<longrightarrow> serveAll ops getenv startup rs e =
      e\<lparr>cancelled := cancelled e \<or> state e \<noteq> StateStopping \<and> (\<exists>(now, fresh, r)\<in>set rs. posts r ''/run/stop'')\<rparr>) \<and>
    (rMethod r = ''POST'' \<and> seen \<in> {StateIdle, StateStopped, StateError} \<and> state e \<in> {StateStarting, StateRunning, StateStopping} \<longrightarrow>
      pStatus (fst (handleRunStartAt getenv now fresh startup seen r e)) = 500 \<and>
      snd (handleRunStartAt getenv now fresh startup seen r e) = e)"
proof -
  have p: "pStatus p = pStatus (fst (serve ops getenv now fresh startup r e))" "e' = snd (serve ops getenv now fresh startup r e)"
    using assms by simp_all
  have race: "pStatus (fst (handleRunStartAt getenv now fresh startup seen r e)) = 500 \<and>
      snd (handleRunStartAt getenv now fresh startup seen r e) = e"
    if "rMethod r = ''POST''" "seen \<notin> inProgress" "state e \<in> inProgress"
    using that adapter_accepts [of getenv now fresh startup "rBody r" e]
    by (cases "adapter_StartRun getenv now fresh startup (rBody r) e") (auto simp: start_engine writeJSON_def)
  have prog: "s \<in> {StateStarting, StateRunning, StateStopping} \<longleftrightarrow> s \<in> inProgress"
    "s \<in> {StateIdle, StateStopped, StateError} \<longleftrightarrow> s \<notin> inProgress" for s
    by (cases s; simp add: inProgress_def)+
  consider (pre) "rMethod r = ''OPTIONS''" | (start) "rPath r = ''/run/start''" "rMethod r \<noteq> ''OPTIONS''"
    | (stop) "rPath r = ''/run/stop''" "rMethod r \<noteq> ''OPTIONS''"
    | (other) "rPath r \<noteq> ''/run/start''" "rPath r \<noteq> ''/run/stop''" "rMethod r \<noteq> ''OPTIONS''" by blast
  then have "(pStatus p = 202 \<longleftrightarrow> posts r ''/run/start'' \<and> state e \<notin> inProgress \<and> (\<exists>c. ToInternalConfig fresh (rBody r) startup = Inr c) \<or>
      posts r ''/run/stop'' \<and> state e \<in> {StateStarting, StateRunning}) \<and>
    (pStatus p = 405 \<longleftrightarrow> rPath r \<in> {''/run/start'', ''/run/stop''} \<and> rMethod r \<notin> {''POST'', ''OPTIONS''}) \<and>
    (pStatus p = 409 \<longleftrightarrow> posts r ''/run/start'' \<and> state e \<in> inProgress \<or> posts r ''/run/stop'' \<and> state e \<notin> {StateStarting, StateRunning}) \<and>
    (if pStatus p \<noteq> 202 then e' = e else if rPath r = ''/run/stop'' then e' = e\<lparr>cancelled := True\<rparr>
     else \<exists>c. valid c \<and> freshlyStarted getenv c e')"
  proof cases
    case pre
    then show ?thesis by (simp add: p serve_status serve_engine posts_def)
  next
    case start
    then show ?thesis
      using adapter_accepts [of getenv now fresh startup "rBody r" e] adapter_refuses [of getenv now fresh startup "rBody r" e]
      by (cases "adapter_StartRun getenv now fresh startup (rBody r) e")
        (auto simp: p serve_posted_start [OF start] start_engine posts_def methodNotAllowed_def writeJSON_def)
  next
    case stop
    then show ?thesis by (auto simp: p serve_posted_stop [OF stop] posts_def)
  next
    case other
    then show ?thesis
      using route_status_other [OF other(1,2), of ops getenv now fresh startup e]
      by (auto simp: p serve_status serve_engine route_engine posts_def)
  qed
  then show ?thesis unfolding prog using race serveAll_in_progress by blast
qed

theorem requests_move_engine_witness:
  "serveAll baseOps (\<lambda>_. []) demoLoaded
     [(1, ''a'', startRequest), (2, ''b'', startRequest\<lparr>rMethod := ''GET'', rPath := ''/run/stop''\<rparr>),
      (3, ''c'', startRequest\<lparr>rPath := ''/run/stop''\<rparr>), (4, ''d'', startRequest)]
     ((NewEngine demoLoaded 0)\<lparr>state := StateRunning\<rparr>) =
   (NewEngine demoLoaded 0)\<lparr>state := StateRunning, cancelled := True\<rparr> \<and>
   pStatus (fst (handleRunStartAt (\<lambda>_. []) 0 ''deadbeef'' demoLoaded StateIdle startRequest
     ((NewEngine demoLoaded 0 :: BaseWorker Engine)\<lparr>state := StateRunning\<rparr>))) = 500"
  using requests_move_engine [OF prod.collapse [symmetric], of baseOps "\<lambda>_. []" 0 "''deadbeef''" demoLoaded startRequest
      "(NewEngine demoLoaded 0)\<lparr>state := StateRunning\<rparr>"
      "[(1, ''a'', startRequest), (2, ''b'', startRequest\<lparr>rMethod := ''GET'', rPath := ''/run/stop''\<rparr>),
        (3, ''c'', startRequest\<lparr>rPath := ''/run/stop''\<rparr>), (4, ''d'', startRequest)]" StateIdle]
  by (simp add: posts_def startRequest_def)

lemma overlay_RunID: "RunID (overlayWith rc c) = RunID c"
  by (simp add: overlayWith_def Let_def split: option.split)

lemma setParsed_RunID:
  assumes "setParsed w s err upd r = Inr c'" "\<And>d x. RunID (upd d x) = RunID x"
  shows "\<exists>c. r = Inr c \<and> RunID c' = RunID c"
  using assms by (auto simp: setParsed_def split: sum.splits if_splits option.splits)

lemma parseDurations_RunID: "parseDurations c = Inr c' \<Longrightarrow> RunID c' = RunID c"
  unfolding parseDurations_def Let_def by (auto dest!: setParsed_RunID)

lemma toValidUTF8_nonempty: "s \<noteq> [] \<Longrightarrow> toValidUTF8 s \<noteq> []"
  by (cases s) (auto simp: Let_def replacement_def)

text \<open>Runs started over HTTP share one run id. A startup configuration that carries an id gives every run
  started by a request that id: the random one of the overlay is never used, and the reports of
  two runs cannot be told apart by it.\<close>

theorem http_runs_share_id:
  assumes "RunID startup \<noteq> []" "ToInternalConfig fresh rc startup = Inr c"
    and "StartRunFromConfig now fresh' (resolveEmulator getenv c) e = Inr e'"
  shows "runID e' = toValidUTF8 (RunID startup)"
proof -
  obtain d where d: "parseDurations (overlayWith rc (jsonCopy startup)) = Inr d" "c = (if RunID d = [] then d\<lparr>RunID := fresh\<rparr> else d)"
    using assms(2) by (auto simp: ToInternalConfig_def ParseDurationsPublic_def Let_def split: if_splits sum.splits option.splits)
  have "RunID (jsonCopy startup) = toValidUTF8 (RunID startup)" by (simp add: jsonCopy_def unparsed_def)
  then have "RunID c = toValidUTF8 (RunID startup)" "RunID c \<noteq> []"
    using parseDurations_RunID [OF d(1)] d(2) overlay_RunID toValidUTF8_nonempty assms(1) by auto
  then show ?thesis using assms(3) by (auto simp: StartRunFromConfig_def resolveEmulator_def split: if_splits)
qed

theorem http_runs_share_id_witness:
  "\<exists>e'. StartRunFromConfig 0 ''feedface'' (resolveEmulator (\<lambda>_. []) demoLoaded) (NewEngine demoLoaded 0 :: BaseWorker Engine) = Inr e' \<and>
     runID e' = toValidUTF8 ''0badcafe''"
proof -
  obtain e' where e: "StartRunFromConfig 0 ''feedface'' (resolveEmulator (\<lambda>_. []) demoLoaded) (NewEngine demoLoaded 0 :: BaseWorker Engine) = Inr e'"
    by (auto simp: StartRunFromConfig_def NewEngine_def)
  have "RunID demoLoaded = ''0badcafe''" by (simp add: demoLoaded_def withDurations_def)
  with http_runs_share_id [OF _ demo_accepts e] e show ?thesis by simp
qed

text \<open>A threshold that is not a number blocks the API and nothing else. The configuration passes the checks
  of \<^verbatim>\<open>main\<close> and a run started from the command line, but every start request is refused, because
  the copy of the configuration cannot be written as JSON.\<close>

theorem nonfinite_blocks_requests:
  assumes "MaxLossPct (Thresholds startup) = NaN" "valid startup" "state e = StateIdle"
    and "rMethod r = ''POST''" "rPath r = ''/run/start''"
  shows "startupExit False (Some startup) = None \<and> (\<exists>e'. StartRunFromConfig now fresh startup e = Inr e') \<and>
    pStatus (fst (serve ops getenv now fresh startup r e)) = 500"
  using assms
  by (simp add: startupExit_def valid_def list_all_iff list_ex_iff StartRunFromConfig_def serve_start handleRunStart_def handleRunStartAt_def adapter_StartRun_def
      ToInternalConfig_def configFloats_def thresholdFloats_def finite64_def writeJSON_def Let_def)

lemma nanConfig_valid: "valid nanConfig"
proof -
  have "validateWorkers nanConfig = validateWorkers DefaultConfig"
    by (rule validateWorkers_cong) (simp_all add: nanConfig_def)
  then show ?thesis using default_workers by (simp add: valid_def validate_defs default_defs nanConfig_def)
qed

theorem nonfinite_blocks_requests_witness:
  "pStatus (fst (serve baseOps (\<lambda>_. []) 0 [] nanConfig startRequest (NewEngine nanConfig 0))) = 500"
proof -
  have "MaxLossPct (Thresholds nanConfig) = NaN" by (simp add: nanConfig_def)
  then show ?thesis
    using nonfinite_blocks_requests [OF _ nanConfig_valid, of "NewEngine nanConfig 0" startRequest 0 "[]" baseOps "\<lambda>_. []"]
    by (simp add: NewEngine_def startRequest_def)
qed

section \<open>Disconnects reach every receiver\<close>

fun firedTicks :: "dcEvent list \<Rightarrow> nat" where
  "firedTicks [] = 0"
| "firedTicks (DcDone # evs) = 0"
| "firedTicks (DcTick cancelled' # evs) = (if cancelled' then 1 else Suc (firedTicks evs))"

definition groupMap :: "('a \<Rightarrow> 'b) \<Rightarrow> (string, 'a list) gomap \<Rightarrow> (string, 'b list) gomap" where
  "groupMap f m = map (\<lambda>(n, g). (n, map f g)) m"

lemma groupMap_comp: "groupMap f (groupMap g m) = groupMap (f \<circ> g) m"
  by (simp add: groupMap_def comp_def split_beta)

lemma groupMap_id [simp]: "groupMap (\<lambda>x. x) m = m"
  by (simp add: groupMap_def map_idI)

context engine_worker
begin

lemma disconnectAll_base:
  "groupMap (wBase ops) (workerGroups (disconnectAll ops e)) = groupMap DisconnectConsumers (groupMap (wBase ops) (workerGroups e))"
  "eProm (disconnectAll ops e) = eProm e @ [IncForcedDisconnect]"
  by (simp_all add: disconnectAll_def mapWorkers_def eEmit_def groupMap_def base_put comp_def split_beta)

lemma disconnectLoop_base:
  "groupMap (wBase ops) (workerGroups (disconnectLoop ops evs e)) =
     groupMap (DisconnectConsumers ^^ firedTicks evs) (groupMap (wBase ops) (workerGroups e)) \<and>
   eProm (disconnectLoop ops evs e) = eProm e @ replicate (firedTicks evs) IncForcedDisconnect"
proof (induction evs arbitrary: e)
  case (Cons ev evs)
  have "groupMap (DisconnectConsumers ^^ k) (groupMap DisconnectConsumers m) = groupMap (DisconnectConsumers ^^ Suc k) m" for k m
    by (simp only: groupMap_comp funpow_Suc_right)
  moreover have "DisconnectConsumers ^^ 1 = DisconnectConsumers" by (simp add: fun_eq_iff)
  ultimately show ?case
    using Cons [of "disconnectAll ops e"] by (cases ev) (simp_all add: disconnectAll_base id_def del: funpow.simps)
qed (simp add: id_def)

end

lemma disconnects_gen: "disconnectGen ((DisconnectConsumers ^^ k) b) = disconnectGen b + of_nat k"
  by (induction k) (simp_all add: DisconnectConsumers_def)

text \<open>The operations of a worker that embeds the base worker and overrides neither the reset nor the
  stopping of its producers.\<close>

definition coreOps :: "('a WorkerCore_scheme \<Rightarrow> string option \<times> 'a WorkerCore_scheme) \<Rightarrow>
    ('a WorkerCore_scheme \<Rightarrow> 'a WorkerCore_scheme) \<Rightarrow> ('a WorkerCore_scheme \<Rightarrow> 'a WorkerCore_scheme) \<Rightarrow> 'a WorkerCore_scheme WorkerOps" where
  "coreOps st sp sc =
     \<lparr>wBase = core, wPut = (\<lambda>b w. w\<lparr>core := b\<rparr>), wStart = st, wStartProducers = sp,
      wStopProducers = onBase StopProducers, wStopConsumers = sc, wReset = onBase ResetAfterWarmup\<rparr>"

interpretation co: engine_worker "coreOps st sp sc" for st sp sc
  by unfold_locales (simp_all add: coreOps_def onBase_def ResetAfterWarmup_def TotalLost_def trackerSum_def Reset_def)

text \<open>C23: A forced disconnect reaches every receiver. Whatever the worker type, after any history of the
  injector the generation of each worker has moved by the number of ticks that fired, each tick
  is counted once in the registry, and a receiver that read the generation before them finds
  its stream cancelled at its next poll.\<close>

theorem forced_disconnects_seen:
  assumes "0 < ForcedDisconnInterval c" "0 < firedTicks evs" "firedTicks evs < 2 ^ 64"
    and "(name, g) \<in> set (workerGroups e)" "w \<in> set g"
  shows "\<exists>g' w'. (name, g') \<in> set (workerGroups (startDisconnects (coreOps st sp sc) c evs e)) \<and> w' \<in> set g' \<and>
    disconnectGen (core w') = disconnectGen (core w) + of_nat (firedTicks evs) \<and>
    watchDisconnect (disconnectGeneration (core w)) [disconnectGeneration (core w')] \<and>
    eProm (startDisconnects (coreOps st sp sc) c evs e) = eProm e @ replicate (firedTicks evs) IncForcedDisconnect"
proof -
  let ?ops = "coreOps st sp sc" and ?k = "firedTicks evs"
  let ?e = "disconnectLoop ?ops evs e"
  have e: "startDisconnects ?ops c evs e = ?e" using assms(1) by (simp add: startDisconnects_def Manager_Run_def)
  have b: "wBase ?ops = core" by (simp add: coreOps_def)
  have m: "groupMap core (workerGroups ?e) = groupMap ((DisconnectConsumers ^^ ?k) \<circ> core) (workerGroups e)"
    "eProm ?e = eProm e @ replicate ?k IncForcedDisconnect"
    using co.disconnectLoop_base [of st sp sc evs e] by (simp_all add: b groupMap_comp)
  have "(name, map ((DisconnectConsumers ^^ ?k) \<circ> core) g) \<in> set (groupMap core (workerGroups ?e))"
    unfolding m using assms(4) by (force simp: groupMap_def)
  then obtain g' where g': "(name, g') \<in> set (workerGroups ?e)" "map core g' = map ((DisconnectConsumers ^^ ?k) \<circ> core) g"
    by (auto simp: groupMap_def)
  then obtain w' where w': "w' \<in> set g'" "core w' = (DisconnectConsumers ^^ ?k) (core w)"
    using assms(5) by (metis (no_types, lifting) comp_apply imageE image_eqI list.set_map)
  have "of_nat ?k \<noteq> (0 :: u64)" using assms(2,3) by (simp add: of_nat_eq_0_iff word_of_nat_eq_0_iff nat_dvd_not_less)
  then show ?thesis
    using g'(1) w' m(2) by (auto simp: e disconnects_gen watchDisconnect_def disconnectGeneration_def intro!: exI [of _ g'] bexI [of _ w'] exI [of _ w'])
qed

definition demoCore :: WorkerCore where
  "demoCore = \<lparr>core = anyWorker WorkerFanOut DefaultConfig 1\<rparr>"

theorem forced_disconnects_seen_witness:
  "\<exists>g' w'. (WorkerFanOut, g') \<in> set (workerGroups (startDisconnects (coreOps (Pair None) (\<lambda>w. w) (\<lambda>w. w))
      (DefaultConfig\<lparr>ForcedDisconnInterval := Second\<rparr>) [DcTick False, DcTick True, DcTick False]
      ((NewEngine DefaultConfig 0)\<lparr>workerGroups := [(WorkerFanOut, [demoCore])]\<rparr>))) \<and> w' \<in> set g' \<and>
    disconnectGen (core w') = disconnectGen (core demoCore) + 2"
proof -
  let ?e = "(NewEngine DefaultConfig 0)\<lparr>workerGroups := [(WorkerFanOut, [demoCore])]\<rparr>"
  have "(WorkerFanOut, [demoCore]) \<in> set (workerGroups ?e)" "demoCore \<in> set [demoCore]" by simp_all
  moreover have "firedTicks [DcTick False, DcTick True, DcTick False] = 2" "(0 :: duration) < Second"
    by (simp_all add: time_units)
  ultimately show ?thesis
    using forced_disconnects_seen [of "DefaultConfig\<lparr>ForcedDisconnInterval := Second\<rparr>" "[DcTick False, DcTick True, DcTick False]"
        WorkerFanOut "[demoCore]" ?e demoCore "Pair None" "\<lambda>w. w" "\<lambda>w. w"] by auto
qed

end
