(* ===== verification/Commands.thy ===== *)
theory Commands
  imports Control
begin

text \<open>
  The programs: the start of \<^verbatim>\<open>src/burnin/main.go\<close> and the commands \<^verbatim>\<open>src/burnin/cmd/cleanup\<close> and
  \<^verbatim>\<open>src/burnin/cmd/verify\<close>. What the broker lists, creates, accepts, delivers and deletes is an argument;
  each operation returns its counters or its error together with the resources it asked the
  broker to delete, in order. Console output is left out.
\<close>

section \<open>Starting the harness\<close>

record flags =
  flConfig :: string
  flRun :: bool
  flValidate :: bool

definition configFile :: "(string \<Rightarrow> bool) \<Rightarrow> environ \<Rightarrow> flags \<Rightarrow> string" where
  "configFile exists getenv fl =
     FindConfigFile exists (if flConfig fl = [] then getenv ''BURNIN_CONFIG_FILE'' else flConfig fl)"

datatype 'w boot = Exit int | Up Config "'w Engine"

text \<open>\<^verbatim>\<open>Server.Start\<close> always returns nil: it listens in a goroutine of its own and only logs an error, so the
  branch of \<^verbatim>\<open>main\<close> for a server that did not start is never taken.\<close>

definition bootstrap :: "environ \<Rightarrow> flags \<Rightarrow> instant \<Rightarrow> string \<Rightarrow> (string \<Rightarrow> load_error + Config) \<Rightarrow> (string \<Rightarrow> bool) \<Rightarrow> 'w boot" where
  "bootstrap getenv fl now fresh load exists =
     (case load (configFile exists getenv fl) of
        Inl _ \<Rightarrow> Exit 1
      | Inr c \<Rightarrow>
          (let c = resolveEmulator getenv c in
           case startupExit (flValidate fl) (Some c) of
             Some code \<Rightarrow> Exit code
           | None \<Rightarrow>
               (if \<not> flRun fl then Up c (NewEngine c now)
                else case StartRunFromConfig now fresh c (NewEngine c now) of
                       Inl _ \<Rightarrow> Exit 1
                     | Inr e \<Rightarrow> Up c e)))"

section \<open>Cleanup\<close>

text \<open>One pass over an iterator: its list ends where the library says \<^verbatim>\<open>Done\<close>, an error ends the pass.
  \<open>key\<close> gives the id of an item, \<open>None\<close> that the item is skipped. The result counts the deletions
  that worked and that failed, with the ids they were asked for.\<close>

fun cleanupWith :: "('i \<Rightarrow> string option) \<Rightarrow> (string \<Rightarrow> rpc_error option) \<Rightarrow> string \<Rightarrow> (rpc_error + 'i) list \<Rightarrow> nat \<times> nat \<times> string list" where
  "cleanupWith key del prefix [] = (0, 0, [])"
| "cleanupWith key del prefix (Inl e # it) = (0, 0, [])"
| "cleanupWith key del prefix (Inr x # it) =
     (let (deleted, failed, asked) = cleanupWith key del prefix it in
      case key x of
        None \<Rightarrow> (deleted, failed, asked)
      | Some rid \<Rightarrow>
          if \<not> HasPrefix rid prefix then (deleted, failed, asked)
          else if del rid \<noteq> None then (deleted, Suc failed, rid # asked)
          else (Suc deleted, failed, rid # asked))"

definition cleanupSubscriptions :: "(string \<Rightarrow> rpc_error option) \<Rightarrow> string \<Rightarrow> (rpc_error + string) list \<Rightarrow> nat \<times> nat \<times> string list" where
  "cleanupSubscriptions = cleanupWith Some"

definition cleanupSnapshots :: "(string \<Rightarrow> rpc_error option) \<Rightarrow> string \<Rightarrow> (rpc_error + string option) list \<Rightarrow> nat \<times> nat \<times> string list" where
  "cleanupSnapshots = cleanupWith (\<lambda>snapshot. snapshot)"

definition cleanupTopics :: "(string \<Rightarrow> rpc_error option) \<Rightarrow> string \<Rightarrow> (rpc_error + string) list \<Rightarrow> nat \<times> nat \<times> string list" where
  "cleanupTopics = cleanupWith Some"

definition schemaID :: "string \<Rightarrow> string" where
  "schemaID name = (if CHR ''/'' \<in> set name then rev (takeWhile (\<lambda>c. c \<noteq> CHR ''/'') (rev name)) else name)"

definition cleanupSchemas :: "rpc_error option \<Rightarrow> (string \<Rightarrow> rpc_error option) \<Rightarrow> string \<Rightarrow> (rpc_error + string) list \<Rightarrow> nat \<times> nat \<times> string list" where
  "cleanupSchemas client del prefix it =
     (if client \<noteq> None then (0, 0, []) else cleanupWith (\<lambda>name. Some (schemaID name)) del prefix it)"

definition envOr :: "environ \<Rightarrow> string \<Rightarrow> string \<Rightarrow> string" where
  "envOr getenv key def = (let v = TrimSpace (getenv key) in if v \<noteq> [] then v else def)"

definition cleanupPrefix :: "environ \<Rightarrow> string \<Rightarrow> string" where
  "cleanupPrefix getenv prefix = (if prefix = [] then envOr getenv ResourcePrefixEnv ''gcp_burnin'' else prefix)"

record listing =
  lsSubs :: "(rpc_error + string) list"
  lsSnaps :: "(rpc_error + string option) list"
  lsTopics :: "(rpc_error + string) list"
  lsSchemaClient :: "rpc_error option"
  lsSchemas :: "(rpc_error + string) list"

datatype kind = DelSub | DelSnap | DelTopic | DelSchema

text \<open>\<^verbatim>\<open>main\<close> of the command: the deletions it asks for, in order, or the exit code of a failed setup.\<close>

definition cleanupMain :: "environ \<Rightarrow> string \<Rightarrow> rpc_error option \<Rightarrow> (kind \<Rightarrow> string \<Rightarrow> rpc_error option) \<Rightarrow> listing \<Rightarrow>
    int + (kind \<times> string) list" where
  "cleanupMain getenv prefix client del ls =
     (if client \<noteq> None then Inl 1
      else
        (let p = cleanupPrefix getenv prefix;
             (_, _, subs) = cleanupSubscriptions (del DelSub) p (lsSubs ls);
             (_, _, snaps) = cleanupSnapshots (del DelSnap) p (lsSnaps ls);
             (_, _, topics) = cleanupTopics (del DelTopic) p (lsTopics ls);
             (_, _, schemas) = cleanupSchemas (lsSchemaClient ls) (del DelSchema) p (lsSchemas ls)
         in Inr (map (Pair DelSub) subs @ map (Pair DelSnap) snaps @ map (Pair DelTopic) topics @ map (Pair DelSchema) schemas)))"

section \<open>Verify\<close>

datatype verify_error = EnsureFailed rpc_error | PublishFailed rpc_error | ReceiveFailed rpc_error | NothingReceived
  | Mismatch string string | NativeFailed rpc_error | NotObserved

record harness =
  hPrefix :: string
  hCheckNat :: bool
  hResources :: "(kind \<times> string) list"
  hFailures :: nat
  hPasses :: nat

text \<open>What a check meets: two random suffixes, the answers of the broker, what the receive loop delivers
  before it ends and the error it ends with, and the bodies the native stream sees in time.\<close>

record checkIn =
  ciRnd :: string
  ciProbe :: string
  ciSdk :: sdk
  ciSend :: "Msg \<Rightarrow> rpc_error + string"
  ciBodies :: "string list"
  ciRcvErr :: "rpc_error option"
  ciNative :: "rpc_error option"
  ciSeen :: "string list"

text \<open>\<open>Inr\<close> is the pair of ids of the topic and the subscription.\<close>

definition provision :: "checkIn \<Rightarrow> string \<Rightarrow> harness \<Rightarrow> (verify_error + string \<times> string) \<times> harness" where
  "provision inp role h =
     (let rid = hPrefix h @ ''_'' @ role @ ''_'' @ ciRnd inp; sid = rid @ ''_sub'' in
      case ensureTopic (ciSdk inp) rid of
        Some e \<Rightarrow> (Inl (EnsureFailed e), h)
      | None \<Rightarrow>
          (let h = h\<lparr>hResources := hResources h @ [(DelTopic, rid)]\<rparr> in
           case ensureSubscription (ciSdk inp) sid (plainSubscription rid 10) of
             Some e \<Rightarrow> (Inl (EnsureFailed e), h)
           | None \<Rightarrow> (Inr (rid, sid), h\<lparr>hResources := hResources h @ [(DelSub, sid)]\<rparr>)))"

definition pullOne :: "checkIn \<Rightarrow> verify_error + string" where
  "pullOne inp =
     (case ciBodies inp of
        body # _ \<Rightarrow> Inr body
      | [] \<Rightarrow> (case ciRcvErr inp of Some e \<Rightarrow> Inl (ReceiveFailed e) | None \<Rightarrow> Inl NothingReceived))"

definition checkRoundTrip :: "checkIn \<Rightarrow> harness \<Rightarrow> verify_error option \<times> harness" where
  "checkRoundTrip inp h =
     (case provision inp ''rt'' h of
        (Inl e, h) \<Rightarrow> (Some e, h)
      | (Inr _, h) \<Rightarrow>
          (let probe = ''verify-probe-'' @ ciProbe inp in
           case PublishSync (ciSend inp) probe [(''verify'', probe)] of
             Inl e \<Rightarrow> (Some (PublishFailed e), h)
           | Inr _ \<Rightarrow>
               (case pullOne inp of
                  Inl e \<Rightarrow> (Some e, h)
                | Inr got \<Rightarrow> (if got \<noteq> probe then Some (Mismatch probe got) else None, h))))"

definition checkInterop :: "checkIn \<Rightarrow> harness \<Rightarrow> verify_error option \<times> harness" where
  "checkInterop inp h =
     (case provision inp ''interop'' h of
        (Inl e, h) \<Rightarrow> (Some e, h)
      | (Inr (topic, _), h) \<Rightarrow>
          (case ciNative inp of
             Some e \<Rightarrow> (Some (NativeFailed e), h)
           | None \<Rightarrow>
               (let probe = ''verify-interop-'' @ ciProbe inp in
                case PublishSync (ciSend inp) probe [(''verify'', probe)] of
                  Inl e \<Rightarrow> (Some (PublishFailed e), h)
                | Inr _ \<Rightarrow> (if probe \<in> set (ciSeen inp) then None else Some NotObserved, h))))"

definition runCheck :: "(harness \<Rightarrow> verify_error option \<times> harness) \<Rightarrow> harness \<Rightarrow> harness" where
  "runCheck fn h =
     (case fn h of
        (Some e, h) \<Rightarrow> h\<lparr>hFailures := Suc (hFailures h)\<rparr>
      | (None, h) \<Rightarrow> h\<lparr>hPasses := Suc (hPasses h)\<rparr>)"

text \<open>Every teardown is called, the last resource first; a topic is stopped before it is deleted.\<close>

definition harness_cleanup :: "harness \<Rightarrow> (kind \<times> string) list" where
  "harness_cleanup h = rev (hResources h)"

text \<open>\<^verbatim>\<open>main\<close> of the command: the exit code and the deletions. \<open>client\<close> and \<open>native\<close> are the errors of the two
  connections.\<close>

definition verifyMain :: "string \<Rightarrow> bool \<Rightarrow> rpc_error option \<Rightarrow> rpc_error option \<Rightarrow> checkIn \<Rightarrow> checkIn \<Rightarrow> int \<times> (kind \<times> string) list" where
  "verifyMain prefix noInterop client native rt io =
     (if client \<noteq> None then (2, [])
      else
        (let h = \<lparr>hPrefix = prefix, hCheckNat = \<not> noInterop \<and> native = None, hResources = [], hFailures = 0, hPasses = 0\<rparr>;
             h = runCheck (checkRoundTrip rt) h;
             h = (if hCheckNat h then runCheck (checkInterop io) h else h)
         in (if 0 < hFailures h then 1 else 0, harness_cleanup h)))"

section \<open>What cleanup asks for\<close>

definition listed :: "(rpc_error + 'i) list \<Rightarrow> 'i list" where
  "listed it = map projr (takeWhile (\<lambda>x. \<not> isl x) it)"

definition matching :: "('i \<Rightarrow> string option) \<Rightarrow> string \<Rightarrow> (rpc_error + 'i) list \<Rightarrow> string list" where
  "matching key prefix it = filter (\<lambda>rid. HasPrefix rid prefix) (List.map_filter key (listed it))"

lemma cleanupWith_exact:
  "cleanupWith key del prefix it =
     (length (filter (\<lambda>rid. del rid = None) (matching key prefix it)),
      length (filter (\<lambda>rid. del rid \<noteq> None) (matching key prefix it)), matching key prefix it)"
  by (induction key del prefix it rule: cleanupWith.induct)
    (auto simp: matching_def listed_def List.map_filter_def Let_def split: option.split)

lemma HasPrefix_chain: "HasPrefix s p \<Longrightarrow> HasPrefix s q \<Longrightarrow> HasPrefix p q \<or> HasPrefix q p"
  by (auto simp: HasPrefix_append append_eq_append_conv2)

text \<open>C34: Cleanup asks for exactly what carries the prefix. It requests the deletion of every listed resource
  whose id starts with the prefix and of nothing else, subscriptions before snapshots before
  topics before schemas, each kind in the order of its listing; a listing that breaks off is
  processed up to there.\<close>

theorem cleanup_asks_exactly:
  assumes "cleanupMain getenv prefix None del ls = Inr ks" "lsSchemaClient ls = None"
  shows "ks = map (Pair DelSub) (matching Some (cleanupPrefix getenv prefix) (lsSubs ls)) @
    map (Pair DelSnap) (matching (\<lambda>s. s) (cleanupPrefix getenv prefix) (lsSnaps ls)) @
    map (Pair DelTopic) (matching Some (cleanupPrefix getenv prefix) (lsTopics ls)) @
    map (Pair DelSchema) (matching (\<lambda>n. Some (schemaID n)) (cleanupPrefix getenv prefix) (lsSchemas ls))"
  using assms
  by (simp add: cleanupMain_def cleanupSubscriptions_def cleanupSnapshots_def cleanupTopics_def cleanupSchemas_def cleanupWith_exact Let_def)

definition demoListing :: listing where
  "demoListing = \<lparr>lsSubs = [Inr ''gcp_burnin_x_0001_sub''], lsSnaps = [Inr None], lsTopics = [Inr ''other'', Inr ''gcp_burnin_java_x_0001''],
     lsSchemaClient = None, lsSchemas = [Inr ''projects/p/schemas/gcp_burnin_x_0001_schema'', Inl (Plain ''list''), Inr ''gcp_burnin_y'']\<rparr>"

lemma trimWith_Nil: "trimWith cs [] = []"
  by (subst trimWith.simps) (simp add: HasPrefix_append)

lemma demo_prefix: "cleanupPrefix (\<lambda>_. []) [] = ''gcp_burnin''"
  by (simp add: cleanupPrefix_def envOr_def TrimSpace_def trimWith_Nil)

theorem cleanup_asks_exactly_witness:
  "cleanupMain (\<lambda>_. []) [] None (\<lambda>_ _. None) demoListing =
    Inr [(DelSub, ''gcp_burnin_x_0001_sub''), (DelTopic, ''gcp_burnin_java_x_0001''), (DelSchema, ''gcp_burnin_x_0001_schema'')]"
proof -
  obtain ks where k: "cleanupMain (\<lambda>_. []) [] None (\<lambda>_ _. None) demoListing = Inr ks"
    by (simp add: cleanupMain_def split_beta Let_def)
  have "lsSchemaClient demoListing = None" by (simp add: demoListing_def)
  from cleanup_asks_exactly [OF k this] k show ?thesis
    by (simp add: demo_prefix demoListing_def matching_def listed_def List.map_filter_def schemaID_def)
qed

text \<open>Agents with incomparable prefixes do not disturb each other. When neither prefix starts with the
  other, no resource that carries the other agent's prefix is asked to be deleted.\<close>

theorem cleanup_spares_incomparable:
  assumes "cleanupMain getenv prefix client del ls = Inr ks" "(k, rid) \<in> set ks"
    and "\<not> HasPrefix (cleanupPrefix getenv prefix) q" "\<not> HasPrefix q (cleanupPrefix getenv prefix)"
  shows "\<not> HasPrefix rid q"
proof -
  have "HasPrefix rid (cleanupPrefix getenv prefix)"
    using assms(1,2)
    by (auto simp: cleanupMain_def cleanupSubscriptions_def cleanupSnapshots_def cleanupTopics_def cleanupSchemas_def cleanupWith_exact
        matching_def Let_def split: if_splits)
  then show ?thesis using HasPrefix_chain assms(3,4) by blast
qed

theorem cleanup_spares_incomparable_witness: "\<not> HasPrefix ''gcp_burnin_go_x_0001'' ''gcp_burnin_java''"
proof -
  have "cleanupMain (\<lambda>_. []) ''gcp_burnin_go'' None (\<lambda>_ _. None) (demoListing\<lparr>lsTopics := [Inr ''gcp_burnin_go_x_0001'']\<rparr>) =
      Inr [(DelTopic, ''gcp_burnin_go_x_0001'')]"
    by (simp add: cleanupMain_def cleanupSubscriptions_def cleanupSnapshots_def cleanupTopics_def cleanupSchemas_def cleanupWith_exact
        cleanupPrefix_def demoListing_def matching_def listed_def List.map_filter_def schemaID_def)
  from cleanup_spares_incomparable [OF this, of DelTopic] show ?thesis by (simp add: cleanupPrefix_def)
qed

text \<open>With the default prefix cleanup does disturb the other agents. An agent whose prefix extends the default
  one, as the naming scheme recommends, loses every topic that the broker lists.\<close>

theorem default_cleanup_reaches_others:
  assumes "resourcePrefix other = ''gcp_burnin'' @ lang" "cleanupPrefix getenv [] = ''gcp_burnin''"
    and "cleanupMain getenv [] None del ls = Inr ks" "TopicName other worker idx \<in> set (listed (lsTopics ls))"
  shows "(DelTopic, TopicName other worker idx) \<in> set ks"
proof -
  have "HasPrefix (TopicName other worker idx) ''gcp_burnin''" by (simp add: HasPrefix_append TopicName_def assms(1))
  then have "TopicName other worker idx \<in> set (matching Some ''gcp_burnin'' (lsTopics ls))"
    using assms(4) by (force simp: matching_def List.map_filter_def)
  then show ?thesis
    using assms(2,3)
    by (auto simp: cleanupMain_def cleanupSubscriptions_def cleanupSnapshots_def cleanupTopics_def cleanupSchemas_def cleanupWith_exact Let_def
        split_beta)
qed

theorem default_cleanup_reaches_others_witness:
  "\<exists>ks. cleanupMain (\<lambda>_. []) [] None (\<lambda>_ _. None)
      (demoListing\<lparr>lsTopics := [Inr (TopicName (\<lambda>_. ''gcp_burnin_java'') WorkerFanOut 1)]\<rparr>) = Inr ks \<and>
    (DelTopic, TopicName (\<lambda>_. ''gcp_burnin_java'') WorkerFanOut 1) \<in> set ks"
proof -
  let ?ls = "demoListing\<lparr>lsTopics := [Inr (TopicName (\<lambda>_. ''gcp_burnin_java'') WorkerFanOut 1)]\<rparr>"
  obtain ks where k: "cleanupMain (\<lambda>_. []) [] None (\<lambda>_ _. None) ?ls = Inr ks" by (simp add: cleanupMain_def split_beta Let_def)
  have "resourcePrefix (\<lambda>_. ''gcp_burnin_java'') = ''gcp_burnin'' @ ''_java''" by (simp add: resourcePrefix_def)
  from default_cleanup_reaches_others [OF this demo_prefix k, of WorkerFanOut 1] k show ?thesis by (simp add: listed_def)
qed

section \<open>What verify shows\<close>

lemma provision_resources:
  "hResources (snd (provision inp role h)) =
     (let rid = hPrefix h @ ''_'' @ role @ ''_'' @ ciRnd inp in
      hResources h @ (if ensureTopic (ciSdk inp) rid = None
        then (DelTopic, rid) # (if ensureSubscription (ciSdk inp) (rid @ ''_sub'') (plainSubscription rid 10) = None then [(DelSub, rid @ ''_sub'')] else [])
        else []))"
  "hFailures (snd (provision inp role h)) = hFailures h" "hCheckNat (snd (provision inp role h)) = hCheckNat h"
  "hPrefix (snd (provision inp role h)) = hPrefix h"
  by (auto simp: provision_def Let_def split: option.split)

lemma checks_frame:
  "snd (checkRoundTrip inp h) = snd (provision inp ''rt'' h)" "snd (checkInterop inp h) = snd (provision inp ''interop'' h)"
  by (auto simp: checkRoundTrip_def checkInterop_def Let_def split: prod.split sum.split option.split)

lemma runCheck_simps:
  "hFailures (runCheck fn h) = hFailures (snd (fn h)) + (if fst (fn h) = None then 0 else 1)"
  "hResources (runCheck fn h) = hResources (snd (fn h))" "hCheckNat (runCheck fn h) = hCheckNat (snd (fn h))"
  "hPrefix (runCheck fn h) = hPrefix (snd (fn h))"
  by (auto simp: runCheck_def split: prod.split option.split)

lemma roundTrip_ok:
  "fst (checkRoundTrip inp h) = None \<Longrightarrow> \<exists>rest. ciBodies inp = (''verify-probe-'' @ ciProbe inp) # rest"
  by (auto simp: checkRoundTrip_def pullOne_def Let_def split: prod.splits sum.splits if_splits list.splits option.splits)

lemma interop_ok: "fst (checkInterop inp h) = None \<Longrightarrow> ''verify-interop-'' @ ciProbe inp \<in> set (ciSeen inp)"
  by (auto simp: checkInterop_def Let_def split: prod.splits sum.splits if_splits option.splits)

text \<open>C35: The exit code of verify can be trusted. It is 0 only when the first message received back was the probe
  that was published and, unless the native side was switched off or unreachable, the native
  stream saw the probe of the second check; a failed setup exits with 2.\<close>

theorem verify_exit_zero:
  assumes "verifyMain prefix noInterop client native rt io = (0, ds)"
  shows "client = None \<and> (\<exists>rest. ciBodies rt = (''verify-probe-'' @ ciProbe rt) # rest) \<and>
    (noInterop \<or> native \<noteq> None \<or> ''verify-interop-'' @ ciProbe io \<in> set (ciSeen io))"
proof -
  define h where "h = \<lparr>hPrefix = prefix, hCheckNat = \<not> noInterop \<and> native = None, hResources = [], hFailures = 0, hPasses = 0\<rparr>"
  define h1 where "h1 = runCheck (checkRoundTrip rt) h"
  have c: "client = None" using assms by (simp add: verifyMain_def split: if_splits)
  have f: "hFailures (if hCheckNat h1 then runCheck (checkInterop io) h1 else h1) = 0"
    using assms c by (simp add: verifyMain_def Let_def h_def [symmetric] h1_def [symmetric] split: if_splits)
  have n: "hCheckNat h1 = (\<not> noInterop \<and> native = None)" by (simp add: h1_def runCheck_simps checks_frame provision_resources h_def)
  have 1: "hFailures h1 = 0" using f by (simp add: runCheck_simps checks_frame provision_resources split: if_splits)
  have "fst (checkRoundTrip rt h) = None" using 1 by (simp add: h1_def runCheck_simps split: if_splits)
  moreover have "fst (checkInterop io h1) = None" if "hCheckNat h1" using f that by (simp add: runCheck_simps split: if_splits)
  ultimately show ?thesis using c n roundTrip_ok [of rt h] interop_ok [of io h1] by auto
qed

definition demoCheck :: "string \<Rightarrow> checkIn" where
  "demoCheck probe = \<lparr>ciRnd = ''0a0b0c0d'', ciProbe = ''01020304'', ciSdk = \<lparr>sdkClient = None, sdkTopic = Inr, sdkSub = (\<lambda>s _. Inr s)\<rparr>,
     ciSend = (\<lambda>_. Inr ''1''), ciBodies = [probe], ciRcvErr = None, ciNative = None, ciSeen = [probe]\<rparr>"

lemma demo_ensure: "ensureTopic (ciSdk (demoCheck x)) t = None" "ensureSubscription (ciSdk (demoCheck x)) s c = None"
  by (simp_all add: demoCheck_def ensureTopic_def ensureSubscription_def EnsureTopic_def EnsureSubscription_def)

lemma demoCheck_simps: "ciProbe (demoCheck x) = ''01020304''" "ciSend (demoCheck x) = (\<lambda>_. Inr ''1'')" "ciBodies (demoCheck x) = [x]"
  "ciRcvErr (demoCheck x) = None" "ciNative (demoCheck x) = None" "ciSeen (demoCheck x) = [x]"
  by (simp_all add: demoCheck_def)

theorem verify_exit_zero_witness:
  "\<exists>ds. verifyMain ''verify'' False None None (demoCheck ''verify-probe-01020304'') (demoCheck ''verify-interop-01020304'') = (0, ds) \<and>
    ''verify-interop-01020304'' \<in> set (ciSeen (demoCheck ''verify-interop-01020304''))"
proof -
  have "\<exists>ds. verifyMain ''verify'' False None None (demoCheck ''verify-probe-01020304'') (demoCheck ''verify-interop-01020304'') = (0, ds)"
    by (simp add: verifyMain_def runCheck_def checkRoundTrip_def checkInterop_def provision_def demo_ensure pullOne_def PublishSync_def
        PublishMessageSync_def demoCheck_simps Let_def)
  then obtain ds where d: "verifyMain ''verify'' False None None (demoCheck ''verify-probe-01020304'') (demoCheck ''verify-interop-01020304'') = (0, ds)" ..
  from verify_exit_zero [OF d] d show ?thesis by (simp add: demoCheck_simps)
qed

definition createdBy :: "checkIn \<Rightarrow> string \<Rightarrow> (kind \<times> string) list" where
  "createdBy inp rid =
     (if ensureTopic (ciSdk inp) rid = None
      then (DelTopic, rid) # (if ensureSubscription (ciSdk inp) (rid @ ''_sub'') (plainSubscription rid 10) = None then [(DelSub, rid @ ''_sub'')] else [])
      else [])"

text \<open>Verify leaves nothing behind. Whatever the checks found, every topic and subscription that was created is
  asked to be deleted, in the reverse order of creation, so a subscription goes before its topic;
  also when the check broke off between the two.\<close>

theorem verify_tears_down:
  "snd (verifyMain prefix noInterop None native rt io) =
     (if noInterop \<or> native \<noteq> None then [] else rev (createdBy io (prefix @ ''_interop_'' @ ciRnd io))) @
     rev (createdBy rt (prefix @ ''_rt_'' @ ciRnd rt))"
  by (simp add: verifyMain_def harness_cleanup_def runCheck_simps checks_frame provision_resources createdBy_def Let_def)

text \<open>The harness comes up only on a valid configuration. When it does, the configuration has no error, a
  known endpoint, and the engine is idle or, with the run flag, starting it; with the
  validation flag it always exits, with 0 exactly when the file loads and has no error.\<close>

theorem bootstrap_checked:
  "(flValidate fl \<longrightarrow> (\<exists>code. bootstrap getenv fl now fresh load exists = (Exit code :: 'w boot) \<and>
      (code = 0 \<longleftrightarrow> (\<exists>c. load (configFile exists getenv fl) = Inr c \<and> valid (resolveEmulator getenv c))))) \<and>
   (\<forall>c e. bootstrap getenv fl now fresh load exists = (Up c e :: 'w boot) \<longrightarrow>
      \<not> flValidate fl \<and> valid c \<and> EmulatorHostF (GCP c) \<noteq> [] \<and> startupCfg e = c \<and>
      state e = (if flRun fl then StateStarting else StateIdle) \<and> (flRun fl \<longrightarrow> runCfg e = Some c))"
proof -
  have h: "EmulatorHostF (GCP (resolveEmulator getenv c)) \<noteq> []" for c
    by (simp add: resolveEmulator_def EmulatorHost_def DefaultBroker_def)
  have v: "\<not> list_ex (\<lambda>e. \<not> isWarning e) (Validate c) \<longleftrightarrow> valid c" for c by (auto simp: valid_def list_all_iff list_ex_iff)
  show ?thesis
    using v h by (auto simp: bootstrap_def startupExit_def StartRunFromConfig_def NewEngine_def Let_def split: sum.splits if_splits)
qed

theorem bootstrap_checked_witness:
  "\<exists>code. bootstrap (\<lambda>_. []) \<lparr>flConfig = [], flRun = False, flValidate = True\<rparr> 0 [] (\<lambda>_. Inr demoLoaded) (\<lambda>_. False) =
    (Exit code :: BaseWorker boot) \<and> (code = 0 \<longleftrightarrow> valid (resolveEmulator (\<lambda>_. []) demoLoaded))"
proof -
  let ?fl = "\<lparr>flConfig = [], flRun = False, flValidate = True\<rparr>"
  have "flValidate ?fl" by simp
  with bootstrap_checked [of ?fl "\<lambda>_. []" 0 "[]" "\<lambda>_. Inr demoLoaded" "\<lambda>_. False", where 'w = BaseWorker] show ?thesis by auto
qed

end
