(* ===== verification/Streaming.thy ===== *)
theory Streaming
  imports WorkerClaims
begin

text \<open>
  The worker of \<^verbatim>\<open>worker/streaming_pull.go\<close>: one long-lived stream with its reconnections, and
  the three probes over topics of their own (flow control, lease extension, cross-stream
  acknowledgement). A probe takes the answers of the broker in the order in which it asks
  and returns the requests it sent beside the changed worker; \<open>None\<close> is the panic of the size
  draw. The probes run in a goroutine beside the stream, and share only counters with it.
\<close>

section \<open>The worker\<close>

record StreamingPullWorker = SeqWorker +
  spTopicID :: string
  spSubID :: string
  spSubClient :: bool
  probeTopics :: "string list"

definition streamCloseSignature :: string where
  "streamCloseSignature = ''the stream has been closed''"

definition connectorMaxOutstandingCeiling :: int where "connectorMaxOutstandingCeiling = 1000"
definition flowControlProbeRequest :: int where "flowControlProbeRequest = 5000"
definition flowControlProbeBacklog :: nat where "flowControlProbeBacklog = 2000"

definition NewStreamingPullWorker :: "environ \<Rightarrow> Config \<Rightarrow> int \<Rightarrow> StreamingPullWorker option" where
  "NewStreamingPullWorker getenv c idx =
     (let topic = TopicName getenv WorkerStreamingPull idx;
          sid = SubscriptionName getenv WorkerStreamingPull idx
      in map_option (\<lambda>b. \<lparr>core = b, wseq = 0, spTopicID = topic, spSubID = sid, spSubClient = False, probeTopics = []\<rparr>)
           (NewBaseWorker getenv WorkerStreamingPull (MappedTopicChannel topic) idx c))"

definition probesWanted :: "GCPConfig \<Rightarrow> bool" where
  "probesWanted g \<longleftrightarrow> FlowControlProbe g \<or> LeaseExtendProbe g \<or> CrossStreamProbe g"

definition StreamingPull_Start :: "sdk \<Rightarrow> rpc_error option \<Rightarrow> StreamingPullWorker \<Rightarrow> rpc_error option \<times> StreamingPullWorker" where
  "StreamingPull_Start k subClientErr w =
     (let g = GCP (cfg (core w));
          (err, w) = startConsuming ([sdkClient k, ensureTopic k (spTopicID w),
            ensureSubscription k (spSubID w) (plainSubscription (spTopicID w) (AckDeadlineSeconds g))] @
            (if probesWanted g then [subClientErr] else [])) w
      in (err, if err = None \<and> probesWanted g then w\<lparr>spSubClient := True\<rparr> else w))"

definition StreamingPull_handleMessage :: "string \<Rightarrow> delivery \<Rightarrow> StreamingPullWorker \<Rightarrow> settle list \<times> StreamingPullWorker" where
  "StreamingPull_handleMessage consumerID d w =
     (let m = dMsg d;
          w = onBase (recordReceived (int (length (mData m))) consumerID) w;
          (pid, n, hex, sentAt, ok) = extractMeta (mAttributes m);
          w = (if ok then onBase (\<lambda>b. fst (recordTracked pid n (noteArrival (dNow d) (mData m) hex sentAt b))) w else w)
      in ackAndCount w)"

text \<open>An error of \<^verbatim>\<open>Receive\<close>: its status and its text.\<close>

record streamErr =
  seStatus :: rpc_error
  seText :: string

definition isPeriodicClose :: "streamErr option \<Rightarrow> bool" where
  "isPeriodicClose err =
     (case err of
        None \<Rightarrow> False
      | Some e \<Rightarrow> if codeOf (Some (seStatus e)) \<noteq> Unavailable then False else Contains (seText e) streamCloseSignature)"

record streamIn =
  siStop :: bool
  siMsgs :: "delivery list"
  siErr :: "streamErr option"
  siCtxErr :: bool
  siWake :: bool

definition streamTurn :: "streamIn \<Rightarrow> bool \<times> StreamingPullWorker \<Rightarrow> flow \<times> settle list \<times> bool \<times> StreamingPullWorker" where
  "streamTurn inp s =
     (let (first, w) = s in
      if siStop inp then (Stop, [], first, w)
      else
        (let w = (if \<not> first then onBase recordReconnection w else w);
             w = onBase signalReady w;
             (as, w) = handleAll (\<lambda>d w. StreamingPull_handleMessage (consumerName w) d w) (siMsgs inp) w
         in if siCtxErr inp then (Stop, as, False, w)
            else case siErr inp of
                   None \<Rightarrow> (Next, as, False, w)
                 | Some e \<Rightarrow>
                     (let w = (if isPeriodicClose (Some e) then onBase recordPeriodicCloseObserved w else w)
                      in (if siWake inp then Next else Stop, as, False, onBase (recordError ''receive_failure'') w))))"

definition StreamingPull_receiveLoop :: "streamIn list \<Rightarrow> StreamingPullWorker \<Rightarrow> flow \<times> settle list \<times> bool \<times> StreamingPullWorker" where
  "StreamingPull_receiveLoop inps w = runLoop streamTurn inps (True, w)"

definition StreamingPull_produce :: "int \<Rightarrow> pubIn \<Rightarrow> StreamingPullWorker \<Rightarrow> flow \<times> Msg list \<times> StreamingPullWorker" where
  "StreamingPull_produce = produceOne"

definition StreamingPull_StopConsumers :: "StreamingPullWorker \<Rightarrow> StreamingPullWorker" where
  "StreamingPull_StopConsumers = onBase StopConsumers"

section \<open>The probes\<close>

datatype subRequest =
    ReqPull string
  | ReqStream string int
  | ReqModify string string int
  | ReqAck string "string list"

definition ModifyAckDeadline :: "string \<Rightarrow> string \<Rightarrow> int \<Rightarrow> subRequest" where
  "ModifyAckDeadline subPath ackID seconds = ReqModify subPath ackID (i32 seconds)"

definition CrossStreamAckProbe :: "string \<Rightarrow> string \<Rightarrow> subRequest" where
  "CrossStreamAckProbe subPath ackID = ReqAck subPath [ackID]"

definition provisionProbe :: "environ \<Rightarrow> sdk \<Rightarrow> string \<Rightarrow> int \<Rightarrow> StreamingPullWorker \<Rightarrow>
    (string \<times> string) option \<times> StreamingPullWorker" where
  "provisionProbe getenv k suffix ackDeadlineSeconds w =
     (let topic = TopicName getenv WorkerStreamingPull (channelIndex (core w)) @ ''_'' @ suffix;
          sid = SubscriptionName getenv WorkerStreamingPull (channelIndex (core w)) @ ''_'' @ suffix
      in if ensureTopic k topic \<noteq> None then (None, w)
         else
           (let w = w\<lparr>probeTopics := probeTopics w @ [topic]\<rparr> in
            if ensureSubscription k sid (plainSubscription topic ackDeadlineSeconds) \<noteq> None then (None, w)
            else (Some (topic, SubscriptionPath (psProjectID (psCfg (core w))) sid), w)))"

definition pullOneAckID :: "rpc_error + string list \<Rightarrow> string option" where
  "pullOneAckID resp = (case resp of Inl _ \<Rightarrow> None | Inr [] \<Rightarrow> None | Inr (a # _) \<Rightarrow> Some a)"

text \<open>What a turn of \<^verbatim>\<open>streamOneAckID\<close> meets: a cancelled context, a receive error, a batch of ack
  ids. A list that ends early is a receive that never returned.\<close>

datatype recvEvent = RecvCancelled | RecvErr | RecvBatch "string list"

fun streamRecv :: "nat \<Rightarrow> recvEvent list \<Rightarrow> string option" where
  "streamRecv 0 evs = None"
| "streamRecv (Suc k) [] = None"
| "streamRecv (Suc k) (RecvCancelled # evs) = None"
| "streamRecv (Suc k) (RecvErr # evs) = None"
| "streamRecv (Suc k) (RecvBatch [] # evs) = streamRecv k evs"
| "streamRecv (Suc k) (RecvBatch (a # as) # evs) = Some a"

definition streamOneAckID :: "rpc_error option \<Rightarrow> rpc_error option \<Rightarrow> recvEvent list \<Rightarrow> string option" where
  "streamOneAckID openErr sendErr evs =
     (if openErr \<noteq> None \<or> sendErr \<noteq> None then None else streamRecv 10 evs)"

subsection \<open>Flow control\<close>

record flowIn =
  flBody :: pubIn
  flPubs :: "pubIn list"
  flOpenErr :: "rpc_error option"
  flSendErr :: "rpc_error option"
  flEvents :: "fc_event list"

text \<open>The backlog: every message takes one input; the flag says that all were published.\<close>

fun publishBacklog :: "string \<Rightarrow> string \<Rightarrow> nat \<Rightarrow> u64 \<Rightarrow> pubIn list \<Rightarrow> Msg list \<times> bool" where
  "publishBacklog body hex 0 n inps = ([], True)"
| "publishBacklog body hex (Suc k) n [] = ([], False)"
| "publishBacklog body hex (Suc k) n (inp # inps) =
     (if piStop inp then ([], False)
      else
        (let attrs = stampAttrs (piStamp inp) ''fcprobe'' n hex in
         case PublishSync (piSend inp) body attrs of
           Inl _ \<Rightarrow> ([], False)
         | Inr _ \<Rightarrow> (let (ms, ok) = publishBacklog body hex k (n + 1) inps in (mkMsg body attrs # ms, ok))))"

definition flowControlProbe :: "environ \<Rightarrow> sdk \<Rightarrow> flowIn \<Rightarrow> StreamingPullWorker \<Rightarrow> (Msg list \<times> StreamingPullWorker) option" where
  "flowControlProbe getenv k inp w =
     (case provisionProbe getenv k ''fcprobe'' (AckDeadlineSeconds (GCP (cfg (core w)))) w of
        (None, w) \<Rightarrow> Some ([], w)
      | (Some (topic, subPath), w) \<Rightarrow>
          (case nextBody (flBody inp) w of
             None \<Rightarrow> None
           | Some (body, hex) \<Rightarrow>
               (let (ms, ok) = publishBacklog body hex flowControlProbeBacklog 1 (flPubs inp) in
                if \<not> ok then Some (ms, w)
                else
                  (case FlowControlClampProbe (flOpenErr inp) (flSendErr inp) (flEvents inp) of
                     (_, Some e) \<Rightarrow> Some (ms, w)
                   | (peakUnacked, None) \<Rightarrow>
                       (let w = onBase (markRan FlowControlRan) w;
                            w = onBase (setOutstanding (floatOfInt peakUnacked)) w
                        in Some (ms, if connectorMaxOutstandingCeiling < peakUnacked
                                     then onBase recordFlowControlViolation w else w))))))"

subsection \<open>Lease extension\<close>

record leaseIn =
  lePub :: pubIn
  lePull :: "rpc_error + string list"
  leReject :: "rpc_error option"
  leExtend :: "rpc_error option"
  leHeld :: bool
  lePullAgain :: "rpc_error + string list"

text \<open>The result of the acknowledgements is only logged, so it is no input. The probes share one context: the
  flag beside the requests says that it was cancelled during the hold, after which every call
  that takes it fails.\<close>

definition probeDeadline :: "StreamingPullWorker \<Rightarrow> int" where
  "probeDeadline w = (let d = AckDeadlineSeconds (GCP (cfg (core w))) in if d < 10 then 10 else d)"

definition extendSeconds :: "int \<Rightarrow> int" where
  "extendSeconds ackDeadline = (let s = i64 (ackDeadline + 30) in if 600 < s then 600 else s)"

definition leaseBody :: "leaseIn \<Rightarrow> string \<Rightarrow> string \<Rightarrow> StreamingPullWorker \<Rightarrow> subRequest list \<times> bool \<times> StreamingPullWorker" where
  "leaseBody inp subPath ackID w =
     (let w = onBase (markRan LeaseExtendRan) w;
          r1 = [ReqPull subPath, ModifyAckDeadline subPath ackID 5];
          w = (if IsInvalidArgument (leReject inp) then onBase recordLeaseExtendRejectConfirmed w else w);
          r2 = r1 @ [ModifyAckDeadline subPath ackID (extendSeconds (probeDeadline w))]
      in if leExtend inp \<noteq> None then (r2, False, w)
         else if \<not> leHeld inp then (r2, True, w)
         else
           (let r3 = r2 @ [ReqPull subPath] in
            case pullOneAckID (lePullAgain inp) of
              Some again \<Rightarrow>
                (r3 @ [CrossStreamAckProbe subPath again, CrossStreamAckProbe subPath ackID], False,
                 onBase (recordError ''receive_failure'') w)
            | None \<Rightarrow> (r3 @ [CrossStreamAckProbe subPath ackID], False, onBase recordLeaseExtendConfirmed w)))"

definition leaseExtendProbe :: "environ \<Rightarrow> sdk \<Rightarrow> leaseIn \<Rightarrow> StreamingPullWorker \<Rightarrow>
    (subRequest list \<times> bool \<times> StreamingPullWorker) option" where
  "leaseExtendProbe getenv k inp w =
     (case provisionProbe getenv k ''leprobe'' (probeDeadline w) w of
        (None, w) \<Rightarrow> Some ([], False, w)
      | (Some (topic, subPath), w) \<Rightarrow>
          (case nextBody (lePub inp) w of
             None \<Rightarrow> None
           | Some (body, hex) \<Rightarrow>
               Some (case PublishSync (piSend (lePub inp)) body (stampAttrs (piStamp (lePub inp)) ''leprobe'' 1 hex) of
                       Inl _ \<Rightarrow> ([], False, w)
                     | Inr _ \<Rightarrow>
                         (case pullOneAckID (lePull inp) of
                            None \<Rightarrow> ([ReqPull subPath], False, w)
                          | Some ackID \<Rightarrow> leaseBody inp subPath ackID w))))"

subsection \<open>Cross-stream acknowledgement\<close>

record crossIn =
  crPub :: pubIn
  crOpenErr :: "rpc_error option"
  crSendErr :: "rpc_error option"
  crEvents :: "recvEvent list"
  crAck :: "rpc_error option"
  crPullAgain :: "rpc_error + string list"

definition crossBody :: "crossIn \<Rightarrow> string \<Rightarrow> string \<Rightarrow> StreamingPullWorker \<Rightarrow> subRequest list \<times> StreamingPullWorker" where
  "crossBody inp subPath ackID w =
     (let w = onBase (markRan CrossStreamAckRan) w; r1 = [CrossStreamAckProbe subPath ackID] in
      if crAck inp \<noteq> None then (r1, w)
      else
        (let r2 = r1 @ [ReqPull subPath] in
         case pullOneAckID (crPullAgain inp) of
           Some again \<Rightarrow> (r2 @ [CrossStreamAckProbe subPath again], w)
         | None \<Rightarrow> (r2, onBase recordCrossStreamAckConfirmed w)))"

definition crossStreamAckProbe :: "environ \<Rightarrow> sdk \<Rightarrow> crossIn \<Rightarrow> StreamingPullWorker \<Rightarrow>
    (subRequest list \<times> StreamingPullWorker) option" where
  "crossStreamAckProbe getenv k inp w =
     (let deadline = AckDeadlineSeconds (GCP (cfg (core w))) in
      case provisionProbe getenv k ''csprobe'' deadline w of
        (None, w) \<Rightarrow> Some ([], w)
      | (Some (topic, subPath), w) \<Rightarrow>
          (case nextBody (crPub inp) w of
             None \<Rightarrow> None
           | Some (body, hex) \<Rightarrow>
               Some (case PublishSync (piSend (crPub inp)) body (stampAttrs (piStamp (crPub inp)) ''csprobe'' 1 hex) of
                       Inl _ \<Rightarrow> ([], w)
                     | Inr _ \<Rightarrow>
                         (let r0 = (if crOpenErr inp \<noteq> None then [] else [ReqStream subPath (i32 deadline)]) in
                          case streamOneAckID (crOpenErr inp) (crSendErr inp) (crEvents inp) of
                            None \<Rightarrow> (r0, w)
                          | Some ackID \<Rightarrow> (let (rs, w) = crossBody inp subPath ackID w in (r0 @ rs, w))))))"

text \<open>The SDK on a cancelled context: every call returns the error of the context.\<close>

definition cancelledSdk :: "sdk \<Rightarrow> sdk" where
  "cancelledSdk k = k\<lparr>sdkTopic := (\<lambda>_. Inl (Plain ''context canceled'')), sdkSub := (\<lambda>_ _. Inl (Plain ''context canceled''))\<rparr>"

definition runProbes :: "environ \<Rightarrow> sdk \<Rightarrow> flowIn \<Rightarrow> leaseIn \<Rightarrow> crossIn \<Rightarrow> StreamingPullWorker \<Rightarrow> StreamingPullWorker option" where
  "runProbes getenv k fl le cr w =
     (let g = GCP (cfg (core w)) in
      if \<not> spSubClient w then Some w
      else
        case (if FlowControlProbe g then map_option snd (flowControlProbe getenv k fl w) else Some w) of
          None \<Rightarrow> None
        | Some w \<Rightarrow>
            (case (if LeaseExtendProbe g then map_option snd (leaseExtendProbe getenv k le w) else Some (False, w)) of
               None \<Rightarrow> None
             | Some (ctxDone, w) \<Rightarrow>
                 if CrossStreamProbe g
                 then map_option snd (crossStreamAckProbe getenv (if ctxDone then cancelledSdk k else k) cr w)
                 else Some w))"

section \<open>The stream\<close>

interpretation sp: settling_handler "StreamingPull_handleMessage cid" for cid
  by unfold_locales (simp_all add: StreamingPull_handleMessage_def handler_simps)

interpretation spl: settling_handler "\<lambda>d w. StreamingPull_handleMessage (consumerName w) d w"
  by unfold_locales (simp_all add: sp.one sp.received sp.acked sp.reconnections)

text \<open>What a delivery does to the tracker: an instrumented message is recorded, any other is not.\<close>

definition tracked :: "'x delivery_scheme \<Rightarrow> Tracker \<Rightarrow> Tracker" where
  "tracked d t = (let (pid, n, _, _, ok) = extractMeta (mAttributes (dMsg d)) in if ok then fst (Record t pid n) else t)"

lemma streaming_handled:
  "fst (StreamingPull_handleMessage cid d w) = [DoAck]"
  "trk (core (snd (StreamingPull_handleMessage cid d w))) = tracked d (trk (core w))"
  "cnt (core (snd (StreamingPull_handleMessage cid d w))) PeriodicCloseObserved = cnt (core w) PeriodicCloseObserved"
  "cnt (core (snd (StreamingPull_handleMessage cid d w))) Errors = cnt (core w) Errors"
  by (simp_all add: StreamingPull_handleMessage_def handler_simps recordTracked_trk tracked_def)

lemma streaming_all_handled:
  fixes w :: StreamingPullWorker and ds :: "delivery list"
  defines "r \<equiv> handleAll (\<lambda>d w. StreamingPull_handleMessage (consumerName w) d w) ds w"
  shows "fst r = replicate (length ds) DoAck \<and> trk (core (snd r)) = fold tracked ds (trk (core w)) \<and>
    cnt (core (snd r)) PeriodicCloseObserved = cnt (core w) PeriodicCloseObserved \<and> cnt (core (snd r)) Errors = cnt (core w) Errors \<and>
    cnt (core (snd r)) Acked = cnt (core w) Acked + of_nat (length ds)"
proof -
  have "fst r = replicate (length ds) DoAck \<and> trk (core (snd r)) = fold tracked ds (trk (core w)) \<and>
    cnt (core (snd r)) PeriodicCloseObserved = cnt (core w) PeriodicCloseObserved \<and> cnt (core (snd r)) Errors = cnt (core w) Errors"
    unfolding r_def by (induction ds arbitrary: w) (simp_all add: split_beta Let_def streaming_handled)
  moreover have "count_list (replicate n DoAck) DoAck = n" for n by (induction n) simp_all
  ultimately show ?thesis using spl.all_settled [of ds w] by (simp add: r_def)
qed

definition steadyStream :: "streamIn \<Rightarrow> bool" where
  "steadyStream inp \<longleftrightarrow> \<not> siStop inp \<and> \<not> siCtxErr inp \<and> siWake inp"

lemma streamTurn_steady:
  assumes "steadyStream inp"
  shows "let (f, as, first', w') = streamTurn inp (first, w) in
    f = Next \<and> \<not> first' \<and> as = replicate (length (siMsgs inp)) DoAck \<and> trk (core w') = fold tracked (siMsgs inp) (trk (core w)) \<and>
    cnt (core w') Received = cnt (core w) Received + of_nat (length (siMsgs inp)) \<and>
    cnt (core w') Acked = cnt (core w) Acked + of_nat (length (siMsgs inp)) \<and>
    cnt (core w') Reconnections = cnt (core w) Reconnections + (if first then 0 else 1) \<and>
    cnt (core w') Errors = cnt (core w) Errors + (if siErr inp = None then 0 else 1) \<and>
    cnt (core w') PeriodicCloseObserved = cnt (core w) PeriodicCloseObserved + (if isPeriodicClose (siErr inp) then 1 else 0)"
proof -
  let ?w = "onBase signalReady (if first then w else onBase recordReconnection w)"
  note s = spl.all_settled [of "siMsgs inp" ?w] streaming_all_handled [of "siMsgs inp" ?w]
  show ?thesis using assms s
    by (cases first; cases "siErr inp")
      (simp_all add: steadyStream_def streamTurn_def Let_def split_beta worker_defs signalReady_def isPeriodicClose_def)
qed

lemma stream_run:
  assumes "\<forall>inp\<in>set inps. steadyStream inp"
  shows "let (f, as, first', w') = runLoop streamTurn inps (first, w); ds = concat (map siMsgs inps) in
    f = Next \<and> as = replicate (length ds) DoAck \<and> trk (core w') = fold tracked ds (trk (core w)) \<and>
    cnt (core w') Received = cnt (core w) Received + of_nat (length ds) \<and>
    cnt (core w') Acked = cnt (core w) Acked + of_nat (length ds) \<and>
    cnt (core w') Reconnections = cnt (core w) Reconnections + of_nat (if first then length inps - 1 else length inps) \<and>
    cnt (core w') Errors = cnt (core w) Errors + of_nat (length (filter (\<lambda>i. siErr i \<noteq> None) inps)) \<and>
    cnt (core w') PeriodicCloseObserved =
      cnt (core w) PeriodicCloseObserved + of_nat (length (filter (\<lambda>i. isPeriodicClose (siErr i)) inps))"
  using assms
proof (induction inps arbitrary: first w)
  case (Cons inp inps)
  obtain f as fs w1 where t: "streamTurn inp (first, w) = (f, as, fs, w1)" by (metis prod_cases4)
  have s: "f = Next" "\<not> fs" "as = replicate (length (siMsgs inp)) DoAck" "trk (core w1) = fold tracked (siMsgs inp) (trk (core w))"
    "cnt (core w1) Received = cnt (core w) Received + of_nat (length (siMsgs inp))"
    "cnt (core w1) Acked = cnt (core w) Acked + of_nat (length (siMsgs inp))"
    "cnt (core w1) Reconnections = cnt (core w) Reconnections + (if first then 0 else 1)"
    "cnt (core w1) Errors = cnt (core w) Errors + (if siErr inp = None then 0 else 1)"
    "cnt (core w1) PeriodicCloseObserved = cnt (core w) PeriodicCloseObserved + (if isPeriodicClose (siErr inp) then 1 else 0)"
    using streamTurn_steady [of inp first w] Cons.prems by (simp_all add: t)
  show ?case using Cons.IH [of False w1] Cons.prems s by (simp add: t Let_def split_beta replicate_add)
qed simp

text \<open>C16: The stream loses nothing across reconnections. Over any number of streams, ended by the broker, by a
  failure or by a forced disconnect while the worker itself is not told to stop, every delivery
  of every stream is settled by exactly one acknowledgement and counted as received and as
  acked, and the instrumented ones reach the tracker, in the order in which they came; every
  stream after the first is a reconnection, every receive error an error, and the periodic
  server close is counted exactly for the errors that carry the status Unavailable and have
  the close text somewhere in their message.\<close>

theorem streaming_loop_accounts:
  assumes "\<forall>inp\<in>set inps. steadyStream inp" "StreamingPull_receiveLoop inps w = (f, as, first', w')"
    and "ds = concat (map siMsgs inps)"
  shows "f = Next \<and> as = replicate (length ds) DoAck \<and>
    cnt (core w') Received = cnt (core w) Received + of_nat (length ds) \<and>
    cnt (core w') Acked = cnt (core w) Acked + of_nat (length ds) \<and>
    trk (core w') = fold tracked ds (trk (core w)) \<and>
    cnt (core w') Reconnections = cnt (core w) Reconnections + of_nat (length inps - 1) \<and>
    cnt (core w') Errors = cnt (core w) Errors + of_nat (length (filter (\<lambda>i. siErr i \<noteq> None) inps)) \<and>
    cnt (core w') PeriodicCloseObserved = cnt (core w) PeriodicCloseObserved + of_nat (length (filter (\<lambda>i. \<exists>e before after.
      siErr i = Some e \<and> codeOf (Some (seStatus e)) = Unavailable \<and> seText e = before @ ''the stream has been closed'' @ after) inps))"
proof -
  have "isPeriodicClose x \<longleftrightarrow> (\<exists>e before after. x = Some e \<and> codeOf (Some (seStatus e)) = Unavailable \<and>
      seText e = before @ ''the stream has been closed'' @ after)" for x
    by (auto simp: isPeriodicClose_def Contains_iff streamCloseSignature_def split: option.split)
  then show ?thesis
    using stream_run [OF assms(1), of True w] assms(2,3) by (simp add: StreamingPull_receiveLoop_def Let_def)
qed

definition demoStreaming :: StreamingPullWorker where
  "demoStreaming = \<lparr>core = demoBase WorkerStreamingPull, wseq = 0, spTopicID = ''t'', spSubID = ''s'', spSubClient = True,
     probeTopics = []\<rparr>"

lemma demoStreaming_simps [simp]:
  "cnt (core demoStreaming) c = 0" "ran (core demoStreaming) p = False" "spSubClient demoStreaming"
  "cfg (core demoStreaming) = DefaultConfig" "sizeDistrib (core demoStreaming) = None"
  by (simp_all add: demoStreaming_def demoBase_def anyWorker_def NewBaseWorker_def GetWorkerConfig_def DefaultConfig_def
      Let_def worker_names)

definition demoStreams :: "streamIn list" where
  "demoStreams =
     [\<lparr>siStop = False, siMsgs = [\<lparr>dMsg = demoMsg ''p'' 1, dNow = 0\<rparr>],
       siErr = Some \<lparr>seStatus = Status Unavailable [], seText = ''rpc error: the stream has been closed''\<rparr>,
       siCtxErr = False, siWake = True\<rparr>,
      \<lparr>siStop = False, siMsgs = [], siErr = Some \<lparr>seStatus = Status Unavailable [], seText = ''connection refused''\<rparr>,
       siCtxErr = False, siWake = True\<rparr>]"

theorem streaming_loop_accounts_witness:
  "\<exists>f as first' w'. StreamingPull_receiveLoop demoStreams demoStreaming = (f, as, first', w') \<and>
     as = [DoAck] \<and> cnt (core w') Acked = 1 \<and> cnt (core w') Reconnections = 1 \<and> cnt (core w') Errors = 2 \<and>
     0 < cnt (core w') PeriodicCloseObserved"
proof -
  obtain f as fs w' where e: "StreamingPull_receiveLoop demoStreams demoStreaming = (f, as, fs, w')" by (metis prod_cases4)
  have "\<forall>inp\<in>set demoStreams. steadyStream inp" by (simp add: demoStreams_def steadyStream_def)
  note c = streaming_loop_accounts [OF this e refl]
  have "\<exists>before after. ''rpc error: the stream has been closed'' = before @ ''the stream has been closed'' @ after"
    by (intro exI [of _ "''rpc error: ''"] exI [of _ "[]"]) simp
  then have "0 < cnt (core w') PeriodicCloseObserved" using c by (simp add: demoStreams_def word_gt_0)
  then show ?thesis using c e by (simp add: demoStreams_def)
qed

section \<open>What the probes tell the verdict\<close>

lemma nextBody_core: "core w' = core w \<Longrightarrow> nextBody inp w' = nextBody inp w"
  by (simp add: nextBody_def)

lemma selectMessageSize_cong:
  "sizeDistrib b' = sizeDistrib b \<Longrightarrow> cfg b' = cfg b \<Longrightarrow> selectMessageSize f b' = selectMessageSize f b"
  by (simp add: selectMessageSize_def split: option.split)

text \<open>A broker that provisions and accepts what the probes ask for.\<close>

definition provisions :: "sdk \<Rightarrow> bool" where
  "provisions k \<longleftrightarrow> (\<forall>t. ensureTopic k t = None) \<and> (\<forall>s c. ensureSubscription k s c = None)"

definition accepts :: "pubIn \<Rightarrow> bool" where
  "accepts inp \<longleftrightarrow> \<not> piStop inp \<and> (\<forall>m. \<exists>i. piSend inp m = Inr i)"

lemma accepts_sync: "accepts inp \<Longrightarrow> \<exists>i. PublishSync (piSend inp) body attrs = Inr i"
  by (simp add: accepts_def PublishSync_def PublishMessageSync_def)

lemma provisionProbe_ok:
  assumes "provisions k"
  shows "\<exists>t p ts. provisionProbe getenv k suffix d w = (Some (t, p), w\<lparr>probeTopics := ts\<rparr>)"
  using assms by (auto simp: provisions_def provisionProbe_def Let_def)

lemma publishBacklog_ok: "\<forall>inp\<in>set inps. accepts inp \<Longrightarrow> k \<le> length inps \<Longrightarrow> snd (publishBacklog body hex k n inps)"
proof (induction body hex k n inps rule: publishBacklog.induct)
  case (3 body hex k n inp inps)
  obtain i where "PublishSync (piSend inp) body (stampAttrs (piStamp inp) ''fcprobe'' n hex) = Inr i"
    using accepts_sync [of inp body] 3(2) by fastforce
  then show ?case using 3 by (simp add: Let_def split_beta accepts_def)
qed simp_all

definition sized :: "BaseWorker \<Rightarrow> bool" where
  "sized b \<longleftrightarrow> (\<forall>f. selectMessageSize f b \<noteq> None)"

lemma sized_cong: "sizeDistrib b' = sizeDistrib b \<Longrightarrow> cfg b' = cfg b \<Longrightarrow> sized b' = sized b"
  using selectMessageSize_cong [of b' b] by (simp add: sized_def)

lemma nextBody_sized: "sized (core w) \<Longrightarrow> \<exists>body hex. nextBody inp w = Some (body, hex)"
  by (auto simp: sized_def nextBody_def) (metis surj_pair)

text \<open>What each probe leaves in the counters of the worker, when it gets as far as its
  measurement.\<close>

definition flowEffect :: "int \<Rightarrow> BaseWorker \<Rightarrow> BaseWorker" where
  "flowEffect peak b =
     (let b = setOutstanding (floatOfInt peak) (markRan FlowControlRan b)
      in if 1000 < peak then recordFlowControlViolation b else b)"

lemma flowControlProbe_effect:
  assumes "provisions k" "sized (core w)" "\<forall>inp\<in>set (flPubs fl). accepts inp" "2000 \<le> length (flPubs fl)"
    and "flOpenErr fl = None" "flSendErr fl = None" "clampLoop (flEvents fl) 0 = (peak, None)"
  shows "\<exists>ms ts. flowControlProbe getenv k fl w = Some (ms, onBase (flowEffect peak) (w\<lparr>probeTopics := ts\<rparr>))"
proof -
  obtain t p ts where p: "provisionProbe getenv k ''fcprobe'' (AckDeadlineSeconds (GCP (cfg (core w)))) w =
      (Some (t, p), w\<lparr>probeTopics := ts\<rparr>)" using provisionProbe_ok [OF assms(1)] by metis
  obtain body hex where b: "nextBody (flBody fl) (w\<lparr>probeTopics := ts\<rparr>) = Some (body, hex)"
    using nextBody_sized [of "w\<lparr>probeTopics := ts\<rparr>" "flBody fl"] assms(2) by auto
  have "snd (publishBacklog body hex flowControlProbeBacklog 1 (flPubs fl))"
    using publishBacklog_ok assms(3,4) by (simp add: flowControlProbeBacklog_def)
  then show ?thesis using assms(5-)
    by (auto simp: flowControlProbe_def p b split_beta Let_def FlowControlClampProbe_def flowEffect_def onBase_def
        connectorMaxOutstandingCeiling_def)
qed

lemma pullOneAckID_None: "pullOneAckID r = None \<longleftrightarrow> (\<forall>a as. r \<noteq> Inr (a # as))"
  by (auto simp: pullOneAckID_def split: sum.split list.split)

definition leaseHeld :: "leaseIn \<Rightarrow> bool" where
  "leaseHeld le \<longleftrightarrow> leExtend le = None \<and> leHeld le \<and> pullOneAckID (lePullAgain le) = None"

lemma base_frame [simp]:
  "sizeDistrib (bump c n b) = sizeDistrib b" "sizeDistrib (emit m b) = sizeDistrib b"
  "cfg (bump c n b) = cfg b" "cfg (emit m b) = cfg b"
  by (simp_all add: bump_def emit_def)

lemma leaseBody_counts:
  fixes w :: StreamingPullWorker and le :: leaseIn and path a :: string
  defines "b \<equiv> core (snd (snd (leaseBody le path a w)))"
  shows "sizeDistrib b = sizeDistrib (core w)" "cfg b = cfg (core w)"
    "ran b = (ran (core w))(LeaseExtendRan := True)"
    "cnt b LeaseExtendConfirmed = cnt (core w) LeaseExtendConfirmed + (if leaseHeld le then 1 else 0)"
    "cnt b LeaseExtendRejectConfirmed =
       cnt (core w) LeaseExtendRejectConfirmed + (if IsInvalidArgument (leReject le) then 1 else 0)"
    "cnt b FlowControlViolations = cnt (core w) FlowControlViolations"
    "cnt b CrossStreamAckConfirmed = cnt (core w) CrossStreamAckConfirmed"
    "fst (snd (leaseBody le path a w)) \<longleftrightarrow> leExtend le = None \<and> \<not> leHeld le"
  unfolding b_def leaseBody_def Let_def leaseHeld_def
  by (simp_all add: worker_defs markRan_def split: option.splits)

lemma leaseExtendProbe_effect:
  assumes "provisions k" "sized (core w)" "accepts (lePub le)" "lePull le = Inr (a # as)"
  shows "\<exists>ts rs path. leaseExtendProbe getenv k le w = Some (rs, snd (leaseBody le path a (w\<lparr>probeTopics := ts\<rparr>)))"
proof -
  obtain t p ts where p: "provisionProbe getenv k ''leprobe'' (probeDeadline w) w = (Some (t, p), w\<lparr>probeTopics := ts\<rparr>)"
    using provisionProbe_ok [OF assms(1)] by metis
  obtain body hex where b: "nextBody (lePub le) (w\<lparr>probeTopics := ts\<rparr>) = Some (body, hex)"
    using nextBody_sized [of "w\<lparr>probeTopics := ts\<rparr>" "lePub le"] assms(2) by auto
  obtain i where "PublishSync (piSend (lePub le)) body (stampAttrs (piStamp (lePub le)) ''leprobe'' 1 hex) = Inr i"
    using accepts_sync [OF assms(3)] by metis
  then show ?thesis
    by (auto simp: leaseExtendProbe_def p b assms(4) pullOneAckID_def intro!: exI [of _ "fst (leaseBody le p a (w\<lparr>probeTopics := ts\<rparr>))"] exI [of _ ts] exI [of _ p])
qed

definition crossHeld :: "crossIn \<Rightarrow> bool" where
  "crossHeld cr \<longleftrightarrow> crAck cr = None \<and> pullOneAckID (crPullAgain cr) = None"

lemma crossBody_counts:
  fixes w :: StreamingPullWorker and cr :: crossIn and path a :: string
  defines "b \<equiv> core (snd (crossBody cr path a w))"
  shows "ran b = (ran (core w))(CrossStreamAckRan := True)"
    "cnt b c = cnt (core w) c + (if c = CrossStreamAckConfirmed \<and> crossHeld cr then 1 else 0)"
  unfolding b_def crossBody_def Let_def crossHeld_def
  by (simp_all add: worker_defs markRan_def split: option.splits)

lemma crossStreamAckProbe_effect:
  assumes "provisions k" "sized (core w)" "accepts (crPub cr)"
    and "streamOneAckID (crOpenErr cr) (crSendErr cr) (crEvents cr) = Some a"
  shows "\<exists>ts rs path. crossStreamAckProbe getenv k cr w = Some (rs, snd (crossBody cr path a (w\<lparr>probeTopics := ts\<rparr>)))"
proof -
  obtain t p ts where p: "provisionProbe getenv k ''csprobe'' (AckDeadlineSeconds (GCP (cfg (core w)))) w =
      (Some (t, p), w\<lparr>probeTopics := ts\<rparr>)" using provisionProbe_ok [OF assms(1)] by metis
  obtain body hex where b: "nextBody (crPub cr) (w\<lparr>probeTopics := ts\<rparr>) = Some (body, hex)"
    using nextBody_sized [of "w\<lparr>probeTopics := ts\<rparr>" "crPub cr"] assms(2) by auto
  obtain i where "PublishSync (piSend (crPub cr)) body (stampAttrs (piStamp (crPub cr)) ''csprobe'' 1 hex) = Inr i"
    using accepts_sync [OF assms(3)] by metis
  then show ?thesis by (auto simp: crossStreamAckProbe_def Let_def p b assms(4) split_beta)
qed

text \<open>On a cancelled context the probe stops at its first call and leaves the worker alone.\<close>

lemma cross_cancelled: "crossStreamAckProbe getenv (cancelledSdk k) cr w = Some ([], w)"
proof -
  have "ensureTopic (cancelledSdk k) t \<noteq> None" for t
    by (simp add: cancelledSdk_def ensureTopic_def EnsureTopic_def IsAlreadyExists_def)
  then show ?thesis by (simp add: crossStreamAckProbe_def provisionProbe_def Let_def)
qed

text \<open>The snapshot of a single worker, as the probe gates read it.\<close>

lemma snapshot_one:
  assumes "name \<noteq> WorkerFanOut"
  shows "c \<noteq> DeliveryAttemptMax \<Longrightarrow> scnt (groupSnapshot H name [b]) c = cnt b c"
    and "sran (groupSnapshot H name [b]) p = ran b p"
proof -
  have "scnt (fst (fold (snapWorker H) [b] (zeroSnapshot, 0, None))) c = cnt b c" if "c \<noteq> DeliveryAttemptMax"
    using snapWorker_cnt [OF that, of H "[b]" "(zeroSnapshot, 0, None)"] by (simp add: zeroSnapshot_def)
  then show "c \<noteq> DeliveryAttemptMax \<Longrightarrow> scnt (groupSnapshot H name [b]) c = cnt b c"
    using assms by (simp add: groupSnapshot_def finishSnapshot_cnt IsFanoutWorker_def)
  show "sran (groupSnapshot H name [b]) p = ran b p"
    by (simp add: groupSnapshot_def finishSnapshot_def snapWorker_def zeroSnapshot_def Let_def split: prod.split option.split)
qed

text \<open>C33: What the probes conclude from the broker's answers. For a worker with clean counters whose probes are
  all enabled and get as far as their measurement (topics and subscriptions provisioned, messages
  accepted and delivered) and whose context is not cancelled during the hold, no probe gate of
  the verdict fires if and only if the broker streamed at most 1000 messages without an
  acknowledgement, rejected the deadline of five seconds as an invalid argument, extended the
  lease, accepted the acknowledgement from another stream, and neither re-pull returned a
  message; a re-pull that fails counts as one that returned none. When the context is cancelled
  during the hold, the cross-stream probe does not run, its flag stays unset, and the lease gate
  fires although the broker did nothing wrong.\<close>

theorem streaming_probes_judged:
  assumes "cnt (core w) = (\<lambda>_. 0)" "ran (core w) = (\<lambda>_. False)" "spSubClient w" "sized (core w)"
    and "FlowControlProbe (GCP (cfg (core w)))" "LeaseExtendProbe (GCP (cfg (core w)))" "CrossStreamProbe (GCP (cfg (core w)))"
    and "provisions k" "\<forall>inp\<in>set (flPubs fl). accepts inp" "2000 \<le> length (flPubs fl)"
    and "flOpenErr fl = None" "flSendErr fl = None" "flEvents fl = map FcBatch ns @ FcIdle # es" "\<forall>n\<in>set ns. 0 < n"
    and "sum_list ns < 2 ^ 63"
    and "accepts (lePub le)" "lePull le = Inr (a # as)"
  shows "(leHeld le \<and> accepts (crPub cr) \<and> streamOneAckID (crOpenErr cr) (crSendErr cr) (crEvents cr) = Some c \<longrightarrow>
     (\<exists>w'. runProbes getenv k fl le cr w = Some w' \<and>
       (quiet (probeGates WorkerStreamingPull (groupSnapshot H WorkerStreamingPull [core w'])) \<longleftrightarrow>
         sum_list ns \<le> 1000 \<and> IsInvalidArgument (leReject le) \<and> leExtend le = None \<and> crAck cr = None \<and>
         (\<forall>b bs. lePullAgain le \<noteq> Inr (b # bs)) \<and> (\<forall>b bs. crPullAgain cr \<noteq> Inr (b # bs))))) \<and>
   (leExtend le = None \<and> \<not> leHeld le \<longrightarrow>
     (\<exists>w'. runProbes getenv k fl le cr w = Some w' \<and> \<not> ran (core w') CrossStreamAckRan \<and>
       \<not> quiet (probeGates WorkerStreamingPull (groupSnapshot H WorkerStreamingPull [core w']))))"
proof -
  let ?peak = "int (sum_list ns)"
  have "clampLoop (flEvents fl) 0 = (?peak, None)"
    using clampLoop_batches [of ns 0 es] assms(13-15) by simp
  then obtain ms ts where f: "flowControlProbe getenv k fl w = Some (ms, onBase (flowEffect ?peak) (w\<lparr>probeTopics := ts\<rparr>))"
    using flowControlProbe_effect assms by meson
  let ?w1 = "onBase (flowEffect ?peak) (w\<lparr>probeTopics := ts\<rparr>)"
  have c1: "sizeDistrib (core ?w1) = sizeDistrib (core w)" "cfg (core ?w1) = cfg (core w)"
    "ran (core ?w1) = (ran (core w))(FlowControlRan := True)"
    "cnt (core ?w1) x = (if x = FlowControlViolations \<and> 1000 < sum_list ns then 1 else 0)" for x
    using assms(1) by (simp_all add: flowEffect_def Let_def setOutstanding_def markRan_def worker_defs)
  have "sized (core ?w1)" using sized_cong c1(1,2) assms(4) by blast
  then obtain ts2 rs path where l: "leaseExtendProbe getenv k le ?w1 = Some (rs, snd (leaseBody le path a (?w1\<lparr>probeTopics := ts2\<rparr>)))"
    using leaseExtendProbe_effect [of k ?w1 le a as getenv] assms by blast
  let ?w2 = "snd (snd (leaseBody le path a (?w1\<lparr>probeTopics := ts2\<rparr>)))"
  note c2 = leaseBody_counts [of le path a "?w1\<lparr>probeTopics := ts2\<rparr>"]
  have sz: "sized (core ?w2)" using sized_cong [OF c2(1,2)] \<open>sized (core ?w1)\<close> by simp
  have run: "runProbes getenv k fl le cr w =
      map_option snd (crossStreamAckProbe getenv (if leExtend le = None \<and> \<not> leHeld le then cancelledSdk k else k) cr ?w2)"
    using assms(3,5-7) f l by (simp add: runProbes_def Let_def split_beta c2(8))
  note gates = probeGates_def snapshot_one c1 c2 assms(1,2) IsExactlyOnceWorker_def IsDeadLetterWorker_def worker_names
  have "\<exists>w'. runProbes getenv k fl le cr w = Some w' \<and> \<not> ran (core w') CrossStreamAckRan \<and>
      \<not> quiet (probeGates WorkerStreamingPull (groupSnapshot H WorkerStreamingPull [core w']))"
    if "leExtend le = None" "\<not> leHeld le"
    using that by (simp add: run cross_cancelled gates leaseHeld_def del: core_onBase)
  moreover have "\<exists>w'. runProbes getenv k fl le cr w = Some w' \<and>
       (quiet (probeGates WorkerStreamingPull (groupSnapshot H WorkerStreamingPull [core w'])) \<longleftrightarrow>
         sum_list ns \<le> 1000 \<and> IsInvalidArgument (leReject le) \<and> leExtend le = None \<and> crAck cr = None \<and>
         (\<forall>b bs. lePullAgain le \<noteq> Inr (b # bs)) \<and> (\<forall>b bs. crPullAgain cr \<noteq> Inr (b # bs)))"
    if h: "leHeld le" and x: "accepts (crPub cr)" "streamOneAckID (crOpenErr cr) (crSendErr cr) (crEvents cr) = Some c"
  proof -
    obtain ts3 rs' path' where p: "crossStreamAckProbe getenv k cr ?w2 = Some (rs', snd (crossBody cr path' c (?w2\<lparr>probeTopics := ts3\<rparr>)))"
      using crossStreamAckProbe_effect [OF assms(8) sz x, of getenv] by blast
    let ?w3 = "snd (crossBody cr path' c (?w2\<lparr>probeTopics := ts3\<rparr>))"
    note c3 = crossBody_counts [of cr path' c "?w2\<lparr>probeTopics := ts3\<rparr>"]
    have "quiet (probeGates WorkerStreamingPull (groupSnapshot H WorkerStreamingPull [core ?w3])) \<longleftrightarrow>
        \<not> 1000 < sum_list ns \<and> leaseHeld le \<and> IsInvalidArgument (leReject le) \<and> crossHeld cr"
      by (simp add: gates c3 del: core_onBase)
    moreover have "runProbes getenv k fl le cr w = Some ?w3" using h p by (simp add: run)
    ultimately show ?thesis using h by (auto simp: leaseHeld_def crossHeld_def pullOneAckID_None)
  qed
  ultimately show ?thesis by blast
qed

definition demoSdk :: sdk where
  "demoSdk = \<lparr>sdkClient = None, sdkTopic = Inr, sdkSub = (\<lambda>s _. Inr s)\<rparr>"

definition demoFlow :: flowIn where
  "demoFlow = \<lparr>flBody = accepting, flPubs = replicate 2000 accepting, flOpenErr = None, flSendErr = None,
     flEvents = [FcBatch 600, FcBatch 400, FcIdle]\<rparr>"

definition demoLease :: leaseIn where
  "demoLease = \<lparr>lePub = accepting, lePull = Inr [''a1''], leReject = Some (Status InvalidArgument []), leExtend = None,
     leHeld = True, lePullAgain = Inr []\<rparr>"

definition demoCross :: crossIn where
  "demoCross = \<lparr>crPub = accepting, crOpenErr = None, crSendErr = None, crEvents = [RecvBatch [], RecvBatch [''a2'']],
     crAck = None, crPullAgain = Inr []\<rparr>"

lemma demo_probe_simps: "provisions demoSdk" "accepts accepting" "sized (core demoStreaming)"
  by (simp_all add: provisions_def demoSdk_def ensureTopic_def ensureSubscription_def EnsureTopic_def EnsureSubscription_def
      accepts_def accepting_def sized_def selectMessageSize_def)

lemma demo_stream: "streamOneAckID None None [RecvBatch [], RecvBatch [a]] = Some a"
  by (simp add: streamOneAckID_def eval_nat_numeral)

theorem streaming_probes_judged_witness:
  "(\<exists>w'. runProbes (\<lambda>_. []) demoSdk demoFlow demoLease demoCross demoStreaming = Some w' \<and>
     quiet (probeGates WorkerStreamingPull (groupSnapshot \<lparr>hValueAt = \<lambda>_ _. 0, hTotalCount = \<lambda>_. 0\<rparr> WorkerStreamingPull [core w']))) \<and>
   (\<exists>w'. runProbes (\<lambda>_. []) demoSdk demoFlow (demoLease\<lparr>leHeld := False\<rparr>) demoCross demoStreaming = Some w' \<and>
     \<not> quiet (probeGates WorkerStreamingPull (groupSnapshot \<lparr>hValueAt = \<lambda>_ _. 0, hTotalCount = \<lambda>_. 0\<rparr> WorkerStreamingPull [core w'])))"
proof -
  note c = streaming_probes_judged [of demoStreaming demoSdk demoFlow "[600, 400]" "[]" _ "''a1''" "[]" demoCross "''a2''" "\<lambda>_. []"
    "\<lparr>hValueAt = \<lambda>_ _. 0, hTotalCount = \<lambda>_. 0\<rparr>"]
  have s: "cnt (core demoStreaming) = (\<lambda>_. 0)" "ran (core demoStreaming) = (\<lambda>_. False)" by (simp_all add: fun_eq_iff)
  have "streamOneAckID (crOpenErr demoCross) (crSendErr demoCross) (crEvents demoCross) = Some ''a2''"
    by (simp add: demoCross_def demo_stream)
  then show ?thesis
    using c [of demoLease] c [of "demoLease\<lparr>leHeld := False\<rparr>"] s
    by (simp add: demo_probe_simps demoFlow_def demoLease_def demoCross_def DefaultConfig_def defaultGCP_def demo_stream
        IsInvalidArgument_def) blast
qed

text \<open>The deadline the probe asks for is one the broker accepts.\<close>

lemma extendSeconds_range:
  assumes "10 \<le> d" "d \<le> 2 ^ 63 - 31"
  shows "40 \<le> extendSeconds d \<and> extendSeconds d \<le> 600 \<and> i32 (extendSeconds d) = extendSeconds d"
proof -
  have "i64 (d + 30) = d + 30" using assms by (intro i64_id) auto
  then show ?thesis using assms by (simp add: extendSeconds_def Let_def i32_def)
qed

end
