(* ===== verification/Inflight.thy ===== *)
theory Inflight
  imports Streaming
begin

text \<open>
  The worker of \<^verbatim>\<open>worker/inflight_cap.go\<close>: a puller that holds the leases of a large backlog
  without acknowledging, producers that publish a fixed total between them, and the switch
  to draining when the producers stop. The puller reads the draining flag once per pulled
  batch, so the switch can fall between two messages of a batch; the step relation
  \<open>icStep\<close> has one step per message, per switch and per publication.
\<close>

section \<open>The worker\<close>

record InflightCapWorker = SeqWorker +
  icTopicID :: string
  icSubID :: string
  icSubPath :: string
  backlogTarget :: int
  draining :: bool
  released :: instant
  held :: "string list"

definition connectorInflightCap :: int where "connectorInflightCap = 20000"
definition inflightPullBatch :: int where "inflightPullBatch = 100"
definition maxAckDeadlineSeconds :: int where "maxAckDeadlineSeconds = 600"

definition NewInflightCapWorker :: "environ \<Rightarrow> Config \<Rightarrow> int \<Rightarrow> InflightCapWorker option" where
  "NewInflightCapWorker getenv c idx =
     (let topic = TopicName getenv WorkerInflightCap idx;
          sid = SubscriptionName getenv WorkerInflightCap idx;
          target = (let t = InflightBacklogTarget (GCP c) in if t < 1 then connectorInflightCap + 5000 else t)
      in map_option (\<lambda>b. \<lparr>core = b, wseq = 0, icTopicID = topic, icSubID = sid, icSubPath = [], backlogTarget = target,
             draining = False, released = 0, held = []\<rparr>)
           (NewBaseWorker getenv WorkerInflightCap (MappedTopicChannel topic) idx c))"

definition InflightCap_Start :: "sdk \<Rightarrow> rpc_error option \<Rightarrow> InflightCapWorker \<Rightarrow> rpc_error option \<times> InflightCapWorker" where
  "InflightCap_Start k subClientErr w =
     (let (err, w) = startConsuming [sdkClient k, ensureTopic k (icTopicID w),
            ensureSubscription k (icSubID w) (plainSubscription (icTopicID w) maxAckDeadlineSeconds), subClientErr] w
      in (err, if err = None then w\<lparr>icSubPath := SubscriptionPath (psProjectID (psCfg (core w))) (icSubID w)\<rparr> else w))"

section \<open>Pulling\<close>

text \<open>A pulled message with its ack id, whether its acknowledgement failed with a live
  context, and the clock reading after it.\<close>

record pulled = delivery +
  pAckID :: string
  pAckFailed :: bool
  pNano :: instant

definition ackOne :: "bool \<Rightarrow> string \<Rightarrow> InflightCapWorker \<Rightarrow> subRequest list \<times> InflightCapWorker" where
  "ackOne failed ackID w =
     (if ackID = [] then ([], w)
      else ([ReqAck (icSubPath w) [ackID]], if failed then onBase (recordError ''ack_failure'') w else w))"

definition handlePulled :: "bool \<Rightarrow> pulled \<Rightarrow> InflightCapWorker \<Rightarrow> subRequest list \<times> InflightCapWorker" where
  "handlePulled drain rm w =
     (let m = dMsg rm;
          w = onBase (recordReceived (int (length (mData m))) (consumerName w)) w;
          (pid, n, hex, sentAt, ok) = extractMeta (mAttributes m);
          w = (if ok then onBase (\<lambda>b. fst (recordTracked pid n (noteArrival (dNow rm) (mData m) hex sentAt b))) w else w)
      in if \<not> drain then ([], w\<lparr>held := List.insert (pAckID rm) (held w)\<rparr>)
         else
           (let (rs, w) = ackOne (pAckFailed rm) (pAckID rm) w;
                w = onBase recordAcked w
            in (rs, if 0 < released w \<and> released w \<le> pNano rm then onBase recordInflightCapTailRedelivered w else w)))"

fun handlePulledAll :: "bool \<Rightarrow> pulled list \<Rightarrow> InflightCapWorker \<Rightarrow> subRequest list \<times> InflightCapWorker" where
  "handlePulledAll drain [] w = ([], w)"
| "handlePulledAll drain (m # ms) w =
     (let (rs, w) = handlePulled drain m w; (rs', w) = handlePulledAll drain ms w in (rs @ rs', w))"

definition sampleHeld :: "InflightCapWorker \<Rightarrow> InflightCapWorker" where
  "sampleHeld w = onBase (setOutstanding (floatOfInt (int (length (held w))))) w"

record inflightIn =
  iiStop :: bool
  iiErr :: bool
  iiCtxErr :: bool
  iiMsgs :: "pulled list"
  iiWake :: bool

text \<open>One turn of \<^verbatim>\<open>pullLoop\<close> with no switch in between.\<close>

definition pullTurn :: "inflightIn \<Rightarrow> InflightCapWorker \<Rightarrow> flow \<times> subRequest list \<times> InflightCapWorker" where
  "pullTurn inp w =
     (if iiStop inp then (Stop, [], w)
      else if iiErr inp then
        (if iiCtxErr inp then (Stop, [ReqPull (icSubPath w)], w)
         else (if iiWake inp then Next else Stop, [ReqPull (icSubPath w)], onBase (recordError ''receive_failure'') w))
      else if iiMsgs inp = [] then (if iiWake inp then Next else Stop, [ReqPull (icSubPath w)], w)
      else
        (let drain = draining w; (rs, w') = handlePulledAll drain (iiMsgs inp) w
         in (Next, ReqPull (icSubPath w) # rs, if drain then w' else sampleHeld w')))"

definition pullLoop :: "inflightIn list \<Rightarrow> InflightCapWorker \<Rightarrow> flow \<times> subRequest list \<times> InflightCapWorker" where
  "pullLoop inps w = runLoop pullTurn inps (onBase signalReady w)"

section \<open>Producing\<close>

text \<open>The counter is read before the wait for a token and incremented after it; what other
  producers do in between is the input \<open>ipLoaded\<close>.\<close>

record inflightPub = pubIn +
  ipLoaded :: u64
  ipWake :: bool

definition InflightCap_produce :: "int \<Rightarrow> inflightPub \<Rightarrow> InflightCapWorker \<Rightarrow> flow \<times> Msg list \<times> InflightCapWorker" where
  "InflightCap_produce i inp w =
     (if piStop inp then (Stop, [], w)
      else if backlogTarget w \<le> sint (ipLoaded inp) then (if ipWake inp then Next else Stop, [], w)
      else if piRateErr inp then (Stop, [], w)
      else
        (let pid = producerName w i; n = wseq w + 1; w = w\<lparr>wseq := n\<rparr> in
         if backlogTarget w < sint n then (Next, [], w)
         else
           case nextBody (pubIn.truncate inp) w of
             None \<Rightarrow> (Panic, [], w)
           | Some (body, hex) \<Rightarrow>
               (let attrs = stampAttrs (piStamp inp) pid n hex in
                case PublishSync (piSend inp) body attrs of
                  Inl e \<Rightarrow> if piCtxErr inp then (Stop, [], w) else (Next, [], onBase (recordError ''publish_failure'') w)
                | Inr _ \<Rightarrow>
                    (let w = onBase (metricObserveSend (piDur inp)) w
                     in (Next, [mkMsg body attrs], onBase (recordSent (int (length body)) pid) w)))))"

section \<open>Draining\<close>

text \<open>\<open>fails chunk\<close> says that the acknowledgement of a chunk failed with a live context.\<close>

function ackMany :: "(string list \<Rightarrow> bool) \<Rightarrow> string list \<Rightarrow> InflightCapWorker \<Rightarrow> subRequest list \<times> InflightCapWorker" where
  "ackMany fails ids w =
     (if ids = [] then ([], w)
      else
        (let chunk = take 1000 ids;
             w1 = (if fails chunk then onBase (recordError ''ack_failure'') w else w);
             w2 = ((onBase recordAcked) ^^ length chunk) w1;
             (rs, w3) = ackMany fails (drop 1000 ids) w2
         in (ReqAck (icSubPath w) chunk # rs, w3)))"
  by pat_completeness auto
termination by (relation "measure (\<lambda>(_, ids, _). length ids)") auto

declare ackMany.simps [simp del]

text \<open>\<open>order\<close> is the order in which Go ranges over the map of held ids.\<close>

definition InflightCap_StopProducers :: "(string list \<Rightarrow> string list) \<Rightarrow> instant \<Rightarrow> (string list \<Rightarrow> bool) \<Rightarrow> InflightCapWorker \<Rightarrow>
    subRequest list \<times> InflightCapWorker" where
  "InflightCap_StopProducers order now fails w =
     (let w = onBase StopProducers w;
          w = w\<lparr>released := now, draining := True\<rparr>;
          heldIDs = order (held w);
          w = w\<lparr>held := []\<rparr>
      in ackMany fails heldIDs w)"

definition InflightCap_ResetAfterWarmup :: "InflightCapWorker \<Rightarrow> InflightCapWorker" where
  "InflightCap_ResetAfterWarmup w =
     (onBase ResetAfterWarmup w)\<lparr>draining := False, released := 0, wseq := 0, held := []\<rparr>"

definition InflightCap_StopConsumers :: "InflightCapWorker \<Rightarrow> InflightCapWorker" where
  "InflightCap_StopConsumers w =
     (let w = onBase StopConsumers w; lost = TotalLost (trk (core w))
      in if 0 < lost then onBase (recordInflightCapLost lost) w else w)"

section \<open>Interleaving\<close>

text \<open>Where the puller is: between two pulls, or inside a batch with the flag it read.\<close>

datatype puller = Polling | Batch bool "pulled list"

text \<open>The ids delivered and the ids acknowledged so far are recorded beside the state. A
  delivery brings an ack id that is not one of a lease still held, as every delivery of
  the broker does.\<close>

type_synonym icState = "puller \<times> InflightCapWorker \<times> string list \<times> string list"

definition ackedIds :: "subRequest list \<Rightarrow> string list" where
  "ackedIds rs = concat (map (\<lambda>r. case r of ReqAck _ ids \<Rightarrow> ids | _ \<Rightarrow> []) rs)"

inductive icStep :: "icState \<Rightarrow> icState \<Rightarrow> bool" where
  pull: "icStep (Polling, w, D, A) (Batch (draining w) ms, w, D, A)"
| failed: "icStep (Polling, w, D, A) (Polling, onBase (recordError ''receive_failure'') w, D, A)"
| handle: "\<lbrakk>pAckID m \<notin> set (held w); handlePulled drain m w = (rs, w')\<rbrakk> \<Longrightarrow>
    icStep (Batch drain (m # ms), w, D, A) (Batch drain ms, w', D @ [pAckID m], A @ ackedIds rs)"
| finish: "icStep (Batch drain [], w, D, A) (Polling, if drain then w else sampleHeld w, D, A)"
| publish: "InflightCap_produce i inp w = (f, out, w') \<Longrightarrow> icStep (pc, w, D, A) (pc, w', D, A)"
| switch: "\<lbrakk>mset (order (held w)) = mset (held w); InflightCap_StopProducers order now fails w = (rs, w')\<rbrakk> \<Longrightarrow>
    icStep (pc, w, D, A) (pc, w', D, A @ ackedIds rs)"

section \<open>Conservation of deliveries\<close>

lemma held_onBase [simp]: "held (onBase f w) = held w" "draining (onBase f w) = draining w"
  "released (onBase f w) = released w" "backlogTarget (onBase f w) = backlogTarget w" "icSubPath (onBase f w) = icSubPath w"
  by (simp_all add: onBase_def)

lemma ackedIds_simps [simp]: "ackedIds [] = []" "ackedIds (rs @ rs') = ackedIds rs @ ackedIds rs'"
  "ackedIds (ReqAck p ids # rs) = ids @ ackedIds rs"
  by (simp_all add: ackedIds_def)

lemma handlePulled_effect:
  assumes "handlePulled drain m w = (rs, w')"
  shows "cnt (core w') Received = cnt (core w) Received + 1" "draining w' = draining w"
    "cnt (core w') Acked = cnt (core w) Acked + (if drain then 1 else 0)"
    "held w' = (if drain then held w else List.insert (pAckID m) (held w))"
    "ackedIds rs = (if drain \<and> pAckID m \<noteq> [] then [pAckID m] else [])"
  using assms by (auto simp: handlePulled_def ackOne_def handler_simps split: if_splits)

lemma ackAll_funpow:
  "cnt (core ((onBase recordAcked ^^ n) w)) c = cnt (core w) c + (if c = Acked then of_nat n else 0)"
  "held ((onBase recordAcked ^^ n) w) = held w" "draining ((onBase recordAcked ^^ n) w) = draining w"
  by (induction n) (simp_all add: worker_defs)

lemma ackMany_effect:
  "ackMany fails ids w = (rs, w') \<Longrightarrow>
     cnt (core w') Received = cnt (core w) Received \<and> held w' = held w \<and> draining w' = draining w \<and>
     cnt (core w') Acked = cnt (core w) Acked + of_nat (length ids) \<and> ackedIds rs = ids"
proof (induction fails ids w arbitrary: rs w' rule: ackMany.induct)
  case (1 fails ids w)
  show ?case
  proof (cases "ids = []")
    case True
    with 1(2) show ?thesis by (simp add: ackMany.simps)
  next
    case False
    let ?w1 = "if fails (take 1000 ids) then onBase (recordError ''ack_failure'') w else w"
    let ?w2 = "(onBase recordAcked ^^ length (take 1000 ids)) ?w1"
    obtain rs2 w3 where r: "ackMany fails (drop 1000 ids) ?w2 = (rs2, w3)" by (metis surj_pair)
    have e: "rs = ReqAck (icSubPath w) (take 1000 ids) # rs2" "w' = w3"
      using 1(2) False r by (simp_all add: ackMany.simps [of fails ids w] Let_def)
    have len: "(of_nat (length (take 1000 ids)) :: u64) + of_nat (length (drop 1000 ids)) = of_nat (length ids)"
      unfolding of_nat_add [symmetric] length_append [symmetric] append_take_drop_id ..
    show ?thesis using 1(1) [OF False refl refl refl r] e len
      by (simp add: ackAll_funpow worker_defs add.assoc del: length_take length_drop)
  qed
qed

lemma StopProducers_effect:
  assumes "InflightCap_StopProducers order now fails w = (rs, w')" "mset (order (held w)) = mset (held w)"
  shows "cnt (core w') Received = cnt (core w) Received" "held w' = []" "draining w'"
    "cnt (core w') Acked = cnt (core w) Acked + of_nat (length (held w))" "set (ackedIds rs) = set (held w)"
proof -
  have "length (order (held w)) = length (held w)" "set (order (held w)) = set (held w)"
    using assms(2) by (metis size_mset, metis set_mset_mset)
  with ackMany_effect [OF assms(1) [unfolded InflightCap_StopProducers_def Let_def]]
  show "cnt (core w') Received = cnt (core w) Received" "held w' = []" "draining w'"
    "cnt (core w') Acked = cnt (core w) Acked + of_nat (length (held w))" "set (ackedIds rs) = set (held w)"
    by (simp_all add: StopProducers_def)
qed

lemma inflight_produce_frame:
  assumes "InflightCap_produce i inp w = (f, out, w')"
  shows "cnt (core w') Received = cnt (core w) Received" "cnt (core w') Acked = cnt (core w) Acked"
    "held w' = held w" "draining w' = draining w"
  using assms
  by (auto simp: InflightCap_produce_def Let_def metricObserveSend_def worker_defs split: if_splits option.splits sum.splits)

fun icInv :: "icState \<Rightarrow> bool" where
  "icInv (pc, w, D, A) \<longleftrightarrow> distinct (held w) \<and>
     cnt (core w) Received = cnt (core w) Acked + of_nat (length (held w)) \<and>
     set D - {[]} \<subseteq> set A \<union> set (held w) \<and> set (held w) \<subseteq> set D"

lemma icStep_inv:
  assumes "icStep s s'" "icInv s"
  shows "icInv s'"
  using assms
proof (induction rule: icStep.induct)
  case (handle m w drain rs w' ms D A)
  show ?case using handle(1,3) handlePulled_effect [OF handle(2)]
    by (cases drain) (auto simp: algebra_simps)
next
  case (publish i inp w f out w' pc D A)
  then show ?case using inflight_produce_frame [OF publish(1)] by simp
next
  case (switch order w now fails rs w' pc D A)
  then show ?case using StopProducers_effect [OF switch(2,1)] by auto
qed (auto simp: worker_defs sampleHeld_def setOutstanding_def)

lemma icStep_run: "rtranclp icStep s s' \<Longrightarrow> icInv s \<Longrightarrow> icInv s'"
  by (induction rule: rtranclp_induct) (auto intro: icStep_inv)

text \<open>C15: No delivery is dropped. Along every interleaving of pulled batches, publications and
  switches to draining, the received counter is the acked counter plus the number of leases
  held, and every delivered ack id has been acknowledged or is still held.\<close>

theorem inflight_conservation:
  assumes "rtranclp icStep (Polling, w0, [], []) (pc, w, D, A)"
    and "held w0 = []" "cnt (core w0) Received = cnt (core w0) Acked"
  shows "cnt (core w) Received = cnt (core w) Acked + of_nat (length (held w)) \<and>
    set D - {[]} \<subseteq> set A \<union> set (held w)"
  using icStep_run [OF assms(1)] assms(2,3) by simp

definition demoInflight :: InflightCapWorker where
  "demoInflight = \<lparr>core = demoBase WorkerInflightCap, wseq = 0, icTopicID = ''t'', icSubID = ''s'', icSubPath = ''p'',
     backlogTarget = 3, draining = False, released = 0, held = []\<rparr>"

lemma demoInflight_simps [simp]:
  "cnt (core demoInflight) c = 0" "held demoInflight = []" "draining demoInflight = False" "wseq demoInflight = 0"
  "backlogTarget demoInflight = 3"
  by (simp_all add: demoInflight_def demoBase_def anyWorker_def NewBaseWorker_def GetWorkerConfig_def DefaultConfig_def
      Let_def worker_names)

definition demoPulled :: "string \<Rightarrow> u64 \<Rightarrow> pulled" where
  "demoPulled a n = \<lparr>dMsg = demoMsg ''p'' n, dNow = 0, pAckID = a, pAckFailed = False, pNano = 0\<rparr>"

theorem inflight_conservation_witness:
  "\<exists>w. rtranclp icStep (Polling, demoInflight, [], []) (Batch False [], w, [''a1''], []) \<and> ''a1'' \<in> set (held w)"
proof -
  obtain rs w where h: "handlePulled False (demoPulled ''a1'' 1) demoInflight = (rs, w)" by (metis surj_pair)
  then have "ackedIds rs = []" using handlePulled_effect(5) [OF h] by simp
  have "icStep (Polling, demoInflight, [], []) (Batch False [demoPulled ''a1'' 1], demoInflight, [], [])"
    using icStep.pull [of demoInflight] by simp
  moreover have "icStep (Batch False [demoPulled ''a1'' 1], demoInflight, [], []) (Batch False [], w, [''a1''], [])"
    using icStep.handle [OF _ h, of "[]" "[]" "[]"] \<open>ackedIds rs = []\<close> by (simp add: demoPulled_def)
  ultimately have r: "rtranclp icStep (Polling, demoInflight, [], []) (Batch False [], w, [''a1''], [])" by simp
  from inflight_conservation [OF r] r show ?thesis by auto
qed

section \<open>The switch inside a batch\<close>

lemma handlePulledAll_drain: "handlePulledAll True ms w = (rs, w') \<Longrightarrow> held w' = held w"
proof (induction ms arbitrary: w rs w')
  case (Cons m ms)
  obtain r1 w1 where h: "handlePulled True m w = (r1, w1)" by (metis surj_pair)
  obtain r2 w2 where t: "handlePulledAll True ms w1 = (r2, w2)" by (metis surj_pair)
  show ?case using Cons.prems Cons.IH [OF t] handlePulled_effect(4) [OF h] by (simp add: h t)
qed simp

text \<open>A lease can be left behind. When the producers are stopped while the puller is inside a
  batch it started before, the rest of the batch is held although the worker is draining
  by then, the id is never acknowledged, and no later batch releases it.\<close>

theorem switched_batch_leaks:
  fixes m :: pulled
  assumes "\<not> draining w" "held w = []" "pAckID m \<noteq> []"
  shows "\<exists>w'. rtranclp icStep (Polling, w, D, A) (Polling, w', D @ [pAckID m], A) \<and> draining w' \<and> held w' = [pAckID m] \<and>
    (\<forall>ms. held (snd (handlePulledAll (draining w') ms w')) = [pAckID m])"
proof -
  obtain rs w1 where s: "InflightCap_StopProducers id 1 (\<lambda>_. False) w = (rs, w1)" by (metis surj_pair)
  note s' = StopProducers_effect [OF s]
  obtain rs2 w2 where h: "handlePulled False m w1 = (rs2, w2)" by (metis surj_pair)
  note h' = handlePulled_effect [OF h]
  have p1: "icStep (Polling, w, D, A) (Batch False [m], w, D, A)" using icStep.pull [of w] assms(1) by simp
  have p2: "icStep (Batch False [m], w, D, A) (Batch False [m], w1, D, A)"
    using icStep.switch [OF _ s, of "Batch False [m]" D A] s'(5) assms(2) by simp
  have p3: "icStep (Batch False [m], w1, D, A) (Batch False [], w2, D @ [pAckID m], A)"
    using icStep.handle [OF _ h, of "[]" D A] s'(2) assms(2) h'(5) by simp
  have p4: "icStep (Batch False [], w2, D @ [pAckID m], A) (Polling, sampleHeld w2, D @ [pAckID m], A)"
    using icStep.finish [of False w2 "D @ [pAckID m]" A] by simp
  from p1 p2 p3 p4 have "rtranclp icStep (Polling, w, D, A) (Polling, sampleHeld w2, D @ [pAckID m], A)"
    by (meson rtranclp.rtrancl_into_rtrancl r_into_rtranclp)
  moreover have d: "draining (sampleHeld w2)" "held (sampleHeld w2) = [pAckID m]"
    using s'(2,3) assms(2) h'(2,4) by (simp_all add: sampleHeld_def)
  moreover have "held (snd (handlePulledAll True ms (sampleHeld w2))) = [pAckID m]" for ms
    using handlePulledAll_drain d(2) by (metis surj_pair snd_conv)
  ultimately show ?thesis by auto
qed

theorem switched_batch_leaks_witness:
  "\<exists>w'. rtranclp icStep (Polling, demoInflight, [], []) (Polling, w', [''a1''], []) \<and> draining w' \<and> held w' = [''a1'']"
  using switched_batch_leaks [of demoInflight "demoPulled ''a1'' 1" "[]" "[]"] by (auto simp: demoPulled_def)

section \<open>The published backlog\<close>

definition seqOf :: "Msg \<Rightarrow> u64" where
  "seqOf m = (case extractMeta (mAttributes m) of (_, n, _) \<Rightarrow> n)"

lemma seqOf_stamp [simp]: "seqOf (mkMsg body (stampAttrs now pid n hex)) = n"
  by (simp add: seqOf_def mkMsg_def extractMeta_def stampAttrs_def attrGet_def attr_names ParseUint_FormatUint Let_def)

text \<open>A run of several producers: which one moves and what it meets. A producer that has
  stopped no longer occurs.\<close>

fun produceRun :: "(int \<times> inflightPub) list \<Rightarrow> InflightCapWorker \<Rightarrow> Msg list \<times> InflightCapWorker" where
  "produceRun [] w = ([], w)"
| "produceRun ((i, inp) # xs) w =
     (let (_, out, w) = InflightCap_produce i inp w; (out', w) = produceRun xs w in (out @ out', w))"

lemma backlog_step:
  assumes "InflightCap_produce i inp w = (f, out, w')"
  shows "(out = [] \<and> wseq w' \<in> {wseq w, wseq w + 1} \<or>
      wseq w' = wseq w + 1 \<and> sint (wseq w + 1) \<le> backlogTarget w \<and> (\<exists>m. out = [m] \<and> seqOf m = wseq w + 1)) \<and>
    backlogTarget w' = backlogTarget w \<and> cnt (core w') Sent = cnt (core w) Sent + of_nat (length out)"
  using assms
  by (auto simp: InflightCap_produce_def Let_def metricObserveSend_def worker_defs split: if_splits option.splits sum.splits)

lemma backlog_run:
  assumes "unat (wseq w) + length xs < 2 ^ 63" "produceRun xs w = (out, w')"
  shows "sorted_wrt (<) (map (unat \<circ> seqOf) out) \<and>
    (\<forall>m\<in>set out. unat (wseq w) < unat (seqOf m) \<and> int (unat (seqOf m)) \<le> backlogTarget w) \<and>
    cnt (core w') Sent = cnt (core w) Sent + of_nat (length out)"
  using assms
proof (induction xs arbitrary: w out)
  case (Cons x xs)
  obtain i inp where x: "x = (i, inp)" by force
  obtain f o1 w1 where p: "InflightCap_produce i inp w = (f, o1, w1)" by (metis prod_cases3)
  obtain o2 where r: "produceRun xs w1 = (o2, w')" and out: "out = o1 @ o2"
    using Cons.prems(2) by (auto simp: x p split_beta Let_def prod_eq_iff)
  have n: "unat (wseq w + 1) = unat (wseq w) + 1" "sint (wseq w + 1) = int (unat (wseq w) + 1)"
  proof -
    show "unat (wseq w + 1) = unat (wseq w) + 1" using Cons.prems(1) by (simp add: unat_word_ariths)
    then show "sint (wseq w + 1) = int (unat (wseq w) + 1)"
      using Cons.prems(1) sint_small [of "wseq w + 1"] by simp
  qed
  have u: "uint (wseq w + 1) = 1 + uint (wseq w)"
    using arg_cong [OF n(1), of int] by simp
  note s = backlog_step [OF p]
  have "unat (wseq w) \<le> unat (wseq w1)" "unat (wseq w1) \<le> unat (wseq w) + 1" using s n(1) by auto
  with Cons.IH [OF _ r] Cons.prems(1) s n u show ?case by (auto simp: out add.assoc)
qed simp

text \<open>The backlog is bounded and its numbers are unique. Whatever the interleaving of the
  producers, and whatever another producer did between a producer's look at the counter and
  its increment, the accepted messages carry strictly increasing numbers between one and the
  backlog target, so no more than the target are published, and each is counted as sent.\<close>

theorem inflight_backlog_bounded:
  assumes "wseq w = 0" "length xs < 2 ^ 63" "produceRun xs w = (out, w')"
  shows "sorted_wrt (<) (map (unat \<circ> seqOf) out) \<and>
    (\<forall>m\<in>set out. 1 \<le> unat (seqOf m) \<and> int (unat (seqOf m)) \<le> backlogTarget w) \<and>
    int (length out) \<le> max 0 (backlogTarget w) \<and>
    cnt (core w') Sent = cnt (core w) Sent + of_nat (length out)"
proof -
  note r = backlog_run [OF _ assms(3)]
  have s: "sorted_wrt (<) (map (unat \<circ> seqOf) out)"
    and b: "\<forall>m\<in>set out. 1 \<le> unat (seqOf m) \<and> int (unat (seqOf m)) \<le> backlogTarget w"
    and c: "cnt (core w') Sent = cnt (core w) Sent + of_nat (length out)"
    using r assms by auto
  have "set (map (unat \<circ> seqOf) out) \<subseteq> {1..nat (backlogTarget w)}"
  proof
    fix n assume "n \<in> set (map (unat \<circ> seqOf) out)"
    then obtain m where "m \<in> set out" "n = unat (seqOf m)" by auto
    with b have "1 \<le> n" "int n \<le> backlogTarget w" by blast+
    then show "n \<in> {1..nat (backlogTarget w)}" by simp
  qed
  then have "length out \<le> nat (backlogTarget w)"
    using card_mono [of "{1..nat (backlogTarget w)}" "set (map (unat \<circ> seqOf) out)"]
      distinct_card [of "map (unat \<circ> seqOf) out"] s by (simp add: strict_sorted_iff)
  then show ?thesis using s b c by linarith
qed

definition demoInflightPub :: "u64 \<Rightarrow> inflightPub" where
  "demoInflightPub n = pubIn.extend accepting \<lparr>ipLoaded = n, ipWake = True\<rparr>"

theorem inflight_backlog_bounded_witness:
  "int (length (fst (produceRun (replicate 10 (0, demoInflightPub 0)) demoInflight))) \<le> 3"
proof -
  obtain out w' where e: "produceRun (replicate 10 (0, demoInflightPub 0)) demoInflight = (out, w')" by (metis surj_pair)
  from inflight_backlog_bounded [OF _ _ e] show ?thesis by (simp add: e)
qed

end
