(* ===== verification/Seek.thy ===== *)
theory Seek
  imports Inflight
begin

text \<open>
  The worker of \<^verbatim>\<open>worker/seek_snapshot.go\<close>: rounds that publish a baseline, take a snapshot or
  a time, publish a replay set, seek back and count what is delivered again. A round is
  sequential; it takes what each of its loops meets as a list of inputs. \<open>Next\<close> is a return
  without error, \<open>Stop\<close> a return with an error (or a loop that was still running when its
  inputs ended), \<open>Panic\<close> the panic of the size draw.
\<close>

section \<open>The worker\<close>

record SeekSnapshotWorker = WorkerCore +
  skTopicID :: string
  skSubID :: string
  snapshotID :: string
  skSubPath :: string

definition drainQuiescentPolls :: nat where "drainQuiescentPolls = 5"
definition seekReplayBoundaryPct :: float64 where "seekReplayBoundaryPct = Fin (1 / 2)"

definition NewSeekSnapshotWorker :: "environ \<Rightarrow> Config \<Rightarrow> int \<Rightarrow> SeekSnapshotWorker option" where
  "NewSeekSnapshotWorker getenv c idx =
     (let topic = TopicName getenv WorkerSeekSnapshot idx
      in map_option (\<lambda>b. \<lparr>core = b, skTopicID = topic, skSubID = SubscriptionName getenv WorkerSeekSnapshot idx,
             snapshotID = SnapshotName getenv WorkerSeekSnapshot idx, skSubPath = []\<rparr>)
           (NewBaseWorker getenv WorkerSeekSnapshot (MappedTopicChannel topic) idx c))"

definition SeekSnapshot_Start :: "sdk \<Rightarrow> rpc_error option \<Rightarrow> SeekSnapshotWorker \<Rightarrow> rpc_error option \<times> SeekSnapshotWorker" where
  "SeekSnapshot_Start k subClientErr w =
     (let (err, w) = startConsuming [sdkClient k, ensureTopic k (skTopicID w),
            ensureSubscription k (skSubID w) (plainSubscription (skTopicID w) (AckDeadlineSeconds (GCP (cfg (core w))))),
            subClientErr] w
      in if err \<noteq> None then (err, w)
         else (None, onBase signalReady
                 (w\<lparr>skSubPath := ''projects/'' @ psProjectID (psCfg (core w)) @ ''/subscriptions/'' @ skSubID w\<rparr>)))"

definition replayCount :: "SeekSnapshotWorker \<Rightarrow> int" where
  "replayCount w = (let n = SeekReplayCount (GCP (cfg (core w))) in if n < 1 then 1 else n)"

definition baselineCount :: "SeekSnapshotWorker \<Rightarrow> int" where
  "baselineCount w = (let n = go_quot (replayCount w) 10 in if n < 5 then 5 else n)"

section \<open>Publishing\<close>

definition publishOne :: "string \<Rightarrow> u64 \<Rightarrow> pubIn \<Rightarrow> SeekSnapshotWorker \<Rightarrow> flow \<times> Msg list \<times> SeekSnapshotWorker" where
  "publishOne producerID n inp w =
     (if piRateErr inp then (Stop, [], w)
      else
        case nextBody inp w of
          None \<Rightarrow> (Panic, [], w)
        | Some (body, hex) \<Rightarrow>
            (let attrs = stampAttrs (piStamp inp) producerID n hex in
             case PublishSync (piSend inp) body attrs of
               Inl e \<Rightarrow> (Stop, [], if piCtxErr inp then w else onBase (recordError ''publish_failure'') w)
             | Inr _ \<Rightarrow>
                 (Next, [mkMsg body attrs],
                  onBase (\<lambda>b. recordSent (int (length body)) producerID (metricObserveSend (piDur inp) b)) w)))"

text \<open>The loop of \<open>k\<close> publications from the number after \<open>n\<close>, which returns the last number.\<close>

fun publishSet :: "string \<Rightarrow> nat \<Rightarrow> u64 \<Rightarrow> pubIn list \<Rightarrow> SeekSnapshotWorker \<Rightarrow> flow \<times> Msg list \<times> u64 \<times> SeekSnapshotWorker" where
  "publishSet pid 0 n inps w = (Next, [], n, w)"
| "publishSet pid (Suc k) n [] w = (Stop, [], n, w)"
| "publishSet pid (Suc k) n (inp # inps) w =
     (if piStop inp then (Stop, [], n, w)
      else
        case publishOne pid (n + 1) inp w of
          (Next, out, w) \<Rightarrow> (let (f, out', n', w) = publishSet pid k (n + 1) inps w in (f, out @ out', n', w))
        | (f, out, w) \<Rightarrow> (f, out, n + 1, w))"

section \<open>Draining\<close>

record seekMsg = delivery +
  smAckID :: string

text \<open>One turn of a drain: cancelled before the pull, the answer to the pull, cancelled after a
  failed call, whether a pause was slept to its end, whether the acknowledgement failed.\<close>

record drainIn =
  diStop :: bool
  diPull :: "rpc_error + seekMsg list"
  diCtxErr :: bool
  diWake :: bool
  diAckErr :: bool

definition pullOnce :: "drainIn \<Rightarrow> SeekSnapshotWorker \<Rightarrow> (seekMsg list \<times> string list) option \<times> SeekSnapshotWorker" where
  "pullOnce inp w =
     (case diPull inp of
        Inl e \<Rightarrow> (None, if diCtxErr inp then w else onBase (recordError ''receive_failure'') w)
      | Inr rms \<Rightarrow> (Some (rms, map smAckID rms), w))"

definition consumeReceived :: "string \<Rightarrow> string \<Rightarrow> seekMsg \<Rightarrow> SeekSnapshotWorker \<Rightarrow> SeekSnapshotWorker" where
  "consumeReceived expectedProducer consumerID rm w =
     (let m = dMsg rm;
          w = onBase (recordReceived (int (length (mData m))) consumerID) w;
          (pid, n, hex, sentAt, ok) = extractMeta (mAttributes m)
      in if \<not> ok then w
         else
           (let w = onBase (noteArrival (dNow rm) (mData m) hex sentAt) w
            in if pid = expectedProducer then onBase (\<lambda>b. fst (recordTracked pid n b)) w else w))"

definition ackBatch :: "drainIn \<Rightarrow> string list \<Rightarrow> SeekSnapshotWorker \<Rightarrow> bool \<times> SeekSnapshotWorker" where
  "ackBatch inp ackIDs w =
     (if ackIDs = [] then (True, w)
      else if diAckErr inp then (False, if diCtxErr inp then w else onBase (recordError ''ack_failure'') w)
      else (True, ((onBase recordAcked) ^^ length ackIDs) w))"

text \<open>The body the two drains share: the outcome of one turn is a return, or the new count of
  messages and of empty polls.\<close>

definition drainTurn :: "string \<Rightarrow> string \<Rightarrow> drainIn \<Rightarrow> u64 \<Rightarrow> nat \<Rightarrow> SeekSnapshotWorker \<Rightarrow>
    flow option \<times> u64 \<times> nat \<times> SeekSnapshotWorker" where
  "drainTurn pid cid inp got emptyPolls w =
     (if diStop inp then (Some Stop, got, emptyPolls, w)
      else
        case pullOnce inp w of
          (None, w) \<Rightarrow> (Some Stop, got, emptyPolls, w)
        | (Some (msgs, ackIDs), w) \<Rightarrow>
            if msgs = [] then
              (let n = Suc emptyPolls in
               if drainQuiescentPolls < n then (Some Next, got, n, w)
               else if \<not> diWake inp then (Some Stop, got, n, w)
               else (None, got, n, w))
            else
              (let w = fold (consumeReceived pid cid) msgs w;
                   got = got + of_nat (length msgs);
                   (ok, w) = ackBatch inp ackIDs w
               in if ok then (None, got, 0, w) else (Some Stop, got, 0, w)))"

fun drainAck :: "string \<Rightarrow> int \<Rightarrow> drainIn list \<Rightarrow> u64 \<Rightarrow> nat \<Rightarrow> SeekSnapshotWorker \<Rightarrow> flow \<times> u64 \<times> SeekSnapshotWorker" where
  "drainAck pid want inps got emptyPolls w =
     (if \<not> got < word_of_int want then (Next, got, w)
      else
        case inps of
          [] \<Rightarrow> (Stop, got, w)
        | inp # inps \<Rightarrow>
            (case drainTurn pid (''c-drain-'' @ channelName (core w)) inp got emptyPolls w of
               (Some f, got, _, w) \<Rightarrow> (f, got, w)
             | (None, got, e, w) \<Rightarrow> drainAck pid want inps got e w))"

declare drainAck.simps [simp del]

fun drainReplay :: "string \<Rightarrow> drainIn list \<Rightarrow> u64 \<Rightarrow> nat \<Rightarrow> SeekSnapshotWorker \<Rightarrow> flow \<times> u64 \<times> SeekSnapshotWorker" where
  "drainReplay pid [] observed emptyPolls w = (Stop, observed, w)"
| "drainReplay pid (inp # inps) observed emptyPolls w =
     (case drainTurn pid (''c-replay-'' @ channelName (core w)) inp observed emptyPolls w of
        (Some f, observed, _, w) \<Rightarrow> (f, observed, w)
      | (None, observed, e, w) \<Rightarrow> drainReplay pid inps observed e w)"

section \<open>Rounds\<close>

definition replayTolerance :: "u64 \<Rightarrow> u64" where
  "replayTolerance expected =
     of_nat (truncNat (fdiv (fmul (floatOfU64 expected) seekReplayBoundaryPct) (Fin 100))) + 2"

definition assertReplayCount :: "u64 \<Rightarrow> u64 \<Rightarrow> SeekSnapshotWorker \<Rightarrow> SeekSnapshotWorker" where
  "assertReplayCount expected observed w =
     (let diff = (if expected \<le> observed then observed - expected else expected - observed)
      in if replayTolerance expected < diff then onBase recordSeekReplayMismatch w else w)"

text \<open>What the round asks of the broker beside pulling and acknowledging.\<close>

datatype seekOp = Published Msg | SnapshotDeleted string | SnapshotCreated string | SnapshotListed string
  | SoughtSnapshot string | SoughtTime instant

record roundIn =
  roBaseline :: "pubIn list"
  roBaselineDrain :: "drainIn list"
  roT0 :: instant
  roBeat :: bool
  roCreateErr :: "rpc_error option"
  roReplay :: "pubIn list"
  roReplayDrain :: "drainIn list"
  roSeekErr :: "rpc_error option"
  roSeekDrain :: "drainIn list"

definition roundProducer :: "int \<Rightarrow> SeekSnapshotWorker \<Rightarrow> string" where
  "roundProducer r w = ''seek-r'' @ FormatInt r @ ''-'' @ FormatInt (channelIndex (core w))"

text \<open>Step 2 of the round; the deletion before and the listing after are only logged.\<close>

definition takeCursor :: "roundIn \<Rightarrow> bool \<Rightarrow> SeekSnapshotWorker \<Rightarrow> bool \<times> seekOp list" where
  "takeCursor inp useTime w =
     (if useTime then (roBeat inp, [])
      else if roCreateErr inp \<noteq> None then (False, [SnapshotDeleted (snapshotID w), SnapshotCreated (snapshotID w)])
      else (True, [SnapshotDeleted (snapshotID w), SnapshotCreated (snapshotID w), SnapshotListed (snapshotID w)]))"

text \<open>Steps 4 and 5.\<close>

definition seekAndCount :: "roundIn \<Rightarrow> string \<Rightarrow> bool \<Rightarrow> SeekSnapshotWorker \<Rightarrow> flow \<times> seekOp list \<times> SeekSnapshotWorker" where
  "seekAndCount inp pid useTime w =
     (let expected = word_of_int (replayCount w);
          ops = [if useTime then SoughtTime (roT0 inp) else SoughtSnapshot (snapshotID w)]
      in if roSeekErr inp \<noteq> None then (Stop, ops, w)
         else
           case drainReplay pid (roSeekDrain inp) 0 0 w of
             (Next, observed, w) \<Rightarrow>
               (let w = onBase (recordSeekReplayExpected expected) w;
                    w = onBase (recordSeekReplayObserved observed) w;
                    w = assertReplayCount expected observed w
                in (Next, ops @ (if useTime then [] else [SnapshotDeleted (snapshotID w)]), w))
           | (f, _, w) \<Rightarrow> (f, ops, w))"

text \<open>Steps 3 to 5, and the whole round.\<close>

definition replayPhase :: "roundIn \<Rightarrow> string \<Rightarrow> int \<Rightarrow> bool \<Rightarrow> u64 \<Rightarrow> SeekSnapshotWorker \<Rightarrow>
    flow \<times> seekOp list \<times> SeekSnapshotWorker" where
  "replayPhase inp pid replay useTime n w =
     (case publishSet pid (nat replay) n (roReplay inp) w of
        (Next, out, _, w) \<Rightarrow>
          (case drainAck pid replay (roReplayDrain inp) 0 0 w of
             (Next, _, w) \<Rightarrow> (let (f, ops, w) = seekAndCount inp pid useTime w in (f, map Published out @ ops, w))
           | (f, _, w) \<Rightarrow> (f, map Published out, w))
      | (f, out, _, w) \<Rightarrow> (f, map Published out, w))"

definition runRound :: "roundIn \<Rightarrow> int \<Rightarrow> bool \<Rightarrow> SeekSnapshotWorker \<Rightarrow> flow \<times> seekOp list \<times> SeekSnapshotWorker" where
  "runRound inp r useTime w =
     (let pid = roundProducer r w; baseline = baselineCount w; replay = replayCount w in
      case publishSet pid (nat baseline) 0 (roBaseline inp) w of
        (Next, out, n, w) \<Rightarrow>
          (case drainAck pid baseline (roBaselineDrain inp) 0 0 w of
             (Next, _, w) \<Rightarrow>
               (let (ok, ops) = takeCursor inp useTime w in
                if \<not> ok then (Stop, map Published out @ ops, w)
                else (let (f, ops', w) = replayPhase inp pid replay useTime n w in (f, map Published out @ ops @ ops', w)))
           | (f, _, w) \<Rightarrow> (f, map Published out, w))
      | (f, out, _, w) \<Rightarrow> (f, map Published out, w))"

record roundTurn =
  rtStop :: bool
  rtRound :: roundIn
  rtCtxErr :: bool
  rtWake :: bool

definition roundStep :: "roundTurn \<Rightarrow> int \<times> SeekSnapshotWorker \<Rightarrow> flow \<times> seekOp list \<times> int \<times> SeekSnapshotWorker" where
  "roundStep inp s =
     (let (r, w) = s in
      if rtStop inp then (Stop, [], r, w)
      else
        (let (f, ops, w) = runRound (rtRound inp) r (r mod 2 = 0) w in
         case f of
           Next \<Rightarrow> (Next, ops, i64 (r + 1), w)
         | Panic \<Rightarrow> (Panic, ops, r, w)
         | Stop \<Rightarrow> if rtCtxErr inp \<or> \<not> rtWake inp then (Stop, ops, r, w) else (Next, ops, i64 (r + 1), w)))"

definition roundLoop :: "roundTurn list \<Rightarrow> SeekSnapshotWorker \<Rightarrow> flow \<times> seekOp list \<times> int \<times> SeekSnapshotWorker" where
  "roundLoop inps w = runLoop roundStep inps (1, w)"

definition SeekSnapshot_StopConsumers :: "SeekSnapshotWorker \<Rightarrow> seekOp list \<times> SeekSnapshotWorker" where
  "SeekSnapshot_StopConsumers w = ([SnapshotDeleted (snapshotID w)], onBase StopConsumers w)"

section \<open>The tolerance\<close>

lemma replayTolerance_exact:
  assumes "unat n < 2 ^ 44"
  shows "replayTolerance n = of_nat (unat n div 200) + 2"
proof (cases "unat n = 0")
  case True
  then have "n = 0" by (simp add: unat_eq_zero)
  then show ?thesis by (simp add: replayTolerance_def seekReplayBoundaryPct_def fmul_def fdiv_def truncNat_def)
next
  case False
  let ?n = "unat n" and ?k = "unat n div 200"
  let ?q = "of_nat ?n / 200 :: rat"
  have h: "roundF (of_nat ?n * (1 / 2)) = Fin (of_nat ?n / 2)"
    using roundF_dyadic [of "int ?n" 1] False assms by (simp del: of_nat_unat)
  have "200 * ?k \<le> ?n" by simp
  then have "200 * of_nat ?k \<le> (of_nat ?n :: rat)"
    using of_nat_mono [of "200 * ?k" ?n, where 'a = rat] by (simp del: of_nat_unat)
  then have lo: "of_nat ?k \<le> ?q" by (simp add: le_divide_eq mult.commute)
  have "?n \<le> 200 * ?k + 199" by linarith
  then have "256 * of_nat ?n \<le> (200 * (256 * of_nat ?k + 255) :: rat)"
    using of_nat_mono [of "256 * ?n" "200 * (256 * ?k + 255)", where 'a = rat] by simp
  then have hi: "?q \<le> of_int (256 * int ?k + 255) / 2 ^ 8" by (simp add: field_simps del: of_nat_unat)
  have "256 * int ?k + 255 < 2 ^ 53" using assms by (simp add: zdiv_int [symmetric] del: of_nat_unat)
  then have v: "roundF (of_int (256 * int ?k + 255) / 2 ^ 8) = Fin (of_int (256 * int ?k + 255) / 2 ^ 8)"
    by (intro roundF_dyadic) auto
  have q0: "0 \<le> ?q" by (simp del: of_nat_unat)
  obtain x where x: "roundF ?q = Fin x" "x \<le> of_int (256 * int ?k + 255) / 2 ^ 8"
    using roundF_mono [OF q0 hi v] by blast
  have k: "roundF (of_nat ?k) = Fin (of_nat ?k)" using roundF_int [of "int ?k"] assms by (simp del: of_nat_unat)
  have "of_nat ?k \<le> x"
    using roundF_mono [OF _ lo x(1)] k by auto
  then have "\<lfloor>x\<rfloor> = int ?k" using x(2) by (intro floor_unique) (simp_all add: field_simps del: of_nat_unat)
  then show ?thesis using assms h x(1)
    by (simp add: replayTolerance_def seekReplayBoundaryPct_def fmul_def fdiv_def truncNat_def)
qed

section \<open>When a drain returns\<close>

text \<open>Specified by the polls alone: how many messages they delivered, and how many of the last ones were empty.
  A drain returns without an error with the first poll after which six in a row were empty, or
  after which the wanted number of messages has come, provided every poll up to there was
  answered and its messages acknowledged, and every pause between polls slept to its end.\<close>

definition messages :: "drainIn list \<Rightarrow> nat" where
  "messages inps = length (concat (map (\<lambda>i. case diPull i of Inr ms \<Rightarrow> ms | Inl _ \<Rightarrow> []) inps))"

definition emptyRun :: "drainIn list \<Rightarrow> nat" where
  "emptyRun inps = length (takeWhile (\<lambda>i. diPull i = Inr []) (rev inps))"

definition answered :: "drainIn \<Rightarrow> bool" where
  "answered i \<longleftrightarrow> \<not> diStop i \<and> (\<exists>ms. diPull i = Inr ms \<and> (ms \<noteq> [] \<longrightarrow> \<not> diAckErr i))"

definition slept :: "drainIn \<Rightarrow> bool" where
  "slept i \<longleftrightarrow> (diPull i = Inr [] \<longrightarrow> diWake i)"

definition drained :: "nat option \<Rightarrow> drainIn list \<Rightarrow> bool" where
  "drained want inps \<longleftrightarrow> emptyRun inps = 6 \<or> (\<exists>k. want = Some k \<and> k \<le> messages inps)"

definition returnsAt :: "nat option \<Rightarrow> drainIn list \<Rightarrow> nat \<Rightarrow> bool" where
  "returnsAt want inps n \<longleftrightarrow> n \<le> length inps \<and> drained want (take n inps) \<and> (\<forall>m<n. \<not> drained want (take m inps)) \<and>
     (\<forall>i\<in>set (take n inps). answered i) \<and> (\<forall>i\<in>set (take (n - 1) inps). slept i)"

lemma messages_snoc: "messages (xs @ [i]) = messages xs + (case diPull i of Inr ms \<Rightarrow> length ms | Inl _ \<Rightarrow> 0)"
  by (simp add: messages_def split: sum.split)

lemma emptyRun_snoc: "emptyRun (xs @ [i]) = (if diPull i = Inr [] then Suc (emptyRun xs) else 0)"
  by (simp add: emptyRun_def)

lemma messages_take: "messages (take n xs) \<le> messages xs"
proof -
  have "messages xs = messages (take n xs) + messages (drop n xs)"
    by (simp add: messages_def flip: length_append concat_append map_append)
  then show ?thesis by simp
qed

text \<open>The two drains are one loop that stops when enough has come.\<close>

fun drainUntil :: "nat option \<Rightarrow> string \<Rightarrow> string \<Rightarrow> drainIn list \<Rightarrow> u64 \<Rightarrow> nat \<Rightarrow> SeekSnapshotWorker \<Rightarrow> flow \<times> u64 \<times> SeekSnapshotWorker" where
  "drainUntil want prefix pid inps got e w =
     (if \<exists>k. want = Some k \<and> k \<le> unat got then (Next, got, w)
      else
        case inps of
          [] \<Rightarrow> (Stop, got, w)
        | inp # inps \<Rightarrow>
            (case drainTurn pid (prefix @ channelName (core w)) inp got e w of
               (Some f, got, _, w) \<Rightarrow> (f, got, w)
             | (None, got, e, w) \<Rightarrow> drainUntil want prefix pid inps got e w))"

declare drainUntil.simps [simp del]

lemma drainReplay_until: "drainReplay pid inps got e w = drainUntil None ''c-replay-'' pid inps got e w"
  by (induction inps arbitrary: got e w) (simp_all add: drainUntil.simps split: prod.split option.split)

lemma drainAck_until:
  assumes "0 \<le> want" "want < 2 ^ 64"
  shows "drainAck pid want inps got e w = drainUntil (Some (nat want)) ''c-drain-'' pid inps got e w"
proof -
  have "unat (word_of_int want :: u64) = nat want" using assms by (simp add: unat_eq_nat_uint uint_word_of_int)
  then have "got < word_of_int want \<longleftrightarrow> unat got < nat want" for got :: u64 by (simp add: word_less_nat_alt)
  then show ?thesis
    by (induction inps arbitrary: got e w)
      (simp_all add: drainUntil.simps drainAck.simps not_le split: prod.split option.split)
qed

lemma returnsAt_next:
  assumes "\<not> drained want hs" "returnsAt want (hs @ i # inps) n" "length hs \<le> n"
  shows "Suc (length hs) \<le> n \<and> answered i \<and> (Suc (length hs) = n \<longrightarrow> drained want (hs @ [i])) \<and> (Suc (length hs) < n \<longrightarrow> slept i)"
proof -
  have "length hs \<noteq> n" using assms(1,2) by (auto simp: returnsAt_def)
  then have n: "Suc (length hs) \<le> n" using assms(3) by simp
  have "i \<in> set (take n (hs @ i # inps))" using n by (cases "n - length hs") auto
  moreover have "i \<in> set (take (n - 1) (hs @ i # inps))" if "Suc (length hs) < n" using that by (cases "n - 1 - length hs") auto
  ultimately show ?thesis using assms(2) n by (auto simp: returnsAt_def)
qed

lemma drainTurn_cases:
  assumes "e \<le> 5"
  shows "\<not> answered i \<Longrightarrow> fst (drainTurn pid cid i got e w) = Some Stop"
    "answered i \<Longrightarrow> diPull i = Inr [] \<Longrightarrow>
       drainTurn pid cid i got e w = (if e = 5 then Some Next else if slept i then None else Some Stop, got, Suc e, w)"
    "answered i \<Longrightarrow> diPull i = Inr ms \<Longrightarrow> ms \<noteq> [] \<Longrightarrow>
       \<exists>w'. drainTurn pid cid i got e w = (None, got + of_nat (length ms), 0, w')"
  using assms
  by (auto simp: answered_def slept_def drainTurn_def pullOnce_def ackBatch_def drainQuiescentPolls_def Let_def split_beta
      split: sum.splits)

text \<open>The polls already behind the drain are its history: what the loop variables are worth at each turn.\<close>

definition pollHistory :: "nat option \<Rightarrow> drainIn list \<Rightarrow> u64 \<Rightarrow> nat \<Rightarrow> bool" where
  "pollHistory want hs got e \<longleftrightarrow> got = of_nat (messages hs) \<and> e = emptyRun hs \<and> e \<le> 5 \<and>
     (\<forall>m<length hs. \<not> drained want (take m hs)) \<and> (\<forall>i\<in>set hs. answered i \<and> slept i)"

definition tells :: "nat option \<Rightarrow> drainIn list \<Rightarrow> drainIn list \<Rightarrow> flow \<Rightarrow> u64 \<Rightarrow> bool" where
  "tells want hs inps f got \<longleftrightarrow> (f = Next \<longrightarrow> (\<exists>n\<ge>length hs. returnsAt want (hs @ inps) n)) \<and>
    (\<forall>n\<ge>length hs. returnsAt want (hs @ inps) n \<longrightarrow> f = Next \<and> got = of_nat (messages (take n (hs @ inps))))"

lemma returnsAt_unique: "returnsAt want xs m \<Longrightarrow> returnsAt want xs n \<Longrightarrow> m = n"
  unfolding returnsAt_def by (metis linorder_neqE_nat)

lemma tells_at:
  assumes "returnsAt want (hs @ inps) m" "length hs \<le> m" "got = of_nat (messages (take m (hs @ inps)))"
  shows "tells want hs inps Next got"
  unfolding tells_def using assms returnsAt_unique [OF assms(1)] by blast

lemma history_returns:
  assumes "pollHistory want hs got e" "drained want hs"
  shows "tells want hs inps Next got"
proof (rule tells_at)
  show "returnsAt want (hs @ inps) (length hs)"
    using assms by (auto simp: returnsAt_def pollHistory_def dest: in_set_takeD)
qed (use assms in \<open>simp_all add: pollHistory_def\<close>)

lemma history_snoc:
  assumes "pollHistory want hs got e" "\<not> drained want hs" "answered i" "slept i" "emptyRun (hs @ [i]) \<le> 5"
  shows "pollHistory want (hs @ [i]) (of_nat (messages (hs @ [i]))) (emptyRun (hs @ [i]))"
  using assms by (auto simp: pollHistory_def less_Suc_eq)

lemma tells_snoc:
  assumes "\<not> drained want hs" "tells want (hs @ [i]) inps f got"
  shows "tells want hs (i # inps) f got"
proof -
  have t: "(hs @ [i]) @ inps = hs @ i # inps" by simp
  have "Suc (length hs) \<le> n" if "returnsAt want (hs @ i # inps) n" "length hs \<le> n" for n
    using returnsAt_next [OF assms(1) that] by blast
  moreover have "f = Next \<longrightarrow> (\<exists>n\<ge>Suc (length hs). returnsAt want (hs @ i # inps) n)"
    "\<forall>n\<ge>Suc (length hs). returnsAt want (hs @ i # inps) n \<longrightarrow> f = Next \<and> got = of_nat (messages (take n (hs @ i # inps)))"
    using assms(2) unfolding tells_def t by simp_all
  ultimately show ?thesis unfolding tells_def using Suc_leD by blast
qed

lemma tells_stop:
  assumes "\<not> drained want hs" "\<And>n. returnsAt want (hs @ inps) n \<Longrightarrow> length hs \<le> n \<Longrightarrow> False"
  shows "tells want hs inps Stop got"
  using assms by (auto simp: tells_def)

lemma drainUntil_tells:
  assumes "drainUntil want prefix pid inps got e w = (f, got', w')" "messages (hs @ inps) < 2 ^ 64" "pollHistory want hs got e"
  shows "tells want hs inps f got'"
  using assms
proof (induction inps arbitrary: hs got e w)
  case (Nil hs got e w)
  have u: "unat got = messages hs" using Nil.prems(2,3) by (simp add: pollHistory_def unat_of_nat)
  show ?case
  proof (cases "\<exists>k. want = Some k \<and> k \<le> unat got")
    case True
    then show ?thesis using Nil.prems u history_returns [OF Nil.prems(3), of "[]"] by (auto simp: drainUntil.simps drained_def)
  next
    case False
    then have "\<not> drained want hs" using Nil.prems(3) u by (auto simp: drained_def pollHistory_def)
    then show ?thesis using Nil.prems(1) False
      by (auto simp: drainUntil.simps split: if_splits intro!: tells_stop) (auto simp: returnsAt_def)
  qed
next
  case (Cons i inps hs got e w)
  have "messages hs \<le> messages (hs @ i # inps)" using messages_take [of "length hs" "hs @ i # inps"] by simp
  then have u: "unat got = messages hs" using Cons.prems(2,3) by (simp add: pollHistory_def unat_of_nat)
  show ?case
  proof (cases "\<exists>k. want = Some k \<and> k \<le> unat got")
    case True
    then show ?thesis using Cons.prems u history_returns [OF Cons.prems(3), of "i # inps"] by (auto simp: drainUntil.simps drained_def)
  next
    case False
    then have nd: "\<not> drained want hs" using Cons.prems(3) u by (auto simp: drained_def pollHistory_def)
    note nx = returnsAt_next [OF nd, of i inps]
    have e5: "e \<le> 5" "e = emptyRun hs" "got = of_nat (messages hs)" using Cons.prems(3) by (auto simp: pollHistory_def)
    let ?t = "drainTurn pid (prefix @ channelName (core w)) i got e w"
    have r: "(case ?t of (Some f, got, _, w) \<Rightarrow> (f, got, w) | (None, got, e, w) \<Rightarrow> drainUntil want prefix pid inps got e w) = (f, got', w')"
      using Cons.prems(1) False by (simp add: drainUntil.simps [of want prefix pid "i # inps"])
    have go: "tells want hs (i # inps) f got'"
      if "?t = (None, of_nat (messages (hs @ [i])), emptyRun (hs @ [i]), v)" "answered i" "slept i" "emptyRun (hs @ [i]) \<le> 5" for v
    proof -
      have "drainUntil want prefix pid inps (of_nat (messages (hs @ [i]))) (emptyRun (hs @ [i])) v = (f, got', w')" using r that(1) by simp
      from Cons.IH [OF this _ history_snoc [OF Cons.prems(3) nd that(2-4)]] show ?thesis
        using Cons.prems(2) tells_snoc [OF nd] by simp
    qed
    consider (bad) "\<not> answered i" | (empty) "answered i" "diPull i = Inr []" | (full) ms where "answered i" "diPull i = Inr ms" "ms \<noteq> []"
      by (auto simp: answered_def)
    then show ?thesis
    proof cases
      case bad
      then have "f = Stop" using r drainTurn_cases(1) [OF e5(1) bad, of pid "prefix @ channelName (core w)" got w]
        by (cases ?t) auto
      then show ?thesis using nx bad by (auto intro!: tells_stop [OF nd])
    next
      case empty
      note t = drainTurn_cases(2) [OF e5(1) empty, of pid "prefix @ channelName (core w)" got w]
      have m: "messages (hs @ [i]) = messages hs" "emptyRun (hs @ [i]) = Suc e" by (simp_all add: messages_snoc emptyRun_snoc empty e5)
      consider "e = 5" | "e < 5" "slept i" | "e < 5" "\<not> slept i" using e5(1) by linarith
      then show ?thesis
      proof cases
        case 1
        then have d: "drained want (hs @ [i])" using m by (simp add: drained_def)
        have x: "f = Next" "got' = got" using r t 1 by simp_all
        have "returnsAt want (hs @ i # inps) (Suc (length hs))"
          using d nd Cons.prems(3) empty(1) by (auto simp: returnsAt_def pollHistory_def less_Suc_eq dest: in_set_takeD)
        then show ?thesis unfolding x by (rule tells_at) (simp_all add: e5(3) m(1))
      next
        case 2
        then show ?thesis using go t m e5 empty by simp
      next
        case 3
        then have f: "f = Stop" using r t by simp
        have nd': "\<not> drained want (hs @ [i])" using nd m 3 e5 by (auto simp: drained_def)
        show ?thesis unfolding f
        proof (rule tells_stop [OF nd])
          fix n
          assume "returnsAt want (hs @ i # inps) n" "length hs \<le> n"
          from nx [OF this] nd' 3(2) show False by (cases "Suc (length hs) = n") simp_all
        qed
      qed
    next
      case full
      obtain v where t: "?t = (None, got + of_nat (length ms), 0, v)" using drainTurn_cases(3) [OF e5(1) full] by blast
      have "messages (hs @ [i]) = messages hs + length ms" "emptyRun (hs @ [i]) = 0" by (simp_all add: messages_snoc emptyRun_snoc full)
      then show ?thesis using go [of v] t full e5(3) by (simp add: slept_def)
    qed
  qed
qed

lemma drain_exact:
  assumes "drainUntil want prefix pid inps 0 0 w = (f, got, w')" "messages inps < 2 ^ 64"
  shows "(f = Next \<longleftrightarrow> (\<exists>n. returnsAt want inps n)) \<and> (\<forall>n. returnsAt want inps n \<longrightarrow> got = of_nat (messages (take n inps)))"
proof -
  have "pollHistory want [] 0 0" by (simp add: pollHistory_def messages_def emptyRun_def)
  from drainUntil_tells [OF assms(1) _ this] assms(2) show ?thesis by (auto simp: tells_def)
qed

section \<open>What a round does to the counters\<close>

definition balanced :: "SeekSnapshotWorker \<Rightarrow> SeekSnapshotWorker \<Rightarrow> bool" where
  "balanced w w' \<longleftrightarrow> cnt (core w') Received - cnt (core w') Acked = cnt (core w) Received - cnt (core w) Acked"

definition sameRound :: "SeekSnapshotWorker \<Rightarrow> SeekSnapshotWorker \<Rightarrow> bool" where
  "sameRound w w' \<longleftrightarrow> cfg (core w') = cfg (core w) \<and> sizeDistrib (core w') = sizeDistrib (core w) \<and> snapshotID w' = snapshotID w \<and>
     (\<forall>c\<in>{SeekReplayExpected, SeekReplayObserved, SeekReplayMismatch}. cnt (core w') c = cnt (core w) c)"

lemma sameRound_refl [simp]: "sameRound w w" by (simp add: sameRound_def)

lemma sameRound_trans: "sameRound a b \<Longrightarrow> sameRound b c \<Longrightarrow> sameRound a c" by (simp add: sameRound_def)

lemma balanced_refl [simp]: "balanced w w" by (simp add: balanced_def)

lemma balanced_trans: "balanced a b \<Longrightarrow> balanced b c \<Longrightarrow> balanced a c"
  by (simp add: balanced_def)

lemma snapshotID_onBase [simp]: "snapshotID (onBase f w) = snapshotID w"
  by (simp add: onBase_def)

lemma publishOne_effect:
  assumes "publishOne pid n inp w = (f, out, w')"
  shows "sameRound w w' \<and> balanced w w' \<and>
    (f = Next \<longrightarrow> cnt (core w') Sent = cnt (core w) Sent + 1 \<and> map seqOf out = [n])"
  using assms
  by (auto simp: publishOne_def Let_def metricObserveSend_def sameRound_def balanced_def worker_defs
      split: if_splits option.splits sum.splits)

fun seqsFrom :: "u64 \<Rightarrow> nat \<Rightarrow> u64 list" where
  "seqsFrom n 0 = []"
| "seqsFrom n (Suc k) = (n + 1) # seqsFrom (n + 1) k"

lemma seqsFrom_add: "seqsFrom n (j + k) = seqsFrom n j @ seqsFrom (n + of_nat j) k"
  by (induction j arbitrary: n) (simp_all add: add.assoc)

lemma publishSet_effect:
  "publishSet pid k n inps w = (f, out, n', w') \<Longrightarrow>
     sameRound w w' \<and> balanced w w' \<and>
     (f = Next \<longrightarrow> cnt (core w') Sent = cnt (core w) Sent + of_nat k \<and> n' = n + of_nat k \<and>
        map seqOf out = seqsFrom n k)"
proof (induction pid k n inps w arbitrary: f out n' w' rule: publishSet.induct)
  case (3 pid k n inp inps w)
  obtain g o1 w1 where p: "publishOne pid (n + 1) inp w = (g, o1, w1)" by (metis prod_cases3)
  note e = publishOne_effect [OF p]
  show ?case
  proof (cases "piStop inp \<or> g \<noteq> Next")
    case True
    then show ?thesis using 3(2) e p by (cases "piStop inp"; cases g) (auto simp: Let_def)
  next
    case False
    obtain h o2 n2 w2 where r: "publishSet pid k (n + 1) inps w1 = (h, o2, n2, w2)" by (metis prod_cases4)
    have i: "sameRound w1 w2" "balanced w1 w2"
      "h = Next \<longrightarrow> cnt (core w2) Sent = cnt (core w1) Sent + of_nat k \<and> n2 = n + 1 + of_nat k \<and>
        map seqOf o2 = seqsFrom (n + 1) k"
      using 3(1) [OF _ p [symmetric] _ refl r] False by auto
    have "(f, out, n', w') = (h, o1 @ o2, n2, w2)" using 3(2) False p r by simp
    then show ?thesis using i e False sameRound_trans balanced_trans
      by (auto simp: add.assoc)
  qed
qed auto

lemma arrival_cfg [simp]:
  "cfg (noteArrival now body hex t b) = cfg b" "cfg (fst (recordTracked pid n b)) = cfg b"
  "sizeDistrib (noteArrival now body hex t b) = sizeDistrib b" "sizeDistrib (fst (recordTracked pid n b)) = sizeDistrib b"
  by (simp_all add: noteArrival_def recordTracked_def Let_def split_beta worker_defs split: option.split)

lemma consumeReceived_effect:
  "sameRound w (consumeReceived pid cid m w)"
  "cnt (core (consumeReceived pid cid m w)) c =
     cnt (core w) c + (if c = Received then 1 else 0) \<or> c \<in> {Corrupted, Duplicated}"
  "cnt (core (consumeReceived pid cid m w)) Sent = cnt (core w) Sent"
  by (auto simp: consumeReceived_def handler_simps sameRound_def)

lemma consume_fold:
  "sameRound w (fold (consumeReceived pid cid) ms w) \<and>
   cnt (core (fold (consumeReceived pid cid) ms w)) Received = cnt (core w) Received + of_nat (length ms) \<and>
   cnt (core (fold (consumeReceived pid cid) ms w)) Acked = cnt (core w) Acked \<and>
   cnt (core (fold (consumeReceived pid cid) ms w)) Sent = cnt (core w) Sent"
proof (induction ms arbitrary: w)
  case (Cons m ms)
  let ?w = "consumeReceived pid cid m w"
  have "cnt (core ?w) Received = cnt (core w) Received + 1" "cnt (core ?w) Acked = cnt (core w) Acked"
    using consumeReceived_effect(2) [of pid cid m w Received] consumeReceived_effect(2) [of pid cid m w Acked] by simp_all
  then show ?case using Cons [of ?w] consumeReceived_effect(1) [of w pid cid m]
      consumeReceived_effect(3) [of pid cid m w] sameRound_trans by auto
qed simp

lemma ack_funpow:
  "cnt (core ((onBase recordAcked ^^ n) w)) c = cnt (core w) c + (if c = Acked then of_nat n else 0)"
  "cfg (core ((onBase recordAcked ^^ n) w)) = cfg (core w)"
  "sizeDistrib (core ((onBase recordAcked ^^ n) w)) = sizeDistrib (core w)"
  "snapshotID ((onBase recordAcked ^^ n) (v :: SeekSnapshotWorker)) = snapshotID v"
  by (induction n) (simp_all add: worker_defs)

lemma drainTurn_effect:
  assumes "drainTurn pid cid inp got e w = (r, got', e', w')"
  shows "sameRound w w' \<and> cnt (core w') Sent = cnt (core w) Sent \<and>
    (r \<noteq> Some Stop \<longrightarrow> balanced w w' \<and> cnt (core w') Received - got' = cnt (core w) Received - got) \<and> r \<noteq> Some Panic"
proof (cases "diPull inp")
  case (Inl x)
  then show ?thesis using assms by (auto simp: drainTurn_def pullOnce_def sameRound_def worker_defs split: if_splits)
next
  case (Inr ms)
  let ?w = "fold (consumeReceived pid cid) ms w"
  have b: "sameRound w (snd (ackBatch inp (map smAckID ms) ?w))"
    "cnt (core (snd (ackBatch inp (map smAckID ms) ?w))) Sent = cnt (core w) Sent"
    "cnt (core (snd (ackBatch inp (map smAckID ms) ?w))) Received = cnt (core w) Received + of_nat (length ms)"
    "fst (ackBatch inp (map smAckID ms) ?w) \<Longrightarrow>
       cnt (core (snd (ackBatch inp (map smAckID ms) ?w))) Acked = cnt (core w) Acked + of_nat (length ms)"
    using consume_fold [of w pid cid ms] by (auto simp: ackBatch_def sameRound_def ack_funpow worker_defs)
  show ?thesis using assms Inr b
    by (auto simp: drainTurn_def pullOnce_def Let_def split_beta balanced_def split: if_splits)
qed

lemma drainReplay_effect:
  assumes "drainReplay pid inps got e w = (f, got', w')"
  shows "sameRound w w' \<and> cnt (core w') Sent = cnt (core w) Sent \<and> f \<noteq> Panic \<and>
    (f = Next \<longrightarrow> balanced w w' \<and> cnt (core w') Received - got' = cnt (core w) Received - got)"
  using assms
proof (induction inps arbitrary: got e w)
  case (Cons inp inps)
  obtain r g1 e1 w1 where t: "drainTurn pid (''c-replay-'' @ channelName (core w)) inp got e w = (r, g1, e1, w1)"
    by (metis prod_cases4)
  note s = drainTurn_effect [OF t]
  show ?case
  proof (cases r)
    case (Some f')
    then show ?thesis using Cons.prems s t by auto
  next
    case None
    then have "drainReplay pid inps g1 e1 w1 = (f, got', w')" using Cons.prems t by simp
    from Cons.IH [OF this] s None show ?thesis
      using sameRound_trans balanced_trans by auto
  qed
qed simp

lemma drainAck_effect:
  "drainAck pid want inps got e w = (f, got', w') \<Longrightarrow>
     sameRound w w' \<and> cnt (core w') Sent = cnt (core w) Sent \<and> f \<noteq> Panic \<and>
     (f = Next \<longrightarrow> balanced w w' \<and> cnt (core w') Received - got' = cnt (core w) Received - got)"
proof (induction inps arbitrary: got e w)
  case Nil
  then show ?case by (auto simp: drainAck.simps [of _ _ "[]"] split: if_splits)
next
  case (Cons inp inps)
  obtain r g1 e1 w1 where t: "drainTurn pid (''c-drain-'' @ channelName (core w)) inp got e w = (r, g1, e1, w1)"
    by (metis prod_cases4)
  note s = drainTurn_effect [OF t]
  show ?case
  proof (cases "got < word_of_int want \<and> r = None")
    case True
    then have "drainAck pid want inps g1 e1 w1 = (f, got', w')"
      using Cons.prems t by (simp add: drainAck.simps [of _ _ "inp # inps"])
    from Cons.IH [OF this] s True show ?thesis using sameRound_trans balanced_trans by auto
  next
    case False
    then show ?thesis using Cons.prems t s
      by (auto simp: drainAck.simps [of _ _ "inp # inps"] split: if_splits option.splits)
  qed
qed

lemma assertReplayCount_exact:
  assumes "n < 2 ^ 44"
  shows "cnt (core (assertReplayCount (of_nat n) obs w)) c =
    cnt (core w) c + (if c = SeekReplayMismatch \<and> n div 200 + 2 < nat \<bar>int (unat obs) - int n\<bar> then 1 else 0)"
proof -
  have u: "unat (of_nat n :: u64) = n" using assms by (simp add: unat_of_nat)
  then have "replayTolerance (of_nat n) = of_nat (n div 200) + 2"
    using replayTolerance_exact [of "of_nat n"] assms by simp
  moreover have "unat (of_nat (n div 200) + 2 :: u64) = n div 200 + 2"
    using assms by (simp add: unat_word_ariths unat_of_nat)
  ultimately have t: "unat (replayTolerance (of_nat n)) = n div 200 + 2" by simp
  have le: "of_nat n \<le> obs \<longleftrightarrow> n \<le> unat obs" using u by (simp add: word_le_nat_alt)
  have "replayTolerance (of_nat n) < obs - of_nat n \<longleftrightarrow> n div 200 + 2 < unat obs - n" if "n \<le> unat obs"
    using that le t u by (simp add: word_less_nat_alt unat_sub)
  moreover have "replayTolerance (of_nat n) < of_nat n - obs \<longleftrightarrow> n div 200 + 2 < n - unat obs" if "\<not> n \<le> unat obs"
    using that le t u by (simp add: word_less_nat_alt unat_sub)
  ultimately show ?thesis using le
    by (auto simp: assertReplayCount_def Let_def worker_defs nat_diff_distrib abs_if simp del: of_nat_unat)
qed

definition publishedIn :: "seekOp list \<Rightarrow> Msg list" where
  "publishedIn ops = concat (map (\<lambda>op. case op of Published m \<Rightarrow> [m] | _ \<Rightarrow> []) ops)"

lemma publishedIn_simps [simp]:
  "publishedIn [] = []" "publishedIn (a @ b) = publishedIn a @ publishedIn b" "publishedIn (map Published ms) = ms"
  by (induction ms) (simp_all add: publishedIn_def)

lemma takeCursor_ops [simp]: "publishedIn (snd (takeCursor inp useTime w)) = []"
  by (simp add: takeCursor_def publishedIn_def)

definition roundCounts :: "SeekSnapshotWorker \<Rightarrow> SeekSnapshotWorker \<Rightarrow> u64 \<Rightarrow> bool" where
  "roundCounts w w' obs \<longleftrightarrow> balanced w w' \<and>
     cnt (core w') SeekReplayExpected = cnt (core w) SeekReplayExpected + of_nat (nat (replayCount w)) \<and>
     cnt (core w') SeekReplayObserved = cnt (core w) SeekReplayObserved + obs \<and>
     cnt (core w') SeekReplayMismatch = cnt (core w) SeekReplayMismatch +
       (if nat (replayCount w) div 200 + 2 < nat \<bar>int (unat obs) - replayCount w\<bar> then 1 else 0)"

lemma replayCount_pos: "1 \<le> replayCount w" "5 \<le> baselineCount w"
  by (simp_all add: replayCount_def baselineCount_def Let_def)

lemma counts_same: "sameRound w w' \<Longrightarrow> replayCount w' = replayCount w \<and> baselineCount w' = baselineCount w"
  by (simp add: sameRound_def replayCount_def baselineCount_def)

lemma seekAndCount_effect:
  assumes "seekAndCount inp pid useTime w = (f, ops, w')" "replayCount w < 2 ^ 44" "messages (roSeekDrain inp) < 2 ^ 64"
  shows "publishedIn ops = [] \<and> cnt (core w') Sent = cnt (core w) Sent \<and>
    (if f = Next then \<exists>n. returnsAt None (roSeekDrain inp) n \<and> roundCounts w w' (of_nat (messages (take n (roSeekDrain inp))))
     else sameRound w w')"
proof (cases "roSeekErr inp = None")
  case False
  then show ?thesis using assms(1) by (auto simp: seekAndCount_def Let_def publishedIn_def)
next
  case True
  obtain g obs w1 where d: "drainReplay pid (roSeekDrain inp) 0 0 w = (g, obs, w1)" by (metis prod_cases3)
  note e = drainReplay_effect [OF d]
  obtain n where n: "replayCount w = int n" using replayCount_pos(1) [of w] zero_le_imp_eq_int by force
  then have small: "n < 2 ^ 44" using assms(2) by simp
  show ?thesis
  proof (cases "g = Next")
    case False
    then show ?thesis using True assms(1) d e by (cases g) (auto simp: seekAndCount_def Let_def publishedIn_def)
  next
    case g: True
    have w': "f = Next" "publishedIn ops = []"
      "w' = assertReplayCount (of_nat n) obs
        (onBase (recordSeekReplayObserved obs) (onBase (recordSeekReplayExpected (of_nat n)) w1))"
      using True assms(1) d g n by (auto simp: seekAndCount_def Let_def publishedIn_def split: if_splits)
    obtain k where k: "returnsAt None (roSeekDrain inp) k" "obs = of_nat (messages (take k (roSeekDrain inp)))"
      using drain_exact [OF d [unfolded drainReplay_until] assms(3)] g by blast
    have "roundCounts w w' obs" using e g
      by (simp add: roundCounts_def balanced_def w' n assertReplayCount_exact [OF small] sameRound_def worker_defs)
    then show ?thesis using e g w' k by (auto simp: assertReplayCount_exact [OF small] worker_defs)
  qed
qed

lemma roundCounts_from: "sameRound w v \<Longrightarrow> balanced w v \<Longrightarrow> roundCounts v w' obs \<Longrightarrow> roundCounts w w' obs"
  using counts_same [of w v] by (auto simp: roundCounts_def balanced_def sameRound_def)

lemma replayPhase_effect:
  assumes "replayPhase inp pid (replayCount w) useTime n w = (f, ops, w')" "replayCount w < 2 ^ 44" "messages (roSeekDrain inp) < 2 ^ 64"
  shows "if f = Next
    then map seqOf (publishedIn ops) = seqsFrom n (nat (replayCount w)) \<and>
         cnt (core w') Sent = cnt (core w) Sent + of_nat (nat (replayCount w)) \<and>
         (\<exists>n. returnsAt None (roSeekDrain inp) n \<and> roundCounts w w' (of_nat (messages (take n (roSeekDrain inp)))))
    else sameRound w w'"
proof -
  obtain f1 o1 n1 w1 where p: "publishSet pid (nat (replayCount w)) n (roReplay inp) w = (f1, o1, n1, w1)" by (metis prod_cases4)
  obtain f2 g2 w2 where d: "drainAck pid (replayCount w) (roReplayDrain inp) 0 0 w1 = (f2, g2, w2)" by (metis prod_cases3)
  obtain f3 o3 w3 where s: "seekAndCount inp pid useTime w2 = (f3, o3, w3)" by (metis prod_cases3)
  note e1 = publishSet_effect [OF p] and e2 = drainAck_effect [OF d]
  have s2: "sameRound w w2" using e1 e2 sameRound_trans by blast
  then have "replayCount w2 < 2 ^ 44" using counts_same assms(2) by simp
  note e3 = seekAndCount_effect [OF s this assms(3)]
  consider "f1 \<noteq> Next" | "f1 = Next" "f2 \<noteq> Next" | "f1 = Next" "f2 = Next" by blast
  then show ?thesis
  proof cases
    case 1
    then show ?thesis using assms(1) p e1 by (cases f1) (auto simp: replayPhase_def)
  next
    case 2
    then show ?thesis using assms(1) p d s2 by (cases f2) (auto simp: replayPhase_def)
  next
    case 3
    then have b: "balanced w w2" using e1 e2 balanced_trans by blast
    have r: "(f, ops, w') = (f3, map Published o1 @ o3, w3)" using assms(1) p d s 3 by (simp add: replayPhase_def)
    then show ?thesis using e1 e2 e3 3 roundCounts_from [OF s2 b] sameRound_trans [OF s2] by auto blast
  qed
qed


section \<open>The drains end\<close>

definition quietPoll :: "drainIn \<Rightarrow> bool" where
  "quietPoll inp \<longleftrightarrow> \<not> diStop inp \<and> diPull inp = Inr [] \<and> diWake inp"

lemma quiet_turn:
  assumes "quietPoll inp"
  shows "drainTurn pid cid inp got e w = (if 5 \<le> e then Some Next else None, got, Suc e, w)"
  using assms by (simp add: quietPoll_def drainTurn_def pullOnce_def drainQuiescentPolls_def Let_def)

lemma quiet_ack:
  "\<forall>q\<in>set qs. quietPoll q \<Longrightarrow> e \<le> 5 \<Longrightarrow> length qs = 6 - e \<Longrightarrow> drainAck pid want (qs @ rest) got e w = (Next, got, w)"
proof (induction qs arbitrary: e)
  case (Cons q qs)
  then show ?case
    by (cases "e = 5") (simp_all add: drainAck.simps [of _ _ "q # _"] quiet_turn Cons.IH [of "Suc e"])
qed (simp add: drainAck.simps)


definition emptyPoll :: drainIn where
  "emptyPoll = \<lparr>diStop = False, diPull = Inr [], diCtxErr = False, diWake = True, diAckErr = False\<rparr>"

definition demoSeek :: SeekSnapshotWorker where
  "demoSeek = \<lparr>core = demoBase WorkerSeekSnapshot, skTopicID = ''t'', skSubID = ''s'', snapshotID = ''snap'', skSubPath = ''p''\<rparr>"

lemma demoSeek_simps [simp]:
  "cnt (core demoSeek) c = 0" "cfg (core demoSeek) = DefaultConfig" "sizeDistrib (core demoSeek) = None"
  by (simp_all add: demoSeek_def demoBase_def anyWorker_def NewBaseWorker_def GetWorkerConfig_def DefaultConfig_def
      Let_def worker_names)

definition onePoll :: drainIn where
  "onePoll = emptyPoll\<lparr>diPull := Inr [\<lparr>dMsg = demoMsg ''p'' 1, dNow = 0, smAckID = ''a1''\<rparr>]\<rparr>"

text \<open>Five empty polls, a message, six empty polls: the drain returns with the last of them.\<close>

definition demoPolls :: "drainIn list" where
  "demoPolls = replicate 5 emptyPoll @ onePoll # replicate 6 emptyPoll"

lemma demoPolls_return: "returnsAt None (demoPolls @ rest) 12" "messages demoPolls = 1"
proof -
  have run: "emptyRun (xs @ replicate k emptyPoll) = emptyRun xs + k" for xs k
  proof (induction k)
    case (Suc k)
    have "xs @ replicate (Suc k) emptyPoll = (xs @ replicate k emptyPoll) @ [emptyPoll]" by (simp add: replicate_append_same)
    then show ?case using Suc by (simp only: emptyRun_snoc) (simp add: emptyPoll_def)
  qed simp
  have e: "emptyRun (replicate k emptyPoll) = k" "emptyRun (replicate 5 emptyPoll @ onePoll # replicate k emptyPoll) = k" for k
    using run [of "[]" k] run [of "replicate 5 emptyPoll @ [onePoll]" k] emptyRun_snoc [of "replicate 5 emptyPoll" onePoll]
    by (simp_all add: emptyRun_def onePoll_def)
  have t: "take m (demoPolls @ rest) = (if m \<le> 5 then replicate m emptyPoll else replicate 5 emptyPoll @ onePoll # replicate (m - 6) emptyPoll)"
    if "m \<le> 12" for m
    using that by (auto simp: demoPolls_def take_Cons' min_def not_le)
  have "\<not> drained None (take m (demoPolls @ rest))" if "m < 12" for m
    using that unfolding t [OF less_imp_le [OF that]] by (auto simp: drained_def e)
  moreover have "drained None (take 12 (demoPolls @ rest))" unfolding t [OF order_refl] by (simp add: drained_def e)
  moreover have "answered i \<and> slept i" if "i \<in> set demoPolls" for i
    using that by (auto simp: demoPolls_def answered_def slept_def emptyPoll_def onePoll_def)
  moreover have "set (take m (demoPolls @ rest)) \<subseteq> set demoPolls" if "m \<le> 12" for m
    unfolding t [OF that] by (auto simp: demoPolls_def)
  moreover have "12 \<le> length (demoPolls @ rest)" by (simp add: demoPolls_def)
  moreover have "(12::nat) \<le> 12" "(12::nat) - 1 \<le> 12" by simp_all
  ultimately show "returnsAt None (demoPolls @ rest) 12" unfolding returnsAt_def by (metis subsetD)
  show "messages demoPolls = 1" by (simp add: messages_def demoPolls_def emptyPoll_def onePoll_def)
qed


lemma publishSet_accepted:
  assumes "k = length inps" "\<forall>inp\<in>set inps. accepts inp \<and> \<not> piRateErr inp" "sized (core w)"
  shows "\<exists>out n' w'. publishSet pid k n inps w = (Next, out, n', w')"
  using assms
proof (induction inps arbitrary: k n w)
  case (Cons inp inps)
  obtain body hex where b: "nextBody inp w = Some (body, hex)" using nextBody_sized Cons.prems(3) by blast
  obtain i where "PublishSync (piSend inp) body (stampAttrs (piStamp inp) pid (n + 1) hex) = Inr i"
    using accepts_sync [of inp body] Cons.prems(2) by fastforce
  moreover have "sized (core (onBase (\<lambda>b. recordSent (int (length body)) pid (metricObserveSend (piDur inp) b)) w))"
    using Cons.prems(3) by (subst sized_cong [of _ "core w"]) (simp_all add: metricObserveSend_def worker_defs Let_def)
  ultimately show ?case using Cons.prems b
      Cons.IH [of "length inps" "onBase (\<lambda>b. recordSent (int (length body)) pid (metricObserveSend (piDur inp) b)) w" "n + 1"]
    by (force simp: publishOne_def accepts_def)
qed auto

definition demoRound :: roundIn where
  "demoRound = \<lparr>roBaseline = replicate 50 accepting, roBaselineDrain = replicate 6 emptyPoll, roT0 = 0, roBeat = True,
     roCreateErr = None, roReplay = replicate 500 accepting, roReplayDrain = replicate 6 emptyPoll, roSeekErr = None,
     roSeekDrain = demoPolls\<rparr>"


end
