(* ===== verification/Producers.thy ===== *)
theory Producers
  imports Seek
begin

text \<open>
  Several producers of one channel. Every producer of a worker takes its sequence numbers from
  the one counter of the worker, and the tracker keeps one window per producer id. This theory
  runs the produce iterations of several producers in any order and shows what the tracker
  makes of the numbers: each producer's stream has a hole for every turn of another one.
\<close>

section \<open>Launching\<close>

text \<open>\<^verbatim>\<open>StartProducers\<close> launches one produce loop per index; the indices are the first component. The loops
  run as goroutines, so a run of the worker is any interleaving of their turns.\<close>

definition launchProducers :: "'a WorkerCore_scheme \<Rightarrow> int list \<times> 'a WorkerCore_scheme" where
  "launchProducers w = (map int [0..<nat (producerCount w)], StartProducersW w)"

definition PublishPull_StartProducers :: "PublishPullRoundTripWorker \<Rightarrow> int list \<times> PublishPullRoundTripWorker" where
  "PublishPull_StartProducers = launchProducers"

definition FanOut_StartProducers :: "FanOutWorker \<Rightarrow> int list \<times> FanOutWorker" where
  "FanOut_StartProducers = launchProducers"

definition StreamingPull_StartProducers :: "StreamingPullWorker \<Rightarrow> int list \<times> StreamingPullWorker" where
  "StreamingPull_StartProducers = launchProducers"

definition OrderingKeys_StartProducers :: "OrderingKeysWorker \<Rightarrow> int list \<times> OrderingKeysWorker" where
  "OrderingKeys_StartProducers = launchProducers"

definition ExactlyOnce_StartProducers :: "ExactlyOnceWorker \<Rightarrow> int list \<times> ExactlyOnceWorker" where
  "ExactlyOnce_StartProducers = launchProducers"

definition Filtering_StartProducers :: "FilteringWorker \<Rightarrow> int list \<times> FilteringWorker" where
  "Filtering_StartProducers = launchProducers"

definition NackRedelivery_StartProducers :: "NackRedeliveryWorker \<Rightarrow> int list \<times> NackRedeliveryWorker" where
  "NackRedelivery_StartProducers = launchProducers"

definition DeadLetter_StartProducers :: "DeadLetterWorker \<Rightarrow> int list \<times> DeadLetterWorker" where
  "DeadLetter_StartProducers = launchProducers"

definition CrossProtocol_StartProducers :: "CrossProtocolInteropWorker \<Rightarrow> int list \<times> CrossProtocolInteropWorker" where
  "CrossProtocol_StartProducers = launchProducers"

definition InflightCap_StartProducers :: "InflightCapWorker \<Rightarrow> int list \<times> InflightCapWorker" where
  "InflightCap_StartProducers = launchProducers"

definition SeekSnapshot_StartProducers :: "SeekSnapshotWorker \<Rightarrow> SeekSnapshotWorker" where
  "SeekSnapshot_StartProducers = StartProducersW"

lemma launched: "j \<in> set (fst (launchProducers w)) \<longleftrightarrow> 0 \<le> j \<and> j < producerCount w"
  by (auto simp: launchProducers_def image_iff intro!: bexI [of _ "nat j"])

section \<open>A stream with holes\<close>

text \<open>Whose turn it is, as seen by one producer, and the bound on how many turns of others may pass between
  two of its own; \<open>g\<close> counts the turns since the last one.\<close>

fun turnWithin :: "nat \<Rightarrow> nat \<Rightarrow> bool list \<Rightarrow> bool" where
  "turnWithin W g [] = True"
| "turnWithin W g (b # bs) = (if b then turnWithin W 0 bs else Suc g < W \<and> turnWithin W (Suc g) bs)"

lemma arecord_reaches:
  assumes "awf a"
  shows "s \<le> hi (fst (arecord W a s)) + W + 1"
proof -
  have up: "hi b \<le> hi (raise b)" if "finite (marked b)" for b
    using watermark_spec [OF that, of "hi b"] by (simp add: raise_simps)
  have "finite (marked a)" using assms by (simp add: awf_def)
  then show ?thesis
    using up [of "a\<lparr>marked := insert s (marked a)\<rparr>"]
      up [of "a\<lparr>hi := s - W - 1, marked := {m \<in> marked a. s - W - 1 < m},
             suspect := suspect a \<union> ({hi a <.. hi a + min W (s - W - 1 - hi a)} - marked a)\<rparr>"]
    by (auto simp: arecord_def aslide_def)
qed

lemma stepNext_reaches:
  "ps_ok rw ps \<Longrightarrow> seq_ok s \<Longrightarrow> unat s \<le> unat (highContiguous (fst (stepNext rw ps s))) + nat rw + 1"
  using arecord_reaches [OF awf_absProd, of rw ps "unat s" "nat rw"] stepNext_refines(2) [of rw ps s]
  by (metis absProd_select(1))

lemma unat_small: "n < 2 ^ 62 \<Longrightarrow> unat (of_nat n :: u64) = n"
  by (simp add: unsigned_of_nat take_bit_nat_eq_self)

lemma unat_Suc: "Suc n < 2 ^ 62 \<Longrightarrow> unat (of_nat n + 1 :: u64) = Suc n"
  using unat_small [of "Suc n"] by (simp add: add.commute)

lemma holed_stream:
  assumes "ps_ok rw ps" "turnWithin (nat rw) g bs" "n + length bs < 2 ^ 62"
    and "n \<le> unat (highContiguous ps) + nat rw + 1 + g" "g < nat rw"
  shows "boundedJumps rw ps (acceptedSeqs (of_nat n) bs) \<and> list_all seq_ok (acceptedSeqs (of_nat n) bs) \<and>
    n + length bs \<le> unat (highContiguous (fst (runNext rw ps (acceptedSeqs (of_nat n) bs)))) + 2 * nat rw"
  using assms
proof (induction bs arbitrary: ps g n)
  case (Cons b bs)
  have n: "of_nat n + 1 = (of_nat (Suc n) :: u64)" "unat (of_nat n + 1 :: u64) = Suc n"
    using Cons.prems(3) unat_Suc [of n] by simp_all
  then have s: "seq_ok (of_nat n + 1)" using Cons.prems(3) by (simp add: seq_ok_def)
  show ?case
  proof (cases b)
    case True
    let ?ps = "fst (stepNext rw ps (of_nat n + 1))"
    have "boundedJumps rw ?ps (acceptedSeqs (of_nat (Suc n)) bs) \<and> list_all seq_ok (acceptedSeqs (of_nat (Suc n)) bs) \<and>
        Suc n + length bs \<le> unat (highContiguous (fst (runNext rw ?ps (acceptedSeqs (of_nat (Suc n)) bs)))) + 2 * nat rw"
      using Cons.IH [of ?ps 0 "Suc n"] stepNext_refines(1) [OF Cons.prems(1) s] stepNext_reaches [OF Cons.prems(1) s] Cons.prems True n(2)
      by simp
    then show ?thesis using True s n Cons.prems(4,5) by (simp add: runNext_Cons del: runNext.simps of_nat_Suc)
  next
    case False
    then show ?thesis using Cons.IH [of ps "Suc g" "Suc n"] Cons.prems n by (simp del: of_nat_Suc)
  qed
qed simp

lemma first_turn:
  "turnWithin W g bs \<Longrightarrow> g < W \<Longrightarrow> W \<le> g + length bs \<Longrightarrow>
     \<exists>k bs'. bs = replicate k False @ True # bs' \<and> k + g < W \<and> turnWithin W 0 bs'"
proof (induction bs arbitrary: g)
  case (Cons b bs)
  show ?case
  proof (cases b)
    case True
    then show ?thesis using Cons.prems by (intro exI [of _ 0]) auto
  next
    case False
    then obtain k bs' where "bs = replicate k False @ True # bs'" "k + Suc g < W" "turnWithin W 0 bs'"
      using Cons.IH [of "Suc g"] Cons.prems by auto
    then show ?thesis using False by (intro exI [of _ "Suc k"]) auto
  qed
qed simp

lemma acceptedSeqs_skip: "acceptedSeqs s (replicate k False @ bs) = acceptedSeqs (s + of_nat k) bs"
  by (induction k arbitrary: s) (simp_all add: add.assoc)

lemma ex_nat_split: "(\<exists>j. P j) \<longleftrightarrow> P 0 \<or> (\<exists>j. P (Suc j))"
  by (metis not0_implies_Suc)

lemma acceptedSeqs_member:
  "y \<in> set (acceptedSeqs (of_nat n) bs) \<longleftrightarrow> (\<exists>j<length bs. bs ! j \<and> y = of_nat (Suc (n + j)))"
proof (induction bs arbitrary: n)
  case (Cons b bs)
  have "(\<exists>j<length (b # bs). (b # bs) ! j \<and> y = of_nat (Suc (n + j))) \<longleftrightarrow>
      b \<and> y = of_nat (Suc n) \<or> (\<exists>j<length bs. bs ! j \<and> y = of_nat (Suc (Suc n + j)))"
    by (subst ex_nat_split) simp
  then show ?case using Cons [of "Suc n"] by (auto simp: add.commute)
qed simp

lemma others_suspected:
  assumes "1 \<le> rw" "rw < 2 ^ 62" "turnWithin (nat rw) 0 bs" "nat rw \<le> length bs" "length bs < 2 ^ 62"
  shows "\<exists>x xs. acceptedSeqs 0 bs = x # xs \<and> ps_ok rw (fst (runProducer rw x xs)) \<and>
    (\<forall>s. nat rw < s \<and> s + 2 * nat rw \<le> length bs \<and> \<not> bs ! (s - 1) \<longrightarrow> of_nat s \<in> pendingLost (fst (runProducer rw x xs)))"
proof -
  obtain k bs' where b: "bs = replicate k False @ True # bs'" "k < nat rw" "turnWithin (nat rw) 0 bs'"
    using first_turn [OF assms(3)] assms(1,4) by auto
  let ?x = "of_nat k + 1 :: u64" and ?xs = "acceptedSeqs (of_nat (Suc k)) bs'"
  have x: "unat ?x = Suc k" using unat_Suc [of k] b(1) assms(5) by simp
  have acc: "acceptedSeqs 0 bs = ?x # ?xs" unfolding b(1) acceptedSeqs_skip by (simp add: add.commute)
  have sx: "seq_ok ?x" using x b(1) assms(5) by (simp add: seq_ok_def)
  note f = recordFirst_refines [OF assms(1,2) sx]
  have h: "unat (highContiguous (recordFirst rw ?x)) = Suc k" using arg_cong [OF f(2), of hi] x by simp
  have r: "boundedJumps rw (recordFirst rw ?x) ?xs" "list_all seq_ok ?xs"
      "length bs \<le> unat (highContiguous (fst (runProducer rw ?x ?xs))) + 2 * nat rw"
    using holed_stream [OF f(1) b(3), of "Suc k"] h assms(1,5) b(1) unfolding runProducer_simps by simp_all
  have "covers (Suc k) {Suc k} (absProd (recordFirst rw ?x))" using f(2) x by (simp add: covers_def)
  note c = runNext_covers [OF f(1) this r(2,1)]
  have "of_nat s \<in> pendingLost (fst (runProducer rw ?x ?xs))"
    if s: "nat rw < s" "s + 2 * nat rw \<le> length bs" "\<not> bs ! (s - 1)" for s
  proof -
    have us: "unat (of_nat s :: u64) = s" using s(2) assms(5) by (intro unat_small) simp
    have "Suc k < s" "s \<le> unat (highContiguous (fst (runProducer rw ?x ?xs)))" using s b(2) r(3) by simp_all
    then have "s \<in> unat ` set (?x # ?xs) \<or> s \<in> unat ` pendingLost (fst (runProducer rw ?x ?xs))"
      using c x by (auto simp: covers_def runProducer_simps)
    moreover have "s \<notin> unat ` set (acceptedSeqs 0 bs)"
    proof
      assume "s \<in> unat ` set (acceptedSeqs 0 bs)"
      then obtain j where "j < length bs" "bs ! j" "s = unat (of_nat (Suc j) :: u64)"
        using acceptedSeqs_member [of _ 0 bs] by (auto simp del: of_nat_Suc)
      moreover from this(1) have "unat (of_nat (Suc j) :: u64) = Suc j" using unat_Suc [of j] assms(5) by (simp add: add.commute)
      ultimately show False using s(3) by simp
    qed
    ultimately show ?thesis using us acc by (auto dest: u64_eqI)
  qed
  moreover have "ps_ok rw (fst (runProducer rw ?x ?xs))" using runNext_ok [OF f(1) r(2)] by (simp add: runProducer_simps)
  ultimately show ?thesis using acc by blast
qed

section \<open>The producers of one worker\<close>

text \<open>The numbers the turns take, with the producer that takes them.\<close>

fun numbered :: "u64 \<Rightarrow> string list \<Rightarrow> (string \<times> u64) list" where
  "numbered s [] = []"
| "numbered s (p # ps) = (p, s + 1) # numbered (s + 1) ps"

definition streamOf :: "string \<Rightarrow> (string \<times> u64) list \<Rightarrow> u64 list" where
  "streamOf q ps = map snd (filter (\<lambda>p. fst p = q) ps)"

lemma streamOf_simps [simp]:
  "streamOf q [] = []" "streamOf q (p # ps) = (if fst p = q then [snd p] else []) @ streamOf q ps"
  by (simp_all add: streamOf_def)

lemma streamOf_numbered: "streamOf q (numbered s ps) = acceptedSeqs s (map (\<lambda>p. p = q) ps)"
  by (induction ps arbitrary: s) simp_all

lemma interleaved_run:
  assumes "runLoop (\<lambda>(i, inp). produceOne i inp) turns w = (Next, out, w')" "\<forall>(i, inp)\<in>set turns. answers inp True"
  shows "trk (core w') = trk (core w) \<and> wseq w' = wseq w + of_nat (length turns) \<and>
    cnt (core w') Sent = cnt (core w) Sent + of_nat (length turns) \<and>
    list_all2 (\<lambda>p m. genuine (fst p) (snd p) m) (numbered (wseq w) (map (\<lambda>t. producerName w (fst t)) turns)) out"
  using assms
proof (induction turns arbitrary: w out)
  case (Cons t turns)
  obtain i inp where t: "t = (i, inp)" by fastforce
  obtain g o1 w1 where p: "produceOne i inp w = (g, o1, w1)" by (metis prod_cases3)
  then have g: "g = Next" using Cons.prems t by (cases g) simp_all
  note st = produce_turn [OF p [unfolded g], of True]
  have "answers inp True" using Cons.prems(2) t by simp
  note st = st [OF this]
  then have n: "producerName w1 j = producerName w j" for j by (simp add: producerName_def)
  obtain f2 o2 w2 where e: "runLoop (\<lambda>(i, inp). produceOne i inp) turns w1 = (f2, o2, w2)" by (metis prod_cases3)
  then have r: "f2 = Next" "w2 = w'" "out = o1 @ o2" using Cons.prems t p g by simp_all
  show ?case using Cons.IH [OF e [unfolded r(1,2)]] Cons.prems(2) st r(3) t n by auto
qed simp

section \<open>What the tracker makes of it\<close>

definition recordAll :: "(string \<times> u64) list \<Rightarrow> Tracker \<Rightarrow> Tracker" where
  "recordAll ps t = fold (\<lambda>p t. fst (Record t (fst p) (snd p))) ps t"

lemma recordAll_next:
  "prodOf t q = Some st \<Longrightarrow> prodOf (recordAll ps t) q = Some (fst (runNext (reorderWindow t) st (streamOf q ps)))"
proof (induction ps arbitrary: t st)
  case (Cons p ps)
  then show ?case using Cons.IH [of "fst (Record t (fst p) (snd p))"]
    by (auto simp: recordAll_def Record_prodOf split_beta)
qed (simp add: recordAll_def)

lemma recordAll_fresh:
  "prodOf t q = None \<Longrightarrow> streamOf q ps = x # xs \<Longrightarrow>
     prodOf (recordAll ps t) q = Some (fst (runProducer (reorderWindow t) x xs))"
proof (induction ps arbitrary: t)
  case (Cons p ps)
  show ?case
  proof (cases "fst p = q")
    case True
    then show ?thesis
      using Cons.prems recordAll_next [of "fst (Record t (fst p) (snd p))" q "recordFirst (reorderWindow t) x" ps]
      by (simp add: recordAll_def Record_prodOf runProducer_simps)
  next
    case False
    then show ?thesis using Cons.prems Cons.IH [of "fst (Record t (fst p) (snd p))"] by (simp add: recordAll_def Record_prodOf)
  qed
qed simp

lemma streaming_step:
  assumes "genuine pid n (dMsg d)" "pid \<noteq> []"
  shows "trk (core (snd (StreamingPull_handleMessage cid d w))) = fst (Record (trk (core w)) pid n)"
proof -
  obtain t where "extractMeta (mAttributes (dMsg d)) = (pid, n, crcHex (mData (dMsg d)), t, True)"
    using extract_genuine [OF assms] by blast
  then show ?thesis
    by (simp add: StreamingPull_handleMessage_def Let_def split_beta recordTracked_trk)
qed

lemma streaming_records:
  assumes "list_all2 (\<lambda>p d. genuine (fst p) (snd p) (dMsg d)) ps ds" "\<forall>p\<in>set ps. fst p \<noteq> []"
  shows "trk (core (snd (handleAll (StreamingPull_handleMessage cid) ds w))) = recordAll ps (trk (core w))"
  using assms
proof (induction ps ds arbitrary: w rule: list_all2_induct)
  case (Cons p ps d ds)
  then show ?case using Cons.IH [of "snd (StreamingPull_handleMessage cid d w)"] streaming_step [OF Cons.hyps(1), of cid w]
    by (simp add: recordAll_def split_beta Let_def)
qed (simp add: recordAll_def)

lemma producerName_eq:
  "0 \<le> i \<Longrightarrow> 0 \<le> j \<Longrightarrow> producerName w i = producerName w j \<longleftrightarrow> i = j"
proof -
  assume ij: "0 \<le> i" "0 \<le> j"
  have "nat i = nat j" if "formatBase 10 (nat i) = formatBase 10 (nat j)"
    using arg_cong [OF that, of "baseValue 10"] by (simp add: baseValue_format)
  then show ?thesis using ij by (auto simp: producerName_def FormatInt_def)
qed

lemma confirmed_at_least:
  assumes "ps_ok rw ps" "of_nat ` A \<subseteq> pendingLost ps" "\<forall>s\<in>A. s < 2 ^ 62"
  shows "card A \<le> unat (confirmedLost ps)"
proof -
  have "inj_on (of_nat :: nat \<Rightarrow> u64) A"
    using assms(3) by (intro inj_on_inverseI [of _ unat] unat_small) blast
  then have "card A \<le> card (pendingLost ps)" by (metis assms(2) card_image card_mono finite)
  moreover have "unat ` pendingLost ps \<subseteq> {..<2 ^ 62}"
    using assms(1) by (force simp: ps_ok_def window_ok_def word_le_nat_alt)
  then have "card (pendingLost ps) \<le> 2 ^ 62" unfolding card_pending [symmetric] by (metis card_lessThan card_mono finite_lessThan)
  ultimately show ?thesis using assms(1) by (simp add: ps_ok_def unsigned_of_nat take_bit_nat_eq_self)
qed

text \<open>C40: Producers that share a channel look like loss. The producers of a streaming worker take turns in
  any order, the broker accepts every message and delivers all of them once and in order. A
  producer that has a turn among any window of turns is nevertheless charged with every turn
  of another producer, but for one window at the beginning and two at the end: its stream has
  a hole there, because all producers draw their numbers from one counter.\<close>

theorem shared_counter_counts_loss:
  fixes now :: "Msg \<Rightarrow> instant" and turns :: "(int \<times> pubIn) list"
  assumes "runLoop (\<lambda>(j, inp). StreamingPull_produce j inp) turns w = (Next, out, w1)"
    and "\<forall>(j, inp)\<in>set turns. j \<in> set (fst (StreamingPull_StartProducers w)) \<and> answers inp True"
    and "trk (core w) = New rw" "wseq w = 0" "1 \<le> rw" "rw < 2 ^ 62" "nat rw \<le> length turns" "length turns < 2 ^ 62"
    and "i \<in> set (fst (StreamingPull_StartProducers w))" "turnWithin (nat rw) 0 (map (\<lambda>t. fst t = i) turns)"
    and "handleAll (StreamingPull_handleMessage cid) (map (\<lambda>m. \<lparr>dMsg = m, dNow = now m\<rparr>) out) w1 = (as, w2)"
  shows "cnt (core w1) Sent = cnt (core w) Sent + of_nat (length turns) \<and>
    cnt (core w2) Received = cnt (core w1) Received + of_nat (length turns) \<and>
    (\<exists>ps. prodOf (trk (core w2)) (producerName w i) = Some ps \<and>
       card {s. nat rw < s \<and> s + 2 * nat rw \<le> length turns \<and> fst (turns ! (s - 1)) \<noteq> i} \<le> unat (confirmedLost ps))"
proof -
  note start = assms(2,9) [unfolded StreamingPull_StartProducers_def launched]
  let ?ds = "map (\<lambda>m. \<lparr>dMsg = m, dNow = now m\<rparr>) out :: delivery list"
  let ?ps = "numbered 0 (map (\<lambda>t. producerName w (fst t)) turns)" and ?bs = "map (\<lambda>t. fst t = i) turns"
  have p: "trk (core w1) = New rw" "cnt (core w1) Sent = cnt (core w) Sent + of_nat (length turns)"
      "list_all2 (\<lambda>p m. genuine (fst p) (snd p) m) ?ps out"
    using interleaved_run [OF assms(1) [unfolded StreamingPull_produce_def]] assms(2-4) by auto
  have len: "length (numbered s qs) = length qs" for s qs by (induction qs arbitrary: s) simp_all
  then have "length out = length turns" using list_all2_lengthD [OF p(3)] by simp
  then have rec: "cnt (core w2) Received = cnt (core w1) Received + of_nat (length turns)"
    using sp.all_settled [of cid ?ds w1] assms(11) by simp
  have "fst ` set (numbered s qs) \<subseteq> set qs" for s qs by (induction qs arbitrary: s) auto
  then have "fst p \<noteq> []" if "p \<in> set ?ps" for p using that by (force simp: producerName_def)
  then have t: "trk (core w2) = recordAll ?ps (New rw)"
    using streaming_records [of ?ps ?ds cid w1] p(1,3) assms(11) by (simp add: list_all2_map2)
  have "streamOf (producerName w i) ?ps = acceptedSeqs 0 ?bs"
    using start unfolding streamOf_numbered by (intro arg_cong [of _ _ "acceptedSeqs 0"]) (auto simp: producerName_eq)
  moreover obtain x xs where x: "acceptedSeqs 0 ?bs = x # xs" "ps_ok rw (fst (runProducer rw x xs))"
      "\<forall>s. nat rw < s \<and> s + 2 * nat rw \<le> length ?bs \<and> \<not> ?bs ! (s - 1) \<longrightarrow> of_nat s \<in> pendingLost (fst (runProducer rw x xs))"
    using others_suspected [OF assms(5,6,10)] assms(7,8) by auto
  ultimately have "prodOf (trk (core w2)) (producerName w i) = Some (fst (runProducer rw x xs))"
    using recordAll_fresh [of "New rw" "producerName w i" ?ps x xs] t by (simp add: New_def prodOf_def)
  moreover have "card {s. nat rw < s \<and> s + 2 * nat rw \<le> length turns \<and> fst (turns ! (s - 1)) \<noteq> i} \<le>
      unat (confirmedLost (fst (runProducer rw x xs)))"
    using x(3) assms(8) by (intro confirmed_at_least [OF x(2)]) auto
  ultimately show ?thesis using p(2) rec by blast
qed

lemma demo_interleaved:
  "sizeDistrib (core w) = None \<Longrightarrow> \<forall>t\<in>set turns. snd t = accepting \<Longrightarrow>
     \<exists>out w'. runLoop (\<lambda>(j, inp). produceOne j inp) turns w = (Next, out, w')"
proof (induction turns arbitrary: w)
  case (Cons t turns)
  obtain o1 w1 where t: "produceOne (fst t) (snd t) w = (Next, o1, w1)" "sizeDistrib (core w1) = None"
    using demo_turn [of w "snd t" "fst t"] Cons.prems by auto
  moreover obtain o2 w2 where "runLoop (\<lambda>(j, inp). produceOne j inp) turns w1 = (Next, o2, w2)"
    using Cons.IH [OF t(2)] Cons.prems(2) by auto
  ultimately show ?case by (cases t) simp
qed simp

definition demoShared :: StreamingPullWorker where
  "demoShared = onBase (\<lambda>b. b\<lparr>workerCfg := (workerCfg b)\<lparr>ProducersPerChannel := 2\<rparr>\<rparr>) demoStreaming"

definition sharedTurns :: "(int \<times> pubIn) list" where
  "sharedTurns = concat (replicate 8 [(0, accepting), (1, accepting)])"

theorem shared_counter_counts_loss_witness:
  "\<exists>out w1 as w2 ps. runLoop (\<lambda>(j, inp). StreamingPull_produce j inp) sharedTurns demoShared = (Next, out, w1) \<and>
     handleAll (StreamingPull_handleMessage ''c'') (map (\<lambda>m. \<lparr>dMsg = m, dNow = 0\<rparr>) out) w1 = (as, w2) \<and>
     cnt (core w1) Sent = 16 \<and> cnt (core w2) Received = cnt (core w1) Received + 16 \<and>
     prodOf (trk (core w2)) (producerName demoShared 0) = Some ps \<and> 2 \<le> unat (confirmedLost ps)"
proof -
  have d: "sizeDistrib (core demoShared) = None" "trk (core demoShared) = New 4" "wseq demoShared = 0"
      "producerCount demoShared = 2" "cnt (core demoShared) Sent = 0"
    using demoStreaming_simps(1) [of Sent] demoStreaming_simps(5)
    by (simp_all add: demoShared_def onBase_def producerCount_def) (simp_all add: demoStreaming_def)
  have l: "sharedTurns = [(0, accepting), (1, accepting), (0, accepting), (1, accepting), (0, accepting), (1, accepting),
      (0, accepting), (1, accepting), (0, accepting), (1, accepting), (0, accepting), (1, accepting),
      (0, accepting), (1, accepting), (0, accepting), (1, accepting)]"
    by (simp add: sharedTurns_def numeral_eq_Suc)
  have len: "length sharedTurns = 16" unfolding l by simp
  obtain out w1 where o: "runLoop (\<lambda>(j, inp). StreamingPull_produce j inp) sharedTurns demoShared = (Next, out, w1)"
    using demo_interleaved [OF d(1), of sharedTurns] by (auto simp: StreamingPull_produce_def l simp del: runLoop.simps)
  obtain as w2 where h: "handleAll (StreamingPull_handleMessage ''c'') (map (\<lambda>m. \<lparr>dMsg = m, dNow = 0\<rparr>) out) w1 = (as, w2)"
    by (metis surj_pair)
  have a: "\<forall>(j, inp)\<in>set sharedTurns. j \<in> set (fst (StreamingPull_StartProducers demoShared)) \<and> answers inp True"
    by (simp add: l d StreamingPull_StartProducers_def launched answers_def accepting_def)
  have i: "0 \<in> set (fst (StreamingPull_StartProducers demoShared))" by (simp add: d StreamingPull_StartProducers_def launched)
  have t: "turnWithin (nat 4) 0 (map (\<lambda>t. fst t = 0) sharedTurns)" by (simp add: l)
  have "{6, 8} \<subseteq> {s. nat 4 < s \<and> s + 2 * nat 4 \<le> length sharedTurns \<and> fst (sharedTurns ! (s - 1)) \<noteq> 0}" by (simp add: l)
  then have "2 \<le> card {s. nat 4 < s \<and> s + 2 * nat 4 \<le> length sharedTurns \<and> fst (sharedTurns ! (s - 1)) \<noteq> 0}"
    using card_mono [of "{s. nat 4 < s \<and> s + 2 * nat 4 \<le> length sharedTurns \<and> fst (sharedTurns ! (s - 1)) \<noteq> 0}" "{6, 8}"]
    by (force intro: finite_subset [of _ "{..length sharedTurns}"])
  with shared_counter_counts_loss [OF o a d(2,3) _ _ _ _ i t h] o h show ?thesis unfolding len d(5) by fastforce
qed

end
