(* ===== verification/Output.thy ===== *)
theory Output
  imports Report
begin

text \<open>
  What the harness tells its operator: the status lines of \<^verbatim>\<open>src/burnin/engine/engine.go\<close>
  (\<^verbatim>\<open>logStatus\<close>, \<^verbatim>\<open>logFinalSummary\<close>), the banner of \<^verbatim>\<open>src/burnin/main.go\<close> and the console report of
  \<^verbatim>\<open>src/burnin/report/report.go\<close>. A log record is its message and its attributes in order, a
  console line its format and its arguments; line breaks, the rendering of numbers and the
  handler that writes the record are left out.
\<close>

section \<open>Log records\<close>

datatype arg = Str string | Cnt u64 | Num int | Flt float64 | Flag bool | Dur float64

type_synonym attr = "string \<times> arg"

text \<open>A rate is logged with one decimal and the unit \<^verbatim>\<open>/s\<close>; here it is the number.\<close>

datatype logRecord = Info string "attr list" | Warn message

definition groupSum :: "(BaseWorker \<Rightarrow> u64) \<Rightarrow> 'w WorkerOps \<Rightarrow> 'w list \<Rightarrow> u64" where
  "groupSum f ops g = fold (\<lambda>w acc. acc + f (wBase ops w)) g 0"

definition statusLine :: "'w WorkerOps \<Rightarrow> string \<Rightarrow> 'w list \<Rightarrow> logRecord" where
  "statusLine ops name g =
     (let total = (\<lambda>c. Cnt (groupSum (\<lambda>b. cnt b c) ops g));
          lost = Cnt (groupSum (\<lambda>b. TotalLost (trk b)) ops g);
          rate = Flt (fold (\<lambda>w acc. fadd acc (SlidingRateWindow_Rate (rateWindow (wBase ops w)))) g (Fin 0))
      in if IsFanoutWorker name
         then Info name [(''pub'', total Sent), (''recv'', total Received), (''dropped'', total FanoutDropped),
                (''dup'', total Duplicated), (''err'', total Errors), (''rate'', rate)]
         else if IsOrderingWorker name
         then Info name [(''sent'', total Sent), (''recv'', total Received), (''lost'', lost),
                (''order_viol'', total OrderingViolations), (''dup'', total Duplicated), (''err'', total Errors), (''rate'', rate)]
         else Info name [(''sent'', total Sent), (''recv'', total Received), (''lost'', lost),
                (''dup'', total Duplicated), (''err'', total Errors), (''rate'', rate)])"

definition logStatus :: "'w WorkerOps \<Rightarrow> 'w Engine \<Rightarrow> logRecord list" where
  "logStatus ops e =
     concat (map (\<lambda>name. case map_of (workerGroups e) name of None \<Rightarrow> [] | Some g \<Rightarrow> [statusLine ops name g]) AllWorkerNames)"

text \<open>What the select of \<^verbatim>\<open>periodicReporter\<close> sees: the end of the run, or a tick with the engine at it.\<close>

datatype 'w reportEvent = RunDone | ReportTick "'w Engine"

fun periodicReporter :: "'w WorkerOps \<Rightarrow> 'w reportEvent list \<Rightarrow> logRecord list" where
  "periodicReporter ops [] = []"
| "periodicReporter ops (RunDone # evs) = []"
| "periodicReporter ops (ReportTick e # evs) = logStatus ops e @ periodicReporter ops evs"

definition summaryLine :: "string \<Rightarrow> WorkerSnapshot \<Rightarrow> logRecord" where
  "summaryLine name snap =
     (let total = (\<lambda>c. Cnt (scnt snap c)); lost = Cnt (snapLost snap)
      in if IsFanoutWorker name
         then Info (''  '' @ name) [(''pub'', total Sent), (''deliveries'', total FanoutDeliveries),
                (''dropped'', total FanoutDropped), (''dup'', total Duplicated), (''err'', total Errors)]
         else if IsOrderingWorker name
         then Info (''  '' @ name) [(''sent'', total Sent), (''recv'', total Received), (''lost'', lost),
                (''order_viol'', total OrderingViolations), (''dup'', total Duplicated), (''err'', total Errors)]
         else if IsExactlyOnceWorker name
         then Info (''  '' @ name) [(''sent'', total Sent), (''recv'', total Received), (''lost'', lost),
                (''eo_confirmed'', total ExactlyOnceConfirmed), (''eo_unreconciled'', total ExactlyOnceUnreconciled), (''err'', total Errors)]
         else if IsDeadLetterWorker name
         then Info (''  '' @ name) [(''sent'', total Sent), (''republished'', total DeadLetterRepublished),
                (''dl_lost'', total DeadLetterLost), (''err'', total Errors)]
         else if IsInteropWorker name
         then Info (''  '' @ name) [(''sent'', total Sent), (''converged'', total InteropConverged),
                (''diverged'', total InteropDiverged), (''err'', total Errors)]
         else Info (''  '' @ name) [(''sent'', total Sent), (''recv'', total Received), (''lost'', lost),
                (''dup'', total Duplicated), (''err'', total Errors), (''acked'', total Acked)])"

definition logFinalSummary :: "'w Engine \<Rightarrow> logRecord list" where
  "logFinalSummary e =
     (case verdictResult e of
        None \<Rightarrow> []
      | Some r \<Rightarrow>
          (let sep = Info (replicate 43 (CHR ''='')) []; snaps = (case workerSnapshots e of None \<Rightarrow> [] | Some m \<Rightarrow> m) in
           [sep, Info ''burn-in verdict'' [(''result'', Str (vResult r)), (''passed'', Flag (vPassed r))]] @
           concat (map (\<lambda>name. case map_of snaps name of None \<Rightarrow> [] | Some snap \<Rightarrow> [summaryLine name snap]) AllWorkerNames) @
           map Warn (vWarnings r) @ [sep]))"

definition printBanner :: "Config \<Rightarrow> logRecord" where
  "printBanner c =
     Info ''GCP Pub/Sub burn-in starting''
       [(''mode'', Str (Mode c)), (''emulator'', Str (EmulatorHostF (GCP c))), (''broker'', Str (Address (Broker c))),
        (''grpc'', Str (GRPCAddressF (Broker c))), (''project'', Str (ProjectID (GCP c))), (''port'', Num (Port (Metrics c))),
        (''duration'', Str (Duration c)), (''channels'', Num (TotalChannelCount c))]"

section \<open>The console report\<close>

type_synonym line = "string \<times> arg list"

definition sepLine :: line where
  "sepLine = (replicate 64 (CHR ''-''), [])"

text \<open>\<^verbatim>\<open>Printf\<close> of the counters of one worker; the percentage and the rates are numbers.\<close>

definition counterLines :: "string \<Rightarrow> WorkerStats \<Rightarrow> line list" where
  "counterLines name st =
     (let ws = wsSnap st; n = (\<lambda>c. Cnt (scnt ws c)); lost = Cnt (snapLost ws); lossPct = Flt (wsLossPct st);
          dupCorrupt = (''   Duplicated: %d  Corrupted: %d'', [n Duplicated, n Corrupted])
      in if IsFanoutWorker name
         then [(''   Published: %d  Deliveries: %d  Dropped: %d'', [n Sent, n FanoutDeliveries, n FanoutDropped]), dupCorrupt]
         else if IsExactlyOnceWorker name
         then [(''   Sent: %d  Received: %d  Lost: %d (%.2f%%)'', [n Sent, n Received, lost, lossPct]),
               (''   EO-Confirmed: %d  EO-Unreconciled: %d  Dup: %d'', [n ExactlyOnceConfirmed, n ExactlyOnceUnreconciled, n Duplicated])]
         else if IsDeadLetterWorker name
         then [(''   Sent: %d  Republished: %d  Lost: %d'', [n Sent, n DeadLetterRepublished, n DeadLetterLost]), dupCorrupt]
         else if IsInteropWorker name
         then [(''   Published: %d  Converged: %d  Diverged: %d'', [n Sent, n InteropConverged, n InteropDiverged]), dupCorrupt]
         else if IsOrderingWorker name
         then [(''   Sent: %d  Received: %d  Lost: %d (%.2f%%)'', [n Sent, n Received, lost, lossPct]),
               (''   OrderViolations: %d  Duplicated: %d  Corrupted: %d'', [n OrderingViolations, n Duplicated, n Corrupted])]
         else [(''   Sent: %d  Received: %d  Acked: %d  Lost: %d (%.2f%%)'', [n Sent, n Received, n Acked, lost, lossPct]),
               (''   Duplicated: %d  Corrupted: %d  OutOfOrder: %d'', [n Duplicated, n Corrupted, Cnt (snapOutOfOrder ws)])])"

definition workerLines :: "string \<Rightarrow> WorkerStats \<Rightarrow> line list" where
  "workerLines name st =
     (let ws = wsSnap st in
      [('' Worker: %s (%d ch)'', [Str name, Num (wsChannels st)])] @ counterLines name st @
      (if fgt (LatencyP50 ws) (Fin 0)
       then [(''   Latency: P50=%.1fms P95=%.1fms P99=%.1fms P999=%.1fms'',
              [Flt (LatencyP50 ws), Flt (LatencyP95 ws), Flt (LatencyP99 ws), Flt (LatencyP999 ws)])] else []) @
      [(''   Rate: %.1f msgs/s (target %d)  Peak: %.1f msgs/s'', [Flt (AvgRate ws), Num (wsTargetRate st), Flt (snapPeakRate ws)])] @
      (if 0 < scnt ws Reconnections \<or> fgt (snapDowntime ws) (Fin 0)
       then [(''   Reconnections: %d  Downtime: %.1fs'', [Cnt (scnt ws Reconnections), Flt (snapDowntime ws)])] else []))"

definition checkStatus :: "CheckResult \<Rightarrow> string" where
  "checkStatus cr = (if crPassed cr then ''PASS'' else if Advisory cr then ''WARN'' else ''FAIL'')"

text \<open>A check is printed with its name and its status; its text is left out, as in the verdict.\<close>

datatype consoleLine = Line line | CheckLine string string | WarningLine report_warning

definition checkLines :: "ReportVerdict \<Rightarrow> consoleLine list" where
  "checkLines v = map (\<lambda>(name, cr). CheckLine name (checkStatus cr)) (rvChecks v)"

definition PrintConsole :: "Summary \<Rightarrow> ReportVerdict \<Rightarrow> consoleLine list" where
  "PrintConsole s v =
     map Line [sepLine, ('' GCP Pub/Sub Burn-In Report'', []), sepLine,
       ('' Run ID:       %s'', [Str (sumRunID s)]), ('' Mode:         %s'', [Str (sumMode s)]),
       ('' Duration:     %s'', [Dur (DurationSeconds s)]), ('' Emulator:     %s'', [Str (sumEmulatorHost s)]),
       ('' Broker:       %s'', [Str (sumBrokerAddress s)]), ('' Project:      %s'', [Str (sumProjectID s)]),
       ('' Verdict:      %s'', [Str (rvResult v)]), sepLine] @
     concat (map (\<lambda>name. case map_of (sumWorkers s) name of
         None \<Rightarrow> [] | Some st \<Rightarrow> if \<not> wsEnabled st then [] else map Line (workerLines name st)) AllWorkerNames) @
     map Line [sepLine, ('' Checks:'', [])] @ checkLines v @
     (if rvWarnings v \<noteq> [] then Line ('' Warnings:'', []) # map WarningLine (rvWarnings v) else []) @
     map Line [sepLine, ('' Resources:'', []),
       (''   Memory: peak=%.1fMB baseline=%.1fMB growth=%.2fx'',
         [Flt (PeakRSSMB (Resources s)), Flt (BaselineRSSMB (Resources s)), Flt (MemoryGrowthFactor (Resources s))]), sepLine]"

section \<open>A failed report shows why\<close>

text \<open>The checks of a verdict under construction explain its flag: it has passed exactly if no check that is
  more than advice has failed. A new check keeps this as long as its name is new.\<close>

definition explained :: "ReportVerdict \<Rightarrow> bool" where
  "explained v \<longleftrightarrow> (rvPassed v \<longleftrightarrow> (\<forall>(name, cr)\<in>set (rvChecks v). crPassed cr \<or> Advisory cr))"

lemma explained_result [simp]: "explained (v\<lparr>rvResult := r\<rparr>) = explained v"
  by (simp add: explained_def)

lemma update_fresh: "k \<notin> fst ` set m \<Longrightarrow> AList.update k x m = m @ [(k, x)]"
  by (induction m) auto

lemma explained_hard:
  "explained v \<Longrightarrow> n \<notin> fst ` set (rvChecks v) \<Longrightarrow> explained (addHard n x t v)"
  "explained v \<Longrightarrow> n \<notin> fst ` set (rvChecks v) \<Longrightarrow> explained (zeroCheck n k v)"
  "explained v \<Longrightarrow> explained (addWarning m v)"
  by (auto simp: explained_def addHard_def zeroCheck_def addWarning_def putCheck_def update_fresh Let_def word_gt_0)

definition adds :: "string \<Rightarrow> (ReportVerdict \<Rightarrow> ReportVerdict) \<Rightarrow> bool" where
  "adds k f \<longleftrightarrow> (\<forall>v. explained v \<longrightarrow> k \<notin> fst ` set (rvChecks v) \<longrightarrow>
     explained (f v) \<and> fst ` set (rvChecks (f v)) \<subseteq> insert k (fst ` set (rvChecks v)))"

lemma adds_fold:
  assumes "list_all2 adds ks fs" "distinct ks" "explained v" "set ks \<inter> fst ` set (rvChecks v) = {}"
  shows "explained (fold (\<lambda>f. f) fs v) \<and> fst ` set (rvChecks (fold (\<lambda>f. f) fs v)) \<subseteq> set ks \<union> fst ` set (rvChecks v)"
  using assms
proof (induction ks fs arbitrary: v rule: list_all2_induct)
  case (Cons k ks f fs)
  have f: "explained (f v)" "fst ` set (rvChecks (f v)) \<subseteq> insert k (fst ` set (rvChecks v))"
    using Cons.hyps(1) Cons.prems by (auto simp: adds_def)
  moreover have "set ks \<inter> fst ` set (rvChecks (f v)) = {}" using f(2) Cons.prems by auto
  ultimately have "explained (fold (\<lambda>f. f) fs (f v))"
    "fst ` set (rvChecks (fold (\<lambda>f. f) fs (f v))) \<subseteq> set ks \<union> fst ` set (rvChecks (f v))"
    using Cons.IH [of "f v"] Cons.prems(1) by simp_all
  then show ?case using f(2) unfolding fold_simps list.set(2) by blast
qed simp

lemma keys_of_checks [simp]:
  "fst ` set (rvChecks (addHard n x t v)) = insert n (fst ` set (rvChecks v))"
  "fst ` set (rvChecks (zeroCheck n k v)) = insert n (fst ` set (rvChecks v))"
  "fst ` set (rvChecks (putCheck n cr v)) = insert n (fst ` set (rvChecks v))"
  "rvChecks (addWarning m v) = rvChecks v"
  by (simp_all add: addHard_def zeroCheck_def addWarning_def putCheck_def Let_def dom_update)

lemma adds_steps:
  "adds (''message_loss:'' @ name) (reportLoss c name ws)"
  "adds (''duplication:'' @ name) (reportDuplication c name ws)"
  "adds (''p99_latency:'' @ name) (reportLatency c name ws)"
  "adds (''error_rate:'' @ name) (reportErrors c name ws)"
  "adds k (\<lambda>v. if b then zeroCheck k n v else v)"
  by (auto simp: adds_def reportLoss_def reportDuplication_def reportLatency_def reportErrors_def Let_def explained_hard)

definition checkKinds :: "string list" where
  "checkKinds = [''message_loss:'', ''duplication:'', ''p99_latency:'', ''error_rate:'', ''ordering_violations:'',
     ''exactly_once_reconciled:'', ''dead_letter_loss:'', ''fanout_dropped:'', ''interop_convergence:'']"

lemma checkKinds_colon: "p \<in> set checkKinds \<Longrightarrow> takeWhile (\<lambda>c. c \<noteq> CHR '':'') (p @ n) @ [CHR '':''] = p"
  by (auto simp: checkKinds_def)

lemma checkKinds_inj: "p \<in> set checkKinds \<Longrightarrow> q \<in> set checkKinds \<Longrightarrow> p @ m = q @ n \<Longrightarrow> p = q \<and> m = n"
  using checkKinds_colon [of p m] checkKinds_colon [of q n] by simp

lemma checkKinds_distinct: "distinct checkKinds" by (simp add: checkKinds_def)

definition workerSteps :: "Config \<Rightarrow> string \<times> WorkerStats \<Rightarrow> (ReportVerdict \<Rightarrow> ReportVerdict) list" where
  "workerSteps c nw =
     (let (name, st) = nw; ws = wsSnap st; z = (\<lambda>b k n v. if b then zeroCheck (k @ name) n v else v) in
      [reportLoss c name ws, reportDuplication c name ws, reportLatency c name ws, reportErrors c name ws,
       z (IsOrderingWorker name) ''ordering_violations:'' (scnt ws OrderingViolations),
       z (IsExactlyOnceWorker name) ''exactly_once_reconciled:'' (scnt ws ExactlyOnceUnreconciled),
       z (IsDeadLetterWorker name) ''dead_letter_loss:'' (scnt ws DeadLetterLost),
       z (IsFanoutWorker name) ''fanout_dropped:'' (scnt ws FanoutDropped),
       z (IsInteropWorker name) ''interop_convergence:'' (scnt ws InteropDiverged)])"

lemma workerSteps_adds: "list_all2 adds (map (\<lambda>p. p @ fst nw) checkKinds) (workerSteps c nw)"
  unfolding workerSteps_def checkKinds_def Let_def split_beta
  by (simp only: list.map list_all2_Cons list_all2_Nil2 adds_steps simp_thms)

lemma reportWorker_steps: "reportWorker c nw v = (if wsEnabled (snd nw) then fold (\<lambda>f. f) (workerSteps c nw) v else v)"
  by (simp add: reportWorker_def workerSteps_def reportFidelity_def Let_def split_beta)

definition workerKeys :: "string set \<Rightarrow> string set" where
  "workerKeys N = {p @ n | p n. p \<in> set checkKinds \<and> n \<in> N}"

lemma workerKeys_insert: "workerKeys (insert n N) = (\<lambda>p. p @ n) ` set checkKinds \<union> workerKeys N"
  by (auto simp: workerKeys_def)

lemma workerKeys_disjoint: "n \<notin> N \<Longrightarrow> (\<lambda>p. p @ n) ` set checkKinds \<inter> workerKeys N = {}"
  unfolding workerKeys_def using checkKinds_inj by blast

lemma workerKeys_fresh: "CHR '':'' \<notin> set k \<Longrightarrow> k \<notin> workerKeys N"
proof -
  have "CHR '':'' \<in> set p" if "p \<in> set checkKinds" for p
    using checkKinds_colon [OF that, of "[]"] by (metis in_set_conv_decomp)
  then show "CHR '':'' \<notin> set k \<Longrightarrow> k \<notin> workerKeys N" unfolding workerKeys_def by auto
qed

lemma reportFold_explained:
  assumes "explained v" "distinct (map fst ws)" "fst ` set (rvChecks v) \<inter> workerKeys (fst ` set ws) = {}"
  shows "explained (fold (reportWorker c) ws v) \<and>
    fst ` set (rvChecks (fold (reportWorker c) ws v)) \<subseteq> workerKeys (fst ` set ws) \<union> fst ` set (rvChecks v)"
  using assms
proof (induction ws arbitrary: v)
  case (Cons nw ws)
  let ?ks = "map (\<lambda>p. p @ fst nw) checkKinds" and ?v = "reportWorker c nw v"
  have ks: "set ?ks = (\<lambda>p. p @ fst nw) ` set checkKinds" by simp
  have d: "distinct ?ks" by (simp add: distinct_map inj_on_def checkKinds_distinct)
  have w: "workerKeys (fst ` set (nw # ws)) = set ?ks \<union> workerKeys (fst ` set ws)"
    unfolding ks list.set(2) image_insert by (rule workerKeys_insert)
  have "set ?ks \<inter> fst ` set (rvChecks v) = {}" using Cons.prems(3) unfolding w by blast
  then have v: "explained ?v" "fst ` set (rvChecks ?v) \<subseteq> set ?ks \<union> fst ` set (rvChecks v)"
    using adds_fold [OF workerSteps_adds [of nw c] d Cons.prems(1)] Cons.prems(1) unfolding reportWorker_steps by simp_all
  have "set ?ks \<inter> workerKeys (fst ` set ws) = {}"
    unfolding ks using Cons.prems(2) by (intro workerKeys_disjoint) simp
  then have "fst ` set (rvChecks ?v) \<inter> workerKeys (fst ` set ws) = {}" using v(2) Cons.prems(3) unfolding w by blast
  from Cons.IH [OF v(1) _ this] Cons.prems(2)
  have "explained (fold (reportWorker c) ws ?v)"
    "fst ` set (rvChecks (fold (reportWorker c) ws ?v)) \<subseteq> workerKeys (fst ` set ws) \<union> fst ` set (rvChecks ?v)" by simp_all
  then show ?case using v(2) unfolding fold_simps w by blast
qed simp

lemma explained_memory:
  "explained v \<Longrightarrow> ''memory_stability'' \<notin> fst ` set (rvChecks v) \<Longrightarrow> explained (reportMemory c r v)"
  by (auto simp: reportMemory_def explained_def putCheck_def addWarning_def update_fresh Let_def)

lemma GenerateVerdict_explained: "distinct (map fst (sumWorkers s)) \<Longrightarrow> explained (GenerateVerdict s c)"
proof -
  assume d: "distinct (map fst (sumWorkers s))"
  let ?start = "\<lparr>rvResult = ''PASSED'', rvPassed = True, rvWarnings = [], rvChecks = []\<rparr>"
  let ?v = "fold (reportWorker c) (sumWorkers s) ?start"
  have "explained ?start" by (simp add: explained_def)
  from reportFold_explained [OF this d, of c]
  have v: "explained ?v" "fst ` set (rvChecks ?v) \<subseteq> workerKeys (fst ` set (sumWorkers s))" by simp_all
  have fresh: "''corruption'' \<notin> fst ` set (rvChecks ?v)" "''memory_stability'' \<notin> fst ` set (rvChecks ?v)"
  proof -
    have "CHR '':'' \<notin> set ''corruption''" "CHR '':'' \<notin> set ''memory_stability''" by simp_all
    from this [THEN workerKeys_fresh] show "''corruption'' \<notin> fst ` set (rvChecks ?v)" "''memory_stability'' \<notin> fst ` set (rvChecks ?v)"
      using v(2) by blast+
  qed
  have "explained (reportMemory c (Resources s) (zeroCheck ''corruption'' n ?v))" for n
    using explained_memory [OF explained_hard(2) [OF v(1) fresh(1)]] fresh(2) by simp
  then show ?thesis by (simp add: GenerateVerdict_def Let_def)
qed

text \<open>A failed report shows why. The console lists a check with the status FAIL exactly if the report's own
  gates failed: no later check replaces an earlier one of the same name, and an advisory one
  is shown as WARN.\<close>

theorem failed_check_shown:
  "(\<exists>name. CheckLine name ''FAIL'' \<in> set (PrintConsole (buildSummary c snaps e) (GenerateVerdict (buildSummary c snaps e) c))) \<longleftrightarrow>
     rvResult (GenerateVerdict (buildSummary c snaps e) c) = ''FAILED''"
proof -
  let ?s = "buildSummary c snaps e" let ?v = "GenerateVerdict ?s c"
  have "distinct (map fst (concat (map (\<lambda>n. case map_of snaps n of None \<Rightarrow> []
      | Some snap \<Rightarrow> (case GetWorkerConfig c n of None \<Rightarrow> [] | Some wc \<Rightarrow> if \<not> Enabled wc then [] else [(n, workerStats c snap wc)])) ns)))"
    if "distinct ns" for ns using that by (induction ns) (auto split: option.splits)
  then have "distinct (map fst (sumWorkers ?s))" using AllWorkerNames_distinct by (simp add: reportedWorkers_def)
  from GenerateVerdict_explained [OF this, of c]
  have "rvPassed ?v \<longleftrightarrow> (\<forall>(name, cr)\<in>set (rvChecks ?v). checkStatus cr \<noteq> ''FAIL'')"
    by (auto simp: explained_def checkStatus_def)
  moreover have "CheckLine name st \<in> set (PrintConsole ?s v) \<longleftrightarrow> (\<exists>cr. (name, cr) \<in> set (rvChecks v) \<and> checkStatus cr = st)" for name st v
    by (auto simp: PrintConsole_def checkLines_def split: option.splits if_splits)
  moreover have "rvResult ?v = ''FAILED'' \<longleftrightarrow> \<not> rvPassed ?v" by (simp add: GenerateVerdict_result)
  ultimately show ?thesis by auto
qed

end
