(* ===== verification/Registry.thy ===== *)
theory Registry
  imports Control WorkerProps
begin

text \<open>
  The variable block of \<^verbatim>\<open>src/burnin/metrics/metrics.go\<close>: every metric vector the package
  registers, with its variable, kind, Prometheus name and label names (the help texts are left
  out), and \<^verbatim>\<open>InitMetrics\<close>, which sets the well-known series to zero. The client library is not
  part of the sources; what is used of its documentation is that registering a name twice
  panics, that \<^verbatim>\<open>WithLabelValues\<close> panics when the number of values is not the number of label
  names, and that adding a negative amount to a counter panics. The lemmas show that none of
  this happens to the operations of \<open>BaseWorker\<close> and of the engine, and which series are
  set to zero before their first use.
\<close>

section \<open>The metric vectors\<close>

datatype metricKind = CounterKind | GaugeKind | HistogramKind "float64 list"

record MetricVec =
  mvVar :: string
  mvKind :: metricKind
  mvName :: string
  mvLabels :: "string list"

definition NewCounterVec :: "string \<Rightarrow> string \<Rightarrow> string list \<Rightarrow> MetricVec" where
  "NewCounterVec v n ls = \<lparr>mvVar = v, mvKind = CounterKind, mvName = n, mvLabels = ls\<rparr>"

definition NewGaugeVec :: "string \<Rightarrow> string \<Rightarrow> string list \<Rightarrow> MetricVec" where
  "NewGaugeVec v n ls = \<lparr>mvVar = v, mvKind = GaugeKind, mvName = n, mvLabels = ls\<rparr>"

definition NewHistogramVec :: "string \<Rightarrow> string \<Rightarrow> float64 list \<Rightarrow> string list \<Rightarrow> MetricVec" where
  "NewHistogramVec v n bs ls = \<lparr>mvVar = v, mvKind = HistogramKind bs, mvName = n, mvLabels = ls\<rparr>"

definition latencyBuckets :: "float64 list" where
  "latencyBuckets = map roundF [5 / 10000, 1 / 1000, 25 / 10000, 5 / 1000, 1 / 100, 25 / 1000, 5 / 100, 1 / 10,
     25 / 100, 5 / 10, 1, 25 / 10, 5, 10]"

definition coreCounters :: "MetricVec list" where
  "coreCounters =
     [NewCounterVec ''MessagesSentTotal'' ''burnin_messages_sent_total'' [''sdk'', ''worker'', ''producerid''],
      NewCounterVec ''MessagesReceivedTotal'' ''burnin_messages_received_total'' [''sdk'', ''worker'', ''consumer_id''],
      NewCounterVec ''MessagesLostTotal'' ''burnin_messages_lost_total'' [''sdk'', ''worker''],
      NewCounterVec ''MessagesDuplicatedTotal'' ''burnin_messages_duplicated_total'' [''sdk'', ''worker''],
      NewCounterVec ''MessagesCorruptedTotal'' ''burnin_messages_corrupted_total'' [''sdk'', ''worker''],
      NewCounterVec ''MessagesOutOfOrderTotal'' ''burnin_messages_out_of_order_total'' [''sdk'', ''worker''],
      NewCounterVec ''ErrorsTotal'' ''burnin_errors_total'' [''sdk'', ''worker'', ''error_type''],
      NewCounterVec ''ReconnectionsTotal'' ''burnin_reconnections_total'' [''sdk'', ''worker''],
      NewCounterVec ''BytesSentTotal'' ''burnin_bytes_sent_total'' [''sdk'', ''worker''],
      NewCounterVec ''BytesReceivedTotal'' ''burnin_bytes_received_total'' [''sdk'', ''worker''],
      NewCounterVec ''AcksTotal'' ''burnin_pubsub_acks_total'' [''sdk'', ''worker''],
      NewCounterVec ''DowntimeSecondsTotal'' ''burnin_downtime_seconds_total'' [''sdk'', ''worker''],
      NewCounterVec ''ForcedDisconnectsTotal'' ''burnin_forced_disconnects_total'' [''sdk'']]"

definition pubsubCounters :: "MetricVec list" where
  "pubsubCounters =
     [NewCounterVec ''OrderingViolationsTotal'' ''burnin_gcp_ordering_violations_total'' [''sdk'', ''worker''],
      NewCounterVec ''FanoutDeliveriesTotal'' ''burnin_gcp_fanout_deliveries_total'' [''sdk'', ''worker''],
      NewCounterVec ''FanoutDroppedTotal'' ''burnin_gcp_fanout_dropped_total'' [''sdk'', ''worker''],
      NewCounterVec ''ExactlyOnceConfirmedTotal'' ''burnin_gcp_exactly_once_confirmed_total'' [''sdk'', ''worker''],
      NewCounterVec ''ExactlyOnceUnreconciledTotal'' ''burnin_gcp_exactly_once_unreconciled_total'' [''sdk'', ''worker''],
      NewCounterVec ''DeadLetterRepublishedTotal'' ''burnin_gcp_dead_letter_republished_total'' [''sdk'', ''worker''],
      NewCounterVec ''DeadLetterLostTotal'' ''burnin_gcp_dead_letter_lost_total'' [''sdk'', ''worker''],
      NewCounterVec ''InteropConvergedTotal'' ''burnin_gcp_interop_converged_total'' [''sdk'', ''worker''],
      NewCounterVec ''InteropDivergedTotal'' ''burnin_gcp_interop_diverged_total'' [''sdk'', ''worker'']]"

definition coverageCounters :: "MetricVec list" where
  "coverageCounters =
     [NewCounterVec ''NackRedeliveredTotal'' ''burnin_gcp_nack_redelivered_total'' [''sdk'', ''worker''],
      NewCounterVec ''BatchAtomicityViolationsTotal'' ''burnin_gcp_batch_atomicity_violations_total'' [''sdk'', ''worker''],
      NewCounterVec ''FilterMismatchTotal'' ''burnin_gcp_filter_mismatch_total'' [''sdk'', ''worker''],
      NewCounterVec ''FilterMatchedDeliveredTotal'' ''burnin_gcp_filter_matched_delivered_total'' [''sdk'', ''worker''],
      NewCounterVec ''SchemaRejectViolationsTotal'' ''burnin_gcp_schema_reject_violations_total'' [''sdk'', ''worker''],
      NewCounterVec ''SchemaEnforceConfirmedTotal'' ''burnin_gcp_schema_enforce_confirmed_total'' [''sdk'', ''worker''],
      NewCounterVec ''SeekReplayExpectedTotal'' ''burnin_gcp_seek_replay_expected_total'' [''sdk'', ''worker''],
      NewCounterVec ''SeekReplayObservedTotal'' ''burnin_gcp_seek_replay_observed_total'' [''sdk'', ''worker''],
      NewCounterVec ''SeekReplayMismatchTotal'' ''burnin_gcp_seek_replay_mismatch_total'' [''sdk'', ''worker''],
      NewCounterVec ''InflightCapTailRedeliveredTotal'' ''burnin_gcp_inflight_cap_tail_redelivered_total'' [''sdk'', ''worker''],
      NewCounterVec ''InflightCapLostTotal'' ''burnin_gcp_inflight_cap_lost_total'' [''sdk'', ''worker''],
      NewCounterVec ''ExactlyOnceInvalidAckConfirmedTotal'' ''burnin_gcp_exactly_once_invalid_ack_confirmed_total'' [''sdk'', ''worker''],
      NewCounterVec ''FlowControlViolationsTotal'' ''burnin_gcp_flow_control_violations_total'' [''sdk'', ''worker''],
      NewCounterVec ''RetryBackoffObservedTotal'' ''burnin_gcp_retry_backoff_observed_total'' [''sdk'', ''worker''],
      NewCounterVec ''LeaseExtendConfirmedTotal'' ''burnin_gcp_lease_extend_confirmed_total'' [''sdk'', ''worker''],
      NewCounterVec ''LeaseExtendRejectConfirmedTotal'' ''burnin_gcp_lease_extend_reject_confirmed_total'' [''sdk'', ''worker''],
      NewCounterVec ''CrossStreamAckConfirmedTotal'' ''burnin_gcp_cross_stream_ack_confirmed_total'' [''sdk'', ''worker''],
      NewCounterVec ''PeriodicCloseObservedTotal'' ''burnin_gcp_periodic_close_observed_total'' [''sdk'', ''worker'']]"

definition histograms :: "MetricVec list" where
  "histograms =
     [NewHistogramVec ''MessageLatencySeconds'' ''burnin_message_latency_seconds'' latencyBuckets [''sdk'', ''worker''],
      NewHistogramVec ''SendDurationSeconds'' ''burnin_send_duration_seconds'' latencyBuckets [''sdk'', ''worker'']]"

definition gauges :: "MetricVec list" where
  "gauges =
     [NewGaugeVec ''ActiveConnections'' ''burnin_active_connections'' [''sdk'', ''worker''],
      NewGaugeVec ''UptimeSeconds'' ''burnin_uptime_seconds'' [''sdk''],
      NewGaugeVec ''TargetRate'' ''burnin_target_rate'' [''sdk'', ''worker''],
      NewGaugeVec ''ActualRate'' ''burnin_actual_rate'' [''sdk'', ''worker''],
      NewGaugeVec ''ConsumerLag'' ''burnin_consumer_lag_messages'' [''sdk'', ''worker''],
      NewGaugeVec ''WarmupActive'' ''burnin_warmup_active'' [''sdk''],
      NewGaugeVec ''OutstandingMessages'' ''burnin_gcp_outstanding_messages'' [''sdk'', ''worker''],
      NewGaugeVec ''DeliveryAttemptMax'' ''burnin_gcp_delivery_attempt_max'' [''sdk'', ''worker'']]"

definition registry :: "MetricVec list" where
  "registry = coreCounters @ pubsubCounters @ coverageCounters @ histograms @ gauges"

section \<open>Pre-initialisation\<close>

definition errorTypes :: "string list" where
  "errorTypes = [''send_failure'', ''receive_failure'', ''ack_failure'', ''create_failure'',
     ''subscribe_failure'', ''publish_failure'', ''connect_failure'', ''interop_failure'']"

text \<open>The body of the loop over the workers, then the three series without a worker.\<close>

definition presetWorker :: "string \<Rightarrow> metric_op list" where
  "presetWorker w =
     [CounterAdd ''MessagesSentTotal'' [sdkLabel, w, ''p-'' @ w @ ''-000''] (Fin 0),
      CounterAdd ''MessagesReceivedTotal'' [sdkLabel, w, ''c-'' @ w @ ''-000''] (Fin 0),
      CounterAdd ''MessagesLostTotal'' [sdkLabel, w] (Fin 0),
      CounterAdd ''MessagesDuplicatedTotal'' [sdkLabel, w] (Fin 0),
      CounterAdd ''MessagesCorruptedTotal'' [sdkLabel, w] (Fin 0),
      CounterAdd ''MessagesOutOfOrderTotal'' [sdkLabel, w] (Fin 0),
      CounterAdd ''ReconnectionsTotal'' [sdkLabel, w] (Fin 0),
      CounterAdd ''BytesSentTotal'' [sdkLabel, w] (Fin 0),
      CounterAdd ''BytesReceivedTotal'' [sdkLabel, w] (Fin 0),
      CounterAdd ''AcksTotal'' [sdkLabel, w] (Fin 0),
      CounterAdd ''DowntimeSecondsTotal'' [sdkLabel, w] (Fin 0),
      CounterAdd ''OrderingViolationsTotal'' [sdkLabel, w] (Fin 0),
      CounterAdd ''FanoutDeliveriesTotal'' [sdkLabel, w] (Fin 0),
      CounterAdd ''FanoutDroppedTotal'' [sdkLabel, w] (Fin 0),
      CounterAdd ''ExactlyOnceConfirmedTotal'' [sdkLabel, w] (Fin 0),
      CounterAdd ''ExactlyOnceUnreconciledTotal'' [sdkLabel, w] (Fin 0),
      CounterAdd ''DeadLetterRepublishedTotal'' [sdkLabel, w] (Fin 0),
      CounterAdd ''DeadLetterLostTotal'' [sdkLabel, w] (Fin 0),
      CounterAdd ''InteropConvergedTotal'' [sdkLabel, w] (Fin 0),
      CounterAdd ''InteropDivergedTotal'' [sdkLabel, w] (Fin 0),
      CounterAdd ''NackRedeliveredTotal'' [sdkLabel, w] (Fin 0),
      CounterAdd ''BatchAtomicityViolationsTotal'' [sdkLabel, w] (Fin 0),
      CounterAdd ''FilterMismatchTotal'' [sdkLabel, w] (Fin 0),
      CounterAdd ''FilterMatchedDeliveredTotal'' [sdkLabel, w] (Fin 0),
      CounterAdd ''SchemaRejectViolationsTotal'' [sdkLabel, w] (Fin 0),
      CounterAdd ''SchemaEnforceConfirmedTotal'' [sdkLabel, w] (Fin 0),
      CounterAdd ''SeekReplayExpectedTotal'' [sdkLabel, w] (Fin 0),
      CounterAdd ''SeekReplayObservedTotal'' [sdkLabel, w] (Fin 0),
      CounterAdd ''SeekReplayMismatchTotal'' [sdkLabel, w] (Fin 0),
      CounterAdd ''InflightCapTailRedeliveredTotal'' [sdkLabel, w] (Fin 0),
      CounterAdd ''InflightCapLostTotal'' [sdkLabel, w] (Fin 0),
      CounterAdd ''ExactlyOnceInvalidAckConfirmedTotal'' [sdkLabel, w] (Fin 0),
      CounterAdd ''FlowControlViolationsTotal'' [sdkLabel, w] (Fin 0),
      CounterAdd ''RetryBackoffObservedTotal'' [sdkLabel, w] (Fin 0),
      CounterAdd ''LeaseExtendConfirmedTotal'' [sdkLabel, w] (Fin 0),
      CounterAdd ''LeaseExtendRejectConfirmedTotal'' [sdkLabel, w] (Fin 0),
      CounterAdd ''CrossStreamAckConfirmedTotal'' [sdkLabel, w] (Fin 0),
      CounterAdd ''PeriodicCloseObservedTotal'' [sdkLabel, w] (Fin 0),
      GaugeSet ''OutstandingMessages'' [sdkLabel, w] (Fin 0),
      GaugeSet ''DeliveryAttemptMax'' [sdkLabel, w] (Fin 0)]
     @ map (\<lambda>et. CounterAdd ''ErrorsTotal'' [sdkLabel, w, et] (Fin 0)) errorTypes
     @ [GaugeSet ''ActiveConnections'' [sdkLabel, w] (Fin 0),
        GaugeSet ''TargetRate'' [sdkLabel, w] (Fin 0),
        GaugeSet ''ActualRate'' [sdkLabel, w] (Fin 0),
        GaugeSet ''ConsumerLag'' [sdkLabel, w] (Fin 0)]"

definition InitMetrics :: "string list \<Rightarrow> metric_op list" where
  "InitMetrics workers = concat (map presetWorker workers)
     @ [CounterAdd ''ForcedDisconnectsTotal'' [sdkLabel] (Fin 0),
        GaugeSet ''UptimeSeconds'' [sdkLabel] (Fin 0),
        GaugeSet ''WarmupActive'' [sdkLabel] (Fin 0)]"

section \<open>What the client library accepts\<close>

definition lookupVec :: "string \<Rightarrow> MetricVec option" where
  "lookupVec v = find (\<lambda>m. mvVar m = v) registry"

fun accepted :: "metric_op \<Rightarrow> bool" where
  "accepted (CounterAdd v ls x) =
     (case lookupVec v of None \<Rightarrow> False
      | Some m \<Rightarrow> mvKind m = CounterKind \<and> length ls = length (mvLabels m) \<and> \<not> flt x (Fin 0))"
| "accepted (GaugeSet v ls x) =
     (case lookupVec v of None \<Rightarrow> False
      | Some m \<Rightarrow> mvKind m = GaugeKind \<and> length ls = length (mvLabels m))"
| "accepted (HistObserve v ls x) =
     (case lookupVec v of None \<Rightarrow> False
      | Some m \<Rightarrow> mvKind m = HistogramKind latencyBuckets \<and> length ls = length (mvLabels m))"

fun series :: "metric_op \<Rightarrow> string \<times> string list" where
  "series (CounterAdd v ls x) = (v, ls)"
| "series (GaugeSet v ls x) = (v, ls)"
| "series (HistObserve v ls x) = (v, ls)"

fun opValue :: "metric_op \<Rightarrow> float64" where
  "opValue (CounterAdd v ls x) = x"
| "opValue (GaugeSet v ls x) = x"
| "opValue (HistObserve v ls x) = x"

lemmas registry_defs = registry_def coreCounters_def pubsubCounters_def coverageCounters_def
  histograms_def gauges_def NewCounterVec_def NewGaugeVec_def NewHistogramVec_def

lemma registry_vars_distinct: "distinct (map mvVar registry)"
  unfolding registry_defs by simp

lemma registry_names_distinct: "distinct (map mvName registry)"
  unfolding registry_defs by simp

lemma find_distinct:
  "distinct (map f xs) \<Longrightarrow> x \<in> set xs \<Longrightarrow> find (\<lambda>y. f y = f x) xs = Some x"
  by (induction xs) force+

lemma lookupVec_mem: "m \<in> set registry \<Longrightarrow> lookupVec (mvVar m) = Some m"
  unfolding lookupVec_def by (rule find_distinct [OF registry_vars_distinct])

lemma accepted_counter:
  assumes "NewCounterVec v n ls' \<in> set registry" "length ls = length ls'" "\<not> flt x (Fin 0)"
  shows "accepted (CounterAdd v ls x)"
  using lookupVec_mem [OF assms(1)] assms(2,3) by (simp add: NewCounterVec_def)

lemma accepted_gauge:
  assumes "NewGaugeVec v n ls' \<in> set registry" "length ls = length ls'"
  shows "accepted (GaugeSet v ls x)"
  using lookupVec_mem [OF assms(1)] assms(2) by (simp add: NewGaugeVec_def)

lemma accepted_histogram:
  assumes "NewHistogramVec v n latencyBuckets ls' \<in> set registry" "length ls = length ls'"
  shows "accepted (HistObserve v ls x)"
  using lookupVec_mem [OF assms(1)] assms(2) by (simp add: NewHistogramVec_def)

section \<open>Amounts are not negative\<close>

definition notNeg :: "float64 \<Rightarrow> bool" where
  "notNeg x \<longleftrightarrow> x = PInf \<or> (\<exists>r\<ge>0. x = Fin r)"

lemma notNeg_flt: "notNeg x \<Longrightarrow> \<not> flt x (Fin 0)"
  by (auto simp: notNeg_def)

lemma notNeg_roundF: "0 \<le> q \<Longrightarrow> notNeg (roundF q)"
  by (simp add: notNeg_def roundF_nonneg)

lemma notNeg_floats: "notNeg (floatOfU64 u)" "0 \<le> n \<Longrightarrow> notNeg (floatOfInt n)"
  unfolding floatOfU64_def floatOfInt_def by (intro notNeg_roundF; simp only: of_int_0_le_iff uint_ge_0)+

lemma notNeg_fadd: "notNeg x \<Longrightarrow> notNeg y \<Longrightarrow> notNeg (fadd x y)"
  by (auto simp: notNeg_def dest: roundF_nonneg [OF add_nonneg_nonneg])

lemma notNeg_fdiv: "notNeg x \<Longrightarrow> 0 < q \<Longrightarrow> notNeg (fdiv x (Fin q))"
  by (auto simp: notNeg_def fdiv_def infSign_def dest: roundF_nonneg [OF divide_nonneg_pos])

lemma Seconds_not_neg: "0 \<le> d \<Longrightarrow> notNeg (Seconds d)"
  unfolding Seconds_def
  by (intro notNeg_fadd notNeg_fdiv notNeg_floats)
    (simp_all add: go_quot_nonneg Second_def minus_div_mult_eq_mod pos_imp_zdiv_nonneg_iff)

section \<open>The operations of a worker\<close>

text \<open>One call of a method of \<^verbatim>\<open>BaseWorker\<close>. The sizes the workers pass are lengths and the
  downtime is the time since an earlier instant, so neither is negative.\<close>

inductive baseStep :: "BaseWorker \<Rightarrow> BaseWorker \<Rightarrow> bool" where
  "0 \<le> n \<Longrightarrow> baseStep b (recordSent n cid b)"
| "0 \<le> n \<Longrightarrow> baseStep b (recordReceived n cid b)"
| "baseStep b (recordError et b)"
| "baseStep b (recordLatency d b)"
| "baseStep b (recordAcked b)"
| "baseStep b (recordCorrupted b)"
| "baseStep b (recordDuplicated b)"
| "baseStep b (recordReconnection b)"
| "baseStep b (recordOrderingViolation b)"
| "baseStep b (recordFanoutDelivery b)"
| "baseStep b (recordDeadLetterRepublished b)"
| "baseStep b (recordInteropConverged b)"
| "baseStep b (recordNackRedelivered b)"
| "baseStep b (recordBatchAtomicityViolation b)"
| "baseStep b (recordFilterMismatch b)"
| "baseStep b (recordFilterMatchedDelivered b)"
| "baseStep b (recordSchemaRejectViolation b)"
| "baseStep b (recordSchemaEnforceConfirmed b)"
| "baseStep b (recordSeekReplayMismatch b)"
| "baseStep b (recordInflightCapTailRedelivered b)"
| "baseStep b (recordExactlyOnceInvalidAckConfirmed b)"
| "baseStep b (recordFlowControlViolation b)"
| "baseStep b (recordRetryBackoffObserved b)"
| "baseStep b (recordLeaseExtendConfirmed b)"
| "baseStep b (recordLeaseExtendRejectConfirmed b)"
| "baseStep b (recordCrossStreamAckConfirmed b)"
| "baseStep b (recordPeriodicCloseObserved b)"
| "baseStep b (recordFanoutDropped k b)"
| "baseStep b (recordDeadLetterLost k b)"
| "baseStep b (recordInteropDiverged k b)"
| "baseStep b (recordSeekReplayExpected k b)"
| "baseStep b (recordSeekReplayObserved k b)"
| "baseStep b (recordInflightCapLost k b)"
| "baseStep b (recordExactlyOnceAck ok b)"
| "baseStep b (reconcileExactlyOnce b)"
| "baseStep b (setDeliveryAttemptMax v b)"
| "baseStep b (setOutstanding x b)"
| "baseStep b (markRan p b)"
| "baseStep b (fst (recordTracked pid seq b))"
| "0 \<le> d \<Longrightarrow> baseStep b (addDowntime d b)"
| "baseStep b (AdvanceRateWindows b)"
| "baseStep b (ResetAfterWarmup b)"
| "baseStep b (signalReady b)"
| "baseStep b (DisconnectConsumers b)"
| "baseStep b (StopProducers b)"
| "baseStep b (StopConsumers b)"
| "baseStep b (metricObserveSend d b)"

lemmas metric_op_defs =
  IncSent_def IncReceived_def AddLost_def IncDuplicated_def IncCorrupted_def IncOutOfOrder_def
  IncError_def IncReconnection_def IncAck_def IncOrderingViolation_def IncFanoutDelivery_def
  AddFanoutDropped_def IncExactlyOnceConfirmed_def IncExactlyOnceUnreconciled_def
  IncDeadLetterRepublished_def AddDeadLetterLost_def IncInteropConverged_def
  AddInteropDiverged_def IncNackRedelivered_def IncBatchAtomicityViolation_def
  IncFilterMismatch_def IncFilterMatchedDelivered_def IncSchemaRejectViolation_def
  IncSchemaEnforceConfirmed_def AddSeekReplayExpected_def AddSeekReplayObserved_def
  IncSeekReplayMismatch_def IncInflightCapTailRedelivered_def AddInflightCapLost_def
  IncExactlyOnceInvalidAckConfirmed_def IncFlowControlViolation_def IncRetryBackoffObserved_def
  IncLeaseExtendConfirmed_def IncLeaseExtendRejectConfirmed_def IncCrossStreamAckConfirmed_def
  IncPeriodicCloseObserved_def SetOutstanding_def SetDeliveryAttemptMax_def ObserveLatency_def
  ObserveSendDuration_def AddDowntime_def IncForcedDisconnect_def RecordBytesSent_def
  RecordBytesReceived_def SetActiveConnections_def SetTargetRate_def SetActualRate_def
  SetConsumerLag_def

definition preset :: "string list \<Rightarrow> metric_op \<Rightarrow> bool" where
  "preset workers m \<longleftrightarrow> series m \<in> set (map series (InitMetrics workers))"

text \<open>The series whose labels \<open>InitMetrics\<close> does not know: those of a producer or consumer id,
  of an error type it does not list, and the two histograms.\<close>

fun openSeries :: "metric_op \<Rightarrow> bool" where
  "openSeries (CounterAdd v ls x) =
     (v = ''MessagesSentTotal'' \<or> v = ''MessagesReceivedTotal'' \<or>
      v = ''ErrorsTotal'' \<and> ls ! 2 \<notin> set errorTypes)"
| "openSeries (GaugeSet v ls x) = False"
| "openSeries (HistObserve v ls x) = True"

definition loggedBy :: "string \<Rightarrow> metric_op \<Rightarrow> bool" where
  "loggedBy w m \<longleftrightarrow> accepted m \<and> take 2 (snd (series m)) = [SDK, w] \<and> (preset [w] m \<or> openSeries m)"

lemma registered_counters:
  "NewCounterVec ''MessagesSentTotal'' ''burnin_messages_sent_total'' [''sdk'', ''worker'', ''producerid''] \<in> set registry"
  "NewCounterVec ''MessagesReceivedTotal'' ''burnin_messages_received_total'' [''sdk'', ''worker'', ''consumer_id''] \<in> set registry"
  "NewCounterVec ''MessagesLostTotal'' ''burnin_messages_lost_total'' [''sdk'', ''worker''] \<in> set registry"
  "NewCounterVec ''MessagesDuplicatedTotal'' ''burnin_messages_duplicated_total'' [''sdk'', ''worker''] \<in> set registry"
  "NewCounterVec ''MessagesCorruptedTotal'' ''burnin_messages_corrupted_total'' [''sdk'', ''worker''] \<in> set registry"
  "NewCounterVec ''MessagesOutOfOrderTotal'' ''burnin_messages_out_of_order_total'' [''sdk'', ''worker''] \<in> set registry"
  "NewCounterVec ''ErrorsTotal'' ''burnin_errors_total'' [''sdk'', ''worker'', ''error_type''] \<in> set registry"
  "NewCounterVec ''ReconnectionsTotal'' ''burnin_reconnections_total'' [''sdk'', ''worker''] \<in> set registry"
  "NewCounterVec ''BytesSentTotal'' ''burnin_bytes_sent_total'' [''sdk'', ''worker''] \<in> set registry"
  "NewCounterVec ''BytesReceivedTotal'' ''burnin_bytes_received_total'' [''sdk'', ''worker''] \<in> set registry"
  "NewCounterVec ''AcksTotal'' ''burnin_pubsub_acks_total'' [''sdk'', ''worker''] \<in> set registry"
  "NewCounterVec ''DowntimeSecondsTotal'' ''burnin_downtime_seconds_total'' [''sdk'', ''worker''] \<in> set registry"
  "NewCounterVec ''ForcedDisconnectsTotal'' ''burnin_forced_disconnects_total'' [''sdk''] \<in> set registry"
  "NewCounterVec ''OrderingViolationsTotal'' ''burnin_gcp_ordering_violations_total'' [''sdk'', ''worker''] \<in> set registry"
  "NewCounterVec ''FanoutDeliveriesTotal'' ''burnin_gcp_fanout_deliveries_total'' [''sdk'', ''worker''] \<in> set registry"
  "NewCounterVec ''FanoutDroppedTotal'' ''burnin_gcp_fanout_dropped_total'' [''sdk'', ''worker''] \<in> set registry"
  "NewCounterVec ''ExactlyOnceConfirmedTotal'' ''burnin_gcp_exactly_once_confirmed_total'' [''sdk'', ''worker''] \<in> set registry"
  "NewCounterVec ''ExactlyOnceUnreconciledTotal'' ''burnin_gcp_exactly_once_unreconciled_total'' [''sdk'', ''worker''] \<in> set registry"
  "NewCounterVec ''DeadLetterRepublishedTotal'' ''burnin_gcp_dead_letter_republished_total'' [''sdk'', ''worker''] \<in> set registry"
  "NewCounterVec ''DeadLetterLostTotal'' ''burnin_gcp_dead_letter_lost_total'' [''sdk'', ''worker''] \<in> set registry"
  "NewCounterVec ''InteropConvergedTotal'' ''burnin_gcp_interop_converged_total'' [''sdk'', ''worker''] \<in> set registry"
  "NewCounterVec ''InteropDivergedTotal'' ''burnin_gcp_interop_diverged_total'' [''sdk'', ''worker''] \<in> set registry"
  "NewCounterVec ''NackRedeliveredTotal'' ''burnin_gcp_nack_redelivered_total'' [''sdk'', ''worker''] \<in> set registry"
  "NewCounterVec ''BatchAtomicityViolationsTotal'' ''burnin_gcp_batch_atomicity_violations_total'' [''sdk'', ''worker''] \<in> set registry"
  "NewCounterVec ''FilterMismatchTotal'' ''burnin_gcp_filter_mismatch_total'' [''sdk'', ''worker''] \<in> set registry"
  "NewCounterVec ''FilterMatchedDeliveredTotal'' ''burnin_gcp_filter_matched_delivered_total'' [''sdk'', ''worker''] \<in> set registry"
  "NewCounterVec ''SchemaRejectViolationsTotal'' ''burnin_gcp_schema_reject_violations_total'' [''sdk'', ''worker''] \<in> set registry"
  "NewCounterVec ''SchemaEnforceConfirmedTotal'' ''burnin_gcp_schema_enforce_confirmed_total'' [''sdk'', ''worker''] \<in> set registry"
  "NewCounterVec ''SeekReplayExpectedTotal'' ''burnin_gcp_seek_replay_expected_total'' [''sdk'', ''worker''] \<in> set registry"
  "NewCounterVec ''SeekReplayObservedTotal'' ''burnin_gcp_seek_replay_observed_total'' [''sdk'', ''worker''] \<in> set registry"
  "NewCounterVec ''SeekReplayMismatchTotal'' ''burnin_gcp_seek_replay_mismatch_total'' [''sdk'', ''worker''] \<in> set registry"
  "NewCounterVec ''InflightCapTailRedeliveredTotal'' ''burnin_gcp_inflight_cap_tail_redelivered_total'' [''sdk'', ''worker''] \<in> set registry"
  "NewCounterVec ''InflightCapLostTotal'' ''burnin_gcp_inflight_cap_lost_total'' [''sdk'', ''worker''] \<in> set registry"
  "NewCounterVec ''ExactlyOnceInvalidAckConfirmedTotal'' ''burnin_gcp_exactly_once_invalid_ack_confirmed_total'' [''sdk'', ''worker''] \<in> set registry"
  "NewCounterVec ''FlowControlViolationsTotal'' ''burnin_gcp_flow_control_violations_total'' [''sdk'', ''worker''] \<in> set registry"
  "NewCounterVec ''RetryBackoffObservedTotal'' ''burnin_gcp_retry_backoff_observed_total'' [''sdk'', ''worker''] \<in> set registry"
  "NewCounterVec ''LeaseExtendConfirmedTotal'' ''burnin_gcp_lease_extend_confirmed_total'' [''sdk'', ''worker''] \<in> set registry"
  "NewCounterVec ''LeaseExtendRejectConfirmedTotal'' ''burnin_gcp_lease_extend_reject_confirmed_total'' [''sdk'', ''worker''] \<in> set registry"
  "NewCounterVec ''CrossStreamAckConfirmedTotal'' ''burnin_gcp_cross_stream_ack_confirmed_total'' [''sdk'', ''worker''] \<in> set registry"
  "NewCounterVec ''PeriodicCloseObservedTotal'' ''burnin_gcp_periodic_close_observed_total'' [''sdk'', ''worker''] \<in> set registry"
  unfolding registry_def coreCounters_def pubsubCounters_def coverageCounters_def histograms_def gauges_def
  by simp_all

lemma registered_gauges:
  "NewGaugeVec ''ActiveConnections'' ''burnin_active_connections'' [''sdk'', ''worker''] \<in> set registry"
  "NewGaugeVec ''UptimeSeconds'' ''burnin_uptime_seconds'' [''sdk''] \<in> set registry"
  "NewGaugeVec ''TargetRate'' ''burnin_target_rate'' [''sdk'', ''worker''] \<in> set registry"
  "NewGaugeVec ''ActualRate'' ''burnin_actual_rate'' [''sdk'', ''worker''] \<in> set registry"
  "NewGaugeVec ''ConsumerLag'' ''burnin_consumer_lag_messages'' [''sdk'', ''worker''] \<in> set registry"
  "NewGaugeVec ''WarmupActive'' ''burnin_warmup_active'' [''sdk''] \<in> set registry"
  "NewGaugeVec ''OutstandingMessages'' ''burnin_gcp_outstanding_messages'' [''sdk'', ''worker''] \<in> set registry"
  "NewGaugeVec ''DeliveryAttemptMax'' ''burnin_gcp_delivery_attempt_max'' [''sdk'', ''worker''] \<in> set registry"
  unfolding registry_def coreCounters_def pubsubCounters_def coverageCounters_def histograms_def gauges_def
  by simp_all

lemma registered_histograms:
  "NewHistogramVec ''MessageLatencySeconds'' ''burnin_message_latency_seconds'' latencyBuckets [''sdk'', ''worker''] \<in> set registry"
  "NewHistogramVec ''SendDurationSeconds'' ''burnin_send_duration_seconds'' latencyBuckets [''sdk'', ''worker''] \<in> set registry"
  unfolding registry_def coreCounters_def pubsubCounters_def coverageCounters_def histograms_def gauges_def
  by simp_all

lemmas accepted_intros = registered_counters [THEN accepted_counter] registered_gauges [THEN accepted_gauge]
  registered_histograms [THEN accepted_histogram]

lemmas preset_defs = preset_def InitMetrics_def presetWorker_def

lemma preset_ops:
  "preset [w] (IncDuplicated w)" "preset [w] (IncCorrupted w)" "preset [w] (IncOutOfOrder w)"
  "preset [w] (IncReconnection w)" "preset [w] (IncAck w)" "preset [w] (IncOrderingViolation w)"
  "preset [w] (IncFanoutDelivery w)" "preset [w] (IncExactlyOnceConfirmed w)"
  "preset [w] (IncExactlyOnceUnreconciled w)" "preset [w] (IncDeadLetterRepublished w)"
  "preset [w] (IncInteropConverged w)" "preset [w] (IncNackRedelivered w)"
  "preset [w] (IncBatchAtomicityViolation w)" "preset [w] (IncFilterMismatch w)"
  "preset [w] (IncFilterMatchedDelivered w)" "preset [w] (IncSchemaRejectViolation w)"
  "preset [w] (IncSchemaEnforceConfirmed w)" "preset [w] (IncSeekReplayMismatch w)"
  "preset [w] (IncInflightCapTailRedelivered w)" "preset [w] (IncExactlyOnceInvalidAckConfirmed w)"
  "preset [w] (IncFlowControlViolation w)" "preset [w] (IncRetryBackoffObserved w)"
  "preset [w] (IncLeaseExtendConfirmed w)" "preset [w] (IncLeaseExtendRejectConfirmed w)"
  "preset [w] (IncCrossStreamAckConfirmed w)" "preset [w] (IncPeriodicCloseObserved w)"
  "preset [w] (AddLost w u)" "preset [w] (AddFanoutDropped w u)" "preset [w] (AddDeadLetterLost w u)"
  "preset [w] (AddInteropDiverged w u)" "preset [w] (AddSeekReplayExpected w u)"
  "preset [w] (AddSeekReplayObserved w u)" "preset [w] (AddInflightCapLost w u)"
  "preset [w] (SetOutstanding w x)" "preset [w] (SetDeliveryAttemptMax w x)"
  "preset [w] (SetActiveConnections w x)" "preset [w] (SetTargetRate w x)" "preset [w] (SetActualRate w x)"
  "preset [w] (SetConsumerLag w x)" "preset [w] (RecordBytesSent w n)" "preset [w] (RecordBytesReceived w n)"
  "preset [w] (AddDowntime w x)"
  by (simp_all add: preset_defs metric_op_defs)

lemma open_ops:
  "openSeries (IncSent w pid)" "openSeries (IncReceived w pid)"
  "openSeries (ObserveLatency w d)" "openSeries (ObserveSendDuration w d)"
  by (simp_all add: metric_op_defs)

lemma preset_error: "preset [w] (IncError w et) \<or> openSeries (IncError w et)"
  by (auto simp: preset_defs IncError_def)

lemma accepted_ops:
  "accepted (IncDuplicated w)" "accepted (IncCorrupted w)" "accepted (IncOutOfOrder w)"
  "accepted (IncReconnection w)" "accepted (IncAck w)" "accepted (IncOrderingViolation w)"
  "accepted (IncFanoutDelivery w)" "accepted (IncExactlyOnceConfirmed w)"
  "accepted (IncExactlyOnceUnreconciled w)" "accepted (IncDeadLetterRepublished w)"
  "accepted (IncInteropConverged w)" "accepted (IncNackRedelivered w)"
  "accepted (IncBatchAtomicityViolation w)" "accepted (IncFilterMismatch w)"
  "accepted (IncFilterMatchedDelivered w)" "accepted (IncSchemaRejectViolation w)"
  "accepted (IncSchemaEnforceConfirmed w)" "accepted (IncSeekReplayMismatch w)"
  "accepted (IncInflightCapTailRedelivered w)" "accepted (IncExactlyOnceInvalidAckConfirmed w)"
  "accepted (IncFlowControlViolation w)" "accepted (IncRetryBackoffObserved w)"
  "accepted (IncLeaseExtendConfirmed w)" "accepted (IncLeaseExtendRejectConfirmed w)"
  "accepted (IncCrossStreamAckConfirmed w)" "accepted (IncPeriodicCloseObserved w)" "accepted (AddLost w u)"
  "accepted (AddFanoutDropped w u)" "accepted (AddDeadLetterLost w u)" "accepted (AddInteropDiverged w u)"
  "accepted (AddSeekReplayExpected w u)" "accepted (AddSeekReplayObserved w u)"
  "accepted (AddInflightCapLost w u)" "accepted (SetOutstanding w x)" "accepted (SetDeliveryAttemptMax w x)"
  "accepted (SetActiveConnections w x)" "accepted (SetTargetRate w x)" "accepted (SetActualRate w x)"
  "accepted (SetConsumerLag w x)" "accepted (IncSent w pid)" "accepted (IncReceived w pid)"
  "accepted (IncError w et)" "accepted (ObserveLatency w d)" "accepted (ObserveSendDuration w d)"
  "0 \<le> n \<Longrightarrow> accepted (RecordBytesSent w n)"
  "0 \<le> n \<Longrightarrow> accepted (RecordBytesReceived w n)"
  "0 \<le> d \<Longrightarrow> accepted (AddDowntime w (Seconds d))"
  unfolding metric_op_defs
  by (rule accepted_intros; simp add: notNeg_flt notNeg_floats Seconds_not_neg)+

lemma labels_ops:
  "take 2 (snd (series (IncDuplicated w))) = [SDK, w]" "take 2 (snd (series (IncCorrupted w))) = [SDK, w]"
  "take 2 (snd (series (IncOutOfOrder w))) = [SDK, w]" "take 2 (snd (series (IncReconnection w))) = [SDK, w]"
  "take 2 (snd (series (IncAck w))) = [SDK, w]" "take 2 (snd (series (IncOrderingViolation w))) = [SDK, w]"
  "take 2 (snd (series (IncFanoutDelivery w))) = [SDK, w]"
  "take 2 (snd (series (IncExactlyOnceConfirmed w))) = [SDK, w]"
  "take 2 (snd (series (IncExactlyOnceUnreconciled w))) = [SDK, w]"
  "take 2 (snd (series (IncDeadLetterRepublished w))) = [SDK, w]"
  "take 2 (snd (series (IncInteropConverged w))) = [SDK, w]"
  "take 2 (snd (series (IncNackRedelivered w))) = [SDK, w]"
  "take 2 (snd (series (IncBatchAtomicityViolation w))) = [SDK, w]"
  "take 2 (snd (series (IncFilterMismatch w))) = [SDK, w]"
  "take 2 (snd (series (IncFilterMatchedDelivered w))) = [SDK, w]"
  "take 2 (snd (series (IncSchemaRejectViolation w))) = [SDK, w]"
  "take 2 (snd (series (IncSchemaEnforceConfirmed w))) = [SDK, w]"
  "take 2 (snd (series (IncSeekReplayMismatch w))) = [SDK, w]"
  "take 2 (snd (series (IncInflightCapTailRedelivered w))) = [SDK, w]"
  "take 2 (snd (series (IncExactlyOnceInvalidAckConfirmed w))) = [SDK, w]"
  "take 2 (snd (series (IncFlowControlViolation w))) = [SDK, w]"
  "take 2 (snd (series (IncRetryBackoffObserved w))) = [SDK, w]"
  "take 2 (snd (series (IncLeaseExtendConfirmed w))) = [SDK, w]"
  "take 2 (snd (series (IncLeaseExtendRejectConfirmed w))) = [SDK, w]"
  "take 2 (snd (series (IncCrossStreamAckConfirmed w))) = [SDK, w]"
  "take 2 (snd (series (IncPeriodicCloseObserved w))) = [SDK, w]"
  "take 2 (snd (series (AddLost w u))) = [SDK, w]" "take 2 (snd (series (AddFanoutDropped w u))) = [SDK, w]"
  "take 2 (snd (series (AddDeadLetterLost w u))) = [SDK, w]"
  "take 2 (snd (series (AddInteropDiverged w u))) = [SDK, w]"
  "take 2 (snd (series (AddSeekReplayExpected w u))) = [SDK, w]"
  "take 2 (snd (series (AddSeekReplayObserved w u))) = [SDK, w]"
  "take 2 (snd (series (AddInflightCapLost w u))) = [SDK, w]"
  "take 2 (snd (series (SetOutstanding w x))) = [SDK, w]"
  "take 2 (snd (series (SetDeliveryAttemptMax w x))) = [SDK, w]"
  "take 2 (snd (series (SetActiveConnections w x))) = [SDK, w]"
  "take 2 (snd (series (SetTargetRate w x))) = [SDK, w]" "take 2 (snd (series (SetActualRate w x))) = [SDK, w]"
  "take 2 (snd (series (SetConsumerLag w x))) = [SDK, w]" "take 2 (snd (series (IncSent w pid))) = [SDK, w]"
  "take 2 (snd (series (IncReceived w pid))) = [SDK, w]" "take 2 (snd (series (IncError w et))) = [SDK, w]"
  "take 2 (snd (series (ObserveLatency w d))) = [SDK, w]"
  "take 2 (snd (series (ObserveSendDuration w d))) = [SDK, w]"
  "take 2 (snd (series (RecordBytesSent w n))) = [SDK, w]"
  "take 2 (snd (series (RecordBytesReceived w n))) = [SDK, w]"
  "take 2 (snd (series (AddDowntime w (Seconds d)))) = [SDK, w]"
  by (simp_all add: metric_op_defs SDK_def)

lemma logged_ops:
  "loggedBy w (IncDuplicated w)" "loggedBy w (IncCorrupted w)" "loggedBy w (IncOutOfOrder w)"
  "loggedBy w (IncReconnection w)" "loggedBy w (IncAck w)" "loggedBy w (IncOrderingViolation w)"
  "loggedBy w (IncFanoutDelivery w)" "loggedBy w (IncExactlyOnceConfirmed w)"
  "loggedBy w (IncExactlyOnceUnreconciled w)" "loggedBy w (IncDeadLetterRepublished w)"
  "loggedBy w (IncInteropConverged w)" "loggedBy w (IncNackRedelivered w)"
  "loggedBy w (IncBatchAtomicityViolation w)" "loggedBy w (IncFilterMismatch w)"
  "loggedBy w (IncFilterMatchedDelivered w)" "loggedBy w (IncSchemaRejectViolation w)"
  "loggedBy w (IncSchemaEnforceConfirmed w)" "loggedBy w (IncSeekReplayMismatch w)"
  "loggedBy w (IncInflightCapTailRedelivered w)" "loggedBy w (IncExactlyOnceInvalidAckConfirmed w)"
  "loggedBy w (IncFlowControlViolation w)" "loggedBy w (IncRetryBackoffObserved w)"
  "loggedBy w (IncLeaseExtendConfirmed w)" "loggedBy w (IncLeaseExtendRejectConfirmed w)"
  "loggedBy w (IncCrossStreamAckConfirmed w)" "loggedBy w (IncPeriodicCloseObserved w)"
  "loggedBy w (AddLost w u)" "loggedBy w (AddFanoutDropped w u)" "loggedBy w (AddDeadLetterLost w u)"
  "loggedBy w (AddInteropDiverged w u)" "loggedBy w (AddSeekReplayExpected w u)"
  "loggedBy w (AddSeekReplayObserved w u)" "loggedBy w (AddInflightCapLost w u)"
  "loggedBy w (SetOutstanding w x)" "loggedBy w (SetDeliveryAttemptMax w x)"
  "loggedBy w (SetActiveConnections w x)" "loggedBy w (SetTargetRate w x)" "loggedBy w (SetActualRate w x)"
  "loggedBy w (SetConsumerLag w x)" "loggedBy w (IncSent w pid)" "loggedBy w (IncReceived w pid)"
  "loggedBy w (IncError w et)" "loggedBy w (ObserveLatency w d)" "loggedBy w (ObserveSendDuration w d)"
  "0 \<le> n \<Longrightarrow> loggedBy w (RecordBytesSent w n)"
  "0 \<le> n \<Longrightarrow> loggedBy w (RecordBytesReceived w n)"
  "0 \<le> d \<Longrightarrow> loggedBy w (AddDowntime w (Seconds d))"
  by (simp_all add: loggedBy_def accepted_ops labels_ops preset_ops open_ops preset_error)

text \<open>The step from one state of a worker to another only appends such operations.\<close>

definition logs :: "BaseWorker \<Rightarrow> BaseWorker \<Rightarrow> bool" where
  "logs b b' \<longleftrightarrow> bName b' = bName b \<and> (\<exists>ms. prom b' = prom b @ ms \<and> list_all (loggedBy (bName b)) ms)"

lemma baseStep_logs: "baseStep b b' \<Longrightarrow> logs b b'"
  by (induction rule: baseStep.induct)
    (auto simp: logs_def emit_def bump_def logged_ops worker_defs Let_def recordExactlyOnceAck_def
      reconcileExactlyOnce_def setDeliveryAttemptMax_def setOutstanding_def
      markRan_def recordTracked_def addDowntime_def AdvanceRateWindows_def ResetAfterWarmup_def signalReady_def
      DisconnectConsumers_def StopProducers_def StopConsumers_def metricObserveSend_def
      split: option.split prod.split)

lemma logs_trans: "logs a b \<Longrightarrow> logs b c \<Longrightarrow> logs a c"
  by (auto simp: logs_def)

lemma logs_same [intro]: "logs b b"
  by (simp add: logs_def)

lemmas logs_intros = baseStep.intros [THEN baseStep_logs, THEN [2] logs_trans]

lemma logs_if: "(c \<Longrightarrow> logs a x) \<Longrightarrow> (\<not> c \<Longrightarrow> logs a y) \<Longrightarrow> logs a (if c then x else y)"
  by simp

lemma logs_noteArrival: "logs a b \<Longrightarrow> logs a (noteArrival now body hex t b)"
  unfolding noteArrival_def Let_def by (cases t) (auto intro!: logs_intros logs_if)

lemma baseSteps_logs: "baseStep\<^sup>*\<^sup>* b b' \<Longrightarrow> logs b b'"
proof (induction rule: rtranclp_induct)
  case base
  then show ?case by (simp add: logs_def)
next
  case (step y z)
  then show ?case by (blast intro: logs_trans baseStep_logs)
qed

lemma NewBaseWorker_prom: "NewBaseWorker getenv name ch i c = Some b \<Longrightarrow> bName b = name \<and> prom b = []"
  by (auto simp: NewBaseWorker_def Let_def split: option.splits)

lemma InitMetrics_set:
  "m \<in> set (InitMetrics ws) \<longleftrightarrow> (\<exists>w\<in>set ws. m \<in> set (presetWorker w)) \<or>
     m \<in> {CounterAdd ''ForcedDisconnectsTotal'' [sdkLabel] (Fin 0), GaugeSet ''UptimeSeconds'' [sdkLabel] (Fin 0),
          GaugeSet ''WarmupActive'' [sdkLabel] (Fin 0)}"
  by (auto simp: InitMetrics_def)

lemma preset_mono: "preset [w] m \<Longrightarrow> w \<in> set ws \<Longrightarrow> preset ws m"
  by (auto simp: preset_def InitMetrics_def)

lemma presetWorker_accepted: "list_all accepted (presetWorker w)"
proof -
  have e: "accepted (CounterAdd ''ErrorsTotal'' [sdkLabel, w, et] (Fin 0))" for et
    by (rule accepted_intros) simp_all
  show ?thesis unfolding presetWorker_def
    by (simp add: list_all_iff e del: accepted.simps; intro conjI; rule accepted_intros; simp)
qed

lemma InitMetrics_accepted: "list_all accepted (InitMetrics ws)"
proof -
  have "list_all accepted [CounterAdd ''ForcedDisconnectsTotal'' [sdkLabel] (Fin 0),
      GaugeSet ''UptimeSeconds'' [sdkLabel] (Fin 0), GaugeSet ''WarmupActive'' [sdkLabel] (Fin 0)]"
    by (simp del: accepted.simps; intro conjI; rule accepted_intros; simp)
  then show ?thesis
    using presetWorker_accepted by (simp add: InitMetrics_def list_all_iff del: accepted.simps)
qed

lemma InitMetrics_zero: "m \<in> set (InitMetrics ws) \<Longrightarrow> opValue m = Fin 0"
  by (auto simp: InitMetrics_set presetWorker_def)

section \<open>Message handlers\<close>

text \<open>A handler whose own operations are logged under the worker's name keeps the log well formed
  through the receive loop, reconnections, errors and early stops included.\<close>

locale logging_handler =
  fixes h :: "'m \<Rightarrow> 'a WorkerCore_scheme \<Rightarrow> settle list \<times> 'a WorkerCore_scheme"
  assumes handled: "logs (core w) (core (snd (h m w)))"
begin

lemma all_logged: "logs (core w) (core (snd (handleAll h ms w)))"
proof (induction ms arbitrary: w)
  case Nil
  then show ?case by (simp add: logs_def)
next
  case (Cons m ms)
  then show ?case using logs_trans [OF handled [of w m]] by (simp add: split_beta Let_def)
qed

lemma turn_logged: "logs (core w) (core (snd (snd (snd (receiveTurn ann h inp (first, w))))))"
proof -
  let ?w0 = "if first then w else onBase recordReconnection w"
  let ?w1 = "if ann then onBase signalReady ?w0 else ?w0"
  let ?w2 = "snd (handleAll h (riMsgs inp) ?w1)"
  have "logs (core w) (core ?w0)" "logs (core ?w0) (core ?w1)" "logs (core ?w2) (core (onBase (recordError et) ?w2))"
    for et
    by (auto intro: logs_intros)
  moreover have "logs (core ?w1) (core ?w2)" by (rule all_logged)
  ultimately have "logs (core w) (core ?w2)" "logs (core w) (core (onBase (recordError et) ?w2))" for et
    by (meson logs_trans)+
  then show ?thesis by (auto simp: receiveTurn_def Let_def split_beta logs_def)
qed

lemma loop_logged: "logs (core w) (core (snd (snd (snd (runLoop (receiveTurn ann h) inps (first, w))))))"
proof (induction inps arbitrary: first w)
  case Nil
  then show ?case by (simp add: logs_def)
next
  case (Cons inp inps)
  obtain f as fs w1 where t: "receiveTurn ann h inp (first, w) = (f, as, fs, w1)" by (metis prod_cases4)
  have "logs (core w) (core w1)" using turn_logged [of w ann inp first] by (simp add: t)
  then show ?case using logs_trans [OF _ Cons [of w1 fs]]
    by (cases f) (simp_all add: t split_beta Let_def)
qed

end

lemmas log_simps = Let_def split_beta ackAndCount_def

interpretation lpp: logging_handler "PublishPull_handleMessage cid" for cid
  by unfold_locales (auto simp: PublishPull_handleMessage_def log_simps intro!: logs_intros logs_if logs_noteArrival)

interpretation lfo: logging_handler "FanOut_handleMessage sid" for sid
  by unfold_locales (auto simp: FanOut_handleMessage_def log_simps intro!: logs_intros logs_if logs_noteArrival)

interpretation lfi: logging_handler "Filtering_handleMessage cid" for cid
  by unfold_locales (auto simp: Filtering_handleMessage_def log_simps intro!: logs_intros logs_if logs_noteArrival)

lemma checkOrdering_logs: "logs a (core w) \<Longrightarrow> logs a (core (checkOrdering pid k s w))"
  by (auto simp: checkOrdering_def Let_def split: option.split intro!: logs_intros logs_if)

interpretation lok: logging_handler "OrderingKeys_handleMessage cid" for cid
  by unfold_locales (auto simp: OrderingKeys_handleMessage_def log_simps
      intro!: checkOrdering_logs logs_intros logs_if logs_noteArrival)

interpretation lnr: logging_handler "NackRedelivery_handleMessage cid" for cid
  by unfold_locales (auto simp: NackRedelivery_handleMessage_def log_simps split: option.split nackState.split
      intro!: logs_intros logs_if logs_noteArrival)

interpretation ldl: logging_handler handleDLQMessage
  by unfold_locales (auto simp: handleDLQMessage_def log_simps split: option.split
      intro!: logs_intros logs_if logs_noteArrival)

section \<open>The engine's series\<close>

lemma accepted_engine:
  "accepted (GaugeSet ''WarmupActive'' [SDK] x)" "accepted (GaugeSet ''UptimeSeconds'' [SDK] x)"
  "accepted IncForcedDisconnect"
  unfolding SDK_def IncForcedDisconnect_def by (rule accepted_intros; simp)+

definition eLogs :: "'w Engine \<Rightarrow> 'w Engine \<Rightarrow> bool" where
  "eLogs e e' \<longleftrightarrow> (\<exists>ms. eProm e' = eProm e @ ms \<and> list_all accepted ms)"

lemma rateTick_logs: "eLogs e (rateTick ops e)"
  by (auto simp: eLogs_def rateTick_def eEmit_def mapWorkers_def list_all_iff accepted_ops Let_def simp del: accepted.simps)

lemma detectGapsAll_logs: "eLogs e (detectGapsAll ops e)"
  by (auto simp: eLogs_def detectGapsAll_def scanWorker_def eEmit_def list_all_iff accepted_ops Let_def split_beta
      simp del: accepted.simps)

lemma uptimeTick_logs: "eLogs e (uptimeTick now e)"
  by (simp add: eLogs_def uptimeTick_def eEmit_def accepted_engine del: accepted.simps)

lemma beginMeasurement_logs: "eLogs e (beginMeasurement ops now c e)"
  by (auto simp: eLogs_def beginMeasurement_def startProducers_def eEmit_def mapWorkers_def list_all_iff accepted_ops Let_def
      simp del: accepted.simps)

lemma disconnectAll_logs: "eLogs e (disconnectAll ops e)"
  by (simp add: eLogs_def disconnectAll_def mapWorkers_def eEmit_def accepted_engine del: accepted.simps)

section \<open>Series of the client library\<close>

definition wellNamed :: "MetricVec \<Rightarrow> bool" where
  "wellNamed m \<longleftrightarrow> take 7 (mvName m) = ''burnin_'' \<and> mvLabels m \<noteq> [] \<and> hd (mvLabels m) = ''sdk'' \<and> distinct (mvLabels m) \<and>
     (mvKind m = CounterKind \<longleftrightarrow> take 6 (rev (mvName m)) = rev ''_total'')"

lemma registry_named: "list_all wellNamed registry"
  unfolding registry_defs by (simp add: wellNamed_def)

lemma registry_wellformed:
  "distinct (map mvVar registry) \<and> distinct (map mvName registry) \<and> list_all wellNamed registry"
  by (intro conjI registry_vars_distinct registry_names_distinct registry_named)

lemma NewBaseWorker_name:
  assumes "NewBaseWorker getenv name ch i c = Some b"
  shows "name \<in> set AllWorkerNames"
proof -
  have "GetWorkerConfig c name \<noteq> None" using assms by (auto simp: NewBaseWorker_def split: option.splits)
  then show ?thesis by (auto simp: GetWorkerConfig_def AllWorkerNames_def split: if_splits)
qed

lemma logged_from_new:
  assumes "NewBaseWorker getenv name ch i c = Some b" "logs b b'" "m \<in> set (prom b')"
  shows "loggedBy name m"
  using NewBaseWorker_prom [OF assms(1)] assms(2,3) by (auto simp: logs_def list_all_iff)

text \<open>C36: Every registry operation a worker issues through the methods of \<^verbatim>\<open>BaseWorker\<close> is accepted by
  the client library and labelled with the worker's own name, and its series was set to zero by
  \<^verbatim>\<open>InitMetrics\<close> unless it is one of the open ones.\<close>

theorem worker_metrics_registered:
  assumes "NewBaseWorker getenv name ch i c = Some b" "baseStep\<^sup>*\<^sup>* b b'" "m \<in> set (prom b')"
  shows "accepted m \<and> take 2 (snd (series m)) = [SDK, name] \<and>
    (openSeries m \<or> (\<exists>z\<in>set (InitMetrics AllWorkerNames). series z = series m \<and> opValue z = Fin 0))"
proof -
  have l: "loggedBy name m" using assms baseSteps_logs logged_from_new by blast
  then have "openSeries m \<or> preset AllWorkerNames m"
    using preset_mono [OF _ NewBaseWorker_name [OF assms(1)]] by (auto simp: loggedBy_def)
  then have "openSeries m \<or> (\<exists>z\<in>set (InitMetrics AllWorkerNames). series z = series m \<and> opValue z = Fin 0)"
    by (auto simp: preset_def dest: InitMetrics_zero simp del: openSeries.simps)
  then show ?thesis using l by (simp add: loggedBy_def)
qed

lemma default_fanout_new: "\<exists>b. NewBaseWorker (\<lambda>_. []) WorkerFanOut ''ch'' 1 DefaultConfig = Some b"
  by (simp add: NewBaseWorker_def default_fanout Let_def)

lemma worker_metrics_registered_witness:
  "\<exists>b. NewBaseWorker (\<lambda>_. []) WorkerFanOut ''ch'' 1 DefaultConfig = Some b \<and>
    prom (recordError ''encode_failure'' (recordAcked b)) = [IncAck WorkerFanOut, IncError WorkerFanOut ''encode_failure''] \<and>
    accepted (IncAck WorkerFanOut) \<and> accepted (IncError WorkerFanOut ''encode_failure'')"
proof -
  obtain b where b: "NewBaseWorker (\<lambda>_. []) WorkerFanOut ''ch'' 1 DefaultConfig = Some b"
    using default_fanout_new by blast
  have p: "prom (recordError ''encode_failure'' (recordAcked b)) = [IncAck WorkerFanOut, IncError WorkerFanOut ''encode_failure'']"
    using NewBaseWorker_prom [OF b] by (simp add: recordAcked_def recordError_def emit_def bump_def)
  have s: "baseStep\<^sup>*\<^sup>* b (recordError ''encode_failure'' (recordAcked b))"
    by (meson baseStep.intros rtranclp.rtrancl_into_rtrancl rtranclp.rtrancl_refl)
  show ?thesis
    using b p worker_metrics_registered [OF b s, of "IncAck WorkerFanOut"]
      worker_metrics_registered [OF b s, of "IncError WorkerFanOut ''encode_failure''"] by auto
qed

text \<open>The receive loop of the round-trip worker, from its construction.\<close>

lemma round_trip_metrics_accepted:
  assumes "NewPublishPullRoundTripWorker getenv c i = Some w" "m \<in> set (prom (core (snd (snd (snd (runLoop
    (receiveTurn ann (PublishPull_handleMessage cid)) inps (True, w)))))))"
  shows "accepted m \<and> take 2 (snd (series m)) = [SDK, WorkerPublishPullRoundTrip]"
proof -
  obtain b where b: "NewBaseWorker getenv WorkerPublishPullRoundTrip
      (MappedTopicChannel (TopicName getenv WorkerPublishPullRoundTrip i)) i c = Some b" "core w = b"
    using assms(1) by (auto simp: NewPublishPullRoundTripWorker_def Let_def)
  then have "loggedBy WorkerPublishPullRoundTrip m"
    using logged_from_new [OF b(1) lpp.loop_logged [of w, unfolded b(2)] assms(2)] by simp
  then show ?thesis by (simp add: loggedBy_def)
qed

text \<open>The preset producer and consumer series are those of ids no worker uses: the ids contain
  the mapped channel, which starts with \<open>pubsub.\<close>.\<close>

lemma preset_ids_unused:
  assumes "channelName (core w) = MappedTopicChannel t" "name \<in> set AllWorkerNames"
  shows "producerName w i \<noteq> ''p-'' @ name @ ''-000''" "consumerName w \<noteq> ''c-'' @ name @ ''-000''"
  using assms(2) by (auto simp: producerName_def consumerName_def assms(1) MappedTopicChannel_def AllWorkerNames_def worker_names)

lemma histograms_not_preset:
  "\<not> preset AllWorkerNames (ObserveLatency w d)" "\<not> preset AllWorkerNames (ObserveSendDuration w d)"
  "\<not> preset AllWorkerNames (IncError w ''encode_failure'')" "\<not> preset AllWorkerNames (IncError w ''schema_probe_failure'')"
  by (auto simp: preset_def InitMetrics_set presetWorker_def metric_op_defs errorTypes_def)

end
