(* ===== verification/Wiring.thy ===== *)
theory Wiring
  imports Control Report
begin

text \<open>
  What starts and stops the parts of a run: the loops of \<^verbatim>\<open>src/burnin/engine/worker_group.go\<close>,
  \<^verbatim>\<open>startPeriodicTasks\<close> and \<^verbatim>\<open>disconnectTargets\<close> of \<^verbatim>\<open>engine.go\<close>, the logger of \<^verbatim>\<open>main.go\<close>, and the
  bounded wait of \<^verbatim>\<open>worker.go\<close>. The engine's operations on all workers are these loops, group by
  group.
\<close>

section \<open>Worker groups\<close>

definition WorkerGroup_StartProducers :: "'w WorkerOps \<Rightarrow> 'w list \<Rightarrow> 'w list" where
  "WorkerGroup_StartProducers ops g = map (wStartProducers ops) g"

definition WorkerGroup_StopProducers :: "'w WorkerOps \<Rightarrow> 'w list \<Rightarrow> 'w list" where
  "WorkerGroup_StopProducers ops g = map (wStopProducers ops) g"

definition WorkerGroup_StopConsumers :: "'w WorkerOps \<Rightarrow> 'w list \<Rightarrow> 'w list" where
  "WorkerGroup_StopConsumers ops g = map (wStopConsumers ops) g"

definition WorkerGroup_DisconnectConsumers :: "'w WorkerOps \<Rightarrow> 'w list \<Rightarrow> 'w list" where
  "WorkerGroup_DisconnectConsumers ops g = map (\<lambda>w. wPut ops (DisconnectConsumers (wBase ops w)) w) g"

definition disconnectTargets :: "'w Engine \<Rightarrow> 'w list" where
  "disconnectTargets e = allWorkers e"

section \<open>Periodic tasks\<close>

datatype task = PeriodicReporter duration | RateAdvancer | UptimeTracker | MemoryTracker | GapDetector
  | DisconnectManager duration duration

definition startPeriodicTasks :: "Config \<Rightarrow> task list" where
  "startPeriodicTasks c =
     (if ReportIntervalParsed c > 0 then [PeriodicReporter (ReportIntervalParsed c)] else [])
     @ [RateAdvancer, UptimeTracker, MemoryTracker, GapDetector]
     @ (if ForcedDisconnInterval c > 0 then [DisconnectManager (ForcedDisconnInterval c) (ForcedDisconnDuration c)] else [])"

section \<open>Logger and waiting\<close>

datatype logHandler = JSONHandler logLevel | TextHandler logLevel

definition setupLogger :: "LoggingConfig \<Rightarrow> logHandler" where
  "setupLogger l = (if Format l = ''json'' then JSONHandler (parseLogLevel (Level l)) else TextHandler (parseLogLevel (Level l)))"

datatype waitEvent = GroupDone | WaitTimeout

fun waitWGTimeout :: "waitEvent \<Rightarrow> bool" where
  "waitWGTimeout GroupDone = True"
| "waitWGTimeout WaitTimeout = False"

section \<open>The engine works group by group\<close>

lemma startProducers_groups:
  "workerGroups (startProducers ops e) = map (\<lambda>(name, g). (name, WorkerGroup_StartProducers ops g)) (workerGroups e)"
  by (simp add: startProducers_def mapWorkers_def WorkerGroup_StartProducers_def)

lemma stopProducers_groups:
  "workerGroups (stopAllProducersParallel ops e) = map (\<lambda>(name, g). (name, WorkerGroup_StopProducers ops g)) (workerGroups e)"
  by (simp add: stopAllProducersParallel_def mapWorkers_def WorkerGroup_StopProducers_def)

lemma disconnectAll_groups:
  "workerGroups (disconnectAll ops e) = map (\<lambda>(name, g). (name, WorkerGroup_DisconnectConsumers ops g)) (workerGroups e)"
  by (simp add: disconnectAll_def mapWorkers_def WorkerGroup_DisconnectConsumers_def eEmit_def)

lemma allWorkers_groups:
  assumes "wf_gomap (workerGroups e)" "set (map fst (workerGroups e)) \<subseteq> set AllWorkerNames"
  shows "set (disconnectTargets e) = \<Union> (set (map (set \<circ> snd) (workerGroups e)))"
proof -
  have m: "map_of (workerGroups e) name = Some g \<longleftrightarrow> (name, g) \<in> set (workerGroups e)" for name g
    using assms(1) by (simp add: wf_gomap_def)
  have "x \<in> set (disconnectTargets e) \<longleftrightarrow> (\<exists>name\<in>set AllWorkerNames. \<exists>g. map_of (workerGroups e) name = Some g \<and> x \<in> set g)" for x
    unfolding disconnectTargets_def allWorkers_def set_concat set_map by (auto split: option.splits) (metis)+
  moreover have "fst p \<in> set AllWorkerNames" if "p \<in> set (workerGroups e)" for p
    using that assms(2) by auto
  ultimately have "x \<in> set (disconnectTargets e) \<longleftrightarrow> (\<exists>p\<in>set (workerGroups e). x \<in> set (snd p))" for x
    unfolding m by (metis fst_conv snd_conv prod.collapse)
  then show ?thesis by auto
qed

lemma manager_started: "(\<exists>i d. DisconnectManager i d \<in> set (startPeriodicTasks c)) \<longleftrightarrow> 0 < ForcedDisconnInterval c"
  by (auto simp: startPeriodicTasks_def)

end
