(* ===== verification/Clients.thy ===== *)
theory Clients
  imports Transport
begin

text \<open>
  How \<^verbatim>\<open>src/burnin/transport\<close> and the workers build their clients: the options, project and
  endpoint each constructor hands to the library, the environment variable
  \<^verbatim>\<open>NewPubSubClient\<close> sets on the way, the native client, and the thin wrappers around single calls.
  The constructors of the libraries are arguments (\<open>dial\<close>: the error they answer with); a client
  is what it was built from.
\<close>

section \<open>Options\<close>

datatype client_option = WithEndpoint string | WithInsecureTransport | WithoutAuthentication | WithTelemetryDisabled

definition EmulatorClientOptions :: "string \<Rightarrow> client_option list" where
  "EmulatorClientOptions emulatorHost =
     (if emulatorHost = [] then []
      else [WithEndpoint emulatorHost, WithInsecureTransport, WithoutAuthentication])"

text \<open>The copy in \<^verbatim>\<open>worker/dead_letter.go\<close> falls back to the environment.\<close>

definition emulatorClientOptions :: "environ \<Rightarrow> string \<Rightarrow> client_option list" where
  "emulatorClientOptions getenv emulatorHost =
     (let host = (if emulatorHost = [] then getenv EmulatorEnv else emulatorHost) in
      if host = [] then [] else [WithEndpoint host, WithInsecureTransport, WithoutAuthentication])"

definition projectOrDefault :: "string \<Rightarrow> string" where
  "projectOrDefault p = (if p = [] then ''burnin'' else p)"

section \<open>Constructors\<close>

type_synonym client = "string \<times> client_option list"

text \<open>The environment after the call and the client; \<^verbatim>\<open>os.Setenv\<close> is not undone.\<close>

definition NewPubSubClient :: "(client \<Rightarrow> rpc_error option) \<Rightarrow> PubSubConfig \<Rightarrow> environ \<Rightarrow> environ \<times> (rpc_error + client)" where
  "NewPubSubClient dial c getenv =
     (let host = EmulatorHost getenv (psEmulatorHost c) [];
          getenv' = (if getenv EmulatorEnv = [] then getenv(EmulatorEnv := host) else getenv);
          cl = (projectOrDefault (psProjectID c), [WithEndpoint host, WithInsecureTransport, WithoutAuthentication])
      in (getenv', case dial cl of Some e \<Rightarrow> Inl e | None \<Rightarrow> Inr cl))"

definition NewSchemaClient :: "(client \<Rightarrow> rpc_error option) \<Rightarrow> PubSubConfig \<Rightarrow> environ \<Rightarrow> rpc_error + client" where
  "NewSchemaClient dial c getenv =
     (let host = EmulatorHost getenv (psEmulatorHost c) [];
          cl = (projectOrDefault (psProjectID c), [WithEndpoint host, WithInsecureTransport, WithoutAuthentication])
      in case dial cl of Some e \<Rightarrow> Inl e | None \<Rightarrow> Inr cl)"

definition NewSubscriberClient :: "(client_option list \<Rightarrow> rpc_error option) \<Rightarrow> PubSubConfig \<Rightarrow> environ \<Rightarrow>
    rpc_error + client_option list" where
  "NewSubscriberClient dial c getenv =
     (let opts = EmulatorClientOptions (EmulatorHost getenv (psEmulatorHost c) [])
      in case dial opts of Some e \<Rightarrow> Inl e | None \<Rightarrow> Inr opts)"

text \<open>\<open>splitHP\<close> is \<^verbatim>\<open>net.SplitHostPort\<close>.\<close>

definition DialNative :: "(string \<Rightarrow> (string \<times> string) option) \<Rightarrow> (string \<Rightarrow> int \<Rightarrow> string \<Rightarrow> rpc_error option) \<Rightarrow>
    NativeConfig \<Rightarrow> environ \<Rightarrow> rpc_error + (string \<times> int \<times> string)" where
  "DialNative splitHP dial c getenv =
     (case splitHostPort splitHP (GRPCAddress getenv (nAddress c)) of
        None \<Rightarrow> Inl (Plain ''parse grpc address'')
      | Some (host, port) \<Rightarrow>
          (let clientID = (if nClientID c = [] then ''burnin-gcp-interop'' else nClientID c)
           in case dial host port clientID of Some e \<Rightarrow> Inl e | None \<Rightarrow> Inr (host, port, clientID)))"

definition NativeClient_Close :: "('c \<Rightarrow> rpc_error option) \<Rightarrow> 'c option \<Rightarrow> rpc_error option" where
  "NativeClient_Close shut client = (case client of None \<Rightarrow> None | Some c \<Rightarrow> shut c)"

section \<open>The native subscription\<close>

record StoreEvent =
  seBody :: string
  seTags :: attributes
  seSequence :: u64

text \<open>What the library calls the two callbacks with, and the calls of \<^verbatim>\<open>onEvent\<close> and \<^verbatim>\<open>onError\<close> this leads
  to; \<open>None\<close> is a nil event or a nil error, \<open>hasOnError\<close> whether \<^verbatim>\<open>onError\<close> is set.\<close>

datatype stream_call = OnReceive "StoreEvent option" | OnStreamError "rpc_error option"
datatype handler_call = CallEvent StoreEvent | CallError rpc_error

fun forwardCall :: "bool \<Rightarrow> stream_call \<Rightarrow> handler_call list" where
  "forwardCall hasOnError (OnReceive None) = []"
| "forwardCall hasOnError (OnReceive (Some ev)) = [CallEvent ev]"
| "forwardCall hasOnError (OnStreamError None) = []"
| "forwardCall hasOnError (OnStreamError (Some err)) = (if hasOnError then [CallError err] else [])"

definition SubscribeEventsStoreFromNew :: "rpc_error option \<Rightarrow> bool \<Rightarrow> stream_call list \<Rightarrow> rpc_error + handler_call list" where
  "SubscribeEventsStoreFromNew subErr hasOnError calls =
     (case subErr of Some e \<Rightarrow> Inl e | None \<Rightarrow> Inr (concat (map (forwardCall hasOnError) calls)))"

text \<open>The answer of the library is an error, or a result that may itself carry one.\<close>

definition SendEventStore :: "rpc_error option \<Rightarrow> rpc_error option option \<Rightarrow> rpc_error option" where
  "SendEventStore err res =
     (case err of
        Some e \<Rightarrow> Some e
      | None \<Rightarrow> (case res of None \<Rightarrow> None | Some None \<Rightarrow> None | Some (Some e) \<Rightarrow> Some e))"

section \<open>Single calls\<close>

text \<open>\<open>ack\<close> is the unary \<^verbatim>\<open>Acknowledge\<close> of the subscription.\<close>

definition UnaryAckInvalid :: "(string list \<Rightarrow> rpc_error option) \<Rightarrow> string \<Rightarrow> ack_status \<times> rpc_error option" where
  "UnaryAckInvalid ack ackID = (let err = ack [ackID] in (ackStatusFromError err, err))"

datatype schema_kind = AvroKind | ProtobufKind

definition CreateAvroSchema :: "(schema_kind \<Rightarrow> string \<Rightarrow> string \<Rightarrow> rpc_error + 'h) \<Rightarrow> string \<Rightarrow> string \<Rightarrow> rpc_error + 'h option" where
  "CreateAvroSchema create schemaID definitn = createSchema (\<lambda>i. create AvroKind i definitn) schemaID"

definition CreateProtobufSchema :: "(schema_kind \<Rightarrow> string \<Rightarrow> string \<Rightarrow> rpc_error + 'h) \<Rightarrow> string \<Rightarrow> string \<Rightarrow> rpc_error + 'h option" where
  "CreateProtobufSchema create schemaID definitn = createSchema (\<lambda>i. create ProtobufKind i definitn) schemaID"

definition ValidateMessage :: "(string \<Rightarrow> string \<Rightarrow> rpc_error + 'r) \<Rightarrow> string \<Rightarrow> string \<Rightarrow> rpc_error option" where
  "ValidateMessage validate schemaID msg = (case validate schemaID msg of Inl e \<Rightarrow> Some e | Inr _ \<Rightarrow> None)"

definition SeekToTime :: "(instant \<Rightarrow> rpc_error option) \<Rightarrow> instant \<Rightarrow> rpc_error option" where
  "SeekToTime seek t = seek t"

definition CreateSnapshot :: "(string \<Rightarrow> rpc_error + 's) \<Rightarrow> string \<Rightarrow> rpc_error + 's" where
  "CreateSnapshot create snapshotID = create snapshotID"

definition SeekToSnapshot :: "(string \<Rightarrow> rpc_error option) \<Rightarrow> string \<Rightarrow> rpc_error option" where
  "SeekToSnapshot seek snap = seek snap"

text \<open>\<open>sleepCtx\<close>: whether the timer or the cancelled context comes first.\<close>

datatype wakeup = CtxDone | TimerFired

fun sleepCtx :: "wakeup \<Rightarrow> bool" where
  "sleepCtx CtxDone = False"
| "sleepCtx TimerFired = True"

section \<open>Endpoints\<close>

lemma EmulatorHost_nonempty: "EmulatorHost getenv h a \<noteq> []"
  by (simp add: EmulatorHost_def DefaultBroker_def)

lemma EmulatorHost_variable: "v \<noteq> [] \<Longrightarrow> EmulatorHost (getenv(EmulatorEnv := v)) [] [] = v"
  by (simp add: EmulatorHost_def)

text \<open>The two option builders agree where a host is configured, and differ where only
  \<^verbatim>\<open>KUBEMQ_BROKER_ADDRESS\<close> or the default names one: the copy in the worker gives no options there.\<close>

lemma emulatorClientOptions_configured:
  "h \<noteq> [] \<Longrightarrow> emulatorClientOptions getenv h = EmulatorClientOptions (EmulatorHost getenv h [])"
  by (simp add: emulatorClientOptions_def EmulatorClientOptions_def EmulatorHost_def)

lemma emulatorClientOptions_unconfigured:
  "getenv EmulatorEnv = [] \<Longrightarrow> emulatorClientOptions getenv [] = [] \<and>
     EmulatorClientOptions (EmulatorHost getenv [] []) = [WithEndpoint (EmulatorHost getenv [] []), WithInsecureTransport, WithoutAuthentication]"
  by (simp add: emulatorClientOptions_def EmulatorClientOptions_def EmulatorHost_nonempty)

definition afterClients :: "(client \<Rightarrow> rpc_error option) \<Rightarrow> PubSubConfig list \<Rightarrow> environ \<Rightarrow> environ" where
  "afterClients dial cs getenv = fold (\<lambda>c g. fst (NewPubSubClient dial c g)) cs getenv"

lemma NewPubSubClient_env:
  "fst (NewPubSubClient dial c getenv) =
     (if getenv EmulatorEnv = [] then getenv(EmulatorEnv := EmulatorHost getenv (psEmulatorHost c) []) else getenv)"
  by (simp add: NewPubSubClient_def Let_def)

lemma afterClients_set: "getenv EmulatorEnv \<noteq> [] \<Longrightarrow> afterClients dial cs getenv = getenv"
  by (induction cs) (simp_all add: afterClients_def NewPubSubClient_env)

text \<open>The environment after any number of clients: the first one settles the variable.\<close>

lemma afterClients_first:
  "getenv EmulatorEnv = [] \<Longrightarrow>
     afterClients dial (c # cs) getenv = getenv(EmulatorEnv := EmulatorHost getenv (psEmulatorHost c) [])"
  using afterClients_set [of "getenv(EmulatorEnv := EmulatorHost getenv (psEmulatorHost c) [])" dial cs]
  by (simp add: afterClients_def NewPubSubClient_env EmulatorHost_nonempty)

text \<open>A client with a configured host is dialled there whatever clients were built before it; a
  client without one inherits the host of the first client of the process.\<close>

theorem client_endpoint_stable:
  assumes "h = psEmulatorHost c" "\<forall>d. dial d = None"
  shows "(h \<noteq> [] \<longrightarrow> snd (NewPubSubClient dial c (afterClients dial cs getenv)) =
            Inr (projectOrDefault (psProjectID c), [WithEndpoint h, WithInsecureTransport, WithoutAuthentication])) \<and>
    (h = [] \<and> cs \<noteq> [] \<and> getenv EmulatorEnv = [] \<longrightarrow>
       snd (NewPubSubClient dial c (afterClients dial cs getenv)) =
         Inr (projectOrDefault (psProjectID c),
           [WithEndpoint (EmulatorHost getenv (psEmulatorHost (hd cs)) []), WithInsecureTransport, WithoutAuthentication]))"
proof -
  have "snd (NewPubSubClient dial c (afterClients dial cs getenv)) =
      Inr (projectOrDefault (psProjectID c), [WithEndpoint h, WithInsecureTransport, WithoutAuthentication])" if "h \<noteq> []"
    using that assms by (simp add: NewPubSubClient_def EmulatorHost_def Let_def)
  moreover have "snd (NewPubSubClient dial c (afterClients dial cs getenv)) =
      Inr (projectOrDefault (psProjectID c),
        [WithEndpoint (EmulatorHost getenv (psEmulatorHost (hd cs)) []), WithInsecureTransport, WithoutAuthentication])"
    if e: "h = []" "cs \<noteq> []" "getenv EmulatorEnv = []"
  proof -
    obtain d ds where cs: "cs = d # ds" using e(2) by (cases cs) auto
    have "EmulatorHost (afterClients dial cs getenv) [] [] = EmulatorHost getenv (psEmulatorHost d) []"
      unfolding cs afterClients_first [of getenv, OF e(3)] by (simp add: EmulatorHost_variable EmulatorHost_nonempty)
    then show ?thesis using e(1) assms by (simp add: NewPubSubClient_def cs Let_def)
  qed
  ultimately show ?thesis by blast
qed

lemma DialNative_default_id:
  assumes "DialNative splitHP dial c getenv = Inr (host, port, cid)"
  shows "cid \<noteq> [] \<and> splitHP (GRPCAddress getenv (nAddress c)) \<noteq> None"
  using assms by (auto simp: DialNative_def splitHostPort_def Let_def split: option.splits if_splits)

text \<open>The events reach \<^verbatim>\<open>onEvent\<close> in order, none is dropped but the nil ones.\<close>

lemma forwarded_events:
  assumes "SubscribeEventsStoreFromNew None b calls = Inr out"
  shows "[ev. CallEvent ev \<leftarrow> out] = [ev. OnReceive (Some ev) \<leftarrow> calls]"
proof -
  have "[ev. CallEvent ev \<leftarrow> concat (map (forwardCall b) calls)] = [ev. OnReceive (Some ev) \<leftarrow> calls]"
  proof (induction calls)
    case (Cons c calls)
    then show ?case by (cases "(b, c)" rule: forwardCall.cases) simp_all
  qed simp
  then show ?thesis using assms by (simp add: SubscribeEventsStoreFromNew_def)
qed

theorem client_endpoint_stable_witness:
  "snd (NewPubSubClient (\<lambda>_. None) \<lparr>psProjectID = [], psEmulatorHost = []\<rparr>
      (afterClients (\<lambda>_. None) [\<lparr>psProjectID = ''p'', psEmulatorHost = ''a:1''\<rparr>, \<lparr>psProjectID = ''p'', psEmulatorHost = ''b:2''\<rparr>] (\<lambda>_. []))) =
     Inr (''burnin'', [WithEndpoint ''a:1'', WithInsecureTransport, WithoutAuthentication])"
  using client_endpoint_stable [of "[]" "\<lparr>psProjectID = [], psEmulatorHost = []\<rparr>" "\<lambda>_. None"
      "[\<lparr>psProjectID = ''p'', psEmulatorHost = ''a:1''\<rparr>, \<lparr>psProjectID = ''p'', psEmulatorHost = ''b:2''\<rparr>]" "\<lambda>_. []"]
  by (simp add: EmulatorHost_def projectOrDefault_def)

end
