(* ===== verification/Samples.thy ===== *)
theory Samples
  imports Clients
begin

text \<open>
  The vocabulary of the example programs of \<^verbatim>\<open>src/examples/go\<close>. Every program is one \<^verbatim>\<open>main\<close> that
  issues requests to the broker through the client libraries, checks the answers and exits.
  The broker and the libraries are outside the sources: their answers are the fields of an
  \<open>env\<close>, functions of the requests made so far and of the request itself, so an \<open>env\<close> is any
  behaviour of the outside world. A program is a function from an \<open>env\<close> and the requests made
  so far to the requests made after it and either a result or the failure that ended the
  process: \<^verbatim>\<open>log.Fatalf\<close> and \<^verbatim>\<open>os.Exit(1)\<close> end it at once, so that nothing after them and no
  deferred function runs. What the programs print is left out.
\<close>

section \<open>Requests and answers\<close>

datatype schema_encoding = EncodingJSON | EncodingBinary

record TopicConfig =
  tcLabels :: attributes
  tcRetention :: "duration option"
  tcSchema :: "(string \<times> schema_encoding) option"

record SampleSubscription = SubscriptionConfig +
  scRetainAcked :: bool
  scRetention :: "duration option"
  scPushEndpoint :: string

datatype schema_type = SchemaAvro | SchemaProtocolBuffer

datatype request =
    RNewClient string
  | RNewSubscriberClient "client_option list"
  | RNewSchemaClient string "client_option list"
  | RCreateTopic string TopicConfig
  | RGetTopic string
  | RUpdateTopic string attributes
  | RListTopics
  | RListTopicSubscriptions string
  | RTopicExists string
  | RDeleteTopic string
  | RCreateSubscription string SampleSubscription
  | RDeleteSubscription string
  | RPublish string Msg
  | RPublishAll string "Msg list"
  | RReceive string int int
  | RAck string string
  | RPull string int
  | RAcknowledge string "string list"
  | RModifyAckDeadline string "string list" int
  | RSeekToTime string instant
  | RSeekToSnapshot string string
  | RCreateSnapshot string string
  | RDeleteSnapshot string
  | RCreateSchema string schema_type string
  | RDeleteSchema string
  | RListen
  | RAwaitPush
  | RNativeClient string int string
  | RNativeSubscribe string
  | RNativeNext
  | RNativeTryNext
  | RNativeTryError

record RMsg =
  rmMessage :: Msg
  rmAckID :: string
  rmAttempt :: int

text \<open>The outcome of \<^verbatim>\<open>Receive\<close>: the messages the callback was called with until it returned, with
  the ack confirmation each would get, the error, and whether its context had ended.\<close>

record RcvOut =
  roMsgs :: "(Msg \<times> ack_status \<times> rpc_error option) list"
  roErr :: "rpc_error option"
  roCtxErr :: bool

record NativeEvent =
  neBody :: string
  neTags :: attributes

datatype native_event = NEvent NativeEvent | NError | NTimeout

text \<open>\<open>eTurns\<close> is the number of turns a loop guarded by a deadline starts before the deadline,
  \<open>eSuffix\<close> the first eight characters of a fresh UUID.\<close>

record env =
  eGetenv :: environ
  eSuffix :: string
  eUnit :: "request list \<Rightarrow> request \<Rightarrow> rpc_error option"
  eId :: "request list \<Rightarrow> request \<Rightarrow> rpc_error + string"
  eIds :: "request list \<Rightarrow> request \<Rightarrow> (rpc_error + string) list"
  ePull :: "request list \<Rightarrow> request \<Rightarrow> rpc_error + RMsg list"
  eReceive :: "request list \<Rightarrow> request \<Rightarrow> RcvOut"
  eTopic :: "request list \<Rightarrow> request \<Rightarrow> rpc_error + TopicConfig"
  eExists :: "request list \<Rightarrow> request \<Rightarrow> rpc_error + bool"
  ePushes :: "request list \<Rightarrow> request \<Rightarrow> string option list"
  eNative :: "request list \<Rightarrow> request \<Rightarrow> native_event"
  eTurns :: "request list \<Rightarrow> duration \<Rightarrow> nat"
  eNow :: "request list \<Rightarrow> instant"

section \<open>Programs\<close>

type_synonym 'a prog = "env \<Rightarrow> request list \<Rightarrow> (string + 'a) \<times> request list"

definition ret :: "'a \<Rightarrow> 'a prog" where
  "ret x = (\<lambda>e h. (Inr x, h))"

definition fatal :: "string \<Rightarrow> 'a prog" where
  "fatal s = (\<lambda>e h. (Inl s, h))"

definition bindP :: "'a prog \<Rightarrow> ('a \<Rightarrow> 'b prog) \<Rightarrow> 'b prog" where
  "bindP p f = (\<lambda>e h. case p e h of (Inl s, h') \<Rightarrow> (Inl s, h') | (Inr x, h') \<Rightarrow> f x e h')"

definition ask :: "(env \<Rightarrow> request list \<Rightarrow> request \<Rightarrow> 'a) \<Rightarrow> request \<Rightarrow> 'a prog" where
  "ask sel r = (\<lambda>e h. (Inr (sel e h r), h @ [r]))"

definition observe :: "(env \<Rightarrow> request list \<Rightarrow> 'a) \<Rightarrow> 'a prog" where
  "observe sel = (\<lambda>e h. (Inr (sel e h), h))"

definition ensure :: "bool \<Rightarrow> string \<Rightarrow> unit prog" where
  "ensure c s = (if c then ret () else fatal s)"

text \<open>A call whose error is fatal, and one whose error is only reported.\<close>

definition call :: "string \<Rightarrow> request \<Rightarrow> unit prog" where
  "call s r = bindP (ask eUnit r) (\<lambda>err. ensure (err = None) s)"

definition callFor :: "string \<Rightarrow> (env \<Rightarrow> request list \<Rightarrow> request \<Rightarrow> rpc_error + 'a) \<Rightarrow> request \<Rightarrow> 'a prog" where
  "callFor s sel r = bindP (ask sel r) (\<lambda>a. case a of Inl _ \<Rightarrow> fatal s | Inr x \<Rightarrow> ret x)"

definition attempt :: "request \<Rightarrow> unit prog" where
  "attempt r = bindP (ask eUnit r) (\<lambda>err. ret ())"

definition steps :: "unit prog list \<Rightarrow> unit prog" where
  "steps ps = foldr (\<lambda>p q. bindP p (\<lambda>_. q)) ps (ret ())"

fun mapP :: "('a \<Rightarrow> 'b prog) \<Rightarrow> 'a list \<Rightarrow> 'b list prog" where
  "mapP f [] = ret []"
| "mapP f (x # xs) = bindP (f x) (\<lambda>y. bindP (mapP f xs) (\<lambda>ys. ret (y # ys)))"

definition exitCode :: "'a prog \<Rightarrow> env \<Rightarrow> nat" where
  "exitCode p e = (case fst (p e []) of Inl _ \<Rightarrow> 1 | Inr _ \<Rightarrow> 0)"

definition requests :: "'a prog \<Rightarrow> env \<Rightarrow> request list" where
  "requests p e = snd (p e [])"

section \<open>Pieces the programs share\<close>

definition plainMsg :: "string \<Rightarrow> Msg" where
  "plainMsg body = \<lparr>mData = body, mAttributes = None, mOrderingKey = [], mID = []\<rparr>"

definition attrOf :: "Msg \<Rightarrow> string \<Rightarrow> string" where
  "attrOf m k = (case mAttributes m of None \<Rightarrow> [] | Some a \<Rightarrow> (case map_of a k of None \<Rightarrow> [] | Some v \<Rightarrow> v))"

definition plainTopic :: TopicConfig where
  "plainTopic = \<lparr>tcLabels = [], tcRetention = None, tcSchema = None\<rparr>"

definition sampleSub :: "string \<Rightarrow> SampleSubscription" where
  "sampleSub topic = SubscriptionConfig.extend (plainSubscription topic 10)
     \<lparr>scRetainAcked = False, scRetention = None, scPushEndpoint = []\<rparr>"

definition projectOf :: "environ \<Rightarrow> string" where
  "projectOf getenv =
     (if getenv ''PUBSUB_PROJECT_ID'' = [] then ''my-project'' else getenv ''PUBSUB_PROJECT_ID'')"

definition withProject :: "(string \<Rightarrow> string \<Rightarrow> 'a prog) \<Rightarrow> 'a prog" where
  "withProject f = (\<lambda>e. f (projectOf (eGetenv e)) (eSuffix e) e)"

definition newClient :: "string \<Rightarrow> unit prog" where
  "newClient project = call ''pubsub.NewClient'' (RNewClient project)"

definition emulatorOptions :: "environ \<Rightarrow> client_option list" where
  "emulatorOptions getenv =
     (let host = getenv ''PUBSUB_EMULATOR_HOST'' in
      if host = [] then [] else [WithEndpoint host, WithInsecureTransport, WithoutAuthentication])"

definition emulatorOpts :: "environ \<Rightarrow> client_option list" where
  "emulatorOpts getenv =
     (let addr = getenv ''PUBSUB_EMULATOR_HOST'' in
      if addr = [] then []
      else [WithEndpoint addr, WithInsecureTransport, WithoutAuthentication, WithTelemetryDisabled])"

definition newSubscriber :: "(environ \<Rightarrow> client_option list) \<Rightarrow> unit prog" where
  "newSubscriber opts = (\<lambda>e. call ''NewSubscriberClient'' (RNewSubscriberClient (opts (eGetenv e))) e)"

definition publishMsg :: "string \<Rightarrow> Msg \<Rightarrow> string prog" where
  "publishMsg topic m = callFor ''Publish'' eId (RPublish topic m)"

text \<open>\<^verbatim>\<open>Receive\<close> with a callback that acks every message; \<open>n\<close> and \<open>g\<close> are the receive settings,
  0 where the program leaves the default. The acks are logged after the call they happen in.\<close>

definition receiveAll :: "string \<Rightarrow> int \<Rightarrow> int \<Rightarrow> RcvOut prog" where
  "receiveAll sub n g =
     bindP (ask eReceive (RReceive sub n g)) (\<lambda>out.
     bindP (mapP (\<lambda>m. attempt (RAck sub (mID (fst m)))) (roMsgs out)) (\<lambda>_.
     bindP (ensure (roErr out = None \<or> roCtxErr out) ''Receive'') (\<lambda>_. ret out)))"

definition subPathOf :: "string \<Rightarrow> string \<Rightarrow> string" where
  "subPathOf project sid = ''projects/'' @ project @ ''/subscriptions/'' @ sid"

text \<open>\<^verbatim>\<open>drain\<close> of the programs that pull by hand: pull up to ten messages and acknowledge them,
  until two pulls in a row are empty or the deadline has passed.\<close>

fun drainTurns :: "nat \<Rightarrow> nat \<Rightarrow> string \<Rightarrow> string list prog" where
  "drainTurns 0 streak sub = ret []"
| "drainTurns (Suc n) streak sub =
     bindP (callFor ''Pull'' ePull (RPull sub 10)) (\<lambda>ms.
       if ms = [] then (if Suc streak \<ge> 2 then ret [] else drainTurns n (Suc streak) sub)
       else bindP (call ''Acknowledge'' (RAcknowledge sub (map rmAckID ms))) (\<lambda>_.
              bindP (drainTurns n 0 sub) (\<lambda>bs. ret (map (mData \<circ> rmMessage) ms @ bs))))"

definition drainFor :: "int \<Rightarrow> string \<Rightarrow> string list prog" where
  "drainFor seconds sub = bindP (observe (\<lambda>e h. eTurns e h (seconds * Second))) (\<lambda>n. drainTurns n 0 sub)"

section \<open>Runs that succeed\<close>

named_theorems prog_simps \<open>runs of programs that end with a result\<close>

lemma ret_run [prog_simps]: "ret x e h = (Inr y, h') \<longleftrightarrow> y = x \<and> h' = h"
  by (auto simp: ret_def)

lemma fatal_run [prog_simps]: "fatal s e h = (Inr y, h') \<longleftrightarrow> False"
  by (simp add: fatal_def)

lemma bindP_run [prog_simps]:
  "bindP p f e h = (Inr y, h') \<longleftrightarrow> (\<exists>x h1. p e h = (Inr x, h1) \<and> f x e h1 = (Inr y, h'))"
  by (auto simp: bindP_def split: prod.splits sum.splits)

lemma ask_run [prog_simps]: "ask sel r e h = (Inr y, h') \<longleftrightarrow> y = sel e h r \<and> h' = h @ [r]"
  by (auto simp: ask_def)

lemma observe_run [prog_simps]: "observe sel e h = (Inr y, h') \<longleftrightarrow> y = sel e h \<and> h' = h"
  by (auto simp: observe_def)

lemma ensure_run [prog_simps]: "ensure c s e h = (Inr y, h') \<longleftrightarrow> c \<and> h' = h"
  by (auto simp: ensure_def ret_def fatal_def)

lemma call_run [prog_simps]: "call s r e h = (Inr y, h') \<longleftrightarrow> eUnit e h r = None \<and> h' = h @ [r]"
  by (auto simp: call_def prog_simps)

lemma callFor_run [prog_simps]: "callFor s sel r e h = (Inr y, h') \<longleftrightarrow> sel e h r = Inr y \<and> h' = h @ [r]"
  by (auto simp: callFor_def prog_simps split: sum.splits)

lemma attempt_run [prog_simps]: "attempt r e h = (Inr y, h') \<longleftrightarrow> h' = h @ [r]"
  by (auto simp: attempt_def prog_simps)

lemma steps_run [prog_simps]:
  "steps [] e h = (Inr u, h') \<longleftrightarrow> h' = h"
  "steps (p # ps) e h = (Inr u, h') \<longleftrightarrow> (\<exists>h1. p e h = (Inr (), h1) \<and> steps ps e h1 = (Inr (), h'))"
  by (auto simp: steps_def prog_simps)

section \<open>The requests of a program\<close>

text \<open>\<open>emits P p\<close>: whatever the world answers, every request \<open>p\<close> makes satisfies \<open>P\<close>, and \<open>p\<close>
  takes back none that were made before.\<close>

definition emits :: "(request \<Rightarrow> bool) \<Rightarrow> 'a prog \<Rightarrow> bool" where
  "emits P p \<longleftrightarrow> (\<forall>e h. \<exists>rs. snd (p e h) = h @ rs \<and> list_all P rs)"

named_theorems emits_intros \<open>composition of request contracts\<close>

lemma emitsD: "emits P p \<Longrightarrow> \<exists>rs. snd (p e h) = h @ rs \<and> list_all P rs"
  by (simp add: emits_def)

lemma emits_ret [emits_intros]: "emits P (ret x)"
  by (simp add: emits_def ret_def)

lemma emits_fatal [emits_intros]: "emits P (fatal s)"
  by (simp add: emits_def fatal_def)

lemma emits_bind [emits_intros]:
  assumes "emits P p" "\<And>x. emits P (f x)"
  shows "emits P (bindP p f)"
  unfolding emits_def
proof (intro allI)
  fix e h
  obtain r h1 rs where p: "p e h = (r, h1)" "h1 = h @ rs" "list_all P rs"
    using emitsD [OF assms(1), of e h] by (metis prod.collapse)
  show "\<exists>rs. snd (bindP p f e h) = h @ rs \<and> list_all P rs"
  proof (cases r)
    case (Inl s)
    then show ?thesis using p by (auto simp: bindP_def)
  next
    case (Inr x)
    then show ?thesis using p emitsD [OF assms(2), of x e h1] by (auto simp: bindP_def)
  qed
qed

lemma emits_ask [emits_intros]: "P r \<Longrightarrow> emits P (ask sel r)"
  by (simp add: emits_def ask_def)

lemma emits_observe [emits_intros]: "emits P (observe sel)"
  by (simp add: emits_def observe_def)

lemma emits_ensure [emits_intros]: "emits P (ensure c s)"
  by (simp add: ensure_def emits_ret emits_fatal)

lemma emits_call [emits_intros]: "P r \<Longrightarrow> emits P (call s r)"
  unfolding call_def by (intro emits_intros)

lemma emits_callFor [emits_intros]: "P r \<Longrightarrow> emits P (callFor s sel r)"
  unfolding callFor_def by (intro emits_intros) (auto intro: emits_intros split: sum.split)

lemma emits_attempt [emits_intros]: "P r \<Longrightarrow> emits P (attempt r)"
  unfolding attempt_def by (intro emits_intros)

lemma emits_steps [emits_intros]: "list_all (emits P) ps \<Longrightarrow> emits P (steps ps)"
  unfolding steps_def by (induction ps) (auto intro: emits_intros)

lemma emits_mapP [emits_intros]: "(\<And>x. emits P (f x)) \<Longrightarrow> emits P (mapP f xs)"
  by (induction xs) (auto intro: emits_intros)

lemma emits_if [emits_intros]: "emits P p \<Longrightarrow> emits P q \<Longrightarrow> emits P (if c then p else q)"
  by simp

lemma emits_env: "(\<And>e. emits P (p e)) \<Longrightarrow> emits P (\<lambda>e. p e e)"
  by (simp add: emits_def)

lemma emits_withProject: "(\<And>pr s. emits P (f pr s)) \<Longrightarrow> emits P (withProject f)"
  by (simp add: withProject_def emits_def)

lemma emits_drain:
  assumes "P (RPull sub 10)" "\<And>ids. P (RAcknowledge sub ids)"
  shows "emits P (drainTurns n streak sub)" "emits P (drainFor s sub)"
proof -
  show 1: "emits P (drainTurns n streak sub)" for n streak
    using assms by (induction n arbitrary: streak) (auto intro!: emits_intros)
  then show "emits P (drainFor s sub)" unfolding drainFor_def by (intro emits_intros)
qed

lemma emits_newSubscriber: "(\<And>os. P (RNewSubscriberClient os)) \<Longrightarrow> emits P (newSubscriber opts)"
  unfolding newSubscriber_def by (rule emits_env) (intro emits_intros)

lemma emits_newClient: "P (RNewClient project) \<Longrightarrow> emits P (newClient project)"
  unfolding newClient_def by (intro emits_intros)

lemma emits_publishMsg: "P (RPublish topic m) \<Longrightarrow> emits P (publishMsg topic m)"
  unfolding publishMsg_def by (intro emits_intros)

lemma emits_receiveAll:
  "P (RReceive sub n g) \<Longrightarrow> (\<And>i. P (RAck sub i)) \<Longrightarrow> emits P (receiveAll sub n g)"
  unfolding receiveAll_def by (intro emits_intros)

lemmas emits_pieces = emits_newSubscriber emits_newClient emits_publishMsg emits_receiveAll emits_drain

section \<open>Deferred cleanup\<close>

text \<open>The deferred functions of a program run when \<^verbatim>\<open>main\<close> returns, and only then. \<open>body\<close> is \<^verbatim>\<open>main\<close>
  up to its end, \<open>cleanup\<close> the deletions of the deferred functions in the order they run; the
  errors of the deletions are only reported.\<close>

definition sampleMain :: "(string \<Rightarrow> string \<Rightarrow> 'a prog) \<Rightarrow> (string \<Rightarrow> 'a \<Rightarrow> request list) \<Rightarrow> unit prog" where
  "sampleMain body cleanup =
     withProject (\<lambda>project suffix. bindP (body project suffix) (\<lambda>x. steps (map attempt (cleanup suffix x))))"

lemma attempts_run: "steps (map attempt rs) e h = (Inr (), h @ rs)"
proof (induction rs arbitrary: h)
  case Nil
  then show ?case by (simp add: steps_def ret_def)
next
  case (Cons r rs)
  then show ?case by (simp add: steps_def attempt_def bindP_def ask_def ret_def)
qed

lemma sampleMain_run:
  "sampleMain body cleanup e h =
     (case body (projectOf (eGetenv e)) (eSuffix e) e h of
        (Inl s, h') \<Rightarrow> (Inl s, h')
      | (Inr x, h') \<Rightarrow> (Inr (), h' @ cleanup (eSuffix e) x))"
  by (simp add: sampleMain_def withProject_def bindP_def attempts_run split: prod.split sum.split)

lemma sampleMain_ok:
  "exitCode (sampleMain body cleanup) e = 0 \<longleftrightarrow>
     (\<exists>x h. body (projectOf (eGetenv e)) (eSuffix e) e [] = (Inr x, h))"
  by (auto simp: exitCode_def sampleMain_run split: prod.splits sum.splits)

text \<open>A program owns the resources its deferred functions always delete, and its body deletes
  none of them.\<close>

locale sample =
  fixes body :: "string \<Rightarrow> string \<Rightarrow> 'a prog"
    and cleanup :: "string \<Rightarrow> 'a \<Rightarrow> request list"
    and owned :: "string \<Rightarrow> request list"
  assumes quiet: "emits (\<lambda>r. r \<notin> set (owned suffix)) (body project suffix)"
    and released: "set (owned suffix) \<subseteq> set (cleanup suffix x)"
begin

lemma cleanup_iff:
  assumes "d \<in> set (owned (eSuffix e))"
  shows "d \<in> set (requests (sampleMain body cleanup) e) \<longleftrightarrow> exitCode (sampleMain body cleanup) e = 0"
proof -
  let ?b = "body (projectOf (eGetenv e)) (eSuffix e)"
  obtain rs where rs: "snd (?b e []) = rs" "list_all (\<lambda>r. r \<notin> set (owned (eSuffix e))) rs"
    using emitsD [OF quiet [of "eSuffix e" "projectOf (eGetenv e)"], of e "[]"] by auto
  then have "d \<notin> set (snd (?b e []))" using assms by (auto simp: list_all_iff)
  moreover have "d \<in> set (cleanup (eSuffix e) x)" for x using released assms by blast
  ultimately show ?thesis
    by (cases "?b e []") (auto simp: requests_def exitCode_def sampleMain_run split: sum.splits)
qed

lemma failure_leaks:
  assumes "exitCode (sampleMain body cleanup) e \<noteq> 0" "d \<in> set (owned (eSuffix e))"
  shows "d \<notin> set (requests (sampleMain body cleanup) e)"
  using cleanup_iff [OF assms(2)] assms(1) by simp

end

end
