(* ===== verification/SampleTopics.thy ===== *)
theory SampleTopics
  imports Samples "HOL-Library.Multiset"
begin

text \<open>
  The programs of \<^verbatim>\<open>src/examples/go/topics\<close> and \<^verbatim>\<open>src/examples/go/subscriptions\<close>: the publish and
  subscribe round trip, the batch publish, the administration of a topic, the streaming pull
  and the lease cycle. For each: the body of \<^verbatim>\<open>main\<close> in parts, the deferred deletions, and what an
  exit with code 0 says about the answers of the broker.
\<close>

definition cleanupSubTopic :: "string \<Rightarrow> string \<Rightarrow> request list" where
  "cleanupSubTopic sub topic = [RDeleteSubscription sub, RDeleteTopic topic]"

section \<open>topics/basic-publish-subscribe\<close>

definition basicBody :: string where
  "basicBody = ''order #4242 '' @ [CHR 0xE2, CHR 0x80, CHR 0x94] @ '' 3x widget, ship express''"

definition Basic_setup :: "string \<Rightarrow> string \<Rightarrow> unit prog" where
  "Basic_setup project suffix =
     (let topicID = ''orders-'' @ suffix; subID = ''sub-orders-'' @ suffix in
      steps [newClient project,
             call ''CreateTopic'' (RCreateTopic topicID plainTopic),
             call ''CreateSubscription'' (RCreateSubscription subID (sampleSub topicID))])"

definition Basic_publish :: "string \<Rightarrow> string prog" where
  "Basic_publish suffix = publishMsg (''orders-'' @ suffix) (mkMsg basicBody [(''priority'', ''express'')])"

text \<open>The callback keeps the first message it is called with.\<close>

definition Basic_verify :: "string \<Rightarrow> string \<Rightarrow> unit prog" where
  "Basic_verify suffix msgID =
     bindP (receiveAll (''sub-orders-'' @ suffix) 0 0) (\<lambda>out.
       case roMsgs out of
         [] \<Rightarrow> fatal ''expected 1 message''
       | (got, _) # _ \<Rightarrow>
           steps [ensure (mData got = basicBody) ''body'',
                  ensure (attrOf got ''priority'' = ''express'') ''attribute'',
                  ensure (mID got = msgID) ''messageId''])"

definition Basic_body :: "string \<Rightarrow> string \<Rightarrow> unit prog" where
  "Basic_body project suffix =
     bindP (Basic_setup project suffix) (\<lambda>_. bindP (Basic_publish suffix) (Basic_verify suffix))"

definition Basic_cleanup :: "string \<Rightarrow> unit \<Rightarrow> request list" where
  "Basic_cleanup suffix = (\<lambda>_. cleanupSubTopic (''sub-orders-'' @ suffix) (''orders-'' @ suffix))"

definition Basic_main :: "unit prog" where
  "Basic_main = sampleMain Basic_body Basic_cleanup"

section \<open>topics/batch-publish\<close>

definition batchSize :: nat where "batchSize = 10"

definition batchMsg :: "nat \<Rightarrow> Msg" where
  "batchMsg i = mkMsg (''event-'' @ FormatInt (int i)) [(''seq'', FormatInt (int i))]"

text \<open>The loop over the results: an error or an id seen before ends the program.\<close>

fun collectIDs :: "(rpc_error + string) list \<Rightarrow> string list \<Rightarrow> string list prog" where
  "collectIDs [] seen = ret seen"
| "collectIDs (Inl err # rs) seen = fatal ''Publish''"
| "collectIDs (Inr i # rs) seen = (if i \<in> set seen then fatal ''duplicate messageId'' else collectIDs rs (seen @ [i]))"

definition Batch_setup :: "string \<Rightarrow> string \<Rightarrow> unit prog" where
  "Batch_setup project suffix =
     steps [newClient project, call ''CreateTopic'' (RCreateTopic (''events-'' @ suffix) plainTopic)]"

definition Batch_publish :: "string \<Rightarrow> string list prog" where
  "Batch_publish suffix =
     bindP (ask eIds (RPublishAll (''events-'' @ suffix) (map batchMsg [0..<batchSize]))) (\<lambda>results.
     bindP (collectIDs results []) (\<lambda>ids.
     bindP (ensure (length (remdups ids) = batchSize) ''distinct ids'') (\<lambda>_.
     bindP (ensure (list_all (\<lambda>i. i \<noteq> []) ids) ''no id'') (\<lambda>_. ret ids))))"

definition Batch_body :: "string \<Rightarrow> string \<Rightarrow> string list prog" where
  "Batch_body project suffix = bindP (Batch_setup project suffix) (\<lambda>_. Batch_publish suffix)"

definition Batch_cleanup :: "string \<Rightarrow> string list \<Rightarrow> request list" where
  "Batch_cleanup suffix = (\<lambda>_. [RDeleteTopic (''events-'' @ suffix)])"

definition Batch_main :: "unit prog" where
  "Batch_main = sampleMain Batch_body Batch_cleanup"

section \<open>topics/topic-management\<close>

text \<open>An iterator loop: it reads until the end or the first error.\<close>

fun scanIDs :: "string \<Rightarrow> (rpc_error + string) list \<Rightarrow> string list prog" where
  "scanIDs s [] = ret []"
| "scanIDs s (Inl err # it) = fatal s"
| "scanIDs s (Inr i # it) = bindP (scanIDs s it) (\<lambda>is. ret (i # is))"

definition labelOf :: "TopicConfig \<Rightarrow> string \<Rightarrow> string" where
  "labelOf c k = (case map_of (tcLabels c) k of None \<Rightarrow> [] | Some v \<Rightarrow> v)"

definition Management_setup :: "string \<Rightarrow> string \<Rightarrow> unit prog" where
  "Management_setup project suffix =
     (let topicID = ''managed-'' @ suffix; subID = ''sub-managed-'' @ suffix in
      steps [newClient project,
             call ''CreateTopic'' (RCreateTopic topicID
               (plainTopic\<lparr>tcLabels := [(''team'', ''orders''), (''stage'', ''demo'')], tcRetention := Some (30 * Minute)\<rparr>)),
             call ''CreateSubscription'' (RCreateSubscription subID (sampleSub topicID))])"

definition Management_list :: "string \<Rightarrow> unit prog" where
  "Management_list topicID =
     bindP (ask eIds RListTopics) (\<lambda>it. bindP (scanIDs ''ListTopics'' it) (\<lambda>ids.
       ensure (topicID \<in> set ids) ''not found in ListTopics''))"

definition Management_config :: "string \<Rightarrow> unit prog" where
  "Management_config topicID =
     bindP (callFor ''GetTopic'' eTopic (RGetTopic topicID)) (\<lambda>c.
     bindP (ensure (labelOf c ''team'' = ''orders'') ''team'') (\<lambda>_.
     bindP (callFor ''UpdateTopic'' eTopic (RUpdateTopic topicID [(''team'', ''orders''), (''stage'', ''production'')])) (\<lambda>c.
       ensure (labelOf c ''stage'' = ''production'') ''stage'')))"

definition Management_subscriptions :: "string \<Rightarrow> string \<Rightarrow> unit prog" where
  "Management_subscriptions topicID subID =
     bindP (ask eIds (RListTopicSubscriptions topicID)) (\<lambda>it. bindP (scanIDs ''ListTopicSubscriptions'' it) (\<lambda>ids.
       ensure (subID \<in> set ids) ''subscription not found''))"

text \<open>The result is the flag \<^verbatim>\<open>topicDeleted\<close>.\<close>

definition Management_delete :: "string \<Rightarrow> bool prog" where
  "Management_delete topicID =
     bindP (call ''DeleteTopic'' (RDeleteTopic topicID)) (\<lambda>_.
     bindP (callFor ''Exists after DeleteTopic'' eExists (RTopicExists topicID)) (\<lambda>present.
     bindP (ensure (\<not> present) ''still exists'') (\<lambda>_. ret True)))"

definition Management_body :: "string \<Rightarrow> string \<Rightarrow> bool prog" where
  "Management_body project suffix =
     (let topicID = ''managed-'' @ suffix; subID = ''sub-managed-'' @ suffix in
      bindP (steps [Management_setup project suffix, Management_list topicID, Management_config topicID,
                    Management_subscriptions topicID subID]) (\<lambda>_. Management_delete topicID))"

definition Management_cleanup :: "string \<Rightarrow> bool \<Rightarrow> request list" where
  "Management_cleanup suffix topicDeleted =
     RDeleteSubscription (''sub-managed-'' @ suffix) # (if topicDeleted then [] else [RDeleteTopic (''managed-'' @ suffix)])"

definition Management_main :: "unit prog" where
  "Management_main = sampleMain Management_body Management_cleanup"

section \<open>subscriptions/streaming-pull\<close>

definition messageCount :: nat where "messageCount = 8"

definition Streaming_setup :: "string \<Rightarrow> string \<Rightarrow> unit prog" where
  "Streaming_setup project suffix =
     (let topicID = ''orders-'' @ suffix; subID = ''sub-orders-'' @ suffix in
      steps [newClient project,
             call ''CreateTopic'' (RCreateTopic topicID plainTopic),
             call ''CreateSubscription'' (RCreateSubscription subID (sampleSub topicID))])"

definition Streaming_publish :: "string \<Rightarrow> string list prog" where
  "Streaming_publish suffix =
     mapP (\<lambda>i. bindP (publishMsg (''orders-'' @ suffix) (batchMsg i)) (\<lambda>_. ret (FormatInt (int i)))) [0..<messageCount]"

text \<open>The map of delivery counts is the list of delivered \<open>seq\<close> attributes.\<close>

definition Streaming_verify :: "string \<Rightarrow> string list \<Rightarrow> string list prog" where
  "Streaming_verify suffix published =
     bindP (receiveAll (''sub-orders-'' @ suffix) (int messageCount) 1) (\<lambda>out.
       let received = map (\<lambda>m. attrOf (fst m) ''seq'') (roMsgs out) in
       bindP (ensure (length (remdups received) = messageCount) ''distinct messages'') (\<lambda>_.
       bindP (ensure (list_all (\<lambda>s. s \<in> set received) published) ''never delivered'') (\<lambda>_.
       bindP (ensure (list_all (\<lambda>s. count_list received s = 1) received) ''delivered more than once'') (\<lambda>_.
       ret received))))"

definition Streaming_body :: "string \<Rightarrow> string \<Rightarrow> string list prog" where
  "Streaming_body project suffix =
     bindP (Streaming_setup project suffix) (\<lambda>_. bindP (Streaming_publish suffix) (Streaming_verify suffix))"

definition Streaming_cleanup :: "string \<Rightarrow> string list \<Rightarrow> request list" where
  "Streaming_cleanup suffix = (\<lambda>_. cleanupSubTopic (''sub-orders-'' @ suffix) (''orders-'' @ suffix))"

definition Streaming_main :: "unit prog" where
  "Streaming_main = sampleMain Streaming_body Streaming_cleanup"

section \<open>subscriptions/ack-deadline-nack\<close>

definition extendSeconds :: int where "extendSeconds = 30"

definition pullOne :: "string \<Rightarrow> RMsg option prog" where
  "pullOne subPath =
     bindP (callFor ''Pull'' ePull (RPull subPath 1)) (\<lambda>ms. case ms of [] \<Rightarrow> ret None | m # _ \<Rightarrow> ret (Some m))"

fun pullWithRetry :: "nat \<Rightarrow> string \<Rightarrow> RMsg option prog" where
  "pullWithRetry 0 subPath = ret None"
| "pullWithRetry (Suc n) subPath =
     bindP (pullOne subPath) (\<lambda>m. case m of Some x \<Rightarrow> ret (Some x) | None \<Rightarrow> pullWithRetry n subPath)"

definition truncate :: "string \<Rightarrow> nat \<Rightarrow> string" where
  "truncate s n = (if length s \<le> n then s else take n s)"

definition Nack_setup :: "string \<Rightarrow> string \<Rightarrow> unit prog" where
  "Nack_setup project suffix =
     (let topicID = ''orders-'' @ suffix; subID = ''sub-orders-'' @ suffix in
      steps [newClient project,
             newSubscriber emulatorOptions,
             call ''CreateTopic'' (RCreateTopic topicID plainTopic),
             call ''CreateSubscription'' (RCreateSubscription subID (sampleSub topicID))])"

definition Nack_lease :: "string \<Rightarrow> string \<Rightarrow> RMsg prog" where
  "Nack_lease topicID subPath =
     bindP (publishMsg topicID (mkMsg ''lease-me'' [(''seq'', ''0'')])) (\<lambda>_.
     bindP (pullOne subPath) (\<lambda>first.
       case first of
         None \<Rightarrow> fatal ''first Pull returned no message''
       | Some m \<Rightarrow>
           bindP (call ''ModifyAckDeadline(extend)'' (RModifyAckDeadline subPath [rmAckID m] extendSeconds)) (\<lambda>_.
           bindP (call ''ModifyAckDeadline(nack)'' (RModifyAckDeadline subPath [rmAckID m] 0)) (\<lambda>_. ret m))))"

definition Nack_redelivery :: "string \<Rightarrow> RMsg prog" where
  "Nack_redelivery subPath =
     bindP (pullWithRetry 10 subPath) (\<lambda>second.
       case second of
         None \<Rightarrow> fatal ''not redelivered''
       | Some m \<Rightarrow>
           bindP (ensure (mData (rmMessage m) = ''lease-me'') ''redelivered body'') (\<lambda>_.
           bindP (call ''Acknowledge'' (RAcknowledge subPath [rmAckID m])) (\<lambda>_.
           bindP (pullWithRetry 3 subPath) (\<lambda>leftover.
           bindP (ensure (leftover = None) ''not empty after ack'') (\<lambda>_. ret m)))))"

definition Nack_body :: "string \<Rightarrow> string \<Rightarrow> RMsg prog" where
  "Nack_body project suffix =
     (let subPath = subPathOf project (''sub-orders-'' @ suffix) in
      bindP (Nack_setup project suffix) (\<lambda>_. bindP (Nack_lease (''orders-'' @ suffix) subPath) (\<lambda>_. Nack_redelivery subPath)))"

definition Nack_cleanup :: "string \<Rightarrow> RMsg \<Rightarrow> request list" where
  "Nack_cleanup suffix = (\<lambda>_. cleanupSubTopic (''sub-orders-'' @ suffix) (''orders-'' @ suffix))"

definition Nack_main :: "unit prog" where
  "Nack_main = sampleMain Nack_body Nack_cleanup"

section \<open>Every program deletes what it owns exactly when it succeeds\<close>

lemma emits_collectIDs: "emits P (collectIDs rs seen)"
  by (induction rs seen rule: collectIDs.induct) (auto intro: emits_intros)

lemma emits_scanIDs: "emits P (scanIDs s it)"
  by (induction s it rule: scanIDs.induct) (auto intro: emits_intros)

lemma emits_pullOne: "P (RPull sub 1) \<Longrightarrow> emits P (pullOne sub)"
  unfolding pullOne_def by (intro emits_intros) (auto intro: emits_intros split: list.split)

lemma emits_pullWithRetry: "P (RPull sub 1) \<Longrightarrow> emits P (pullWithRetry n sub)"
  by (induction n) (auto intro!: emits_intros emits_pullOne split: option.split)

lemmas emits_sample = emits_intros emits_pieces emits_collectIDs emits_scanIDs emits_pullOne emits_pullWithRetry

interpretation basic: sample Basic_body Basic_cleanup "\<lambda>s. cleanupSubTopic (''sub-orders-'' @ s) (''orders-'' @ s)"
  by unfold_locales
    (auto simp: Basic_body_def Basic_setup_def Basic_publish_def Basic_verify_def Basic_cleanup_def cleanupSubTopic_def Let_def
      split: list.split intro!: emits_sample)

interpretation batch: sample Batch_body Batch_cleanup "\<lambda>s. [RDeleteTopic (''events-'' @ s)]"
  by unfold_locales
    (auto simp: Batch_body_def Batch_setup_def Batch_publish_def Batch_cleanup_def intro!: emits_sample)

interpretation management: sample Management_body Management_cleanup "\<lambda>s. [RDeleteSubscription (''sub-managed-'' @ s)]"
  by unfold_locales
    (auto simp: Management_body_def Management_setup_def Management_list_def Management_config_def Management_subscriptions_def
      Management_delete_def Management_cleanup_def Let_def intro!: emits_sample)

interpretation streaming: sample Streaming_body Streaming_cleanup
    "\<lambda>s. cleanupSubTopic (''sub-orders-'' @ s) (''orders-'' @ s)"
  by unfold_locales
    (auto simp: Streaming_body_def Streaming_setup_def Streaming_publish_def Streaming_verify_def Streaming_cleanup_def
      cleanupSubTopic_def Let_def intro!: emits_sample)

interpretation nack: sample Nack_body Nack_cleanup "\<lambda>s. cleanupSubTopic (''sub-orders-'' @ s) (''orders-'' @ s)"
  by unfold_locales
    (auto simp: Nack_body_def Nack_setup_def Nack_lease_def Nack_redelivery_def Nack_cleanup_def
      cleanupSubTopic_def Let_def split: option.split intro!: emits_sample)

section \<open>What success says\<close>

lemma receiveAll_run:
  "receiveAll sub n g e h = (Inr out, h') \<Longrightarrow>
     out = eReceive e h (RReceive sub n g) \<and> (roErr out = None \<or> roCtxErr out)"
  by (auto simp: receiveAll_def prog_simps)

lemma basic_sound:
  assumes "Basic_body project suffix e h = (Inr u, h')"
  shows "\<exists>h1 h2 msgID got c rest.
    eId e h1 (RPublish (''orders-'' @ suffix) (mkMsg basicBody [(''priority'', ''express'')])) = Inr msgID \<and>
    roMsgs (eReceive e h2 (RReceive (''sub-orders-'' @ suffix) 0 0)) = (got, c) # rest \<and>
    mData got = basicBody \<and> attrOf got ''priority'' = ''express'' \<and> mID got = msgID"
proof -
  obtain h1 h2 h3 msgID out where
    pub: "Basic_publish suffix e h1 = (Inr msgID, h2)" and
    recv: "receiveAll (''sub-orders-'' @ suffix) 0 0 e h2 = (Inr out, h3)" and
    ver: "(case roMsgs out of [] \<Rightarrow> fatal ''expected 1 message''
       | (got, _) # _ \<Rightarrow>
           steps [ensure (mData got = basicBody) ''body'',
                  ensure (attrOf got ''priority'' = ''express'') ''attribute'',
                  ensure (mID got = msgID) ''messageId'']) e h3 = (Inr u, h')"
    using assms by (auto simp: Basic_body_def Basic_verify_def prog_simps)
  have out: "out = eReceive e h2 (RReceive (''sub-orders-'' @ suffix) 0 0)"
    using receiveAll_run [OF recv] by simp
  obtain got c rest where r: "roMsgs out = (got, c) # rest"
    using ver by (auto simp: prog_simps split: list.splits)
  have "mData got = basicBody \<and> attrOf got ''priority'' = ''express'' \<and> mID got = msgID"
    using ver by (auto simp: r prog_simps)
  moreover have "eId e h1 (RPublish (''orders-'' @ suffix) (mkMsg basicBody [(''priority'', ''express'')])) = Inr msgID"
    using pub by (simp add: Basic_publish_def publishMsg_def prog_simps)
  ultimately show ?thesis using r unfolding out by blast
qed

lemma collectIDs_run:
  assumes "collectIDs rs seen e h = (Inr ids, h')" "distinct seen"
  shows "distinct ids \<and> h' = h \<and> (\<exists>is. rs = map Inr is \<and> ids = seen @ is)"
  using assms
proof (induction rs seen rule: collectIDs.induct)
  case (1 seen)
  then show ?case by (simp add: prog_simps)
next
  case (2 err rs seen)
  then show ?case by (simp add: prog_simps)
next
  case (3 i rs seen)
  then have "i \<notin> set seen" "collectIDs rs (seen @ [i]) e h = (Inr ids, h')"
    by (auto simp: prog_simps split: if_splits)
  then have "distinct ids \<and> h' = h \<and> (\<exists>is. rs = map Inr is \<and> ids = (seen @ [i]) @ is)" using 3 by simp
  then show ?case by (metis append.assoc append_Cons append_Nil list.simps(9))
qed

lemma batch_sound:
  assumes "Batch_body project suffix e h = (Inr ids, h')"
  shows "distinct ids \<and> length ids = batchSize \<and> [] \<notin> set ids \<and>
    (\<exists>h1. eIds e h1 (RPublishAll (''events-'' @ suffix) (map batchMsg [0..<batchSize])) = map Inr ids)"
proof -
  obtain h1 h2 results where
    asked: "results = eIds e h1 (RPublishAll (''events-'' @ suffix) (map batchMsg [0..<batchSize]))" and
    ids: "collectIDs results [] e h2 = (Inr ids, h')" and
    len: "length (remdups ids) = batchSize" and ne: "list_all (\<lambda>i. i \<noteq> []) ids"
    using assms by (auto simp: Batch_body_def Batch_publish_def prog_simps)
  have "distinct ids" "results = map Inr ids" using collectIDs_run [OF ids] by auto
  then show ?thesis using len ne asked by (auto simp: distinct_remdups_id list_all_iff)
qed

lemma mapP_const_run:
  assumes "mapP (\<lambda>x. bindP (p x) (\<lambda>_. ret (f x))) xs e h = (Inr ys, h')"
  shows "ys = map f xs"
  using assms by (induction xs arbitrary: h ys) (auto simp: prog_simps)

lemma seqs_distinct: "distinct (map (\<lambda>i. FormatInt (int i)) [0..<messageCount])"
  by code_simp

lemma exactly_once_mset:
  assumes "distinct ps" "length (remdups xs) = length ps" "set ps \<subseteq> set xs" "\<forall>x\<in>set xs. count_list xs x = 1"
  shows "mset xs = mset ps"
proof -
  have "card (set xs) = card (set ps)" using assms(1,2) by (simp add: distinct_card length_remdups_card_conv)
  then have "set ps = set xs" using assms(3) by (metis List.finite_set card_subset_eq)
  moreover have "distinct xs" using assms(4) by (simp add: distinct_count_atmost_1 count_mset [symmetric] count_list_0_iff)
  ultimately show ?thesis using assms(1) by (metis set_eq_iff_mset_eq_distinct)
qed

lemma streaming_sound:
  assumes "Streaming_body project suffix e h = (Inr seqs, h')"
  shows "mset seqs = mset (map (\<lambda>i. FormatInt (int i)) [0..<messageCount]) \<and>
    (\<exists>h1. seqs = map (\<lambda>m. attrOf (fst m) ''seq'')
      (roMsgs (eReceive e h1 (RReceive (''sub-orders-'' @ suffix) (int messageCount) 1))))"
proof -
  obtain h1 h2 published where pub: "Streaming_publish suffix e h1 = (Inr published, h2)" and
    ver: "Streaming_verify suffix published e h2 = (Inr seqs, h')"
    using assms by (auto simp: Streaming_body_def prog_simps)
  have p: "published = map (\<lambda>i. FormatInt (int i)) [0..<messageCount]"
    using mapP_const_run [of "\<lambda>i. publishMsg (''orders-'' @ suffix) (batchMsg i)" "\<lambda>i. FormatInt (int i)"] pub
    unfolding Streaming_publish_def by blast
  obtain h3 out where recv: "receiveAll (''sub-orders-'' @ suffix) (int messageCount) 1 e h2 = (Inr out, h3)" and
    s: "seqs = map (\<lambda>m. attrOf (fst m) ''seq'') (roMsgs out)" and
    c: "length (remdups seqs) = messageCount" "list_all (\<lambda>s. s \<in> set seqs) published"
      "list_all (\<lambda>s. count_list seqs s = 1) seqs"
    using ver by (auto simp: Streaming_verify_def Let_def prog_simps)
  have "mset seqs = mset published"
    using seqs_distinct c by (intro exactly_once_mset) (auto simp: p list_all_iff)
  then show ?thesis using s receiveAll_run [OF recv] unfolding p by blast
qed

lemma pullOne_run:
  "pullOne sub e h = (Inr m, h') \<longleftrightarrow>
     (\<exists>ms. ePull e h (RPull sub 1) = Inr ms \<and> h' = h @ [RPull sub 1] \<and> m = (case ms of [] \<Rightarrow> None | x # _ \<Rightarrow> Some x))"
proof (cases "ePull e h (RPull sub 1)")
  case (Inr ms)
  then show ?thesis
    by (cases ms) (auto simp: pullOne_def callFor_def bindP_def ask_def ret_def)
qed (simp add: pullOne_def callFor_def bindP_def ask_def fatal_def)

lemma pullWithRetry_none:
  assumes "pullWithRetry n sub e h = (Inr None, h')"
  shows "h' = h @ replicate n (RPull sub 1) \<and> (\<forall>k<n. ePull e (h @ replicate k (RPull sub 1)) (RPull sub 1) = Inr [])"
  using assms
proof (induction n arbitrary: h)
  case 0
  then show ?case by (simp add: ret_run)
next
  case (Suc n)
  then obtain m h1 where "pullOne sub e h = (Inr m, h1)"
      "(case m of None \<Rightarrow> pullWithRetry n sub | Some x \<Rightarrow> ret (Some x)) e h1 = (Inr None, h')"
    by (auto simp: bindP_run)
  then have p: "ePull e h (RPull sub 1) = Inr []" "h1 = h @ [RPull sub 1]" and r: "pullWithRetry n sub e h1 = (Inr None, h')"
    by (auto simp: pullOne_run ret_run split: option.splits list.splits)
  have ih: "h' = h1 @ replicate n (RPull sub 1)"
      "\<forall>k<n. ePull e (h1 @ replicate k (RPull sub 1)) (RPull sub 1) = Inr []"
    using Suc.IH [OF r] by auto
  have "ePull e (h @ replicate k (RPull sub 1)) (RPull sub 1) = Inr []" if "k < Suc n" for k
    using ih(2) p that by (cases k) auto
  then show ?case using ih(1) p(2) by simp
qed

lemma nack_sound:
  assumes "Nack_body project suffix e h = (Inr m, h')"
  shows "mData (rmMessage m) = ''lease-me'' \<and>
    (\<exists>h1 (first :: RMsg) h2. let sub = subPathOf project (''sub-orders-'' @ suffix) in
      h' = h1 @ [RModifyAckDeadline sub [rmAckID first] extendSeconds, RModifyAckDeadline sub [rmAckID first] 0] @ h2 @
        [RAcknowledge sub [rmAckID m], RPull sub 1, RPull sub 1, RPull sub 1])"
proof -
  define sub where "sub = subPathOf project (''sub-orders-'' @ suffix)"
  obtain h0 h1 first where lease: "Nack_lease (''orders-'' @ suffix) sub e h0 = (Inr first, h1)" and
    red: "Nack_redelivery sub e h1 = (Inr m, h')"
    using assms by (auto simp: Nack_body_def Let_def sub_def bindP_run)
  obtain g where h1: "h1 = g @ [RModifyAckDeadline sub [rmAckID first] extendSeconds, RModifyAckDeadline sub [rmAckID first] 0]"
    using lease by (auto simp: Nack_lease_def bindP_run call_run ret_run fatal_run split: option.splits)
  obtain h3 second where second: "pullWithRetry 10 sub e h1 = (Inr second, h3)" and
    rest: "(case second of None \<Rightarrow> fatal ''not redelivered''
       | Some m \<Rightarrow>
           bindP (ensure (mData (rmMessage m) = ''lease-me'') ''redelivered body'') (\<lambda>_.
           bindP (call ''Acknowledge'' (RAcknowledge sub [rmAckID m])) (\<lambda>_.
           bindP (pullWithRetry 3 sub) (\<lambda>leftover.
           bindP (ensure (leftover = None) ''not empty after ack'') (\<lambda>_. ret m))))) e h3 = (Inr m, h')"
    using red by (auto simp: Nack_redelivery_def bindP_run)
  have s: "second = Some m" "mData (rmMessage m) = ''lease-me''"
      "pullWithRetry 3 sub e (h3 @ [RAcknowledge sub [rmAckID m]]) = (Inr None, h')"
    using rest by (auto simp: bindP_run ensure_run call_run ret_run fatal_run split: option.splits)
  obtain g2 where h3: "h3 = h1 @ g2"
    using emitsD [OF emits_pullWithRetry [of "\<lambda>_. True" sub 10], of e h1] second by auto
  have "h' = g @ [RModifyAckDeadline sub [rmAckID first] extendSeconds, RModifyAckDeadline sub [rmAckID first] 0] @ g2 @
      [RAcknowledge sub [rmAckID m], RPull sub 1, RPull sub 1, RPull sub 1]"
    using pullWithRetry_none [OF s(3)] by (simp add: h1 h3 numeral_3_eq_3)
  then show ?thesis using s(2) unfolding sub_def [symmetric] Let_def by blast
qed

end
