(* ===== verification/SampleDelivery.thy ===== *)
theory SampleDelivery
  imports SampleTopics "HOL-Library.List_Lexorder" "HOL-Library.Char_ord"
begin

text \<open>
  The programs of \<^verbatim>\<open>src/examples/go/delivery\<close>: exactly-once acknowledgement, push delivery,
  dead-lettering, ordering keys and filtering. For each: the body of \<^verbatim>\<open>main\<close> in parts, the
  deferred deletions, and what an exit with code 0 says about the answers of the broker.
\<close>

section \<open>delivery/exactly-once\<close>

fun ackStatusLabel :: "ack_status \<Rightarrow> string" where
  "ackStatusLabel AckSuccess = ''Success''"
| "ackStatusLabel AckPermissionDenied = ''PermissionDenied''"
| "ackStatusLabel AckFailedPrecondition = ''FailedPrecondition''"
| "ackStatusLabel AckInvalidAckID = ''InvalidAckID''"
| "ackStatusLabel AckOther = ''Other''"

definition ExactlyOnce_setup :: "string \<Rightarrow> string \<Rightarrow> unit prog" where
  "ExactlyOnce_setup project suffix =
     (let topicID = ''eos-'' @ suffix; subID = ''sub-eos-'' @ suffix in
      steps [newClient project,
             call ''CreateTopic'' (RCreateTopic topicID plainTopic),
             call ''CreateSubscription'' (RCreateSubscription subID ((sampleSub topicID)\<lparr>scExactlyOnce := True\<rparr>))])"

text \<open>The callback acks with confirmation and keeps the first message, its status and its error.\<close>

definition ExactlyOnce_verify :: "string \<Rightarrow> string \<Rightarrow> unit prog" where
  "ExactlyOnce_verify suffix msgID =
     bindP (receiveAll (''sub-eos-'' @ suffix) 0 0) (\<lambda>out.
       case roMsgs out of
         [] \<Rightarrow> fatal ''received 0''
       | (got, status, err) # _ \<Rightarrow>
           steps [ensure (err = None) ''confirmation error'',
                  ensure (mData got = ''exactly-once payload'') ''body'',
                  ensure (mID got = msgID) ''messageId'',
                  ensure (status = AckSuccess) ''ack confirmation''])"

definition ExactlyOnce_body :: "string \<Rightarrow> string \<Rightarrow> unit prog" where
  "ExactlyOnce_body project suffix =
     bindP (ExactlyOnce_setup project suffix) (\<lambda>_.
     bindP (publishMsg (''eos-'' @ suffix) (plainMsg ''exactly-once payload'')) (ExactlyOnce_verify suffix))"

definition ExactlyOnce_cleanup :: "string \<Rightarrow> unit \<Rightarrow> request list" where
  "ExactlyOnce_cleanup suffix = (\<lambda>_. cleanupSubTopic (''sub-eos-'' @ suffix) (''eos-'' @ suffix))"

definition ExactlyOnce_main :: "unit prog" where
  "ExactlyOnce_main = sampleMain ExactlyOnce_body ExactlyOnce_cleanup"

section \<open>delivery/push-delivery\<close>

record pushEnvelope =
  peData :: string
  peAttributes :: attributes
  peMessageID :: string
  pePublishTime :: string
  peOrderingKey :: string
  peSubscription :: string

text \<open>\<^verbatim>\<open>base64.StdEncoding.DecodeString\<close>: line ends are skipped, four characters give three bytes,
  and only the last group is padded.\<close>

definition b64Value :: "char \<Rightarrow> nat option" where
  "b64Value c =
     (let n = of_char c :: nat in
      if 65 \<le> n \<and> n \<le> 90 then Some (n - 65)
      else if 97 \<le> n \<and> n \<le> 122 then Some (n - 71)
      else if 48 \<le> n \<and> n \<le> 57 then Some (n + 4)
      else if c = CHR ''+'' then Some 62
      else if c = CHR 0x2F then Some 63
      else None)"

fun b64Groups :: "string \<Rightarrow> string option" where
  "b64Groups [] = Some []"
| "b64Groups (a # b # c # d # cs) =
     (case (b64Value a, b64Value b) of
        (Some x, Some y) \<Rightarrow>
          (if c = CHR ''='' then
             (if d = CHR ''='' \<and> cs = [] then Some [char_of (x * 4 + y div 16)] else None)
           else
             (case b64Value c of
                None \<Rightarrow> None
              | Some z \<Rightarrow>
                  (if d = CHR ''='' then
                     (if cs = [] then Some [char_of (x * 4 + y div 16), char_of (y mod 16 * 16 + z div 4)] else None)
                   else
                     (case (b64Value d, b64Groups cs) of
                        (Some u, Some rest) \<Rightarrow>
                          Some ([char_of (x * 4 + y div 16), char_of (y mod 16 * 16 + z div 4), char_of (z mod 4 * 64 + u)] @ rest)
                      | _ \<Rightarrow> None))))
      | _ \<Rightarrow> None)"
| "b64Groups _ = None"

definition base64Decode :: "string \<Rightarrow> string option" where
  "base64Decode s = b64Groups (filter (\<lambda>c. c \<noteq> CHR 0x0A \<and> c \<noteq> CHR 0x0D) s)"

text \<open>The HTTP handler on one request: \<open>raw\<close> is the body, \<open>None\<close> when reading it fails;
  \<open>unmarshal\<close> is \<^verbatim>\<open>json.Unmarshal\<close> into the envelope. The result is the response status and what
  is sent to the channel.\<close>

definition pushHandler :: "(string \<Rightarrow> pushEnvelope option) \<Rightarrow> string option \<Rightarrow> nat \<times> (pushEnvelope \<times> string) option" where
  "pushHandler unmarshal raw =
     (case raw of
        None \<Rightarrow> (400, None)
      | Some r \<Rightarrow>
          (case unmarshal r of
             None \<Rightarrow> (400, None)
           | Some pe \<Rightarrow>
               (case base64Decode (peData pe) of
                  None \<Rightarrow> (400, None)
                | Some body \<Rightarrow> (204, Some (pe, body)))))"

definition Push_setup :: "string \<Rightarrow> string \<Rightarrow> unit prog" where
  "Push_setup project suffix =
     (let topicID = ''pushed-'' @ suffix; subID = ''sub-pushed-'' @ suffix in
      bindP (callFor ''listen'' eId RListen) (\<lambda>addr.
        steps [newClient project,
               call ''CreateTopic'' (RCreateTopic topicID plainTopic),
               call ''CreateSubscription (push)'' (RCreateSubscription subID
                 ((sampleSub topicID)\<lparr>scPushEndpoint := ''http://'' @ addr @ ''/push''\<rparr>))]))"

text \<open>The requests the endpoint gets before the timer fires; the first one the handler accepts is
  received.\<close>

definition Push_verify :: "(string \<Rightarrow> pushEnvelope option) \<Rightarrow> string \<Rightarrow> unit prog" where
  "Push_verify unmarshal msgID =
     bindP (ask ePushes RAwaitPush) (\<lambda>raws.
       case List.map_filter (\<lambda>raw. snd (pushHandler unmarshal raw)) raws of
         [] \<Rightarrow> fatal ''no push delivery''
       | (pe, body) # _ \<Rightarrow>
           steps [ensure (body = ''push me'') ''body'',
                  ensure (map_of (peAttributes pe) ''priority'' = Some ''high'') ''attribute'',
                  ensure (peMessageID pe = msgID) ''messageId''])"

definition Push_body :: "(string \<Rightarrow> pushEnvelope option) \<Rightarrow> string \<Rightarrow> string \<Rightarrow> unit prog" where
  "Push_body unmarshal project suffix =
     bindP (Push_setup project suffix) (\<lambda>_.
     bindP (publishMsg (''pushed-'' @ suffix) (mkMsg ''push me'' [(''priority'', ''high'')])) (Push_verify unmarshal))"

definition Push_cleanup :: "string \<Rightarrow> unit \<Rightarrow> request list" where
  "Push_cleanup suffix = (\<lambda>_. cleanupSubTopic (''sub-pushed-'' @ suffix) (''pushed-'' @ suffix))"

definition Push_main :: "(string \<Rightarrow> pushEnvelope option) \<Rightarrow> unit prog" where
  "Push_main unmarshal = sampleMain (Push_body unmarshal) Push_cleanup"

section \<open>delivery/dead-letter-topic\<close>

definition maxDeliveryAttempts :: int where "maxDeliveryAttempts = 5"

definition DeadLetter_setup :: "string \<Rightarrow> string \<Rightarrow> unit prog" where
  "DeadLetter_setup project suffix =
     (let srcTopicID = ''work-'' @ suffix; dltTopicID = ''work-dlq-'' @ suffix in
      steps [newClient project,
             call ''CreateTopic (source)'' (RCreateTopic srcTopicID plainTopic),
             call ''CreateTopic (dead-letter)'' (RCreateTopic dltTopicID plainTopic),
             call ''CreateSubscription (source)'' (RCreateSubscription (''sub-work-'' @ suffix)
               ((sampleSub srcTopicID)\<lparr>scDeadLetter := Some (''projects/'' @ project @ ''/topics/'' @ dltTopicID, maxDeliveryAttempts),
                  scRetry := Some (10 * Millisecond, 50 * Millisecond)\<rparr>)),
             call ''CreateSubscription (dead-letter)'' (RCreateSubscription (''sub-dlq-'' @ suffix) (sampleSub dltTopicID))])"

text \<open>The drive loop: lease the source without acking, then look at the dead-letter subscription.
  The result is the body found, empty when there was none, and the number of source
  deliveries.\<close>

fun driveTurns :: "nat \<Rightarrow> nat \<Rightarrow> string \<Rightarrow> string \<Rightarrow> (string \<times> nat) prog" where
  "driveTurns 0 k workPath dltPath = ret ([], k)"
| "driveTurns (Suc n) k workPath dltPath =
     bindP (callFor ''Pull (source)'' ePull (RPull workPath 1)) (\<lambda>src.
       let k = (if src = [] then k else k + 1) in
       bindP (callFor ''Pull (dead-letter)'' ePull (RPull dltPath 1)) (\<lambda>dlt.
         case dlt of
           [] \<Rightarrow> driveTurns n k workPath dltPath
         | rm # _ \<Rightarrow> bindP (call ''Acknowledge (dead-letter)'' (RAcknowledge dltPath [rmAckID rm])) (\<lambda>_.
                      ret (mData (rmMessage rm), k))))"

definition DeadLetter_drive :: "string \<Rightarrow> string \<Rightarrow> (string \<times> nat) prog" where
  "DeadLetter_drive project suffix =
     bindP (newSubscriber emulatorOptions) (\<lambda>_.
     bindP (observe (\<lambda>e h. eTurns e h (90 * Second))) (\<lambda>n.
       driveTurns n 0 (subPathOf project (''sub-work-'' @ suffix)) (subPathOf project (''sub-dlq-'' @ suffix))))"

definition DeadLetter_body :: "string \<Rightarrow> string \<Rightarrow> nat prog" where
  "DeadLetter_body project suffix =
     bindP (DeadLetter_setup project suffix) (\<lambda>_.
     bindP (publishMsg (''work-'' @ suffix) (plainMsg ''poison'')) (\<lambda>_.
     bindP (DeadLetter_drive project suffix) (\<lambda>(dead, k).
     bindP (ensure (dead \<noteq> []) ''not dead-lettered'') (\<lambda>_.
     bindP (ensure (dead = ''poison'') ''dead-letter body'') (\<lambda>_. ret k)))))"

definition DeadLetter_cleanup :: "string \<Rightarrow> nat \<Rightarrow> request list" where
  "DeadLetter_cleanup suffix = (\<lambda>_.
     [RDeleteSubscription (''sub-dlq-'' @ suffix), RDeleteSubscription (''sub-work-'' @ suffix),
      RDeleteTopic (''work-dlq-'' @ suffix), RDeleteTopic (''work-'' @ suffix)])"

definition DeadLetter_main :: "unit prog" where
  "DeadLetter_main = sampleMain DeadLetter_body DeadLetter_cleanup"

section \<open>delivery/ordering-keys\<close>

definition orderingPlan :: "(string \<times> string) list" where
  "orderingPlan = [(''cust-7'', ''A1''), (''cust-9'', ''B1''), (''cust-7'', ''A2''), ([], ''keyless''),
     (''cust-9'', ''B2''), (''cust-7'', ''A3''), (''cust-9'', ''B3'')]"

definition Ordering_setup :: "string \<Rightarrow> string \<Rightarrow> unit prog" where
  "Ordering_setup project suffix =
     (let topicID = ''ordered-'' @ suffix in
      steps [newClient project,
             call ''CreateTopic'' (RCreateTopic topicID plainTopic),
             call ''CreateSubscription'' (RCreateSubscription (''sub-ordered-'' @ suffix)
               ((sampleSub topicID)\<lparr>scOrdering := True\<rparr>))])"

definition Ordering_publish :: "string \<Rightarrow> string list prog" where
  "Ordering_publish suffix =
     mapP (\<lambda>(key, body). publishMsg (''ordered-'' @ suffix) ((plainMsg body)\<lparr>mOrderingKey := key\<rparr>)) orderingPlan"

text \<open>One pull per turn until \<open>want\<close> messages have arrived; the result is the key and body of each,
  in order of delivery.\<close>

fun pullKeyed :: "nat \<Rightarrow> nat \<Rightarrow> string \<Rightarrow> (string \<times> string) list prog" where
  "pullKeyed n 0 subPath = ret []"
| "pullKeyed 0 (Suc want) subPath = ret []"
| "pullKeyed (Suc n) (Suc want) subPath =
     bindP (callFor ''Pull'' ePull (RPull subPath 1)) (\<lambda>ms.
       case ms of
         [] \<Rightarrow> pullKeyed n (Suc want) subPath
       | rm # _ \<Rightarrow>
           bindP (call ''Acknowledge'' (RAcknowledge subPath [rmAckID rm])) (\<lambda>_.
           bindP (pullKeyed n want subPath) (\<lambda>ps.
             ret ((mOrderingKey (rmMessage rm), mData (rmMessage rm)) # ps))))"

definition perKey :: "string \<Rightarrow> (string \<times> string) list \<Rightarrow> string list" where
  "perKey key ps = map snd (filter (\<lambda>p. fst p = key) ps)"

definition Ordering_verify :: "string \<Rightarrow> string \<Rightarrow> (string \<times> string) list prog" where
  "Ordering_verify project suffix =
     bindP (newSubscriber emulatorOptions) (\<lambda>_.
     bindP (observe (\<lambda>e h. eTurns e h (30 * Second))) (\<lambda>n.
     bindP (pullKeyed n (length orderingPlan) (subPathOf project (''sub-ordered-'' @ suffix))) (\<lambda>ps.
     bindP (ensure (perKey ''cust-7'' ps = [''A1'', ''A2'', ''A3'']) ''cust-7 out of order'') (\<lambda>_.
     bindP (ensure (perKey ''cust-9'' ps = [''B1'', ''B2'', ''B3'']) ''cust-9 out of order'') (\<lambda>_.
     bindP (ensure (length ps = length orderingPlan) ''count'') (\<lambda>_. ret ps))))))"

definition Ordering_body :: "string \<Rightarrow> string \<Rightarrow> (string \<times> string) list prog" where
  "Ordering_body project suffix =
     bindP (Ordering_setup project suffix) (\<lambda>_. bindP (Ordering_publish suffix) (\<lambda>_. Ordering_verify project suffix))"

definition Ordering_cleanup :: "string \<Rightarrow> (string \<times> string) list \<Rightarrow> request list" where
  "Ordering_cleanup suffix = (\<lambda>_. cleanupSubTopic (''sub-ordered-'' @ suffix) (''ordered-'' @ suffix))"

definition Ordering_main :: "unit prog" where
  "Ordering_main = sampleMain Ordering_body Ordering_cleanup"

section \<open>delivery/message-filtering\<close>

definition euFilter :: string where
  "euFilter = ''attributes.region = '' @ [CHR 0x22] @ ''eu'' @ [CHR 0x22]"

definition filterBatch :: "(string \<times> string) list" where
  "filterBatch = [(''order-1'', ''eu''), (''order-2'', ''us''), (''order-3'', ''eu''), (''order-4'', ''ap''), (''order-5'', ''eu'')]"

definition euBodies :: "string list" where
  "euBodies = map fst (filter (\<lambda>m. snd m = ''eu'') filterBatch)"

definition allBodies :: "string list" where
  "allBodies = map fst filterBatch"

text \<open>The distinct bodies the callback saw; the order of the range over the map is not used.\<close>

definition Filtering_drain :: "string \<Rightarrow> nat \<Rightarrow> string list prog" where
  "Filtering_drain sub want =
     bindP (receiveAll sub (int want) 1) (\<lambda>out. ret (remdups (map (\<lambda>m. mData (fst m)) (roMsgs out))))"

fun joinComma :: "string list \<Rightarrow> string" where
  "joinComma [] = []"
| "joinComma [s] = s"
| "joinComma (s # t # ss) = s @ CHR '','' # joinComma (t # ss)"

definition equalSorted :: "string list \<Rightarrow> string list \<Rightarrow> bool" where
  "equalSorted a b \<longleftrightarrow> length a = length b \<and> joinComma (sort a) = joinComma (sort b)"

definition Filtering_setup :: "string \<Rightarrow> string \<Rightarrow> unit prog" where
  "Filtering_setup project suffix =
     (let topicID = ''filtered-'' @ suffix in
      steps [newClient project,
             call ''CreateTopic'' (RCreateTopic topicID plainTopic),
             call ''CreateSubscription (filtered)'' (RCreateSubscription (''sub-filtered-'' @ suffix)
               ((sampleSub topicID)\<lparr>scFilter := euFilter\<rparr>)),
             call ''CreateSubscription (all)'' (RCreateSubscription (''sub-all-'' @ suffix) (sampleSub topicID))])"

definition Filtering_publish :: "string \<Rightarrow> string list prog" where
  "Filtering_publish suffix =
     mapP (\<lambda>(body, region). publishMsg (''filtered-'' @ suffix)
       (mkMsg body [(''region'', region), (''type'', ''order'')])) filterBatch"

definition Filtering_verify :: "string \<Rightarrow> (string list \<times> string list) prog" where
  "Filtering_verify suffix =
     bindP (Filtering_drain (''sub-filtered-'' @ suffix) (length euBodies)) (\<lambda>euGot.
     bindP (Filtering_drain (''sub-all-'' @ suffix) (length allBodies)) (\<lambda>allGot.
     bindP (ensure (equalSorted euGot euBodies) ''filtered'') (\<lambda>_.
     bindP (ensure (equalSorted allGot allBodies) ''unfiltered'') (\<lambda>_. ret (euGot, allGot)))))"

definition Filtering_negative :: "string \<Rightarrow> unit prog" where
  "Filtering_negative suffix =
     bindP (ask eUnit (RCreateSubscription (''sub-bad-'' @ suffix)
       ((sampleSub (''filtered-'' @ suffix))\<lparr>scFilter := ''this is not a filter''\<rparr>))) (\<lambda>badErr.
       if badErr = None
       then bindP (attempt (RDeleteSubscription (''sub-bad-'' @ suffix))) (\<lambda>_. fatal ''malformed filter was accepted'')
       else ensure (codeOf badErr = InvalidArgument) ''want INVALID_ARGUMENT'')"

definition Filtering_body :: "string \<Rightarrow> string \<Rightarrow> (string list \<times> string list) prog" where
  "Filtering_body project suffix =
     bindP (Filtering_setup project suffix) (\<lambda>_.
     bindP (Filtering_publish suffix) (\<lambda>_.
     bindP (Filtering_verify suffix) (\<lambda>got.
     bindP (Filtering_negative suffix) (\<lambda>_. ret got))))"

definition Filtering_cleanup :: "string \<Rightarrow> string list \<times> string list \<Rightarrow> request list" where
  "Filtering_cleanup suffix = (\<lambda>_.
     [RDeleteSubscription (''sub-filtered-'' @ suffix), RDeleteSubscription (''sub-all-'' @ suffix),
      RDeleteTopic (''filtered-'' @ suffix)])"

definition Filtering_main :: "unit prog" where
  "Filtering_main = sampleMain Filtering_body Filtering_cleanup"

section \<open>Every program deletes what it owns exactly when it succeeds\<close>

lemma emits_driveTurns:
  assumes "P (RPull w 1)" "P (RPull d 1)" "\<And>ids. P (RAcknowledge d ids)"
  shows "emits P (driveTurns n k w d)"
  using assms by (induction n arbitrary: k) (auto simp: Let_def intro!: emits_intros split: list.split)

lemma emits_pullKeyed:
  assumes "P (RPull sub 1)" "\<And>ids. P (RAcknowledge sub ids)"
  shows "emits P (pullKeyed n want sub)"
  using assms by (induction n want sub rule: pullKeyed.induct) (auto intro!: emits_intros split: list.split)

lemmas emits_delivery = emits_sample emits_driveTurns emits_pullKeyed

interpretation eos: sample ExactlyOnce_body ExactlyOnce_cleanup "\<lambda>s. cleanupSubTopic (''sub-eos-'' @ s) (''eos-'' @ s)"
  by unfold_locales
    (auto simp: ExactlyOnce_body_def ExactlyOnce_setup_def ExactlyOnce_verify_def ExactlyOnce_cleanup_def cleanupSubTopic_def
      Let_def split: list.split intro!: emits_delivery)

interpretation push: sample "Push_body unmarshal" Push_cleanup "\<lambda>s. cleanupSubTopic (''sub-pushed-'' @ s) (''pushed-'' @ s)"
  for unmarshal
  by unfold_locales
    (auto simp: Push_body_def Push_setup_def Push_verify_def Push_cleanup_def cleanupSubTopic_def Let_def
      split: list.split intro!: emits_delivery)

interpretation dead: sample DeadLetter_body DeadLetter_cleanup "\<lambda>s. DeadLetter_cleanup s 0"
  by unfold_locales
    (auto simp: DeadLetter_body_def DeadLetter_setup_def DeadLetter_drive_def DeadLetter_cleanup_def Let_def
      intro!: emits_delivery)

interpretation ordering: sample Ordering_body Ordering_cleanup "\<lambda>s. cleanupSubTopic (''sub-ordered-'' @ s) (''ordered-'' @ s)"
  by unfold_locales
    (auto simp: Ordering_body_def Ordering_setup_def Ordering_publish_def Ordering_verify_def Ordering_cleanup_def
      cleanupSubTopic_def Let_def intro!: emits_delivery)

interpretation filtering: sample Filtering_body Filtering_cleanup "\<lambda>s. Filtering_cleanup s ([], [])"
  by unfold_locales
    (auto simp: Filtering_body_def Filtering_setup_def Filtering_publish_def Filtering_verify_def Filtering_negative_def
      Filtering_drain_def Filtering_cleanup_def Let_def intro!: emits_delivery)

section \<open>Comparing bodies\<close>

lemma joinComma_cons: "ss \<noteq> [] \<Longrightarrow> joinComma (s # ss) = s @ CHR '','' # joinComma ss"
  by (cases ss) simp_all

lemma joinComma_count:
  "ss \<noteq> [] \<Longrightarrow> count_list (joinComma ss) CHR '','' = sum_list (map (\<lambda>s. count_list s CHR '','') ss) + (length ss - 1)"
  by (induction ss rule: joinComma.induct) auto

lemma joinComma_inj:
  assumes "joinComma xs = joinComma ys" "length xs = length ys" "\<forall>s\<in>set xs \<union> set ys. CHR '','' \<notin> set s"
  shows "xs = ys"
  using assms
proof (induction xs arbitrary: ys)
  case (Cons x xs)
  then obtain y ys' where y: "ys = y # ys'" by (cases ys) auto
  show ?case
  proof (cases "xs = []")
    case True
    then show ?thesis using Cons.prems y by simp
  next
    case False
    then have ne: "ys' \<noteq> []" using Cons.prems(2) y by auto
    have "x @ CHR '','' # joinComma xs = y @ CHR '','' # joinComma ys'"
      using Cons.prems(1) False ne y by (simp add: joinComma_cons)
    then have "x = y \<and> joinComma xs = joinComma ys'"
      using Cons.prems(3) y by (auto simp: append_eq_append_conv2 Cons_eq_append_conv append_eq_Cons_conv)
    then show ?thesis using Cons y by auto
  qed
qed simp

lemma equalSorted_mset:
  assumes "\<forall>s\<in>set b. CHR '','' \<notin> set s"
  shows "equalSorted a b \<longleftrightarrow> mset a = mset b"
proof
  assume "equalSorted a b"
  then have l: "length a = length b" and j: "joinComma (sort a) = joinComma (sort b)" by (auto simp: equalSorted_def)
  have "\<forall>s\<in>set a. CHR '','' \<notin> set s"
  proof (cases "a = []")
    case False
    then have ne: "sort a \<noteq> []" "sort b \<noteq> []" using l by (auto simp flip: set_empty)
    have "count_list (joinComma (sort a)) CHR '','' = count_list (joinComma (sort b)) CHR '',''" using j by simp
    then have "sum_list (map (\<lambda>s. count_list s CHR '','') (sort a)) = sum_list (map (\<lambda>s. count_list s CHR '','') (sort b))"
      using joinComma_count [OF ne(1)] joinComma_count [OF ne(2)] l by simp
    also have "\<dots> = 0" using assms by (simp add: sum_list_eq_0_iff count_list_0_iff)
    finally show ?thesis by (auto simp: count_list_0_iff)
  qed simp
  then have "sort a = sort b" using joinComma_inj [OF j] l assms by auto
  then show "mset a = mset b" by (metis mset_sort)
next
  assume m: "mset a = mset b"
  then have "sort a = sort b" by (metis properties_for_sort sorted_sort mset_sort)
  then show "equalSorted a b" using m by (auto simp: equalSorted_def dest: mset_eq_length)
qed

text \<open>Without the assumption the comparison is too coarse: the separator may come from a body.\<close>

lemma equalSorted_ambiguous: "equalSorted [''a,b'', ''c''] [''a'', ''b,c''] \<and> ''a'' \<notin> set [''a,b'', ''c'']"
  by (simp add: equalSorted_def)

section \<open>What success says\<close>

lemma exactly_once_sound:
  assumes "ExactlyOnce_body project suffix e h = (Inr u, h')"
  shows "\<exists>h1 h2 msgID got rest.
    eId e h1 (RPublish (''eos-'' @ suffix) (plainMsg ''exactly-once payload'')) = Inr msgID \<and>
    roMsgs (eReceive e h2 (RReceive (''sub-eos-'' @ suffix) 0 0)) = (got, AckSuccess, None) # rest \<and>
    mData got = ''exactly-once payload'' \<and> mID got = msgID"
proof -
  obtain h1 h2 h3 msgID out where
    pub: "publishMsg (''eos-'' @ suffix) (plainMsg ''exactly-once payload'') e h1 = (Inr msgID, h2)" and
    recv: "receiveAll (''sub-eos-'' @ suffix) 0 0 e h2 = (Inr out, h3)" and
    ver: "(case roMsgs out of [] \<Rightarrow> fatal ''received 0''
       | (got, status, err) # _ \<Rightarrow>
           steps [ensure (err = None) ''confirmation error'',
                  ensure (mData got = ''exactly-once payload'') ''body'',
                  ensure (mID got = msgID) ''messageId'',
                  ensure (status = AckSuccess) ''ack confirmation'']) e h3 = (Inr u, h')"
    using assms by (auto simp: ExactlyOnce_body_def ExactlyOnce_verify_def bindP_run)
  have out: "out = eReceive e h2 (RReceive (''sub-eos-'' @ suffix) 0 0)"
    using receiveAll_run [OF recv] by simp
  obtain got status err rest where r: "roMsgs out = (got, status, err) # rest"
    using ver by (auto simp: fatal_run split: list.splits)
  have "err = None \<and> mData got = ''exactly-once payload'' \<and> mID got = msgID \<and> status = AckSuccess"
    using ver by (auto simp: r prog_simps)
  moreover have "eId e h1 (RPublish (''eos-'' @ suffix) (plainMsg ''exactly-once payload'')) = Inr msgID"
    using pub by (simp add: publishMsg_def callFor_run)
  ultimately show ?thesis using r unfolding out by blast
qed

lemma ordering_sound:
  assumes "Ordering_body project suffix e h = (Inr ps, h')"
  shows "length ps = length orderingPlan \<and> perKey ''cust-7'' ps = [''A1'', ''A2'', ''A3''] \<and>
    perKey ''cust-9'' ps = [''B1'', ''B2'', ''B3'']"
  using assms by (auto simp: Ordering_body_def Ordering_verify_def prog_simps)

lemma three_way: "length xs = length (filter (\<lambda>x. f x = a) xs) + length (filter (\<lambda>x. f x = b) xs) +
    length (filter (\<lambda>x. f x \<noteq> a \<and> f x \<noteq> b) xs)" if "a \<noteq> b"
  using that by (induction xs) auto

text \<open>The seventh message is not looked at: it may have any body and any other key.\<close>

lemma ordering_seventh:
  assumes "Ordering_body project suffix e h = (Inr ps, h')"
  shows "length (filter (\<lambda>p. fst p \<noteq> ''cust-7'' \<and> fst p \<noteq> ''cust-9'') ps) = 1"
proof -
  note s = ordering_sound [OF assms]
  have "length (perKey ''cust-7'' ps) = 3" "length (perKey ''cust-9'' ps) = 3" using s by simp_all
  then have "length (filter (\<lambda>p. fst p = ''cust-7'') ps) = 3" "length (filter (\<lambda>p. fst p = ''cust-9'') ps) = 3"
    by (simp_all add: perKey_def)
  then show ?thesis using three_way [of "''cust-7''" "''cust-9''" ps fst] s by (simp add: orderingPlan_def)
qed

lemma Filtering_drain_run:
  "Filtering_drain sub want e h = (Inr bs, h') \<Longrightarrow>
    bs = remdups (map (\<lambda>m. mData (fst m)) (roMsgs (eReceive e h (RReceive sub (int want) 1))))"
  by (auto simp: Filtering_drain_def bindP_run ret_run dest: receiveAll_run)

lemma filtering_sound:
  assumes "Filtering_body project suffix e h = (Inr (euGot, allGot), h')"
  shows "mset euGot = mset euBodies \<and> mset allGot = mset allBodies \<and>
    (\<exists>h1. codeOf (eUnit e h1 (RCreateSubscription (''sub-bad-'' @ suffix)
       ((sampleSub (''filtered-'' @ suffix))\<lparr>scFilter := ''this is not a filter''\<rparr>))) = InvalidArgument)"
proof -
  obtain h1 h2 h3 where ver: "Filtering_verify suffix e h1 = (Inr (euGot, allGot), h2)" and
    neg: "Filtering_negative suffix e h2 = (Inr (), h3)"
    using assms by (auto simp: Filtering_body_def bindP_run ret_run)
  have "equalSorted euGot euBodies" "equalSorted allGot allBodies"
    using ver by (auto simp: Filtering_verify_def bindP_run ret_run ensure_run)
  then have "mset euGot = mset euBodies" "mset allGot = mset allBodies"
    by (simp_all add: equalSorted_mset euBodies_def allBodies_def filterBatch_def)
  moreover have "codeOf (eUnit e h2 (RCreateSubscription (''sub-bad-'' @ suffix)
       ((sampleSub (''filtered-'' @ suffix))\<lparr>scFilter := ''this is not a filter''\<rparr>))) = InvalidArgument"
    using neg by (auto simp: Filtering_negative_def bindP_run ask_run ensure_run fatal_run split: if_splits)
  ultimately show ?thesis by blast
qed

lemma driveTurns_sound:
  assumes "driveTurns n k w d e h = (Inr (dead, k'), h')" "dead \<noteq> []"
  shows "\<exists>h1 rm ms. ePull e h1 (RPull d 1) = Inr (rm # ms) \<and> dead = mData (rmMessage rm) \<and>
    h' = h1 @ [RPull d 1, RAcknowledge d [rmAckID rm]]"
  using assms(1)
proof (induction n arbitrary: k h)
  case 0
  then show ?case using assms(2) by (simp add: ret_run)
next
  case (Suc n)
  obtain src dlt h1 k1 where p: "ePull e h1 (RPull d 1) = Inr dlt" and
    c: "(case dlt of [] \<Rightarrow> driveTurns n k1 w d
         | rm # _ \<Rightarrow> bindP (call ''Acknowledge (dead-letter)'' (RAcknowledge d [rmAckID rm])) (\<lambda>_.
                      ret (mData (rmMessage rm), k1))) e (h1 @ [RPull d 1]) = (Inr (dead, k'), h')"
    using Suc.prems by (auto simp: bindP_run callFor_run Let_def)
  show ?case
  proof (cases dlt)
    case Nil
    then show ?thesis using c Suc.IH by simp
  next
    case (Cons rm ms)
    then have "dead = mData (rmMessage rm)" "h' = h1 @ [RPull d 1, RAcknowledge d [rmAckID rm]]"
      using c by (auto simp: bindP_run call_run ret_run)
    then show ?thesis using p Cons by blast
  qed
qed

lemma dead_letter_sound:
  assumes "DeadLetter_body project suffix e h = (Inr k, h')"
  shows "\<exists>h1 rm ms. let d = subPathOf project (''sub-dlq-'' @ suffix) in
    ePull e h1 (RPull d 1) = Inr (rm # ms) \<and> mData (rmMessage rm) = ''poison'' \<and>
    h' = h1 @ [RPull d 1, RAcknowledge d [rmAckID rm]]"
proof -
  obtain n h0 dead where d: "driveTurns n 0 (subPathOf project (''sub-work-'' @ suffix))
      (subPathOf project (''sub-dlq-'' @ suffix)) e h0 = (Inr (dead, k), h')" "dead = ''poison''"
    using assms by (auto simp: DeadLetter_body_def DeadLetter_drive_def bindP_run observe_run ensure_run ret_run)
  then show ?thesis using driveTurns_sound [OF d(1)] by (auto simp: Let_def)
qed

end
