(* ===== verification/SampleAdvanced.thy ===== *)
theory SampleAdvanced
  imports SampleDelivery
begin

text \<open>
  The programs of \<^verbatim>\<open>src/examples/go/advanced\<close> and \<^verbatim>\<open>src/examples/go/interop\<close>: snapshots, seek to a
  timestamp, the two schema programs and the native Events Store consumer. For each: the body
  of \<^verbatim>\<open>main\<close> in parts, the deferred deletions, and what an exit with code 0 says about the
  answers of the broker.
\<close>

section \<open>The drain loop\<close>

text \<open>What a run of \<open>drainTurns\<close> asks, given the batches it is answered with.\<close>

fun drainLog :: "string \<Rightarrow> RMsg list list \<Rightarrow> request list" where
  "drainLog sub [] = []"
| "drainLog sub (ms # ps) =
     RPull sub 10 # (if ms = [] then [] else [RAcknowledge sub (map rmAckID ms)]) @ drainLog sub ps"

fun pulled :: "env \<Rightarrow> request list \<Rightarrow> string \<Rightarrow> RMsg list list \<Rightarrow> bool" where
  "pulled e h sub [] \<longleftrightarrow> True"
| "pulled e h sub (ms # ps) \<longleftrightarrow> ePull e h (RPull sub 10) = Inr ms \<and> pulled e (h @ drainLog sub [ms]) sub ps"

definition bodiesOf :: "RMsg list list \<Rightarrow> string list" where
  "bodiesOf ps = map (mData \<circ> rmMessage) (concat ps)"

definition orders :: "nat \<Rightarrow> nat \<Rightarrow> string list" where
  "orders i j = map (\<lambda>n. ''order-'' @ FormatInt (int n)) [i..<Suc j]"

text \<open>\<^verbatim>\<open>equal\<close>: the lengths, then the elements one by one.\<close>

definition equalStrings :: "string list \<Rightarrow> string list \<Rightarrow> bool" where
  "equalStrings a b \<longleftrightarrow> length a = length b \<and> list_all (\<lambda>i. a ! i = b ! i) [0..<length a]"

lemma equalStrings_iff [simp]: "equalStrings a b \<longleftrightarrow> a = b"
  by (auto simp: equalStrings_def list_all_iff intro: nth_equalityI)

section \<open>advanced/snapshots\<close>

definition retainedSub :: "string \<Rightarrow> SampleSubscription" where
  "retainedSub topicID = (sampleSub topicID)\<lparr>scRetainAcked := True, scRetention := Some (10 * Minute)\<rparr>"

definition publishBody :: "string \<Rightarrow> string \<Rightarrow> unit prog" where
  "publishBody topicID body = bindP (publishMsg topicID (plainMsg body)) (\<lambda>_. ret ())"

definition Snapshots_drain :: "string \<Rightarrow> string list prog" where
  "Snapshots_drain subName = drainFor 15 subName"

definition Snapshots_setup :: "string \<Rightarrow> string \<Rightarrow> unit prog" where
  "Snapshots_setup project suffix =
     steps [newClient project,
            newSubscriber emulatorOpts,
            call ''CreateTopic'' (RCreateTopic (''snapped-'' @ suffix) plainTopic),
            call ''CreateSubscription'' (RCreateSubscription (''sub-snapped-'' @ suffix) (retainedSub (''snapped-'' @ suffix)))]"

definition Snapshots_replay :: "string \<Rightarrow> string \<Rightarrow> unit prog" where
  "Snapshots_replay project suffix =
     (let topicID = ''snapped-'' @ suffix; subID = ''sub-snapped-'' @ suffix; subName = subPathOf project subID;
          snapshotID = ''snap-cursor-'' @ suffix in
      bindP (mapP (publishBody topicID) (orders 1 3)) (\<lambda>_.
      bindP (Snapshots_drain subName) (\<lambda>first.
      bindP (ensure (equalStrings first (orders 1 3)) ''initial drain'') (\<lambda>_.
      bindP (call ''CreateSnapshot'' (RCreateSnapshot subID snapshotID)) (\<lambda>_.
      bindP (mapP (publishBody topicID) (orders 4 6)) (\<lambda>_.
      bindP (Snapshots_drain subName) (\<lambda>second.
      bindP (ensure (equalStrings second (orders 4 6)) ''drained after the snapshot'') (\<lambda>_.
      bindP (call ''SeekToSnapshot'' (RSeekToSnapshot subID snapshotID)) (\<lambda>_.
      bindP (Snapshots_drain subName) (\<lambda>replay.
        ensure (equalStrings replay (orders 3 6)) ''replayed from the captured cursor''))))))))))"

text \<open>The negative path; the result is the flag \<^verbatim>\<open>topicDeleted\<close>.\<close>

definition Snapshots_detached :: "string \<Rightarrow> bool prog" where
  "Snapshots_detached suffix =
     (let topicID = ''snapped-'' @ suffix; detachedSubID = ''sub-detached-'' @ suffix in
      bindP (call ''CreateSubscription (detached)'' (RCreateSubscription detachedSubID (sampleSub topicID))) (\<lambda>_.
      bindP (call ''DeleteTopic (to detach)'' (RDeleteTopic topicID)) (\<lambda>_.
      bindP (ask eUnit (RCreateSnapshot detachedSubID (''snap-detached-'' @ suffix))) (\<lambda>err.
      bindP (ensure (codeOf err = FailedPrecondition) ''expected FAILED_PRECONDITION'') (\<lambda>_.
      bindP (attempt (RDeleteSubscription detachedSubID)) (\<lambda>_. ret True))))))"

definition Snapshots_body :: "string \<Rightarrow> string \<Rightarrow> bool prog" where
  "Snapshots_body project suffix =
     bindP (Snapshots_setup project suffix) (\<lambda>_. bindP (Snapshots_replay project suffix) (\<lambda>_. Snapshots_detached suffix))"

definition Snapshots_cleanup :: "string \<Rightarrow> bool \<Rightarrow> request list" where
  "Snapshots_cleanup suffix topicDeleted =
     [RDeleteSnapshot (''snap-cursor-'' @ suffix), RDeleteSubscription (''sub-snapped-'' @ suffix)]
     @ (if topicDeleted then [] else [RDeleteTopic (''snapped-'' @ suffix)])"

definition Snapshots_main :: "unit prog" where
  "Snapshots_main = sampleMain Snapshots_body Snapshots_cleanup"

section \<open>advanced/seek-timestamp\<close>

definition Seek_drain :: "string \<Rightarrow> string list prog" where
  "Seek_drain subName = drainFor 15 subName"

definition Seek_setup :: "string \<Rightarrow> string \<Rightarrow> unit prog" where
  "Seek_setup project suffix =
     steps [newClient project,
            newSubscriber emulatorOpts,
            call ''CreateTopic'' (RCreateTopic (''seekable-'' @ suffix) plainTopic),
            call ''CreateSubscription'' (RCreateSubscription (''sub-seekable-'' @ suffix) (retainedSub (''seekable-'' @ suffix)))]"

text \<open>The sleeps around the checkpoint only separate the instants.\<close>

definition Seek_publish :: "string \<Rightarrow> instant prog" where
  "Seek_publish topicID =
     bindP (mapP (publishBody topicID) (orders 1 2)) (\<lambda>_.
     bindP (observe eNow) (\<lambda>checkpoint.
     bindP (mapP (publishBody topicID) (orders 3 6)) (\<lambda>_. ret checkpoint)))"

definition Seek_verify :: "string \<Rightarrow> string \<Rightarrow> instant \<Rightarrow> unit prog" where
  "Seek_verify project suffix checkpoint =
     (let subID = ''sub-seekable-'' @ suffix; subName = subPathOf project subID in
      bindP (Seek_drain subName) (\<lambda>initial.
      bindP (ensure (equalStrings initial (orders 1 6)) ''initial drain'') (\<lambda>_.
      bindP (call ''SeekToTime(checkpoint)'' (RSeekToTime subID checkpoint)) (\<lambda>_.
      bindP (Seek_drain subName) (\<lambda>replay.
      bindP (ensure (equalStrings replay (orders 3 6)) ''seek-to-checkpoint'') (\<lambda>_.
      bindP (observe eNow) (\<lambda>now.
      bindP (call ''SeekToTime(pre-window)'' (RSeekToTime subID (now - 365 * 24 * Hour))) (\<lambda>_.
      bindP (Seek_drain subName) (\<lambda>clamped.
        ensure (equalStrings clamped (orders 1 6)) ''pre-window seek'')))))))))"

definition Seek_body :: "string \<Rightarrow> string \<Rightarrow> unit prog" where
  "Seek_body project suffix =
     bindP (Seek_setup project suffix) (\<lambda>_. bindP (Seek_publish (''seekable-'' @ suffix)) (Seek_verify project suffix))"

definition Seek_cleanup :: "string \<Rightarrow> unit \<Rightarrow> request list" where
  "Seek_cleanup suffix = (\<lambda>_. cleanupSubTopic (''sub-seekable-'' @ suffix) (''seekable-'' @ suffix))"

definition Seek_main :: "unit prog" where
  "Seek_main = sampleMain Seek_body Seek_cleanup"

section \<open>advanced/schema-avro and advanced/schema-protobuf\<close>

text \<open>The two programs differ in the names, the definition and the bodies only.\<close>

record schemaSample =
  ssSchema :: string
  ssTopic :: string
  ssSub :: string
  ssType :: schema_type
  ssDefinition :: string
  ssConforming :: string
  ssGood :: string
  ssBad :: string

definition quoted :: "string \<Rightarrow> string" where
  "quoted s = [CHR 0x22] @ s @ [CHR 0x22]"

definition newline :: string where "newline = [CHR 0x0A]"

definition orderJSON :: "string \<Rightarrow> string \<Rightarrow> string" where
  "orderJSON oid amount = ''{'' @ quoted ''order_id'' @ '':'' @ quoted oid @ '','' @ quoted ''amount'' @ '':'' @ amount @ ''}''"

definition avroDefinition :: string where
  "avroDefinition =
     ''{'' @ newline
     @ ''  '' @ quoted ''type'' @ '': '' @ quoted ''record'' @ '','' @ newline
     @ ''  '' @ quoted ''name'' @ '': '' @ quoted ''Order'' @ '','' @ newline
     @ ''  '' @ quoted ''fields'' @ '': ['' @ newline
     @ ''    {'' @ quoted ''name'' @ '': '' @ quoted ''order_id'' @ '', '' @ quoted ''type'' @ '': '' @ quoted ''string'' @ ''},'' @ newline
     @ ''    {'' @ quoted ''name'' @ '': '' @ quoted ''amount'' @ '', '' @ quoted ''type'' @ '': '' @ quoted ''double'' @ ''}'' @ newline
     @ ''  ]'' @ newline
     @ ''}''"

definition protobufDefinition :: string where
  "protobufDefinition =
     ''syntax = '' @ quoted ''proto3'' @ '';'' @ newline
     @ ''message Order {'' @ newline
     @ ''  string order_id = 1;'' @ newline
     @ ''  double amount = 2;'' @ newline
     @ ''}'' @ newline"

definition avroSample :: schemaSample where
  "avroSample = \<lparr>ssSchema = ''avro-schema-'', ssTopic = ''avro-topic-'', ssSub = ''sub-avro-'', ssType = SchemaAvro,
     ssDefinition = avroDefinition, ssConforming = orderJSON ''A-1'' ''12.5'', ssGood = orderJSON ''A-2'' ''7.0'',
     ssBad = orderJSON ''A-3'' (quoted ''not-a-number'')\<rparr>"

definition protobufSample :: schemaSample where
  "protobufSample = \<lparr>ssSchema = ''proto-schema-'', ssTopic = ''proto-topic-'', ssSub = ''sub-proto-'', ssType = SchemaProtocolBuffer,
     ssDefinition = protobufDefinition, ssConforming = orderJSON ''P-1'' ''99.0'', ssGood = orderJSON ''P-2'' ''5.0'',
     ssBad = orderJSON ''P-3'' (quoted ''not-a-number'')\<rparr>"

definition SchemaSample_setup :: "schemaSample \<Rightarrow> string \<Rightarrow> string \<Rightarrow> unit prog" where
  "SchemaSample_setup S project suffix =
     bindP (newClient project) (\<lambda>_.
     bindP (\<lambda>e. call ''NewSchemaClient'' (RNewSchemaClient project (emulatorOpts (eGetenv e))) e) (\<lambda>_.
     bindP (newSubscriber emulatorOpts) (\<lambda>_.
     bindP (callFor ''CreateSchema'' eId (RCreateSchema (ssSchema S @ suffix) (ssType S) (ssDefinition S))) (\<lambda>revisionID.
     bindP (ensure (revisionID \<noteq> []) ''revision id'') (\<lambda>_.
     steps [call ''CreateTopic'' (RCreateTopic (ssTopic S @ suffix)
              (plainTopic\<lparr>tcSchema := Some (''projects/'' @ project @ ''/schemas/'' @ ssSchema S @ suffix, EncodingJSON)\<rparr>)),
            call ''CreateSubscription'' (RCreateSubscription (ssSub S @ suffix) (sampleSub (ssTopic S @ suffix)))])))))"

text \<open>The two publishes before the flush are answered one result each.\<close>

definition SchemaSample_publish :: "schemaSample \<Rightarrow> string \<Rightarrow> unit prog" where
  "SchemaSample_publish S suffix =
     (let topicID = ssTopic S @ suffix in
      bindP (publishMsg topicID (plainMsg (ssConforming S))) (\<lambda>msgID.
      bindP (ensure (msgID \<noteq> []) ''message-id'') (\<lambda>_.
      bindP (ask eIds (RPublishAll topicID [plainMsg (ssGood S), plainMsg (ssBad S)])) (\<lambda>rs.
        case rs of
          [good, bad] \<Rightarrow>
            steps [ensure (codeOf (case bad of Inl err \<Rightarrow> Some err | Inr _ \<Rightarrow> None) = InvalidArgument) ''bad rejected'',
                   ensure (isl good) ''sibling not enqueued'']
        | _ \<Rightarrow> fatal ''results''))))"

definition SchemaSample_drain :: "string \<Rightarrow> string list prog" where
  "SchemaSample_drain subName = drainFor 12 subName"

definition SchemaSample_body :: "schemaSample \<Rightarrow> string \<Rightarrow> string \<Rightarrow> unit prog" where
  "SchemaSample_body S project suffix =
     bindP (SchemaSample_setup S project suffix) (\<lambda>_.
     bindP (SchemaSample_publish S suffix) (\<lambda>_.
     bindP (SchemaSample_drain (subPathOf project (ssSub S @ suffix))) (\<lambda>delivered.
       ensure (equalStrings delivered [ssConforming S]) ''only the conforming message'')))"

definition SchemaSample_cleanup :: "schemaSample \<Rightarrow> string \<Rightarrow> unit \<Rightarrow> request list" where
  "SchemaSample_cleanup S suffix = (\<lambda>_.
     [RDeleteSubscription (ssSub S @ suffix), RDeleteTopic (ssTopic S @ suffix), RDeleteSchema (ssSchema S @ suffix)])"

definition Avro_main :: "unit prog" where
  "Avro_main = sampleMain (SchemaSample_body avroSample) (SchemaSample_cleanup avroSample)"

definition Protobuf_drain :: "string \<Rightarrow> string list prog" where
  "Protobuf_drain subName = SchemaSample_drain subName"

definition Protobuf_cleanup :: "string \<Rightarrow> unit \<Rightarrow> request list" where
  "Protobuf_cleanup = SchemaSample_cleanup protobufSample"

definition Protobuf_setup :: "string \<Rightarrow> string \<Rightarrow> unit prog" where
  "Protobuf_setup = SchemaSample_setup protobufSample"

definition Protobuf_publish :: "string \<Rightarrow> unit prog" where
  "Protobuf_publish = SchemaSample_publish protobufSample"

definition Protobuf_body :: "string \<Rightarrow> string \<Rightarrow> unit prog" where
  "Protobuf_body project suffix =
     bindP (Protobuf_setup project suffix) (\<lambda>_.
     bindP (Protobuf_publish suffix) (\<lambda>_.
     bindP (Protobuf_drain (subPathOf project (''sub-proto-'' @ suffix))) (\<lambda>delivered.
       ensure (equalStrings delivered [orderJSON ''P-1'' ''99.0'']) ''only the conforming message'')))"

definition Protobuf_main :: "unit prog" where
  "Protobuf_main = sampleMain Protobuf_body Protobuf_cleanup"

lemma Protobuf_body_sample: "Protobuf_body = SchemaSample_body protobufSample"
  by (intro ext) (simp add: Protobuf_body_def SchemaSample_body_def Protobuf_setup_def Protobuf_publish_def Protobuf_drain_def
      protobufSample_def)

section \<open>interop/native-events-store\<close>

definition reservedTags :: "string list" where
  "reservedTags = [''_pubsub_message_id'', ''_pubsub_publish_time'', ''_pubsub_ordering_key'']"

definition interopBody :: string where "interopBody = ''from-gcp-pubsub''"
definition orderingKey :: string where "orderingKey = ''shipments''"

definition hasAll :: "attributes \<Rightarrow> string list \<Rightarrow> bool" where
  "hasAll tags ks \<longleftrightarrow> list_all (\<lambda>k. map_of tags k \<noteq> None) ks"

definition tagOf :: "attributes \<Rightarrow> string \<Rightarrow> string" where
  "tagOf tags k = (case map_of tags k of None \<Rightarrow> [] | Some v \<Rightarrow> v)"

definition sampleSplitHostPort :: "string \<Rightarrow> (string \<times> int) option" where
  "sampleSplitHostPort addr =
     (case splitFirst CHR '':'' addr of
        None \<Rightarrow> None
      | Some (host, portStr) \<Rightarrow>
          if host = [] \<or> portStr = [] then None else map_option (\<lambda>port. (host, port)) (ParseInt portStr))"

definition grpcAddressOf :: "environ \<Rightarrow> string" where
  "grpcAddressOf getenv =
     (if getenv ''KUBEMQ_GRPC_ADDRESS'' = [] then ''localhost:50000'' else getenv ''KUBEMQ_GRPC_ADDRESS'')"

definition Native_setup :: "string \<Rightarrow> string \<Rightarrow> unit prog" where
  "Native_setup project suffix =
     steps [newClient project,
            call ''CreateTopic'' (RCreateTopic (''orders-'' @ suffix) plainTopic),
            (\<lambda>e. (case sampleSplitHostPort (grpcAddressOf (eGetenv e)) of
                    None \<Rightarrow> fatal ''parse KUBEMQ_GRPC_ADDRESS''
                  | Some (host, port) \<Rightarrow> call ''connect native'' (RNativeClient host port (''gcp-interop-go-'' @ suffix))) e),
            call ''SubscribeToEventsStore'' (RNativeSubscribe (''pubsub.'' @ ''orders-'' @ suffix))]"

definition Native_publish :: "string \<Rightarrow> string prog" where
  "Native_publish suffix =
     publishMsg (''orders-'' @ suffix) ((mkMsg interopBody [(''region'', ''emea'')])\<lparr>mOrderingKey := orderingKey\<rparr>)"

fun isEvent :: "native_event \<Rightarrow> bool" where
  "isEvent (NEvent ev) = True"
| "isEvent _ = False"

definition Native_verify :: "string \<Rightarrow> NativeEvent prog" where
  "Native_verify messageID =
     bindP (ask eNative RNativeNext) (\<lambda>ev.
       case ev of
         NError \<Rightarrow> fatal ''native subscribe stream error''
       | NTimeout \<Rightarrow> fatal ''native consumer received nothing''
       | NEvent event \<Rightarrow>
           bindP (steps [ensure (neBody event = interopBody) ''body'',
                         ensure (hasAll (neTags event) reservedTags) ''reserved tags'',
                         ensure (tagOf (neTags event) ''_pubsub_message_id'' = messageID) ''message id'',
                         ensure (tagOf (neTags event) ''_pubsub_ordering_key'' = orderingKey) ''ordering key'',
                         ensure (tagOf (neTags event) ''region'' = ''emea'') ''attribute'']) (\<lambda>_.
           bindP (ask eNative RNativeTryNext) (\<lambda>extra.
           bindP (ensure (\<not> isEvent extra) ''exactly one message'') (\<lambda>_.
           bindP (ask eNative RNativeTryError) (\<lambda>err.
           bindP (ensure (err \<noteq> NError) ''no subscription errors'') (\<lambda>_. ret event))))))"

definition Native_body :: "string \<Rightarrow> string \<Rightarrow> NativeEvent prog" where
  "Native_body project suffix =
     bindP (Native_setup project suffix) (\<lambda>_. bindP (Native_publish suffix) Native_verify)"

definition Native_cleanup :: "string \<Rightarrow> NativeEvent \<Rightarrow> request list" where
  "Native_cleanup suffix = (\<lambda>_. [RDeleteTopic (''orders-'' @ suffix)])"

definition Native_main :: "unit prog" where
  "Native_main = sampleMain Native_body Native_cleanup"

section \<open>Every program deletes what it owns exactly when it succeeds\<close>

lemma emits_publishBody: "(\<And>m. P (RPublish topic m)) \<Longrightarrow> emits P (publishBody topic body)"
  unfolding publishBody_def by (intro emits_intros emits_pieces)

lemma emits_schemaClient:
  "(\<And>os. P (RNewSchemaClient project os)) \<Longrightarrow> emits P (\<lambda>e. call s (RNewSchemaClient project (opts (eGetenv e))) e)"
  by (rule emits_env) (intro emits_intros)

lemma emits_nativeClient:
  assumes "\<And>host port. P (RNativeClient host port cid)"
  shows "emits P (\<lambda>e. (case f e of None \<Rightarrow> fatal s | Some (host, port) \<Rightarrow> call t (RNativeClient host port cid)) e)"
  by (rule emits_env) (auto intro!: emits_intros assms split: option.split)

lemmas emits_advanced = emits_delivery emits_publishBody emits_schemaClient emits_nativeClient

interpretation snapshots: sample Snapshots_body Snapshots_cleanup
    "\<lambda>s. [RDeleteSnapshot (''snap-cursor-'' @ s), RDeleteSubscription (''sub-snapped-'' @ s)]"
  by unfold_locales
    (auto simp: Snapshots_body_def Snapshots_setup_def Snapshots_replay_def Snapshots_detached_def Snapshots_drain_def
      Snapshots_cleanup_def Let_def intro!: emits_advanced)

interpretation seek: sample Seek_body Seek_cleanup "\<lambda>s. cleanupSubTopic (''sub-seekable-'' @ s) (''seekable-'' @ s)"
  by unfold_locales
    (auto simp: Seek_body_def Seek_setup_def Seek_publish_def Seek_verify_def Seek_drain_def Seek_cleanup_def
      cleanupSubTopic_def Let_def intro!: emits_advanced)

interpretation schema: sample "SchemaSample_body S" "SchemaSample_cleanup S" "\<lambda>s. SchemaSample_cleanup S s ()" for S
  by unfold_locales
    (auto simp: SchemaSample_body_def SchemaSample_setup_def SchemaSample_publish_def SchemaSample_drain_def
      SchemaSample_cleanup_def Let_def split: list.split intro!: emits_advanced)

interpretation native: sample Native_body Native_cleanup "\<lambda>s. [RDeleteTopic (''orders-'' @ s)]"
  by unfold_locales
    (auto simp: Native_body_def Native_setup_def Native_publish_def Native_verify_def Native_cleanup_def
      split: native_event.split intro!: emits_advanced)

section \<open>What success says\<close>

lemma drainTurns_sound:
  assumes "drainTurns n streak sub e h = (Inr bs, h')" "streak < 2"
  shows "\<exists>ps. pulled e h sub ps \<and> bs = bodiesOf ps \<and> h' = h @ drainLog sub ps \<and> length ps \<le> n \<and>
    (length ps < n \<longrightarrow> ps = replicate (2 - streak) [] \<or> (\<exists>qs. ps = qs @ [[], []]))"
  using assms
proof (induction n arbitrary: streak h bs)
  case 0
  then show ?case by (auto simp: ret_run bodiesOf_def intro: exI [of _ "[]"])
next
  case (Suc n)
  obtain ms where p: "ePull e h (RPull sub 10) = Inr ms" and
    c: "(if ms = [] then (if Suc streak \<ge> 2 then ret [] else drainTurns n (Suc streak) sub)
       else bindP (call ''Acknowledge'' (RAcknowledge sub (map rmAckID ms))) (\<lambda>_.
              bindP (drainTurns n 0 sub) (\<lambda>bs. ret (map (mData \<circ> rmMessage) ms @ bs)))) e (h @ [RPull sub 10]) = (Inr bs, h')"
    using Suc.prems(1) by (auto simp: bindP_run callFor_run)
  show ?case
  proof (cases "ms = []")
    case True
    note ms = this
    show ?thesis
    proof (cases "Suc streak \<ge> 2")
      case True
      then have "bs = []" "h' = h @ [RPull sub 10]" "streak = 1" using c ms Suc.prems(2) by (auto simp: ret_run)
      then show ?thesis using p ms by (intro exI [of _ "[[]]"]) (auto simp: bodiesOf_def)
    next
      case False
      then have s: "streak = 0" and r: "drainTurns n (Suc streak) sub e (h @ [RPull sub 10]) = (Inr bs, h')"
        using c ms by auto
      then obtain ps where ps: "pulled e (h @ [RPull sub 10]) sub ps" "bs = bodiesOf ps"
          "h' = (h @ [RPull sub 10]) @ drainLog sub ps" "length ps \<le> n"
          "length ps < n \<longrightarrow> ps = replicate (2 - Suc streak) [] \<or> (\<exists>qs. ps = qs @ [[], []])"
        using Suc.IH [OF r] by auto
      have "[] # ps = replicate (2 - streak) [] \<or> (\<exists>qs. [] # ps = qs @ [[], []])" if "length ps < n"
        using ps(5) that s by (auto simp: numeral_2_eq_2)
      then show ?thesis using ps p ms by (intro exI [of _ "[] # ps"]) (auto simp: bodiesOf_def)
    qed
  next
    case False
    then obtain bs' where b: "bs = map (mData \<circ> rmMessage) ms @ bs'" and
      r: "drainTurns n 0 sub e (h @ drainLog sub [ms]) = (Inr bs', h')"
      using c by (auto simp: bindP_run call_run ret_run)
    obtain ps where ps: "pulled e (h @ drainLog sub [ms]) sub ps" "bs' = bodiesOf ps"
        "h' = (h @ drainLog sub [ms]) @ drainLog sub ps" "length ps \<le> n"
        "length ps < n \<longrightarrow> ps = replicate 2 [] \<or> (\<exists>qs. ps = qs @ [[], []])"
      using Suc.IH [OF r] by auto
    have "\<exists>qs. ms # ps = qs @ [[], []]" if "length ps < n"
      using ps(5) that by (auto simp: numeral_2_eq_2)
    then show ?thesis using ps p b by (intro exI [of _ "ms # ps"]) (auto simp: bodiesOf_def)
  qed
qed

fun ackedIn :: "request list \<Rightarrow> string list" where
  "ackedIn [] = []"
| "ackedIn (RAcknowledge sub ids # rs) = ids @ ackedIn rs"
| "ackedIn (_ # rs) = ackedIn rs"

lemma ackedIn_append: "ackedIn (rs @ ss) = ackedIn rs @ ackedIn ss"
  by (induction rs rule: ackedIn.induct) simp_all

lemma drainLog_acks: "ackedIn (drainLog sub ps) = map rmAckID (concat ps)"
  by (induction ps) (auto simp: ackedIn_append)

lemma drainFor_sound:
  assumes "drainFor s sub e h = (Inr bs, h')"
  shows "\<exists>ps. pulled e h sub ps \<and> bs = bodiesOf ps \<and> h' = h @ drainLog sub ps \<and>
    length ps \<le> eTurns e h (s * Second) \<and> (length ps < eTurns e h (s * Second) \<longrightarrow> (\<exists>qs. ps = qs @ [[], []]))"
proof -
  have "drainTurns (eTurns e h (s * Second)) 0 sub e h = (Inr bs, h')"
    using assms by (auto simp: drainFor_def bindP_run observe_run)
  from drainTurns_sound [OF this] show ?thesis by (auto simp: numeral_2_eq_2)
qed

lemma snapshots_sound:
  assumes "Snapshots_replay project suffix e h = (Inr u, h')"
  shows "\<exists>h0 p1 h1 p2 p3. let subID = ''sub-snapped-'' @ suffix; sub = subPathOf project subID; snap = ''snap-cursor-'' @ suffix;
      a = h0 @ drainLog sub p1; b = a @ [RCreateSnapshot subID snap] @ h1; c = b @ drainLog sub p2 @ [RSeekToSnapshot subID snap] in
    pulled e h0 sub p1 \<and> pulled e b sub p2 \<and> pulled e c sub p3 \<and> h' = c @ drainLog sub p3 \<and>
    bodiesOf p1 = orders 1 3 \<and> bodiesOf p2 = orders 4 6 \<and> bodiesOf p3 = orders 3 6"
proof -
  define subID where "subID = ''sub-snapped-'' @ suffix"
  define sub where "sub = subPathOf project subID"
  define snap where "snap = ''snap-cursor-'' @ suffix"
  obtain h0 h1 h2 h3 h4 us where
    d1: "drainFor 15 sub e h0 = (Inr (orders 1 3), h1)" and
    m: "mapP (publishBody (''snapped-'' @ suffix)) (orders 4 6) e (h1 @ [RCreateSnapshot subID snap]) = (Inr us, h2)" and
    d2: "drainFor 15 sub e h2 = (Inr (orders 4 6), h3)" and
    d3: "drainFor 15 sub e (h3 @ [RSeekToSnapshot subID snap]) = (Inr (orders 3 6), h')"
    using assms by (auto simp: Snapshots_replay_def Snapshots_drain_def Let_def bindP_run ensure_run call_run subID_def sub_def snap_def)
  obtain g where g: "h2 = (h1 @ [RCreateSnapshot subID snap]) @ g"
    using emitsD [OF emits_mapP [of "\<lambda>_. True" "publishBody (''snapped-'' @ suffix)" "orders 4 6"], of e
      "h1 @ [RCreateSnapshot subID snap]"] m emits_publishBody [of "\<lambda>_. True"] by auto
  obtain p1 p2 p3 where "pulled e h0 sub p1" "bodiesOf p1 = orders 1 3" "h1 = h0 @ drainLog sub p1"
      "pulled e h2 sub p2" "bodiesOf p2 = orders 4 6" "h3 = h2 @ drainLog sub p2"
      "pulled e (h3 @ [RSeekToSnapshot subID snap]) sub p3" "bodiesOf p3 = orders 3 6"
      "h' = (h3 @ [RSeekToSnapshot subID snap]) @ drainLog sub p3"
    using drainFor_sound [OF d1] drainFor_sound [OF d2] drainFor_sound [OF d3] by metis
  then show ?thesis using g
    unfolding Let_def subID_def [symmetric] sub_def [symmetric] snap_def [symmetric]
    by (intro exI [of _ h0] exI [of _ p1] exI [of _ g] exI [of _ p2] exI [of _ p3]) simp
qed


lemma seek_sound:
  assumes "Seek_verify project suffix checkpoint e h = (Inr u, h')"
  shows "\<exists>p1 p2 p3. let subID = ''sub-seekable-'' @ suffix; sub = subPathOf project subID;
      a = h @ drainLog sub p1; b = a @ [RSeekToTime subID checkpoint]; c = b @ drainLog sub p2;
      d = c @ [RSeekToTime subID (eNow e c - 365 * 24 * Hour)] in
    pulled e h sub p1 \<and> pulled e b sub p2 \<and> pulled e d sub p3 \<and> h' = d @ drainLog sub p3 \<and>
    bodiesOf p1 = orders 1 6 \<and> bodiesOf p2 = orders 3 6 \<and> bodiesOf p3 = orders 1 6"
proof -
  define subID where "subID = ''sub-seekable-'' @ suffix"
  define sub where "sub = subPathOf project subID"
  obtain h1 h2 where
    d1: "drainFor 15 sub e h = (Inr (orders 1 6), h1)" and
    d2: "drainFor 15 sub e (h1 @ [RSeekToTime subID checkpoint]) = (Inr (orders 3 6), h2)" and
    d3: "drainFor 15 sub e (h2 @ [RSeekToTime subID (eNow e h2 - 365 * 24 * Hour)]) = (Inr (orders 1 6), h')"
    using assms by (auto simp: Seek_verify_def Seek_drain_def Let_def bindP_run ensure_run call_run observe_run subID_def sub_def)
  obtain p1 p2 p3 where "pulled e h sub p1" "bodiesOf p1 = orders 1 6" "h1 = h @ drainLog sub p1"
      "pulled e (h1 @ [RSeekToTime subID checkpoint]) sub p2" "bodiesOf p2 = orders 3 6"
      "h2 = (h1 @ [RSeekToTime subID checkpoint]) @ drainLog sub p2"
      "pulled e (h2 @ [RSeekToTime subID (eNow e h2 - 365 * 24 * Hour)]) sub p3" "bodiesOf p3 = orders 1 6"
      "h' = (h2 @ [RSeekToTime subID (eNow e h2 - 365 * 24 * Hour)]) @ drainLog sub p3"
    using drainFor_sound [OF d1] drainFor_sound [OF d2] drainFor_sound [OF d3] by metis
  then show ?thesis
    unfolding Let_def subID_def [symmetric] sub_def [symmetric]
    by (intro exI [of _ p1] exI [of _ p2] exI [of _ p3]) simp
qed

lemma schema_sound:
  assumes "SchemaSample_body S project suffix e h = (Inr u, h')"
  shows "\<exists>h1 h2 h3 msgID good bad ps. let t = ssTopic S @ suffix; sub = subPathOf project (ssSub S @ suffix) in
    eId e h1 (RPublish t (plainMsg (ssConforming S))) = Inr msgID \<and> msgID \<noteq> [] \<and>
    eIds e h2 (RPublishAll t [plainMsg (ssGood S), plainMsg (ssBad S)]) = [Inl good, Inl bad] \<and>
    codeOf (Some bad) = InvalidArgument \<and> pulled e h3 sub ps \<and> bodiesOf ps = [ssConforming S]"
proof -
  define t where "t = ssTopic S @ suffix"
  define sub where "sub = subPathOf project (ssSub S @ suffix)"
  obtain h1 h3 where pub: "SchemaSample_publish S suffix e h1 = (Inr (), h3)" and
    d: "drainFor 12 sub e h3 = (Inr [ssConforming S], h')"
    using assms by (auto simp: SchemaSample_body_def SchemaSample_drain_def bindP_run ensure_run sub_def)
  obtain msgID rs where m: "eId e h1 (RPublish t (plainMsg (ssConforming S))) = Inr msgID" "msgID \<noteq> []" and
    rs: "rs = eIds e (h1 @ [RPublish t (plainMsg (ssConforming S))]) (RPublishAll t [plainMsg (ssGood S), plainMsg (ssBad S)])" and
    c: "(case rs of [good, bad] \<Rightarrow>
            steps [ensure (codeOf (case bad of Inl err \<Rightarrow> Some err | Inr _ \<Rightarrow> None) = InvalidArgument) ''bad rejected'',
                   ensure (isl good) ''sibling not enqueued'']
        | _ \<Rightarrow> fatal ''results'') e (h1 @ [RPublish t (plainMsg (ssConforming S)),
            RPublishAll t [plainMsg (ssGood S), plainMsg (ssBad S)]]) = (Inr (), h3)"
    using pub by (auto simp: SchemaSample_publish_def publishMsg_def Let_def bindP_run callFor_run ensure_run ask_run t_def)
  obtain good bad where gb: "rs = [good, bad]"
    using c by (auto simp: fatal_run split: list.splits)
  have k: "codeOf (case bad of Inl err \<Rightarrow> Some err | Inr _ \<Rightarrow> None) = InvalidArgument" "isl good"
    using c by (auto simp: gb prog_simps)
  obtain ge be where "good = Inl ge" "bad = Inl be" "codeOf (Some be) = InvalidArgument"
    using k by (cases good; cases bad) auto
  then show ?thesis
    using m rs gb drainFor_sound [OF d] unfolding Let_def t_def [symmetric] sub_def [symmetric] by metis
qed

lemma native_sound:
  assumes "Native_body project suffix e h = (Inr event, h')"
  shows "neBody event = interopBody \<and> hasAll (neTags event) reservedTags \<and>
    tagOf (neTags event) ''_pubsub_ordering_key'' = orderingKey \<and> tagOf (neTags event) ''region'' = ''emea'' \<and>
    (\<exists>h1 msgID. eId e h1 (RPublish (''orders-'' @ suffix) ((mkMsg interopBody [(''region'', ''emea'')])\<lparr>mOrderingKey := orderingKey\<rparr>))
        = Inr msgID \<and> RNativeSubscribe (''pubsub.'' @ ''orders-'' @ suffix) \<in> set h1 \<and>
      tagOf (neTags event) ''_pubsub_message_id'' = msgID)"
proof -
  obtain h1 h2 msgID where s: "Native_setup project suffix e h = (Inr (), h1)" and
    p: "Native_publish suffix e h1 = (Inr msgID, h2)" and v: "Native_verify msgID e h2 = (Inr event, h')"
    using assms by (auto simp: Native_body_def bindP_run)
  have sub: "RNativeSubscribe (''pubsub.'' @ ''orders-'' @ suffix) \<in> set h1"
    using s by (auto simp: Native_setup_def steps_run call_run)
  have "neBody event = interopBody \<and> hasAll (neTags event) reservedTags \<and>
      tagOf (neTags event) ''_pubsub_message_id'' = msgID \<and>
      tagOf (neTags event) ''_pubsub_ordering_key'' = orderingKey \<and> tagOf (neTags event) ''region'' = ''emea''"
    using v by (auto simp: Native_verify_def prog_simps split: native_event.splits)
  then show ?thesis using p sub by (auto simp: Native_publish_def publishMsg_def callFor_run)
qed

end
