(* ===== verification/SampleClaims.thy ===== *)
theory SampleClaims
  imports SampleAdvanced
begin

text \<open>
  Properties that hold of the example programs together: a resource a program creates is
  deleted exactly when the program succeeds, so that a failed run leaves it on the broker; and
  concrete worlds in which programs succeed and fail.
\<close>

section \<open>Created and released resources\<close>

fun releaseOf :: "request \<Rightarrow> request option" where
  "releaseOf (RCreateTopic t c) = Some (RDeleteTopic t)"
| "releaseOf (RCreateSubscription s c) = Some (RDeleteSubscription s)"
| "releaseOf (RCreateSchema s ty d) = Some (RDeleteSchema s)"
| "releaseOf (RCreateSnapshot sub s) = Some (RDeleteSnapshot s)"
| "releaseOf _ = None"

text \<open>A program is tidy when everything its body asks to create is released by the deferred
  functions.\<close>

locale tidy_sample = sample +
  assumes covered: "emits (\<lambda>r. \<forall>d. releaseOf r = Some d \<longrightarrow> d \<in> set (owned suffix)) (body project suffix)"
    and deletes: "list_all (\<lambda>r. releaseOf r = None) (cleanup suffix x)"
begin

lemma created_owned:
  assumes "r \<in> set (requests (sampleMain body cleanup) e)" "releaseOf r = Some d"
  shows "d \<in> set (owned (eSuffix e))"
proof -
  let ?b = "body (projectOf (eGetenv e)) (eSuffix e)"
  obtain rs where rs: "snd (?b e []) = rs" "list_all (\<lambda>r. \<forall>d. releaseOf r = Some d \<longrightarrow> d \<in> set (owned (eSuffix e))) rs"
    using emitsD [OF covered [of "eSuffix e" "projectOf (eGetenv e)"], of e "[]"] by auto
  have "r \<in> set rs"
    using assms rs(1) deletes [of "eSuffix e"]
    by (cases "?b e []") (auto simp: requests_def sampleMain_run list_all_iff split: sum.splits)
  then show ?thesis using rs(2) assms(2) by (auto simp: list_all_iff)
qed

lemma released_iff:
  assumes "r \<in> set (requests (sampleMain body cleanup) e)" "releaseOf r = Some d"
  shows "d \<in> set (requests (sampleMain body cleanup) e) \<longleftrightarrow> exitCode (sampleMain body cleanup) e = 0"
  by (rule cleanup_iff [OF created_owned [OF assms]])

end

lemmas cleanup_defs = cleanupSubTopic_def Let_def

interpretation basic_tidy: tidy_sample Basic_body Basic_cleanup
    "\<lambda>s. cleanupSubTopic (''sub-orders-'' @ s) (''orders-'' @ s)"
  by unfold_locales
    (auto simp: Basic_body_def Basic_setup_def Basic_publish_def Basic_verify_def Basic_cleanup_def cleanup_defs
      split: list.split intro!: emits_sample)

interpretation batch_tidy: tidy_sample Batch_body Batch_cleanup "\<lambda>s. [RDeleteTopic (''events-'' @ s)]"
  by unfold_locales
    (auto simp: Batch_body_def Batch_setup_def Batch_publish_def Batch_cleanup_def intro!: emits_sample)

interpretation streaming_tidy: tidy_sample Streaming_body Streaming_cleanup
    "\<lambda>s. cleanupSubTopic (''sub-orders-'' @ s) (''orders-'' @ s)"
  by unfold_locales
    (auto simp: Streaming_body_def Streaming_setup_def Streaming_publish_def Streaming_verify_def Streaming_cleanup_def
      cleanup_defs intro!: emits_sample)

interpretation nack_tidy: tidy_sample Nack_body Nack_cleanup "\<lambda>s. cleanupSubTopic (''sub-orders-'' @ s) (''orders-'' @ s)"
  by unfold_locales
    (auto simp: Nack_body_def Nack_setup_def Nack_lease_def Nack_redelivery_def Nack_cleanup_def cleanup_defs
      split: option.split intro!: emits_sample)

interpretation eos_tidy: tidy_sample ExactlyOnce_body ExactlyOnce_cleanup
    "\<lambda>s. cleanupSubTopic (''sub-eos-'' @ s) (''eos-'' @ s)"
  by unfold_locales
    (auto simp: ExactlyOnce_body_def ExactlyOnce_setup_def ExactlyOnce_verify_def ExactlyOnce_cleanup_def cleanup_defs
      split: list.split intro!: emits_delivery)

interpretation push_tidy: tidy_sample "Push_body unmarshal" Push_cleanup
    "\<lambda>s. cleanupSubTopic (''sub-pushed-'' @ s) (''pushed-'' @ s)" for unmarshal
  by unfold_locales
    (auto simp: Push_body_def Push_setup_def Push_verify_def Push_cleanup_def cleanup_defs
      split: list.split intro!: emits_delivery)

interpretation dead_tidy: tidy_sample DeadLetter_body DeadLetter_cleanup "\<lambda>s. DeadLetter_cleanup s 0"
  by unfold_locales
    (auto simp: DeadLetter_body_def DeadLetter_setup_def DeadLetter_drive_def DeadLetter_cleanup_def Let_def
      intro!: emits_delivery)

interpretation ordering_tidy: tidy_sample Ordering_body Ordering_cleanup
    "\<lambda>s. cleanupSubTopic (''sub-ordered-'' @ s) (''ordered-'' @ s)"
  by unfold_locales
    (auto simp: Ordering_body_def Ordering_setup_def Ordering_publish_def Ordering_verify_def Ordering_cleanup_def
      cleanup_defs intro!: emits_delivery)

interpretation seek_tidy: tidy_sample Seek_body Seek_cleanup "\<lambda>s. cleanupSubTopic (''sub-seekable-'' @ s) (''seekable-'' @ s)"
  by unfold_locales
    (auto simp: Seek_body_def Seek_setup_def Seek_publish_def Seek_verify_def Seek_drain_def Seek_cleanup_def
      cleanup_defs intro!: emits_advanced)

interpretation schema_tidy: tidy_sample "SchemaSample_body S" "SchemaSample_cleanup S" "\<lambda>s. SchemaSample_cleanup S s ()" for S
  by unfold_locales
    (auto simp: SchemaSample_body_def SchemaSample_setup_def SchemaSample_publish_def SchemaSample_drain_def
      SchemaSample_cleanup_def Let_def split: list.split intro!: emits_advanced)

interpretation native_tidy: tidy_sample Native_body Native_cleanup "\<lambda>s. [RDeleteTopic (''orders-'' @ s)]"
  by unfold_locales
    (auto simp: Native_body_def Native_setup_def Native_publish_def Native_verify_def Native_cleanup_def
      split: native_event.split intro!: emits_advanced)

definition tidySamples :: "(string \<Rightarrow> pushEnvelope option) \<Rightarrow> unit prog list" where
  "tidySamples unmarshal =
     [Basic_main, Batch_main, Streaming_main, Nack_main, ExactlyOnce_main, Push_main unmarshal, DeadLetter_main,
      Ordering_main, Seek_main, Avro_main, Protobuf_main, Native_main]"

lemmas sample_mains = Basic_main_def Batch_main_def Streaming_main_def Nack_main_def ExactlyOnce_main_def Push_main_def
  DeadLetter_main_def Ordering_main_def Seek_main_def Avro_main_def Protobuf_main_def Protobuf_body_sample Protobuf_cleanup_def Native_main_def

lemmas sample_released = basic_tidy.released_iff batch_tidy.released_iff streaming_tidy.released_iff nack_tidy.released_iff
  eos_tidy.released_iff push_tidy.released_iff dead_tidy.released_iff ordering_tidy.released_iff seek_tidy.released_iff
  schema_tidy.released_iff native_tidy.released_iff

text \<open>C38: A resource that an example program asks the broker to create is deleted by it exactly when
  the program exits with code 0: a run that fails after the creation leaves the resource behind.\<close>

theorem sample_releases_iff_success:
  assumes "p \<in> set (tidySamples unmarshal)" "r \<in> set (requests p e)" "releaseOf r = Some d"
  shows "d \<in> set (requests p e) \<longleftrightarrow> exitCode p e = 0"
  using assms unfolding tidySamples_def
  by (auto simp only: set_simps insert_iff empty_iff sample_mains intro: sample_released [THEN iffD1] sample_released [THEN iffD2])

section \<open>Concrete worlds\<close>

text \<open>A broker that accepts every call, numbers the messages of a batch and delivers nothing.\<close>

definition obliging :: env where
  "obliging = \<lparr>eGetenv = (\<lambda>_. []), eSuffix = ''0a1b2c3d'', eUnit = (\<lambda>h r. None), eId = (\<lambda>h r. Inr ''m1''),
     eIds = (\<lambda>h r. case r of RPublishAll t ms \<Rightarrow> map (\<lambda>i. Inr (FormatInt (int i))) [0..<length ms] | _ \<Rightarrow> []),
     ePull = (\<lambda>h r. Inr []), eReceive = (\<lambda>h r. \<lparr>roMsgs = [], roErr = None, roCtxErr = True\<rparr>),
     eTopic = (\<lambda>h r. Inr plainTopic), eExists = (\<lambda>h r. Inr False), ePushes = (\<lambda>h r. []),
     eNative = (\<lambda>h r. NTimeout), eTurns = (\<lambda>h d. 8), eNow = (\<lambda>h. 0)\<rparr>"

text \<open>The same broker with a publish that fails.\<close>

definition refusing :: env where
  "refusing = obliging\<lparr>eIds := (\<lambda>h r. [Inl (Status Unavailable [])])\<rparr>"

lemmas run_simps = sampleMain_run bindP_def ret_def fatal_def ask_def observe_def ensure_def call_def callFor_def attempt_def
  steps_def withProject_def newClient_def newSubscriber_def publishMsg_def projectOf_def exitCode_def requests_def

lemma batch_refused:
  "exitCode Batch_main refusing = 1 \<and>
   requests Batch_main refusing = [RNewClient ''my-project'', RCreateTopic ''events-0a1b2c3d'' plainTopic,
     RPublishAll ''events-0a1b2c3d'' (map batchMsg [0..<batchSize])]"
  by (simp add: Batch_main_def Batch_body_def Batch_setup_def Batch_publish_def Batch_cleanup_def run_simps refusing_def obliging_def)

lemma batch_accepted: "exitCode Batch_main obliging = 0"
  by code_simp

theorem sample_releases_iff_success_witness:
  "RCreateTopic ''events-0a1b2c3d'' plainTopic \<in> set (requests Batch_main refusing) \<and> exitCode Batch_main refusing = 1 \<and>
   RDeleteTopic ''events-0a1b2c3d'' \<notin> set (requests Batch_main refusing)"
proof -
  have r: "RCreateTopic ''events-0a1b2c3d'' plainTopic \<in> set (requests Batch_main refusing)"
    by (simp add: batch_refused)
  have "Batch_main \<in> set (tidySamples (\<lambda>_. None))" by (simp add: tidySamples_def)
  from sample_releases_iff_success [OF this r, of "RDeleteTopic ''events-0a1b2c3d''"] show ?thesis
    using r by (simp add: batch_refused)
qed

section \<open>What the programs do not look at\<close>

text \<open>The dead-letter program passes against a broker that hands the message to the dead-letter
  subscription without ever delivering it on the source subscription.\<close>

definition misrouting :: env where
  "misrouting = obliging\<lparr>ePull := (\<lambda>h r. if r = RPull (subPathOf ''my-project'' ''sub-dlq-0a1b2c3d'') 1
     then Inr [\<lparr>rmMessage = plainMsg ''poison'', rmAckID = ''a1'', rmAttempt = 0\<rparr>] else Inr [])\<rparr>"

theorem dead_letter_attempts_unchecked:
  "exitCode DeadLetter_main misrouting = 0 \<and> fst (DeadLetter_body ''my-project'' ''0a1b2c3d'' misrouting []) = Inr 0"
  by (simp add: DeadLetter_main_def DeadLetter_body_def DeadLetter_setup_def DeadLetter_drive_def run_simps misrouting_def
      obliging_def subPathOf_def plainMsg_def numeral_nat Let_def)

text \<open>The ordering program passes although the keyless message never arrives: a message with a
  foreign key takes its place.\<close>

definition keyedMsg :: "string \<times> string \<Rightarrow> RMsg" where
  "keyedMsg p = \<lparr>rmMessage = (plainMsg (snd p))\<lparr>mOrderingKey := fst p\<rparr>, rmAckID = snd p, rmAttempt = 0\<rparr>"

definition strayDeliveries :: "(string \<times> string) list" where
  "strayDeliveries = [(''cust-7'', ''A1''), (''cust-9'', ''B1''), (''cust-7'', ''A2''), (''other'', ''stray''),
     (''cust-9'', ''B2''), (''cust-7'', ''A3''), (''cust-9'', ''B3'')]"

text \<open>One delivery per pull: eleven requests come before the first pull, two with each.\<close>

definition straying :: env where
  "straying = obliging\<lparr>ePull := (\<lambda>h r. Inr [keyedMsg (concat (map (\<lambda>p. [p, p]) strayDeliveries) ! (length h - 11))])\<rparr>"

lemma straying_setup:
  "Ordering_setup project suffix straying h = (Inr (), h @ [RNewClient project, RCreateTopic (''ordered-'' @ suffix) plainTopic,
     RCreateSubscription (''sub-ordered-'' @ suffix) ((sampleSub (''ordered-'' @ suffix))\<lparr>scOrdering := True\<rparr>)])"
  by (simp add: Ordering_setup_def run_simps straying_def obliging_def Let_def)

lemma straying_publish: "\<exists>is h'. Ordering_publish suffix straying h = (Inr is, h') \<and> length h' = length h + 7"
  by (simp add: Ordering_publish_def orderingPlan_def run_simps straying_def obliging_def)

lemma straying_pull:
  "length h = 11 \<Longrightarrow> \<exists>h'. pullKeyed 8 7 sub straying h = (Inr strayDeliveries, h')"
  by (simp add: numeral_nat run_simps straying_def obliging_def keyedMsg_def plainMsg_def strayDeliveries_def)

lemma straying_verify:
  assumes "length h = 10"
  shows "\<exists>h'. Ordering_verify project suffix straying h = (Inr strayDeliveries, h')"
proof -
  obtain c where c: "newSubscriber emulatorOptions straying h = (Inr (), h @ [c])"
    by (simp add: run_simps straying_def obliging_def)
  obtain h' where h': "pullKeyed 8 7 (subPathOf project (''sub-ordered-'' @ suffix)) straying (h @ [c]) = (Inr strayDeliveries, h')"
    using straying_pull [of "h @ [c]"] assms by auto
  have t: "eTurns straying h2 d = 8" for h2 d by (simp add: straying_def obliging_def)
  have p: "perKey ''cust-7'' strayDeliveries = [''A1'', ''A2'', ''A3'']" "perKey ''cust-9'' strayDeliveries = [''B1'', ''B2'', ''B3'']"
      "length strayDeliveries = length orderingPlan" "length orderingPlan = 7"
    by (simp_all add: perKey_def strayDeliveries_def orderingPlan_def)
  show ?thesis
    unfolding Ordering_verify_def by (simp add: bindP_def observe_def ensure_def ret_def c h' [simplified] t p)
qed

theorem ordering_keyless_unchecked:
  "exitCode Ordering_main straying = 0 \<and>
   fst (Ordering_body ''my-project'' ''0a1b2c3d'' straying []) = Inr strayDeliveries \<and> ''keyless'' \<notin> set (map snd strayDeliveries)"
proof -
  have b: "\<exists>h'. Ordering_body project suffix straying [] = (Inr strayDeliveries, h')" for project suffix
  proof -
    obtain h1 where h1: "Ordering_setup project suffix straying [] = (Inr (), h1)" "length h1 = 3"
      using straying_setup [of project suffix "[]"] by simp
    obtain ids h2 where h2: "Ordering_publish suffix straying h1 = (Inr ids, h2)" "length h2 = 10"
      using straying_publish [of suffix h1] h1(2) by auto
    show ?thesis using straying_verify [OF h2(2)] h1 h2 by (simp add: Ordering_body_def bindP_def)
  qed
  have "''keyless'' \<notin> set (map snd strayDeliveries)" by (simp add: strayDeliveries_def)
  then show ?thesis using b unfolding Ordering_main_def sampleMain_ok by (metis fst_conv)
qed

section \<open>Draining, on a concrete broker\<close>

definition oneMessage :: env where
  "oneMessage = obliging\<lparr>ePull := (\<lambda>h r. if h = [] then Inr [keyedMsg ([], ''order-1'')] else Inr [])\<rparr>"

lemma oneMessage_drain:
  "drainFor 15 ''s'' oneMessage [] =
     (Inr [''order-1''], [RPull ''s'' 10, RAcknowledge ''s'' [''order-1''], RPull ''s'' 10, RPull ''s'' 10])"
  by (simp add: drainFor_def numeral_nat run_simps oneMessage_def obliging_def keyedMsg_def plainMsg_def)

text \<open>C39: A drain that ends returns the bodies of everything it pulled, in order, has acknowledged
  exactly the ids it pulled, and ended after two empty pulls in a row or at the deadline.\<close>

theorem drain_acks_what_it_returns:
  assumes "drainFor s sub e h = (Inr bs, h')"
  shows "\<exists>ps. pulled e h sub ps \<and> bs = map (mData \<circ> rmMessage) (concat ps) \<and>
    h' = h @ drainLog sub ps \<and> ackedIn (drop (length h) h') = map rmAckID (concat ps) \<and>
    (length ps = eTurns e h (s * Second) \<or> (\<exists>qs. ps = qs @ [[], []]))"
  using drainFor_sound [OF assms] by (fastforce simp: bodiesOf_def drainLog_acks)

theorem drain_acks_what_it_returns_witness:
  "\<exists>ps. pulled oneMessage [] ''s'' ps \<and> [''order-1''] = map (mData \<circ> rmMessage) (concat ps) \<and>
     [''order-1''] = map rmAckID (concat ps)"
  using drain_acks_what_it_returns [OF oneMessage_drain] by auto

end
