(* ===== verification/Spec2Isabelle.thy ===== *)
theory Spec2Isabelle
  imports Schema Commands Producers Output Registry Wiring SampleClaims
begin

text \<open>
  A model of the Go burn-in harness for the KubeMQ connector of Google Cloud Pub/Sub
  (the directory src/burnin) and of the example programs beside it (src/examples/go), with the
  theorems that say its measurements and its verdict can be trusted, and where they cannot.

  \<^bold>\<open>The program.\<close> The harness runs up to twelve kinds of worker against a broker. A
  worker publishes stamped payloads, receives them back through subscriptions, settles every
  delivery and keeps counters (worker/worker.go); a sequence tracker per worker
  (tracker/tracker.go) derives loss, duplicates and reordering from the received sequence
  numbers. The engine (engine/engine.go) starts the workers, resets their counters after the
  warm-up, stops them, waits until the counts are quiet, takes snapshots and derives a verdict
  from the configured thresholds (engine/verdict.go). The program (main.go) loads the
  configuration, serves a control API over the engine (server/server.go, api/models.go), writes a
  report (report/report.go) and derives its exit code. Two commands remove left-over resources
  (cmd/cleanup) and check a broker once (cmd/verify). Fifteen example programs each create their
  own resources, exercise one feature of the connector, check the answers and delete the
  resources again.

  \<^bold>\<open>Theories and sources.\<close>
  \<^item> \<open>Prelude\<close>, \<open>Float64\<close>, \<open>GoStrings\<close>, \<open>GoTime\<close>, \<open>GoJson\<close>: the parts of Go that the sources use:
    64-bit words and wrapping integers, maps as association lists, IEEE binary64 with round to
    nearest even over rationals, the strconv and strings functions, durations and instants in
    nanoseconds, and the JSON reader and writer with their UTF-8 repair.
  \<^item> \<open>Bitset\<close>, \<open>Tracker\<close>: tracker/tracker.go. \<open>TrackerSpec\<close> holds the abstract tracker on sets of
    numbers, \<open>TrackerRuns\<close> the runs over whole delivery sequences and the claims.
  \<^item> \<open>Payload\<close>: payload/payload.go and worker/attrs.go, with CRC-32 as a polynomial remainder.
  \<^item> \<open>Config\<close>, \<open>ConfigLoad\<close>: config/config.go. \<open>Naming\<close>: the names of transport/resources.go.
  \<^item> \<open>Metrics\<close>: the latency accumulator, rate windows and counters of metrics/metrics.go.
    \<open>Registry\<close>: its registered vectors and InitMetrics, with the contract of a handler that logs
    only operations the registry accepts as a locale (\<open>logging_handler\<close>).
  \<^item> \<open>BaseWorker\<close>, \<open>WorkerLemmas\<close>: worker/worker.go.
  \<^item> \<open>Verdict\<close>: engine/verdict.go. \<open>Engine\<close>: the operations of engine/engine.go and
    engine/worker_group.go over any type of worker given by its operations (\<open>WorkerOps\<close>, the
    Go interface). \<open>EngineRun\<close>: the run loop and the API calls as interleaved steps (\<open>sysStep\<close>;
    \<open>orderly\<close> leaves out a start between the error of a failed run and its cleanup).
    \<open>Wiring\<close>: the loops of the worker groups, the periodic tasks and the logger.
  \<^item> \<open>Transport\<close>: transport/*.go, with the client library as function arguments. \<open>Clients\<close>: the
    constructors of the clients and the wrappers around single calls.
  \<^item> \<open>WorkerCore\<close>, \<open>Workers\<close>: the shared loops and the workers of worker/*.go.
    \<open>WorkerProps\<close> holds the contract of a settling handler as a locale, its interpretations for
    the workers and their lemmas, \<open>WorkerClaims\<close> the claims.
  \<^item> \<open>Streaming\<close>, \<open>Inflight\<close>, \<open>Seek\<close>, \<open>Schema\<close>: worker/streaming_pull.go, worker/inflight_cap.go,
    worker/seek_snapshot.go and worker/schema_enforce.go, each with its operations, its probes
    or rounds, and its claims. \<open>Producers\<close> runs several producers of one channel.
  \<^item> \<open>Report\<close>: report/report.go and the parts of main.go that read the engine for it.
    \<open>Output\<close>: the console report, the status and summary log records and the banner.
  \<^item> \<open>Control\<close>: api/models.go, server/server.go, the adapter of main.go and
    disconnect/disconnect.go. A request is a function of the engine that returns the new engine
    and the answer; \<open>handleRunStartAt\<close> separates the state the start handler read from the
    engine it starts, \<open>coreOps\<close> is the instance of the worker interface by embedding.
  \<^item> \<open>Commands\<close>: the start of main.go, cmd/cleanup/main.go and cmd/verify/main.go.
  \<^item> \<open>Samples\<close>: the vocabulary of src/examples/go. A program is a function of an \<open>env\<close> (what the
    broker answers, as a function of the requests made so far) that returns the requests made
    and a result or the failure that ended it. The locale \<open>sample\<close> is the contract between the
    body of a program and its deferred deletions. \<open>SampleTopics\<close> (topics, subscriptions),
    \<open>SampleDelivery\<close> (delivery) and \<open>SampleAdvanced\<close> (advanced, interop) hold the programs and
    what an exit with code 0 says, \<open>SampleClaims\<close> what holds of them together.

  \<^bold>\<open>State and effects.\<close> A struct is a record, a method a function that returns the changed
  record. A counter read or written atomically, and everything done under one mutex, is one step.
  Randomness, clocks, contexts and the answers of the client library are arguments: a produce or
  receive iteration takes a record of what it meets (\<open>pubIn\<close>, \<open>rcvIn\<close>), so a run is a list of
  such inputs and a theorem over all lists holds for every behaviour of broker, clock and
  scheduler at the granularity of one iteration. The two compare-and-swap loops of the base
  worker are modelled at the granularity of single atomic operations, with the values other
  goroutines write in between as an argument. A panic is the value \<open>Panic\<close> or \<open>None\<close>.

  \<^bold>\<open>Bounds and fuel.\<close> Only the JSON reader has fuel: \<open>readText\<close> gives it twice the length of the
  text and two, and \<open>readText_fuel\<close> proves that more never changes the result. Loops that run
  until their context is cancelled recurse over the list of their inputs, and the tracker's loop
  over the window is bounded by the window size. \<open>drainLoop\<close> recurses over the polls that fit
  before the deadline, and so do the loops of the example programs (\<open>eTurns\<close> is their number).

  \<^bold>\<open>What the lemmas show.\<close> The bitset tracker implements the set-based one, is exact inside its
  reorder window, its loss counter is the number of suspected losses, and over any sequence of
  calls its answers are those of the set-based tracker (\<open>TrackerRuns\<close>). A
  changed byte never passes the checksum, and the stamped attributes read back (\<open>Payload\<close>).
  Configuration overrides commute and validated fields are in range (\<open>ConfigLoad\<close>). The rate window
  is the sum of its buckets (\<open>Metrics\<close>). A run passes exactly when every worker is
  acceptable by a specification that does not mention the gates (\<open>acceptable\<close>), whatever the map
  order (\<open>Verdict\<close>). The engine invariant holds along all orderly interleavings, and the snapshot,
  drain and warm-up steps have their specified effect (\<open>EngineRun\<close>). Every delivery is settled once
  and counted, and each worker's own accounting is stated over the deliveries alone
  (\<open>WorkerClaims\<close>). The streaming loop and the verdict on its probes, all on one context, are exact
  (\<open>Streaming\<close>), held leases are conserved (\<open>Inflight\<close>), the drains of a seek round return exactly
  at the poll \<open>returnsAt\<close> specifies, with what was replayed (\<open>Seek\<close>), and a schema body reads back as it
  was written (\<open>Schema\<close>). The report agrees with the engine for numeric thresholds (\<open>Report\<close>), and the console
  shows a failed check exactly if the report failed (\<open>Output\<close>).
  Which requests move the engine, and how, is exact, and a start request runs exactly the overlay
  of its blocks on the startup configuration (\<open>Control\<close>). Cleanup asks for exactly the resources of its prefix, and
  verify exits with zero only if every check passed (\<open>Commands\<close>). No operation of a worker or of
  the engine makes the metrics client panic, and every series it uses is preset or one of the
  listed open ones (\<open>Registry\<close>). A client is dialled at its configured host whatever was built
  before it (\<open>Clients\<close>). An example program that exits with 0 has seen what it says it
  checked, and a resource it creates is deleted exactly then (\<open>SampleClaims\<close>). Some theorems show
  where the program does not do what it means to: losses recorded after the snapshot, a start that
  overtakes the clean-up of a failed run, a lease left behind, producers that share a counter,
  thresholds that are no numbers.

  \<^bold>\<open>Not modelled.\<close> The help texts and the HTTP exposition of the metrics, the rendering of log records and
  numbers, what the example programs print, writing the report file, flag parsing, the YAML reader
  and the decoding of JSON request bodies (the decoded value is the argument), the connections
  behind the clients and their closing, contexts and wait groups: the sources only call libraries
  there. A push request of the push-delivery program is decoded by an argument for the same
  reason.
\<close>

end
